(* ===== verification/Audio_Prelude.thy ===== *)
theory Audio_Prelude
  imports Complex_Main "HOL-Library.Word" "HOL-Library.Multiset"
begin

unbundle bit_operations_syntax

text \<open>
  Shared vocabulary of the development: the machine integers of the Rust code as words of
  their width, saturating arithmetic, little-endian byte strings (\<open>to_le_bytes\<close> /
  \<open>from_le_bytes\<close>), slices, ceiling division, and two interfaces that several components
  implement: a \<^emph>\<open>guarded machine\<close> (a step that may refuse) with an invariant, and a
  \<^emph>\<open>strict codec\<close> (a decoder that accepts exactly the encodings of well-formed values).
\<close>

section \<open>Machine integers\<close>

type_synonym u8 = "8 word"
type_synonym u16 = "16 word"
type_synonym u32 = "32 word"
type_synonym u64 = "64 word"
type_synonym uuid = "128 word"

named_theorems wire_simps "facts that evaluate encoders and decoders"
named_theorems step_defs "definitions of the operations of a state machine"

definition sat_sub :: "'a::len word \<Rightarrow> 'a word \<Rightarrow> 'a word" where
  "sat_sub a b = (if a < b then 0 else a - b)"

definition sat_add :: "'a::len word \<Rightarrow> 'a word \<Rightarrow> 'a word" where
  "sat_add a b = (if unat a + unat b < 2 ^ LENGTH('a) then a + b else - 1)"

lemma unat_sat_sub: "unat (sat_sub a b) = unat a - unat b"
  by (simp add: sat_sub_def word_less_nat_alt unat_sub word_le_nat_alt)

lemma unat_sat_add:
  "unat (sat_add a b) = min (unat a + unat b) (2 ^ LENGTH('a) - 1)"
  for a b :: "'a::len word"
proof -
  have m1: "unat (- 1 :: 'a word) = 2 ^ LENGTH('a) - 1"
    by (simp add: unsigned_minus_1_eq_mask mask_eq_exp_minus_1)
  show ?thesis
  proof (cases "unat a + unat b < 2 ^ LENGTH('a)")
    case True
    then show ?thesis by (simp add: sat_add_def unat_word_ariths)
  next
    case False
    then show ?thesis by (simp add: sat_add_def m1)
  qed
qed

lemma sat_add_mono: "a \<le> sat_add a b" for a b :: "'a::len word"
proof -
  have "unat a < 2 ^ LENGTH('a)" by simp
  then have "unat a \<le> unat (sat_add a b)" unfolding unat_sat_add by linarith
  then show ?thesis by (simp add: word_le_nat_alt)
qed

lemma unat_u16_less: "unat w < 65536" for w :: u16
  using unsigned_less [of w, where ?'a = nat] by simp

section \<open>Weighted means\<close>

lemma convex_in: "0 \<le> a \<Longrightarrow> a \<le> 1 \<Longrightarrow> l \<le> x \<Longrightarrow> x \<le> h \<Longrightarrow> l \<le> y \<Longrightarrow> y \<le> h
  \<Longrightarrow> l \<le> (1 - a) * x + a * y \<and> (1 - a) * x + a * y \<le> (h :: real)"
proof -
  assume a: "0 \<le> a" "a \<le> 1" and x: "l \<le> x" "x \<le> h" and y: "l \<le> y" "y \<le> h"
  have "(1 - a) * l \<le> (1 - a) * x" "a * l \<le> a * y" "(1 - a) * x \<le> (1 - a) * h" "a * y \<le> a * h"
    using a x y by (simp_all add: mult_left_mono)
  then show ?thesis by (simp add: algebra_simps)
qed

section \<open>Byte strings\<close>

definition slice :: "'a list \<Rightarrow> nat \<Rightarrow> nat \<Rightarrow> 'a list" where
  "slice xs i j = take (j - i) (drop i xs)"

fun le_bytes :: "nat \<Rightarrow> 'a::len word \<Rightarrow> u8 list" where
  "le_bytes 0 w = []"
| "le_bytes (Suc n) w = ucast w # le_bytes n (drop_bit 8 w)"

fun le_word :: "u8 list \<Rightarrow> 'a::len word" where
  "le_word [] = 0"
| "le_word (b # bs) = ucast b OR push_bit 8 (le_word bs)"

definition be_bytes :: "nat \<Rightarrow> 'a::len word \<Rightarrow> u8 list" where
  "be_bytes n w = rev (le_bytes n w)"

definition be_word :: "u8 list \<Rightarrow> 'a::len word" where
  "be_word bs = le_word (rev bs)"

lemma length_le_bytes [simp, wire_simps]: "length (le_bytes n w) = n"
  by (induction n arbitrary: w) auto

lemma length_be_bytes [simp, wire_simps]: "length (be_bytes n w) = n"
  by (simp add: be_bytes_def)

lemma length_slice [simp]: "length (slice xs i j) = min (j - i) (length xs - i)"
  by (simp add: slice_def)

lemma bit_le_word_le_bytes:
  "bit (le_word (le_bytes n w) :: 'a::len word) i \<longleftrightarrow> i < 8 * n \<and> bit w i" for w :: "'a::len word"
proof (induction n arbitrary: w i)
  case 0
  show ?case by simp
next
  case (Suc n)
  show ?case
  proof (cases "i < 8")
    case True
    then show ?thesis by (auto simp: bit_simps dest: bit_imp_le_length)
  next
    case False
    then show ?thesis
      using Suc.IH [of "drop_bit 8 w" "i - 8"]
      by (auto simp: bit_simps dest: bit_imp_le_length)
  qed
qed

lemma le_word_le_bytes:
  "8 * n = LENGTH('a) \<Longrightarrow> le_word (le_bytes n w) = w" for w :: "'a::len word"
  by (rule bit_word_eqI) (simp add: bit_le_word_le_bytes)

lemma le_word_u16 [simp, wire_simps]: "le_word (le_bytes 2 w) = w" for w :: u16
  by (rule le_word_le_bytes) simp

lemma le_word_u32 [simp, wire_simps]: "le_word (le_bytes 4 w) = w" for w :: u32
  by (rule le_word_le_bytes) simp

lemma le_word_u64 [simp, wire_simps]: "le_word (le_bytes 8 w) = w" for w :: u64
  by (rule le_word_le_bytes) simp

lemma le_bytes_le_word:
  "length bs = n \<Longrightarrow> 8 * n \<le> LENGTH('a) \<Longrightarrow> le_bytes n (le_word bs :: 'a::len word) = bs"
proof (induction bs arbitrary: n)
  case Nil
  then show ?case by simp
next
  case (Cons b bs)
  then obtain m where n: "n = Suc m" and m: "length bs = m" by (cases n) auto
  have w8: "8 \<le> LENGTH('a)" using Cons.prems n by simp
  have low: "ucast (le_word (b # bs) :: 'a word) = b"
    using w8 by (intro bit_word_eqI) (auto simp: bit_simps)
  have high: "le_bytes m (drop_bit 8 (le_word (b # bs) :: 'a word)) = le_bytes m (le_word bs :: 'a word)"
  proof -
    have agree: "\<And>k. k < 8 * m \<Longrightarrow>
        bit (drop_bit 8 (le_word (b # bs) :: 'a word)) k = bit (le_word bs :: 'a word) k"
      using Cons.prems n by (auto simp: bit_simps dest: bit_imp_le_length)
    have "\<And>u v :: 'a word. (\<And>k. k < 8 * m \<Longrightarrow> bit u k = bit v k) \<Longrightarrow> le_bytes m u = le_bytes m v"
    proof (induction m)
      case 0
      show ?case by simp
    next
      case (Suc m)
      have "ucast u = (ucast v :: u8)"
        using Suc.prems by (intro bit_word_eqI) (auto simp: bit_simps)
      moreover have "le_bytes m (drop_bit 8 u) = le_bytes m (drop_bit 8 v)"
        using Suc.prems by (intro Suc.IH) (auto simp: bit_simps)
      ultimately show ?case by simp
    qed
    with agree show ?thesis by blast
  qed
  have "le_bytes m (le_word bs :: 'a word) = bs"
    using m Cons.prems n by (intro Cons.IH) auto
  with n low high show ?case by simp
qed

lemma le_bytes_le_word_u16: "length bs = 2 \<Longrightarrow> le_bytes 2 (le_word bs :: u16) = bs"
  by (rule le_bytes_le_word) auto

lemma le_bytes_le_word_u32: "length bs = 4 \<Longrightarrow> le_bytes 4 (le_word bs :: u32) = bs"
  by (rule le_bytes_le_word) auto

lemma le_bytes_le_word_u64: "length bs = 8 \<Longrightarrow> le_bytes 8 (le_word bs :: u64) = bs"
  by (rule le_bytes_le_word) auto

text \<open>Cutting a list at increasing positions and gluing the slices back.\<close>

lemma slice_append_slice:
  "i \<le> j \<Longrightarrow> j \<le> k \<Longrightarrow> slice xs i j @ slice xs j k = slice xs i k"
proof -
  assume "i \<le> j" "j \<le> k"
  have "take (k - i) (drop i xs) = take (j - i) (drop i xs) @ take (k - j) (drop (j - i) (drop i xs))"
    by (metis \<open>i \<le> j\<close> \<open>j \<le> k\<close> add.commute diff_add_assoc2 le_add_diff_inverse2 take_add)
  with \<open>i \<le> j\<close> show ?thesis by (simp add: slice_def)
qed

lemma slice_append_slice_rest:
  "i \<le> j \<Longrightarrow> j \<le> k \<Longrightarrow> slice xs i j @ slice xs j k @ r = slice xs i k @ r"
  by (metis append_assoc slice_append_slice)

lemmas slice_glue = slice_append_slice slice_append_slice_rest

lemma slice_all [simp]: "length xs \<le> j \<Longrightarrow> slice xs 0 j = xs"
  by (simp add: slice_def)

lemma slice_single: "i < length xs \<Longrightarrow> slice xs i (Suc i) = [xs ! i]"
  by (simp add: slice_def take_Suc_conv_app_nth)

section \<open>Ceiling division and chunks\<close>

definition div_ceil :: "nat \<Rightarrow> nat \<Rightarrow> nat" where
  "div_ceil a b = (a + b - 1) div b"

lemma div_ceil_le_iff:
  assumes "0 < b"
  shows "div_ceil a b \<le> n \<longleftrightarrow> a \<le> n * b"
proof -
  have "div_ceil a b \<le> n \<longleftrightarrow> (a + b - 1) div b < Suc n"
    by (simp add: div_ceil_def less_Suc_eq_le)
  also have "\<dots> \<longleftrightarrow> a + b - 1 < Suc n * b"
    using assms by (rule div_less_iff_less_mult)
  also have "\<dots> \<longleftrightarrow> a \<le> n * b"
    using assms by auto
  finally show ?thesis .
qed

lemma concat_slices:
  "concat (map (\<lambda>i. slice xs (i * m) (min ((i + 1) * m) (length xs))) [0 ..< n]) = take (n * m) xs"
proof (induction n)
  case (Suc n)
  have "slice xs (n * m) (min ((n + 1) * m) (length xs)) = take m (drop (n * m) xs)"
    by (auto simp: slice_def min_def not_le)
  with Suc show ?case by (simp add: add.commute [of m] take_add)
qed simp

section \<open>Interfaces shared by the components\<close>

subsection \<open>Machines that may refuse a step\<close>

text \<open>
  Many components are a state and operations that either change it or refuse. \<open>run_ops\<close>
  stops at the first refusal, as \<open>?\<close> does; \<open>run_skip\<close> goes on with the state unchanged, as
  the callers that log the error and continue do.
\<close>

fun run_ops :: "('op \<Rightarrow> 's \<Rightarrow> 'e + 's) \<Rightarrow> 'op list \<Rightarrow> 's \<Rightarrow> 'e + 's" where
  "run_ops f [] s = Inr s"
| "run_ops f (x # xs) s = (case f x s of Inl e \<Rightarrow> Inl e | Inr t \<Rightarrow> run_ops f xs t)"

lemma run_ops_append:
  "run_ops step (xs @ ys) s = (case run_ops step xs s of Inl e \<Rightarrow> Inl e | Inr t \<Rightarrow> run_ops step ys t)"
  by (induction xs arbitrary: s) (auto split: sum.split)

fun run_skip :: "('op \<Rightarrow> 's \<Rightarrow> 'e + 's) \<Rightarrow> 'op list \<Rightarrow> 's \<Rightarrow> 's" where
  "run_skip f [] s = s"
| "run_skip f (x # xs) s = run_skip f xs (case f x s of Inl e \<Rightarrow> s | Inr t \<Rightarrow> t)"

locale guarded_machine =
  fixes step :: "'op \<Rightarrow> 's \<Rightarrow> 'e + 's"
    and inv :: "'s \<Rightarrow> bool"
  assumes step_inv: "inv s \<Longrightarrow> step x s = Inr t \<Longrightarrow> inv t"
begin

lemma run_ops_inv: "inv s \<Longrightarrow> run_ops step xs s = Inr t \<Longrightarrow> inv t"
  by (induction xs arbitrary: s) (auto split: sum.splits intro: step_inv)

lemma run_skip_inv: "inv s \<Longrightarrow> inv (run_skip step xs s)"
  by (induction xs arbitrary: s) (auto split: sum.splits intro: step_inv)

end

text \<open>A machine whose operations never refuse, run over a list of operations.\<close>

definition run_all :: "('op \<Rightarrow> 's \<Rightarrow> 's) \<Rightarrow> 'op list \<Rightarrow> 's \<Rightarrow> 's" where
  "run_all f xs s = fold f xs s"

lemma run_all_Nil [simp]: "run_all f [] s = s"
  by (simp add: run_all_def)

lemma run_all_snoc [simp]: "run_all f (xs @ [x]) s = f x (run_all f xs s)"
  by (simp add: run_all_def)

locale total_machine =
  fixes step :: "'op \<Rightarrow> 's \<Rightarrow> 's"
    and inv :: "'s \<Rightarrow> bool"
  assumes step_inv: "inv s \<Longrightarrow> inv (step x s)"
begin

lemma run_all_inv: "inv s \<Longrightarrow> inv (run_all step xs s)"
  unfolding run_all_def by (induction xs arbitrary: s) (auto intro: step_inv)

end

sublocale total_machine \<subseteq> as_guarded: guarded_machine "\<lambda>x s. Inr (step x s)" inv
  by unfold_locales (auto intro: step_inv)

subsection \<open>Strict codecs\<close>

text \<open>
  A codec is strict when the decoder accepts exactly the encodings of the well-formed values.
  Then the encoder is injective on them, and nothing else decodes.
\<close>

locale strict_codec =
  fixes encode :: "'p \<Rightarrow> u8 list"
    and decode :: "u8 list \<Rightarrow> 'e + 'p"
    and wf :: "'p \<Rightarrow> bool"
  assumes decode_encode: "wf p \<Longrightarrow> decode (encode p) = Inr p"
    and decode_wf: "decode bs = Inr p \<Longrightarrow> wf p"
    and encode_decode: "decode bs = Inr p \<Longrightarrow> encode p = bs"
begin

lemma decode_iff: "decode bs = Inr p \<longleftrightarrow> wf p \<and> bs = encode p"
  using decode_encode decode_wf encode_decode by auto

lemma encode_inj: "wf p \<Longrightarrow> wf q \<Longrightarrow> encode p = encode q \<Longrightarrow> p = q"
  by (metis decode_encode sum.inject(2))

lemma accepted_iff: "(\<exists>p. decode bs = Inr p) \<longleftrightarrow> bs \<in> encode ` {p. wf p}"
  by (auto simp: decode_iff)

lemma reject_other: "bs \<notin> encode ` {p. wf p} \<Longrightarrow> \<exists>e. decode bs = Inl e"
  using accepted_iff by (cases "decode bs") auto

end

end
