(* ===== verification/Audio_Domain.thy ===== *)
theory Audio_Domain
  imports Audio_Prelude
begin

text \<open>
  The domain crate, \<open>crates/lan_audio_domain/src/lib.rs\<close>: the enums the other crates share, the
  contract of each audio mode, the service snapshot, the release gate, and the connection state
  machine with its rollback state. The machine's operations are \<open>transition\<close>, \<open>fail\<close> and
  \<open>force_rollback\<close>; the lemmas give its invariant and the behaviour of every operation sequence.
\<close>

section \<open>Enums\<close>

datatype audio_mode = UltraLowLatency | LowLatency | Balanced | HighQuality

datatype audio_codec_preference = Pref_Pcm16 | Pref_Opus | Pref_Pcm24

datatype transport_type = Wifi | Usb

datatype data_plane_path = Path_LegacyLas1 | Path_V2Header | Path_UsbDirect

fun data_plane_path_as_str :: "data_plane_path \<Rightarrow> string" where
  "data_plane_path_as_str Path_LegacyLas1 = ''legacy_las1''"
| "data_plane_path_as_str Path_V2Header = ''v2_header''"
| "data_plane_path_as_str Path_UsbDirect = ''usb_direct''"

datatype late_policy = AggressiveDrop | BoundedDrop | Late_ContinuityFirst

datatype recovery_policy = FastResync | SmoothResync | Recovery_ContinuityFirst

datatype output_backend = FastPath | AudioTrack

section \<open>Mode contracts\<close>

record buffer_target_ms =
  bt_min :: u16
  bt_max :: u16

record playback_tuning =
  start_buffer_ms :: u16
  max_buffer_ms :: u16
  batch_frames :: u8
  drop_threshold_ms :: u16
  tuning_frame_duration_ms :: u16
  reset_buffer_on_switch :: bool

record ModeContract =
  mc_mode :: audio_mode
  mc_preferred_transport :: "transport_type list"
  mc_preferred_codec :: audio_codec_preference
  mc_target_buffer_ms :: buffer_target_ms
  mc_late_policy :: late_policy
  mc_recovery_policy :: recovery_policy
  output_backend_priority :: "output_backend list"
  mc_promise :: string
  mc_tuning :: playback_tuning

fun mode_contract :: "audio_mode \<Rightarrow> ModeContract" where
  "mode_contract UltraLowLatency =
     \<lparr>mc_mode = UltraLowLatency, mc_preferred_transport = [Usb, Wifi],
      mc_preferred_codec = Pref_Pcm16, mc_target_buffer_ms = \<lparr>bt_min = 5, bt_max = 20\<rparr>,
      mc_late_policy = AggressiveDrop, mc_recovery_policy = FastResync,
      output_backend_priority = [FastPath],
      mc_promise = ''ultra low latency, gaming/video sync'',
      mc_tuning = \<lparr>start_buffer_ms = 10, max_buffer_ms = 60, batch_frames = 1,
        drop_threshold_ms = 40, tuning_frame_duration_ms = 5, reset_buffer_on_switch = True\<rparr>\<rparr>"
| "mode_contract LowLatency =
     \<lparr>mc_mode = LowLatency, mc_preferred_transport = [Usb, Wifi],
      mc_preferred_codec = Pref_Opus, mc_target_buffer_ms = \<lparr>bt_min = 30, bt_max = 50\<rparr>,
      mc_late_policy = AggressiveDrop, mc_recovery_policy = FastResync,
      output_backend_priority = [FastPath, AudioTrack],
      mc_promise = ''latency first'',
      mc_tuning = \<lparr>start_buffer_ms = 40, max_buffer_ms = 180, batch_frames = 1,
        drop_threshold_ms = 140, tuning_frame_duration_ms = 10, reset_buffer_on_switch = True\<rparr>\<rparr>"
| "mode_contract Balanced =
     \<lparr>mc_mode = Balanced, mc_preferred_transport = [Usb, Wifi],
      mc_preferred_codec = Pref_Opus, mc_target_buffer_ms = \<lparr>bt_min = 60, bt_max = 90\<rparr>,
      mc_late_policy = BoundedDrop, mc_recovery_policy = SmoothResync,
      output_backend_priority = [AudioTrack, FastPath],
      mc_promise = ''latency/stability balance'',
      mc_tuning = \<lparr>start_buffer_ms = 60, max_buffer_ms = 300, batch_frames = 2,
        drop_threshold_ms = 220, tuning_frame_duration_ms = 10, reset_buffer_on_switch = True\<rparr>\<rparr>"
| "mode_contract HighQuality =
     \<lparr>mc_mode = HighQuality, mc_preferred_transport = [Usb, Wifi],
      mc_preferred_codec = Pref_Opus, mc_target_buffer_ms = \<lparr>bt_min = 100, bt_max = 150\<rparr>,
      mc_late_policy = Late_ContinuityFirst, mc_recovery_policy = Recovery_ContinuityFirst,
      output_backend_priority = [AudioTrack, FastPath],
      mc_promise = ''quality/stability first'',
      mc_tuning = \<lparr>start_buffer_ms = 140, max_buffer_ms = 500, batch_frames = 3,
        drop_threshold_ms = 420, tuning_frame_duration_ms = 10, reset_buffer_on_switch = False\<rparr>\<rparr>"

section \<open>Connection states\<close>

datatype connection_state =
  Disconnected | Handshaking | Negotiated | Streaming | Reconfiguring | Recovering | Closed

datatype rollback_state =
  MainPathActive | ReconfiguringToLegacyLas1Pcm16 | ForcedLegacyLas1Pcm16

datatype failure_code =
    BuildFmt | BuildCheck | BuildTest | FlutterAnalyze | FlutterTest | GradleBuild
  | DeviceNotFound | AdbUnauthorized | UsbTetheringUnavailable | HandshakeTimeout
  | NegotiationMismatch | CodecInitFail | JitterGrowth | LatePacketStorm | AudioSinkUnderrun
  | BackgroundKilled | AudioFocusLost | ReconnectLoop | MetricsSchemaDrift | ReleaseGateBlocked

section \<open>Service snapshot and release gate\<close>

record service_metrics_snapshot =
  buffered_ms :: u32
  underrun :: u64
  late_packets :: u64
  dropped_packets :: u64
  rtt_ms :: u32
  reconnect_count :: u64
  decode_errors :: u64
  sink_write_gap_ms_p95 :: u32

definition service_metrics_default :: service_metrics_snapshot where
  "service_metrics_default =
     \<lparr>buffered_ms = 0, underrun = 0, late_packets = 0, dropped_packets = 0, rtt_ms = 0,
      reconnect_count = 0, decode_errors = 0, sink_write_gap_ms_p95 = 0\<rparr>"

text \<open>\<open>last_error\<close> holds a JSON value of the third-party crate serde\_json: a type parameter.\<close>

record 'json service_snapshot =
  ss_transport :: transport_type
  ss_mode :: audio_mode
  ss_data_plane :: data_plane_path
  ss_active_data_plane :: data_plane_path
  ss_rollback_available :: bool
  ss_codec :: audio_codec_preference
  ss_effective_codec :: audio_codec_preference
  ss_state :: connection_state
  ss_rollback_state :: rollback_state
  ss_metrics :: service_metrics_snapshot
  ss_last_error :: "'json option"

definition service_snapshot_empty :: "'json service_snapshot" where
  "service_snapshot_empty =
     \<lparr>ss_transport = Wifi, ss_mode = Balanced, ss_data_plane = Path_LegacyLas1,
      ss_active_data_plane = Path_LegacyLas1, ss_rollback_available = True,
      ss_codec = Pref_Pcm16, ss_effective_codec = Pref_Pcm16, ss_state = Disconnected,
      ss_rollback_state = MainPathActive, ss_metrics = service_metrics_default,
      ss_last_error = None\<rparr>"

datatype release_decision = AllowRelease | ContinueFixing

record effective_config_summary =
  ecs_transport :: transport_type
  ecs_mode :: audio_mode
  ecs_data_plane :: data_plane_path
  ecs_codec :: audio_codec_preference
  ecs_effective_codec :: audio_codec_preference
  ecs_rollback_state :: rollback_state

record release_gate =
  contract_version :: u8
  release_decision :: release_decision
  current_main_path :: effective_config_summary
  rollback_path :: effective_config_summary
  validate_local_passed :: bool
  rewrite_validate_passed :: bool
  device_acceptance_passed :: bool
  acceptance_json_present :: bool
  rollback_verified :: bool
  android_release_apk_present :: bool
  windows_exe_present :: bool
  known_blockers :: u32
  critical_bugs :: u32
  blocking_failure_codes :: "failure_code list"

definition release_gate_blocked :: release_gate where
  "release_gate_blocked =
     \<lparr>contract_version = 1, release_decision = ContinueFixing,
      current_main_path = \<lparr>ecs_transport = Wifi, ecs_mode = Balanced,
        ecs_data_plane = Path_V2Header, ecs_codec = Pref_Opus, ecs_effective_codec = Pref_Opus,
        ecs_rollback_state = MainPathActive\<rparr>,
      rollback_path = \<lparr>ecs_transport = Wifi, ecs_mode = Balanced,
        ecs_data_plane = Path_LegacyLas1, ecs_codec = Pref_Pcm16,
        ecs_effective_codec = Pref_Pcm16, ecs_rollback_state = ForcedLegacyLas1Pcm16\<rparr>,
      validate_local_passed = False, rewrite_validate_passed = False,
      device_acceptance_passed = False, acceptance_json_present = False,
      rollback_verified = False, android_release_apk_present = False,
      windows_exe_present = False, known_blockers = 1, critical_bugs = 0,
      blocking_failure_codes = [ReleaseGateBlocked]\<rparr>"

definition allows_release :: "release_gate \<Rightarrow> bool" where
  "allows_release g \<longleftrightarrow>
     release_decision g = AllowRelease
     \<and> validate_local_passed g \<and> rewrite_validate_passed g \<and> device_acceptance_passed g
     \<and> acceptance_json_present g \<and> rollback_verified g \<and> android_release_apk_present g
     \<and> windows_exe_present g \<and> known_blockers g = 0 \<and> critical_bugs g = 0
     \<and> blocking_failure_codes g = []"

section \<open>The connection state machine\<close>

record connection_state_machine =
  csm_state :: connection_state
  csm_rollback_state :: rollback_state
  csm_failure_code :: "failure_code option"

definition csm_default :: connection_state_machine where
  "csm_default = \<lparr>csm_state = Disconnected, csm_rollback_state = MainPathActive,
     csm_failure_code = None\<rparr>"

datatype transition_error =
    Transition_Invalid connection_state connection_state
  | InvalidFailureTarget connection_state connection_state

fun is_allowed_transition :: "connection_state \<Rightarrow> connection_state \<Rightarrow> bool" where
  "is_allowed_transition Disconnected to = (to \<in> {Handshaking, Closed})"
| "is_allowed_transition Handshaking to = (to \<in> {Negotiated, Recovering, Closed})"
| "is_allowed_transition Negotiated to =
     (to \<in> {Streaming, Reconfiguring, Recovering, Closed})"
| "is_allowed_transition Streaming to = (to \<in> {Reconfiguring, Recovering, Closed})"
| "is_allowed_transition Reconfiguring to =
     (to \<in> {Negotiated, Streaming, Recovering, Closed})"
| "is_allowed_transition Recovering to =
     (to \<in> {Handshaking, Negotiated, Streaming, Closed})"
| "is_allowed_transition Closed to = False"

definition csm_transition ::
  "connection_state \<Rightarrow> connection_state_machine
   \<Rightarrow> transition_error + connection_state_machine" where
  "csm_transition next m =
     (if \<not> is_allowed_transition (csm_state m) next
      then Inl (Transition_Invalid (csm_state m) next)
      else let m = m\<lparr>csm_state := next, csm_failure_code := None\<rparr> in
           if csm_rollback_state m = ReconfiguringToLegacyLas1Pcm16
              \<and> next \<in> {Negotiated, Streaming}
           then Inr (m\<lparr>csm_rollback_state := ForcedLegacyLas1Pcm16\<rparr>)
           else Inr m)"

definition csm_fail ::
  "connection_state \<Rightarrow> failure_code \<Rightarrow> connection_state_machine
   \<Rightarrow> transition_error + connection_state_machine" where
  "csm_fail next code m =
     (if next \<notin> {Recovering, Closed} then Inl (InvalidFailureTarget (csm_state m) next)
      else if \<not> is_allowed_transition (csm_state m) next
      then Inl (Transition_Invalid (csm_state m) next)
      else Inr (m\<lparr>csm_state := next, csm_failure_code := Some code\<rparr>))"

definition csm_force_rollback ::
  "connection_state_machine \<Rightarrow> transition_error + connection_state_machine" where
  "csm_force_rollback m =
     (if csm_state m = Closed then Inl (Transition_Invalid (csm_state m) Handshaking)
      else Inr (m\<lparr>csm_rollback_state := ReconfiguringToLegacyLas1Pcm16,
                  csm_failure_code := None, csm_state := Handshaking\<rparr>))"

text \<open>The three operations as one step, and the states they can reach.\<close>

datatype csm_op = Op_Transition connection_state | Op_Fail connection_state failure_code
  | Op_ForceRollback

fun csm_step ::
  "csm_op \<Rightarrow> connection_state_machine \<Rightarrow> transition_error + connection_state_machine" where
  "csm_step (Op_Transition next) = csm_transition next"
| "csm_step (Op_Fail next code) = csm_fail next code"
| "csm_step Op_ForceRollback = csm_force_rollback"

inductive csm_reachable :: "connection_state_machine \<Rightarrow> bool" where
  csm_init: "csm_reachable csm_default"
| csm_more: "csm_reachable m \<Longrightarrow> csm_step x m = Inr n \<Longrightarrow> csm_reachable n"

inductive_cases csm_reachableE: "csm_reachable m"

lemmas csm_ops [step_defs] = csm_transition_def csm_fail_def csm_force_rollback_def

definition csm_inv :: "connection_state_machine \<Rightarrow> bool" where
  "csm_inv m \<longleftrightarrow>
     (csm_failure_code m \<noteq> None \<longrightarrow> csm_state m \<in> {Recovering, Closed})
     \<and> (csm_rollback_state m = ReconfiguringToLegacyLas1Pcm16
          \<longrightarrow> csm_state m \<in> {Handshaking, Recovering, Closed})"

lemma allowed_to_pending:
  "is_allowed_transition a b \<Longrightarrow> a \<in> {Handshaking, Recovering, Closed}
   \<Longrightarrow> b \<in> {Handshaking, Negotiated, Streaming, Recovering, Closed}"
  by (cases a) auto

lemma csm_step_inv: "csm_inv m \<Longrightarrow> csm_step x m = Inr n \<Longrightarrow> csm_inv n"
  by (cases x) (auto simp: csm_inv_def csm_ops Let_def split: if_splits
      dest: allowed_to_pending)

interpretation csm: guarded_machine csm_step csm_inv
  by unfold_locales (rule csm_step_inv)

lemma csm_reachable_inv: "csm_reachable m \<Longrightarrow> csm_inv m"
proof (induction rule: csm_reachable.induct)
  case csm_init
  show ?case by (simp add: csm_inv_def csm_default_def)
next
  case (csm_more m x n)
  then show ?case by (blast intro: csm_step_inv)
qed

text \<open>Once a rollback was asked for, the main path is never active again.\<close>

definition csm_rolled_back :: "connection_state_machine \<Rightarrow> bool" where
  "csm_rolled_back m \<longleftrightarrow> csm_inv m \<and> csm_rollback_state m \<noteq> MainPathActive"

interpretation csm_rb: guarded_machine csm_step csm_rolled_back
proof
  fix m x n
  assume "csm_rolled_back m" "csm_step x m = Inr n"
  then show "csm_rolled_back n"
    using csm_step_inv [of m x n]
    by (cases x) (auto simp: csm_rolled_back_def csm_ops Let_def split: if_splits)
qed

lemma csm_closed_stuck: "csm_state m = Closed \<Longrightarrow> run_skip csm_step xs m = m"
proof (induction xs)
  case (Cons x xs)
  then have "csm_step x m = Inl e \<or> (\<exists>e. csm_step x m = Inl e)" for e
    by (cases x) (auto simp: csm_ops)
  with Cons show ?case by (auto split: sum.splits)
qed simp

section \<open>Properties\<close>

text \<open>
  C34: the invariant of every reachable connection state machine. A failure code is only ever
  visible in Recovering and Closed, and a rollback still in progress means the connection is in
  Handshaking, Recovering or Closed: Negotiated and Streaming always run on a settled path.
\<close>
theorem csm_reachable_invariant:
  assumes "csm_reachable m"
  shows "(csm_failure_code m \<noteq> None \<longrightarrow> csm_state m \<in> {Recovering, Closed})
    \<and> (csm_state m \<in> {Negotiated, Streaming, Reconfiguring}
        \<longrightarrow> csm_rollback_state m \<in> {MainPathActive, ForcedLegacyLas1Pcm16})"
  using csm_reachable_inv [OF assms] by (cases "csm_rollback_state m") (auto simp: csm_inv_def)

theorem csm_reachable_invariant_witness:
  "let m = \<lparr>csm_state = Negotiated, csm_rollback_state = ForcedLegacyLas1Pcm16,
     csm_failure_code = None\<rparr>
   in csm_rollback_state m \<in> {MainPathActive, ForcedLegacyLas1Pcm16}"
proof -
  let ?h = "\<lparr>csm_state = Handshaking, csm_rollback_state = ReconfiguringToLegacyLas1Pcm16,
     csm_failure_code = None\<rparr>"
  let ?m = "\<lparr>csm_state = Negotiated, csm_rollback_state = ForcedLegacyLas1Pcm16,
     csm_failure_code = None\<rparr>"
  have "csm_step Op_ForceRollback csm_default = Inr ?h"
    by (simp add: csm_ops csm_default_def)
  then have "csm_reachable ?h" using csm_init csm_more by blast
  moreover have "csm_step (Op_Transition Negotiated) ?h = Inr ?m"
    by (simp add: csm_ops)
  ultimately have "csm_reachable ?m" using csm_more by blast
  then show ?thesis using csm_reachable_invariant [of ?m] by simp
qed

text \<open>
  A forced rollback sticks. After \<open>force_rollback\<close> succeeded, whatever operations follow
  (refused ones are skipped, as the callers that log and continue do), the machine never
  reports the main path again, and whenever it is Negotiated, Streaming or Reconfiguring the
  rollback state is \<open>ForcedLegacyLas1Pcm16\<close>.
\<close>
theorem csm_forced_rollback_sticks:
  assumes "csm_force_rollback m = Inr n"
  shows "csm_rollback_state (run_skip csm_step xs n) \<noteq> MainPathActive
    \<and> (csm_state (run_skip csm_step xs n) \<in> {Negotiated, Streaming, Reconfiguring}
        \<longrightarrow> csm_rollback_state (run_skip csm_step xs n) = ForcedLegacyLas1Pcm16)"
proof -
  have "csm_rolled_back n"
    using assms by (auto simp: csm_ops csm_rolled_back_def csm_inv_def split: if_splits)
  then have "csm_rolled_back (run_skip csm_step xs n)" by (rule csm_rb.run_skip_inv)
  then show ?thesis
    by (cases "csm_rollback_state (run_skip csm_step xs n)")
      (auto simp: csm_rolled_back_def csm_inv_def)
qed

theorem csm_forced_rollback_sticks_witness:
  "csm_rollback_state (run_skip csm_step
     [Op_Transition Streaming, Op_Fail Recovering JitterGrowth, Op_Transition Streaming]
     (csm_default\<lparr>csm_rollback_state := ReconfiguringToLegacyLas1Pcm16,
        csm_state := Handshaking\<rparr>)) = ForcedLegacyLas1Pcm16"
  using csm_forced_rollback_sticks [of csm_default
      "csm_default\<lparr>csm_rollback_state := ReconfiguringToLegacyLas1Pcm16,
        csm_state := Handshaking\<rparr>"
      "[Op_Transition Streaming, Op_Fail Recovering JitterGrowth, Op_Transition Streaming]"]
  by (simp add: csm_ops csm_default_def)

text \<open>
  Closed is terminal, and nothing else is: in Closed every operation is refused and changes
  nothing, while from every other state the machine can still be closed by \<open>transition\<close>, closed
  with a failure code by \<open>fail\<close>, and sent back to Handshaking by \<open>force_rollback\<close>.
\<close>
theorem csm_closed_terminal:
  "if csm_state m = Closed
   then (\<forall>x. \<exists>e. csm_step x m = Inl e) \<and> (\<forall>xs. run_skip csm_step xs m = m)
   else (\<exists>n. csm_transition Closed m = Inr n \<and> csm_state n = Closed \<and> csm_failure_code n = None)
     \<and> (\<exists>n. csm_fail Closed code m = Inr n \<and> csm_state n = Closed \<and> csm_failure_code n = Some code)
     \<and> (\<exists>n. csm_force_rollback m = Inr n \<and> csm_state n = Handshaking)"
proof (cases "csm_state m = Closed")
  case True
  have "\<exists>e. csm_step x m = Inl e" for x
    using True by (cases x) (auto simp: csm_ops)
  with True show ?thesis using csm_closed_stuck [of m] by simp
next
  case False
  then have "is_allowed_transition (csm_state m) Closed" by (cases "csm_state m") auto
  with False show ?thesis by (simp add: csm_ops Let_def)
qed

lemma release_gate_blocked_blocks: "\<not> allows_release release_gate_blocked"
  by (simp add: allows_release_def release_gate_blocked_def)

lemma mode_contract_thresholds:
  "let c = mode_contract mode; t = mc_tuning c in
     mc_mode c = mode \<and> bt_min (mc_target_buffer_ms c) < bt_max (mc_target_buffer_ms c)
     \<and> start_buffer_ms t < drop_threshold_ms t \<and> drop_threshold_ms t < max_buffer_ms t
     \<and> bt_min (mc_target_buffer_ms c) \<le> start_buffer_ms t
     \<and> start_buffer_ms t \<le> bt_max (mc_target_buffer_ms c)"
  by (cases mode) (auto simp: Let_def)

end
