(* ===== verification/Wire_Format.thy ===== *)
theory Wire_Format
  imports Audio_Prelude
begin

text \<open>
  The data-plane wire formats of \<open>crates/lan_audio_protocol/src/lib.rs\<close>: the legacy LAS1
  packet, the v2 header and packet, the fragmentable v3 header and packet. Encoders build byte
  lists in the field order of the source; decoders are the source's chain of checks, each
  failing check an error value. The lemmas make each format a \<open>strict_codec\<close>.
\<close>

section \<open>Constants\<close>

definition PROTOCOL_VERSION_V2 :: u8 where "PROTOCOL_VERSION_V2 = 2"
definition PROTOCOL_VERSION_V3 :: u8 where "PROTOCOL_VERSION_V3 = 3"

definition DISCOVERY_PORT :: u16 where "DISCOVERY_PORT = 39990"
definition WS_PORT :: u16 where "WS_PORT = 39991"
definition UDP_AUDIO_PORT :: u16 where "UDP_AUDIO_PORT = 39992"
definition REVERSE_TCP_PORT :: u16 where "REVERSE_TCP_PORT = 7878"
definition REVERSE_CONTROL_PORT :: u16 where "REVERSE_CONTROL_PORT = 7879"

definition AUDIO_MAGIC :: "u8 list" where \<comment> \<open>the bytes of LAS1\<close>
  "AUDIO_MAGIC = [0x4C, 0x41, 0x53, 0x31]"

definition AUDIO_HEADER_LEN :: nat where
  "AUDIO_HEADER_LEN = 4 + 1 + 1 + 4 + 8 + 4 + 1 + 2 + 2"

definition UDP_AUDIO_MAGIC_V2 :: "u8 list" where \<comment> \<open>the bytes of LAV2\<close>
  "UDP_AUDIO_MAGIC_V2 = [0x4C, 0x41, 0x56, 0x32]"

definition UDP_AUDIO_HEADER_V2_LEN :: nat where
  "UDP_AUDIO_HEADER_V2_LEN = 4 + 1 + 2 + 2 + 4 + 8 + 1 + 1 + 4 + 2 + 2 + 2"

definition UDP_AUDIO_MAGIC_V3 :: "u8 list" where
  "UDP_AUDIO_MAGIC_V3 = [0x4C, 0x41, 0x56, 0x32]"

definition UDP_AUDIO_HEADER_V3_LEN :: nat where
  "UDP_AUDIO_HEADER_V3_LEN = UDP_AUDIO_HEADER_V2_LEN + 4"

definition UDP_FLAG_V2_SILENCE :: u16 where "UDP_FLAG_V2_SILENCE = push_bit 0 1"
definition UDP_FLAG_V2_CONFIG_CHANGED :: u16 where "UDP_FLAG_V2_CONFIG_CHANGED = push_bit 1 1"
definition UDP_FLAG_V2_DISCONTINUITY :: u16 where "UDP_FLAG_V2_DISCONTINUITY = push_bit 2 1"

lemmas wire_consts [wire_simps] =
  PROTOCOL_VERSION_V2_def PROTOCOL_VERSION_V3_def AUDIO_MAGIC_def AUDIO_HEADER_LEN_def
  UDP_AUDIO_MAGIC_V2_def UDP_AUDIO_HEADER_V2_LEN_def UDP_AUDIO_MAGIC_V3_def
  UDP_AUDIO_HEADER_V3_LEN_def

lemmas flag_consts =
  UDP_FLAG_V2_SILENCE_def UDP_FLAG_V2_CONFIG_CHANGED_def UDP_FLAG_V2_DISCONTINUITY_def

section \<open>Data\<close>

datatype data_plane_packet_kind = LegacyLas1Kind | V2Lav2Kind | UnknownKind

datatype udp_audio_codec_v2 = Udp_Pcm16 | Udp_F32 | Udp_Opus | Udp_Pcm24

fun codec_as_u8 :: "udp_audio_codec_v2 \<Rightarrow> u8" where
  "codec_as_u8 Udp_Pcm16 = 1"
| "codec_as_u8 Udp_F32 = 2"
| "codec_as_u8 Udp_Opus = 3"
| "codec_as_u8 Udp_Pcm24 = 4"

definition codec_from_u8 :: "u8 \<Rightarrow> udp_audio_codec_v2 option" where
  "codec_from_u8 value =
     (if value = 1 then Some Udp_Pcm16
      else if value = 2 then Some Udp_F32
      else if value = 3 then Some Udp_Opus
      else if value = 4 then Some Udp_Pcm24
      else None)"

record udp_audio_header_v2 =
  v2_magic :: "u8 list"
  v2_protocol_version :: u8
  v2_header_size :: u16
  v2_flags :: u16
  v2_sequence :: u32
  v2_timestamp_ms :: u64
  v2_codec :: udp_audio_codec_v2
  v2_channels :: u8
  v2_sample_rate :: u32
  v2_frame_duration_ms :: u16
  v2_payload_size :: u16
  v2_reserved :: u16

record udp_audio_packet_v2 =
  v2_header :: udp_audio_header_v2
  v2_payload :: "u8 list"

record udp_audio_header_v3 =
  v3_magic :: "u8 list"
  v3_protocol_version :: u8
  v3_header_size :: u16
  v3_flags :: u16
  v3_sequence :: u32
  v3_timestamp_ms :: u64
  v3_codec :: udp_audio_codec_v2
  v3_channels :: u8
  v3_sample_rate :: u32
  v3_frame_duration_ms :: u16
  v3_payload_size :: u16
  v3_frag_index :: u8
  v3_total_frags :: u8
  v3_logical_seq :: u32

record udp_audio_packet_v3 =
  v3_header :: udp_audio_header_v3
  v3_payload :: "u8 list"

record udp_audio_packet =
  p_version :: u8
  p_flags :: u8
  p_sequence :: u32
  p_timestamp_ms :: u64
  p_sample_rate :: u32
  p_channels :: u8
  p_frames_per_packet :: u16
  p_payload :: "u8 list"

datatype packet_codec_error = Las1_TooShort | Las1_InvalidMagic | Las1_PayloadLengthMismatch

datatype header_v2_codec_error =
    V2_TooShort | V2_InvalidMagic | V2_UnsupportedVersion | V2_InvalidHeaderSize
  | V2_InvalidCodec | V2_PayloadLengthMismatch

datatype header_v3_codec_error =
    V3_TooShort | V3_InvalidMagic | V3_UnsupportedVersion | V3_InvalidHeaderSize
  | V3_InvalidCodec | V3_PayloadLengthMismatch | V3_InvalidFragHeader

lemma codec_from_as [simp, wire_simps]: "codec_from_u8 (codec_as_u8 c) = Some c"
  by (cases c) (simp_all add: codec_from_u8_def)

lemma codec_as_from: "codec_from_u8 b = Some c \<Longrightarrow> codec_as_u8 c = b"
  by (auto simp: codec_from_u8_def split: if_splits)

section \<open>The legacy LAS1 packet\<close>

definition encode_las1 :: "udp_audio_packet \<Rightarrow> u8 list" where
  "encode_las1 p =
     AUDIO_MAGIC
     @ [p_version p]
     @ [p_flags p]
     @ le_bytes 4 (p_sequence p)
     @ le_bytes 8 (p_timestamp_ms p)
     @ le_bytes 4 (p_sample_rate p)
     @ [p_channels p]
     @ le_bytes 2 (p_frames_per_packet p)
     @ le_bytes 2 (of_nat (length (p_payload p)) :: u16)
     @ p_payload p"

definition decode_las1 :: "u8 list \<Rightarrow> packet_codec_error + udp_audio_packet" where
  "decode_las1 bytes =
     (if length bytes < AUDIO_HEADER_LEN then Inl Las1_TooShort
      else if slice bytes 0 4 \<noteq> AUDIO_MAGIC then Inl Las1_InvalidMagic
      else let version = bytes ! 4;
               flags = bytes ! 5;
               sequence = le_word (slice bytes 6 10);
               timestamp_ms = le_word (slice bytes 10 18);
               sample_rate = le_word (slice bytes 18 22);
               channels = bytes ! 22;
               frames_per_packet = le_word (slice bytes 23 25);
               payload_len = unat (le_word (slice bytes 25 27) :: u16)
           in if length bytes \<noteq> AUDIO_HEADER_LEN + payload_len
              then Inl Las1_PayloadLengthMismatch
              else Inr \<lparr>p_version = version, p_flags = flags, p_sequence = sequence,
                        p_timestamp_ms = timestamp_ms, p_sample_rate = sample_rate,
                        p_channels = channels, p_frames_per_packet = frames_per_packet,
                        p_payload = drop AUDIO_HEADER_LEN bytes\<rparr>)"

definition wf_las1 :: "udp_audio_packet \<Rightarrow> bool" where
  "wf_las1 p \<longleftrightarrow> length (p_payload p) < 2 ^ 16"

section \<open>The v2 header and packet\<close>

definition encode_header_v2 :: "udp_audio_header_v2 \<Rightarrow> u8 list" where
  "encode_header_v2 h =
     v2_magic h
     @ [v2_protocol_version h]
     @ le_bytes 2 (v2_header_size h)
     @ le_bytes 2 (v2_flags h)
     @ le_bytes 4 (v2_sequence h)
     @ le_bytes 8 (v2_timestamp_ms h)
     @ [codec_as_u8 (v2_codec h)]
     @ [v2_channels h]
     @ le_bytes 4 (v2_sample_rate h)
     @ le_bytes 2 (v2_frame_duration_ms h)
     @ le_bytes 2 (v2_payload_size h)
     @ le_bytes 2 (v2_reserved h)"

definition decode_header_v2 :: "u8 list \<Rightarrow> header_v2_codec_error + udp_audio_header_v2" where
  "decode_header_v2 bytes =
     (if length bytes < UDP_AUDIO_HEADER_V2_LEN then Inl V2_TooShort
      else let magic = [bytes ! 0, bytes ! 1, bytes ! 2, bytes ! 3] in
      if magic \<noteq> UDP_AUDIO_MAGIC_V2 then Inl V2_InvalidMagic
      else let protocol_version = bytes ! 4 in
      if protocol_version \<noteq> PROTOCOL_VERSION_V2 then Inl V2_UnsupportedVersion
      else let header_size = le_word (slice bytes 5 7) :: u16 in
      if unat header_size \<noteq> UDP_AUDIO_HEADER_V2_LEN then Inl V2_InvalidHeaderSize
      else let flags = le_word (slice bytes 7 9);
               sequence = le_word (slice bytes 9 13);
               timestamp_ms = le_word (slice bytes 13 21) in
      case codec_from_u8 (bytes ! 21) of None \<Rightarrow> Inl V2_InvalidCodec
      | Some codec \<Rightarrow>
          Inr \<lparr>v2_magic = magic, v2_protocol_version = protocol_version,
               v2_header_size = header_size, v2_flags = flags, v2_sequence = sequence,
               v2_timestamp_ms = timestamp_ms, v2_codec = codec,
               v2_channels = bytes ! 22,
               v2_sample_rate = le_word (slice bytes 23 27),
               v2_frame_duration_ms = le_word (slice bytes 27 29),
               v2_payload_size = le_word (slice bytes 29 31),
               v2_reserved = le_word (slice bytes 31 33)\<rparr>)"

definition encode_packet_v2 :: "udp_audio_packet_v2 \<Rightarrow> u8 list" where
  "encode_packet_v2 p =
     encode_header_v2 ((v2_header p)\<lparr>v2_payload_size := of_nat (length (v2_payload p))\<rparr>)
     @ v2_payload p"

definition decode_packet_v2 :: "u8 list \<Rightarrow> header_v2_codec_error + udp_audio_packet_v2" where
  "decode_packet_v2 bytes =
     (if length bytes < UDP_AUDIO_HEADER_V2_LEN then Inl V2_TooShort
      else case decode_header_v2 bytes of Inl e \<Rightarrow> Inl e
      | Inr header \<Rightarrow>
          let payload_end = UDP_AUDIO_HEADER_V2_LEN + unat (v2_payload_size header) in
          if length bytes \<noteq> payload_end then Inl V2_PayloadLengthMismatch
          else Inr \<lparr>v2_header = header,
                    v2_payload = slice bytes UDP_AUDIO_HEADER_V2_LEN payload_end\<rparr>)"

definition wf_header_v2 :: "udp_audio_header_v2 \<Rightarrow> bool" where
  "wf_header_v2 h \<longleftrightarrow>
     v2_magic h = UDP_AUDIO_MAGIC_V2 \<and> v2_protocol_version h = PROTOCOL_VERSION_V2
     \<and> unat (v2_header_size h) = UDP_AUDIO_HEADER_V2_LEN"

definition wf_packet_v2 :: "udp_audio_packet_v2 \<Rightarrow> bool" where
  "wf_packet_v2 p \<longleftrightarrow>
     wf_header_v2 (v2_header p) \<and> unat (v2_payload_size (v2_header p)) = length (v2_payload p)"

section \<open>The v3 header and packet\<close>

definition encode_header_v3 :: "udp_audio_header_v3 \<Rightarrow> u8 list" where
  "encode_header_v3 h =
     v3_magic h
     @ [v3_protocol_version h]
     @ le_bytes 2 (v3_header_size h)
     @ le_bytes 2 (v3_flags h)
     @ le_bytes 4 (v3_sequence h)
     @ le_bytes 8 (v3_timestamp_ms h)
     @ [codec_as_u8 (v3_codec h)]
     @ [v3_channels h]
     @ le_bytes 4 (v3_sample_rate h)
     @ le_bytes 2 (v3_frame_duration_ms h)
     @ le_bytes 2 (v3_payload_size h)
     @ [v3_frag_index h]
     @ [v3_total_frags h]
     @ le_bytes 4 (v3_logical_seq h)"

definition decode_header_v3 :: "u8 list \<Rightarrow> header_v3_codec_error + udp_audio_header_v3" where
  "decode_header_v3 bytes =
     (if length bytes < UDP_AUDIO_HEADER_V3_LEN then Inl V3_TooShort
      else let magic = [bytes ! 0, bytes ! 1, bytes ! 2, bytes ! 3] in
      if magic \<noteq> UDP_AUDIO_MAGIC_V3 then Inl V3_InvalidMagic
      else let protocol_version = bytes ! 4 in
      if protocol_version \<noteq> PROTOCOL_VERSION_V3 then Inl V3_UnsupportedVersion
      else let header_size = le_word (slice bytes 5 7) :: u16 in
      if unat header_size \<noteq> UDP_AUDIO_HEADER_V3_LEN then Inl V3_InvalidHeaderSize
      else let flags = le_word (slice bytes 7 9);
               sequence = le_word (slice bytes 9 13);
               timestamp_ms = le_word (slice bytes 13 21) in
      case codec_from_u8 (bytes ! 21) of None \<Rightarrow> Inl V3_InvalidCodec
      | Some codec \<Rightarrow>
          let frag_index = bytes ! 31; total_frags = bytes ! 32 in
          if total_frags = 0 \<or> total_frags \<le> frag_index then Inl V3_InvalidFragHeader
          else Inr \<lparr>v3_magic = magic, v3_protocol_version = protocol_version,
               v3_header_size = header_size, v3_flags = flags, v3_sequence = sequence,
               v3_timestamp_ms = timestamp_ms, v3_codec = codec,
               v3_channels = bytes ! 22,
               v3_sample_rate = le_word (slice bytes 23 27),
               v3_frame_duration_ms = le_word (slice bytes 27 29),
               v3_payload_size = le_word (slice bytes 29 31),
               v3_frag_index = frag_index, v3_total_frags = total_frags,
               v3_logical_seq = le_word (slice bytes 33 37)\<rparr>)"

definition encode_packet_v3 :: "udp_audio_packet_v3 \<Rightarrow> u8 list" where
  "encode_packet_v3 p =
     encode_header_v3 ((v3_header p)\<lparr>v3_payload_size := of_nat (length (v3_payload p))\<rparr>)
     @ v3_payload p"

definition decode_packet_v3 :: "u8 list \<Rightarrow> header_v3_codec_error + udp_audio_packet_v3" where
  "decode_packet_v3 bytes =
     (if length bytes < UDP_AUDIO_HEADER_V3_LEN then Inl V3_TooShort
      else case decode_header_v3 bytes of Inl e \<Rightarrow> Inl e
      | Inr header \<Rightarrow>
          let payload_end = UDP_AUDIO_HEADER_V3_LEN + unat (v3_payload_size header) in
          if length bytes \<noteq> payload_end then Inl V3_PayloadLengthMismatch
          else Inr \<lparr>v3_header = header,
                    v3_payload = slice bytes UDP_AUDIO_HEADER_V3_LEN payload_end\<rparr>)"

definition wf_header_v3 :: "udp_audio_header_v3 \<Rightarrow> bool" where
  "wf_header_v3 h \<longleftrightarrow>
     v3_magic h = UDP_AUDIO_MAGIC_V3 \<and> v3_protocol_version h = PROTOCOL_VERSION_V3
     \<and> unat (v3_header_size h) = UDP_AUDIO_HEADER_V3_LEN
     \<and> v3_frag_index h < v3_total_frags h"

definition wf_packet_v3 :: "udp_audio_packet_v3 \<Rightarrow> bool" where
  "wf_packet_v3 p \<longleftrightarrow>
     wf_header_v3 (v3_header p) \<and> unat (v3_payload_size (v3_header p)) = length (v3_payload p)"

section \<open>Telling the formats apart\<close>

definition detect_data_plane_packet_kind :: "u8 list \<Rightarrow> data_plane_packet_kind" where
  "detect_data_plane_packet_kind bytes =
     (if length bytes < 4 then UnknownKind
      else if slice bytes 0 4 = AUDIO_MAGIC then LegacyLas1Kind
      else if slice bytes 0 4 = UDP_AUDIO_MAGIC_V2 then V2Lav2Kind
      else UnknownKind)"

section \<open>The formats are strict codecs\<close>

lemma length_encode_las1 [simp]: "length (encode_las1 p) = AUDIO_HEADER_LEN + length (p_payload p)"
  by (simp add: encode_las1_def wire_simps)

lemma decode_encode_las1: "wf_las1 p \<Longrightarrow> decode_las1 (encode_las1 p) = Inr p"
  unfolding decode_las1_def Let_def
  by (simp add: encode_las1_def slice_def wf_las1_def nth_append take_bit_nat_eq_self
      unsigned_of_nat wire_simps)

lemma encode_decode_las1:
  assumes "decode_las1 bs = Inr p"
  shows "encode_las1 p = bs"
proof -
  have len: "length bs = 27 + unat (le_word (slice bs 25 27) :: u16)"
    and magic: "slice bs 0 4 = AUDIO_MAGIC"
    and p: "p = \<lparr>p_version = bs ! 4, p_flags = bs ! 5, p_sequence = le_word (slice bs 6 10),
        p_timestamp_ms = le_word (slice bs 10 18), p_sample_rate = le_word (slice bs 18 22),
        p_channels = bs ! 22, p_frames_per_packet = le_word (slice bs 23 25),
        p_payload = drop 27 bs\<rparr>"
    using assms by (auto simp: decode_las1_def Let_def AUDIO_HEADER_LEN_def split: if_splits)
  have "(of_nat (length bs - 27) :: u16) = le_word (slice bs 25 27)"
    using len by simp
  then have "encode_las1 p = slice bs 0 4 @ [bs ! 4] @ [bs ! 5] @ slice bs 6 10 @ slice bs 10 18
      @ slice bs 18 22 @ [bs ! 22] @ slice bs 23 25 @ slice bs 25 27 @ drop 27 bs"
    using len by (simp add: encode_las1_def p magic le_bytes_le_word_u16 le_bytes_le_word_u32
        le_bytes_le_word_u64)
  also have "\<dots> = slice bs 0 4 @ slice bs 4 5 @ slice bs 5 6 @ slice bs 6 10 @ slice bs 10 18
      @ slice bs 18 22 @ slice bs 22 23 @ slice bs 23 25 @ slice bs 25 27 @ drop 27 bs"
    using len slice_single [of 4 bs] slice_single [of 5 bs] slice_single [of 22 bs] by simp
  also have "\<dots> = slice bs 0 27 @ drop 27 bs"
    by (simp add: slice_glue)
  also have "\<dots> = bs" by (simp add: slice_def)
  finally show ?thesis .
qed

lemma decode_las1_wf: "decode_las1 bs = Inr p \<Longrightarrow> wf_las1 p"
  using unsigned_less [of "le_word (slice bs 25 27) :: u16"]
  by (auto simp: decode_las1_def wf_las1_def Let_def AUDIO_HEADER_LEN_def split: if_splits)

interpretation las1: strict_codec encode_las1 decode_las1 wf_las1
  by unfold_locales (auto intro: decode_encode_las1 encode_decode_las1 decode_las1_wf)

text \<open>The v2 header: 33 bytes, and the decoder reads back the fields it wrote.\<close>

lemma length_encode_header_v2:
  "length (v2_magic h) = 4 \<Longrightarrow> length (encode_header_v2 h) = UDP_AUDIO_HEADER_V2_LEN"
  by (simp add: encode_header_v2_def wire_simps)

lemma magic4: "length m = 4 \<Longrightarrow> [m ! 0, m ! 1, m ! 2, m ! 3] = m"
  by (rule nth_equalityI) (auto simp: nth_Cons' less_Suc_eq numeral_eq_Suc)

lemma decode_encode_header_v2:
  assumes "wf_header_v2 h"
  shows "decode_header_v2 (encode_header_v2 h @ rest) = Inr h"
proof -
  obtain a b c d e f g i j k l m where h: "h = \<lparr>v2_magic = a, v2_protocol_version = b,
      v2_header_size = c, v2_flags = d, v2_sequence = e, v2_timestamp_ms = f, v2_codec = g,
      v2_channels = i, v2_sample_rate = j, v2_frame_duration_ms = k, v2_payload_size = l,
      v2_reserved = m\<rparr>"
    by (cases h) blast
  show ?thesis
    using assms unfolding decode_header_v2_def Let_def
    by (simp add: h encode_header_v2_def slice_def wf_header_v2_def nth_append wire_simps)
qed

lemma decode_header_v2_wf: "decode_header_v2 bs = Inr h \<Longrightarrow> wf_header_v2 h"
  by (auto simp: decode_header_v2_def wf_header_v2_def Let_def split: if_splits option.splits)

lemma encode_decode_header_v2:
  assumes "decode_header_v2 bs = Inr h"
  shows "encode_header_v2 h = slice bs 0 33 \<and> 33 \<le> length bs"
proof -
  have len: "33 \<le> length bs"
    using assms by (auto simp: decode_header_v2_def wire_simps split: if_splits)
  obtain c where c: "codec_from_u8 (bs ! 21) = Some c"
    and h: "h = \<lparr>v2_magic = [bs ! 0, bs ! 1, bs ! 2, bs ! 3], v2_protocol_version = bs ! 4,
        v2_header_size = le_word (slice bs 5 7), v2_flags = le_word (slice bs 7 9),
        v2_sequence = le_word (slice bs 9 13), v2_timestamp_ms = le_word (slice bs 13 21),
        v2_codec = c, v2_channels = bs ! 22, v2_sample_rate = le_word (slice bs 23 27),
        v2_frame_duration_ms = le_word (slice bs 27 29),
        v2_payload_size = le_word (slice bs 29 31), v2_reserved = le_word (slice bs 31 33)\<rparr>"
    using assms by (auto simp: decode_header_v2_def Let_def split: if_splits option.splits)
  have m: "[bs ! 0, bs ! 1, bs ! 2, bs ! 3] = slice bs 0 4"
    using magic4 [of "slice bs 0 4"] len by (simp add: slice_def)
  have "encode_header_v2 h = slice bs 0 4 @ [bs ! 4] @ slice bs 5 7 @ slice bs 7 9 @ slice bs 9 13
      @ slice bs 13 21 @ [bs ! 21] @ [bs ! 22] @ slice bs 23 27 @ slice bs 27 29 @ slice bs 29 31
      @ slice bs 31 33"
    using len codec_as_from [OF c] by (simp only: encode_header_v2_def h udp_audio_header_v2.simps m)
      (simp add: le_bytes_le_word_u16 le_bytes_le_word_u32 le_bytes_le_word_u64)
  also have "\<dots> = slice bs 0 4 @ slice bs 4 5 @ slice bs 5 7 @ slice bs 7 9 @ slice bs 9 13
      @ slice bs 13 21 @ slice bs 21 22 @ slice bs 22 23 @ slice bs 23 27 @ slice bs 27 29
      @ slice bs 29 31 @ slice bs 31 33"
    using len slice_single [of 4 bs] slice_single [of 21 bs] slice_single [of 22 bs] by simp
  also have "\<dots> = slice bs 0 33"
    by (simp add: slice_glue)
  finally show ?thesis using len by simp
qed

lemma wf_header_v2_update [simp]: "wf_header_v2 (h\<lparr>v2_payload_size := n\<rparr>) = wf_header_v2 h"
  by (simp add: wf_header_v2_def)

lemma wf_packet_v2_size:
  "wf_packet_v2 p \<Longrightarrow>
   (v2_header p)\<lparr>v2_payload_size := of_nat (length (v2_payload p))\<rparr> = v2_header p"
proof -
  assume "wf_packet_v2 p"
  then have "length (v2_payload p) = unat (v2_payload_size (v2_header p))"
    by (simp add: wf_packet_v2_def)
  then show ?thesis by (cases "v2_header p") simp
qed

lemma length_encode_packet_v2:
  "wf_header_v2 (v2_header p) \<Longrightarrow>
   length (encode_packet_v2 p) = UDP_AUDIO_HEADER_V2_LEN + length (v2_payload p)"
  by (simp add: encode_packet_v2_def length_encode_header_v2 wf_header_v2_def UDP_AUDIO_MAGIC_V2_def)

text \<open>
  What the encoder does to any packet with a well-formed header and a payload that fits the
  16-bit length field: the size field is overwritten by the payload's length.
\<close>

lemma decode_encode_packet_v2:
  assumes "wf_header_v2 (v2_header p)" and "length (v2_payload p) < 2 ^ 16"
  shows "decode_packet_v2 (encode_packet_v2 p)
    = Inr (p\<lparr>v2_header := (v2_header p)\<lparr>v2_payload_size := of_nat (length (v2_payload p))\<rparr>\<rparr>)"
proof -
  have "length (encode_header_v2 ((v2_header p)\<lparr>v2_payload_size := of_nat (length (v2_payload p))\<rparr>)) = 33"
    using assms(1) by (subst length_encode_header_v2) (auto simp: wf_header_v2_def wire_simps)
  then show ?thesis
    using assms unfolding decode_packet_v2_def
    by (simp add: encode_packet_v2_def decode_encode_header_v2 slice_def Let_def wire_simps
        unsigned_of_nat take_bit_nat_eq_self)
qed

lemma decode_packet_v2_wf: "decode_packet_v2 bs = Inr p \<Longrightarrow> wf_packet_v2 p"
  by (auto simp: decode_packet_v2_def wf_packet_v2_def Let_def wire_simps
      split: if_splits sum.splits dest: decode_header_v2_wf)

lemma encode_decode_packet_v2:
  assumes "decode_packet_v2 bs = Inr p"
  shows "encode_packet_v2 p = bs"
proof -
  obtain h where h: "decode_header_v2 bs = Inr h"
    and len: "length bs = 33 + unat (v2_payload_size h)"
    and p: "p = \<lparr>v2_header = h, v2_payload = slice bs 33 (length bs)\<rparr>"
    using assms by (auto simp: decode_packet_v2_def Let_def wire_simps split: if_splits sum.splits)
  from decode_packet_v2_wf [OF assms] have "encode_packet_v2 p = encode_header_v2 h @ slice bs 33 (length bs)"
    using wf_packet_v2_size [of p] by (simp add: encode_packet_v2_def p)
  also have "\<dots> = slice bs 0 33 @ slice bs 33 (length bs)"
    using encode_decode_header_v2 [OF h] by simp
  also have "\<dots> = bs" using len by (simp add: slice_glue)
  finally show ?thesis .
qed

interpretation v2: strict_codec encode_packet_v2 decode_packet_v2 wf_packet_v2
proof
  fix p bs
  show "wf_packet_v2 p \<Longrightarrow> decode_packet_v2 (encode_packet_v2 p) = Inr p"
    using decode_encode_packet_v2 [of p] wf_packet_v2_size [of p]
      unat_u16_less [of "v2_payload_size (v2_header p)"]
    by (simp add: wf_packet_v2_def)
qed (auto intro: decode_packet_v2_wf encode_decode_packet_v2)

text \<open>The v3 header: the v2 layout with the fragment bytes and the logical sequence appended.\<close>

lemma length_encode_header_v3:
  "length (v3_magic h) = 4 \<Longrightarrow> length (encode_header_v3 h) = UDP_AUDIO_HEADER_V3_LEN"
  by (simp add: encode_header_v3_def wire_simps)

lemma decode_encode_header_v3:
  assumes "wf_header_v3 h"
  shows "decode_header_v3 (encode_header_v3 h @ rest) = Inr h"
proof -
  obtain a b c d e f g i j k l m n ls where h: "h = \<lparr>v3_magic = a, v3_protocol_version = b,
      v3_header_size = c, v3_flags = d, v3_sequence = e, v3_timestamp_ms = f, v3_codec = g,
      v3_channels = i, v3_sample_rate = j, v3_frame_duration_ms = k, v3_payload_size = l,
      v3_frag_index = m, v3_total_frags = n, v3_logical_seq = ls\<rparr>"
    by (cases h) blast
  have "n \<noteq> 0" and "\<not> n \<le> m"
    using assms by (auto simp: h wf_header_v3_def)
  then show ?thesis
    using assms unfolding decode_header_v3_def Let_def
    by (simp add: h encode_header_v3_def slice_def wf_header_v3_def nth_append wire_simps)
qed

lemma decode_header_v3_wf: "decode_header_v3 bs = Inr h \<Longrightarrow> wf_header_v3 h"
  by (auto simp: decode_header_v3_def wf_header_v3_def Let_def split: if_splits option.splits)

lemma encode_decode_header_v3:
  assumes "decode_header_v3 bs = Inr h"
  shows "encode_header_v3 h = slice bs 0 37 \<and> 37 \<le> length bs"
proof -
  have len: "37 \<le> length bs"
    using assms by (auto simp: decode_header_v3_def wire_simps split: if_splits)
  obtain c where c: "codec_from_u8 (bs ! 21) = Some c"
    and h: "h = \<lparr>v3_magic = [bs ! 0, bs ! 1, bs ! 2, bs ! 3], v3_protocol_version = bs ! 4,
        v3_header_size = le_word (slice bs 5 7), v3_flags = le_word (slice bs 7 9),
        v3_sequence = le_word (slice bs 9 13), v3_timestamp_ms = le_word (slice bs 13 21),
        v3_codec = c, v3_channels = bs ! 22, v3_sample_rate = le_word (slice bs 23 27),
        v3_frame_duration_ms = le_word (slice bs 27 29),
        v3_payload_size = le_word (slice bs 29 31), v3_frag_index = bs ! 31,
        v3_total_frags = bs ! 32, v3_logical_seq = le_word (slice bs 33 37)\<rparr>"
    using assms by (auto simp: decode_header_v3_def Let_def split: if_splits option.splits)
  have m: "[bs ! 0, bs ! 1, bs ! 2, bs ! 3] = slice bs 0 4"
    using magic4 [of "slice bs 0 4"] len by (simp add: slice_def)
  have "encode_header_v3 h = slice bs 0 4 @ [bs ! 4] @ slice bs 5 7 @ slice bs 7 9 @ slice bs 9 13
      @ slice bs 13 21 @ [bs ! 21] @ [bs ! 22] @ slice bs 23 27 @ slice bs 27 29 @ slice bs 29 31
      @ [bs ! 31] @ [bs ! 32] @ slice bs 33 37"
    using len codec_as_from [OF c] by (simp only: encode_header_v3_def h udp_audio_header_v3.simps m)
      (simp add: le_bytes_le_word_u16 le_bytes_le_word_u32 le_bytes_le_word_u64)
  also have "\<dots> = slice bs 0 4 @ slice bs 4 5 @ slice bs 5 7 @ slice bs 7 9 @ slice bs 9 13
      @ slice bs 13 21 @ slice bs 21 22 @ slice bs 22 23 @ slice bs 23 27 @ slice bs 27 29
      @ slice bs 29 31 @ slice bs 31 32 @ slice bs 32 33 @ slice bs 33 37"
    using len slice_single [of 4 bs] slice_single [of 21 bs] slice_single [of 22 bs]
      slice_single [of 31 bs] slice_single [of 32 bs] by simp
  also have "\<dots> = slice bs 0 37"
    by (simp add: slice_glue)
  finally show ?thesis using len by simp
qed

lemma wf_header_v3_update [simp]: "wf_header_v3 (h\<lparr>v3_payload_size := n\<rparr>) = wf_header_v3 h"
  by (simp add: wf_header_v3_def)

lemma wf_packet_v3_size:
  "wf_packet_v3 p \<Longrightarrow>
   (v3_header p)\<lparr>v3_payload_size := of_nat (length (v3_payload p))\<rparr> = v3_header p"
proof -
  assume "wf_packet_v3 p"
  then have "length (v3_payload p) = unat (v3_payload_size (v3_header p))"
    by (simp add: wf_packet_v3_def)
  then show ?thesis by (cases "v3_header p") simp
qed

lemma length_encode_packet_v3:
  "wf_header_v3 (v3_header p) \<Longrightarrow>
   length (encode_packet_v3 p) = UDP_AUDIO_HEADER_V3_LEN + length (v3_payload p)"
  by (simp add: encode_packet_v3_def length_encode_header_v3 wf_header_v3_def UDP_AUDIO_MAGIC_V3_def)

lemma decode_encode_packet_v3:
  assumes "wf_header_v3 (v3_header p)" and "length (v3_payload p) < 2 ^ 16"
  shows "decode_packet_v3 (encode_packet_v3 p)
    = Inr (p\<lparr>v3_header := (v3_header p)\<lparr>v3_payload_size := of_nat (length (v3_payload p))\<rparr>\<rparr>)"
proof -
  have "length (encode_header_v3 ((v3_header p)\<lparr>v3_payload_size := of_nat (length (v3_payload p))\<rparr>)) = 37"
    using assms(1) by (subst length_encode_header_v3) (auto simp: wf_header_v3_def wire_simps)
  then show ?thesis
    using assms unfolding decode_packet_v3_def
    by (simp add: encode_packet_v3_def decode_encode_header_v3 slice_def Let_def wire_simps
        unsigned_of_nat take_bit_nat_eq_self)
qed

lemma decode_packet_v3_wf: "decode_packet_v3 bs = Inr p \<Longrightarrow> wf_packet_v3 p"
  by (auto simp: decode_packet_v3_def wf_packet_v3_def Let_def wire_simps
      split: if_splits sum.splits dest: decode_header_v3_wf)

lemma encode_decode_packet_v3:
  assumes "decode_packet_v3 bs = Inr p"
  shows "encode_packet_v3 p = bs"
proof -
  obtain h where h: "decode_header_v3 bs = Inr h"
    and len: "length bs = 37 + unat (v3_payload_size h)"
    and p: "p = \<lparr>v3_header = h, v3_payload = slice bs 37 (length bs)\<rparr>"
    using assms by (auto simp: decode_packet_v3_def Let_def wire_simps split: if_splits sum.splits)
  from decode_packet_v3_wf [OF assms] have "encode_packet_v3 p = encode_header_v3 h @ slice bs 37 (length bs)"
    using wf_packet_v3_size [of p] by (simp add: encode_packet_v3_def p)
  also have "\<dots> = slice bs 0 37 @ slice bs 37 (length bs)"
    using encode_decode_header_v3 [OF h] by simp
  also have "\<dots> = bs" using len by (simp add: slice_glue)
  finally show ?thesis .
qed

interpretation v3: strict_codec encode_packet_v3 decode_packet_v3 wf_packet_v3
proof
  fix p bs
  show "wf_packet_v3 p \<Longrightarrow> decode_packet_v3 (encode_packet_v3 p) = Inr p"
    using decode_encode_packet_v3 [of p] wf_packet_v3_size [of p]
      unat_u16_less [of "v3_payload_size (v3_header p)"]
    by (simp add: wf_packet_v3_def)
qed (auto intro: decode_packet_v3_wf encode_decode_packet_v3)

lemma slice_append_left: "j \<le> length xs \<Longrightarrow> slice (xs @ ys) i j = slice xs i j"
  by (cases "i \<le> j") (simp_all add: slice_def)

lemma nth_append_left: "k < length bs \<Longrightarrow> (bs @ xs) ! k = bs ! k"
  by (simp add: nth_append)

lemma decode_header_v2_append:
  assumes len: "33 \<le> length bs"
  shows "decode_header_v2 (bs @ xs) = decode_header_v2 bs"
proof -
  have n: "\<And>k. k < 33 \<Longrightarrow> (bs @ xs) ! k = bs ! k"
    using len by (simp add: nth_append)
  have sl: "\<And>i j. j \<le> 33 \<Longrightarrow> slice (bs @ xs) i j = slice bs i j"
    using len by (simp add: slice_append_left)
  show ?thesis
    using len unfolding decode_header_v2_def Let_def
    by (simp add: n sl UDP_AUDIO_HEADER_V2_LEN_def cong: option.case_cong if_cong)
qed

lemma decode_header_v3_append:
  assumes len: "37 \<le> length bs"
  shows "decode_header_v3 (bs @ xs) = decode_header_v3 bs"
proof -
  have n: "\<And>k. k < 37 \<Longrightarrow> (bs @ xs) ! k = bs ! k"
    using len by (simp add: nth_append)
  have sl: "\<And>i j. j \<le> 37 \<Longrightarrow> slice (bs @ xs) i j = slice bs i j"
    using len by (simp add: slice_append_left)
  show ?thesis
    using len unfolding decode_header_v3_def Let_def
    by (simp add: n sl UDP_AUDIO_HEADER_V3_LEN_def UDP_AUDIO_HEADER_V2_LEN_def cong: option.case_cong if_cong)
qed

lemma decode_packet_v2_kind: "decode_packet_v2 bs = Inr p \<Longrightarrow> slice bs 0 4 = UDP_AUDIO_MAGIC_V2 \<and> bs ! 4 = 2 \<and> 33 \<le> length bs"
  using magic4 [of "slice bs 0 4"]
  by (auto simp: decode_packet_v2_def decode_header_v2_def Let_def slice_def wire_simps
      split: if_splits option.splits sum.splits)

lemma decode_packet_v3_kind: "decode_packet_v3 bs = Inr p \<Longrightarrow> slice bs 0 4 = UDP_AUDIO_MAGIC_V3 \<and> bs ! 4 = 3 \<and> 37 \<le> length bs"
  using magic4 [of "slice bs 0 4"]
  by (auto simp: decode_packet_v3_def decode_header_v3_def Let_def slice_def wire_simps
      split: if_splits option.splits sum.splits)

lemma decode_las1_kind: "decode_las1 bs = Inr p \<Longrightarrow> slice bs 0 4 = AUDIO_MAGIC \<and> 27 \<le> length bs"
  by (auto simp: decode_las1_def AUDIO_HEADER_LEN_def Let_def split: if_splits)

section \<open>Properties\<close>

text \<open>
  C4: the v2 packet codec is exact. \<open>UdpAudioPacketV2::decode\<close> accepts a datagram and
  yields \<open>p\<close> if and only if \<open>p\<close> is well formed (LAV2 magic, version 2, header size 33, a size
  field equal to the payload's length) and the datagram is byte for byte \<open>encode p\<close>. So
  decoding inverts encoding, encoding inverts decoding, and nothing else is accepted. The codec may be
  any of the four: the v2 decoder accepts PCM24 as well, although the comment on \<open>Pcm24\<close> and the protocol
  document allow that codec on v3 packets only.
\<close>
theorem wire_v2_exact: "decode_packet_v2 bs = Inr p \<longleftrightarrow> wf_packet_v2 p \<and> bs = encode_packet_v2 p"
  by (rule v2.decode_iff)

text \<open>
  C28: the v3 packet codec is exact, the fragment header included: a packet is accepted only
  when \<open>frag_index < total_frags\<close>, and accepted datagrams are exactly the encodings of
  well-formed packets.
\<close>
theorem wire_v3_exact: "decode_packet_v3 bs = Inr p \<longleftrightarrow> wf_packet_v3 p \<and> bs = encode_packet_v3 p"
  by (rule v3.decode_iff)

text \<open>
  The legacy LAS1 codec is exact: every packet whose payload fits the 16-bit length field
  survives the round trip, and every accepted datagram is such an encoding.
\<close>
theorem wire_las1_exact: "decode_las1 bs = Inr p \<longleftrightarrow> wf_las1 p \<and> bs = encode_las1 p"
  by (rule las1.decode_iff)

text \<open>
  What the v2 encoder does with any packet whose header is well formed, whatever its size
  field: it stamps the payload's length, and a payload of 65536 bytes or more (whose length the
  \<open>as u16\<close> cast truncates) produces a datagram that every receiver rejects as a length mismatch.
\<close>
theorem wire_v2_stamps_length:
  assumes "wf_header_v2 (v2_header p)"
  shows "decode_packet_v2 (encode_packet_v2 p) =
    (if length (v2_payload p) < 2 ^ 16
     then Inr (p\<lparr>v2_header := (v2_header p)\<lparr>v2_payload_size := of_nat (length (v2_payload p))\<rparr>\<rparr>)
     else Inl V2_PayloadLengthMismatch)"
proof (cases "length (v2_payload p) < 2 ^ 16")
  case True
  then show ?thesis using decode_encode_packet_v2 [OF assms] by simp
next
  case False
  have "length (encode_packet_v2 p) = 33 + length (v2_payload p)"
    using length_encode_packet_v2 [OF assms] by (simp add: wire_simps)
  moreover have "unat (of_nat (length (v2_payload p)) :: u16) \<noteq> length (v2_payload p)"
    using unat_u16_less [of "of_nat (length (v2_payload p))"] False by (simp del: unsigned_of_nat)
  ultimately show ?thesis
    using assms False unfolding decode_packet_v2_def
    by (simp add: encode_packet_v2_def decode_encode_header_v2 Let_def wire_simps)
qed

definition sample_packet_v2 :: udp_audio_packet_v2 where
  "sample_packet_v2 = \<lparr>v2_header = \<lparr>v2_magic = UDP_AUDIO_MAGIC_V2, v2_protocol_version = 2,
     v2_header_size = 33, v2_flags = 4, v2_sequence = 1001, v2_timestamp_ms = 100000,
     v2_codec = Udp_Pcm16, v2_channels = 2, v2_sample_rate = 48000, v2_frame_duration_ms = 10,
     v2_payload_size = 0, v2_reserved = 0\<rparr>, v2_payload = [1, 2, 3, 4, 5, 6]\<rparr>"

theorem wire_v2_stamps_length_witness:
  "decode_packet_v2 (encode_packet_v2 sample_packet_v2)
   = Inr (sample_packet_v2\<lparr>v2_header := (v2_header sample_packet_v2)\<lparr>v2_payload_size := 6\<rparr>\<rparr>)"
  using wire_v2_stamps_length [of sample_packet_v2]
  by (simp add: sample_packet_v2_def wf_header_v2_def wire_simps)

text \<open>
  The three formats never overlap. A datagram one decoder accepts is classified by
  \<open>detect_data_plane_packet_kind\<close> as that decoder's family, and a v2 datagram is never a v3
  one although the two share the LAV2 magic.
\<close>
theorem wire_formats_disjoint:
  "(decode_las1 bs = Inr p \<longrightarrow> detect_data_plane_packet_kind bs = LegacyLas1Kind)
   \<and> (decode_packet_v2 bs = Inr q \<longrightarrow> detect_data_plane_packet_kind bs = V2Lav2Kind
        \<and> decode_packet_v3 bs \<noteq> Inr r \<and> decode_las1 bs \<noteq> Inr p)
   \<and> (decode_packet_v3 bs = Inr r \<longrightarrow> detect_data_plane_packet_kind bs = V2Lav2Kind
        \<and> decode_packet_v2 bs \<noteq> Inr q \<and> decode_las1 bs \<noteq> Inr p)"
  using decode_packet_v2_kind [of bs q] decode_packet_v3_kind [of bs r] decode_las1_kind [of bs p]
  by (auto simp: detect_data_plane_packet_kind_def AUDIO_MAGIC_def UDP_AUDIO_MAGIC_V2_def
      UDP_AUDIO_MAGIC_V3_def)

theorem wire_formats_disjoint_witness:
  "detect_data_plane_packet_kind (encode_packet_v2 (sample_packet_v2\<lparr>v2_header :=
     (v2_header sample_packet_v2)\<lparr>v2_payload_size := 6\<rparr>\<rparr>)) = V2Lav2Kind"
proof -
  let ?q = "sample_packet_v2\<lparr>v2_header := (v2_header sample_packet_v2)\<lparr>v2_payload_size := 6\<rparr>\<rparr>"
  have "wf_packet_v2 ?q"
    by (simp add: sample_packet_v2_def wf_packet_v2_def wf_header_v2_def wire_simps)
  then show ?thesis
    using wire_formats_disjoint [of "encode_packet_v2 ?q" _ ?q] v2.decode_encode by blast
qed

text \<open>
  Framing is exact for both header versions: a datagram that decodes no longer decodes
  once bytes are appended to it, and the error is the length mismatch.
\<close>
theorem wire_trailing_bytes_rejected:
  assumes "xs \<noteq> []"
  shows "(decode_packet_v2 bs = Inr p \<longrightarrow> decode_packet_v2 (bs @ xs) = Inl V2_PayloadLengthMismatch)
    \<and> (decode_packet_v3 bs = Inr q \<longrightarrow> decode_packet_v3 (bs @ xs) = Inl V3_PayloadLengthMismatch)"
  using assms
  by (auto simp: decode_packet_v2_def decode_packet_v3_def Let_def wire_simps
      decode_header_v2_append decode_header_v3_append split: if_splits sum.splits)

theorem wire_trailing_bytes_rejected_witness:
  "decode_packet_v2 (encode_packet_v2 (sample_packet_v2\<lparr>v2_header :=
     (v2_header sample_packet_v2)\<lparr>v2_payload_size := 6\<rparr>\<rparr>) @ [0]) = Inl V2_PayloadLengthMismatch"
proof -
  let ?q = "sample_packet_v2\<lparr>v2_header := (v2_header sample_packet_v2)\<lparr>v2_payload_size := 6\<rparr>\<rparr>"
  have "wf_packet_v2 ?q"
    by (simp add: sample_packet_v2_def wf_packet_v2_def wf_header_v2_def wire_simps)
  then have "decode_packet_v2 (encode_packet_v2 ?q) = Inr ?q" by (rule v2.decode_encode)
  then show ?thesis
    using wire_trailing_bytes_rejected [of "[0]" "encode_packet_v2 ?q" ?q] by simp
qed

end
