(* ===== verification/Server_Config.thy ===== *)
theory Server_Config
  imports Audio_Domain Wire_Format
begin

text \<open>
  The server's configuration, \<open>crates/lan_audio_server/src/config.rs\<close>, and the mode profile of
  the protocol crate it is combined with. The command-line loop of \<open>apply_args\<close> is the recursion
  \<open>apply_args_loop\<close> over the remaining arguments; every \<open>?\<close> is an \<open>Inl\<close>. The text of an
  \<open>f32\<close> and the environment variables are the caller's: \<open>parse_f32\<close> and \<open>env\<close> are parameters.
\<close>

section \<open>Mode profile (protocol crate)\<close>

datatype sample_format_preference = Sample_Pcm16 | Sample_F32

record audio_mode_profile =
  amp_mode :: audio_mode
  amp_start_buffer_ms :: u16
  amp_max_buffer_ms :: u16
  amp_batch_frames :: u8
  amp_drop_threshold_ms :: u16
  prefer_low_latency_path :: bool
  prefer_stable_audio_track :: bool
  amp_preferred_codec :: audio_codec_preference
  preferred_sample_format :: sample_format_preference
  amp_frame_duration_ms :: u16
  amp_reset_buffer_on_switch :: bool

definition mode_profile :: "audio_mode \<Rightarrow> audio_mode_profile" where
  "mode_profile mode =
     (let contract = mode_contract mode;
          low = (case output_backend_priority contract of [] \<Rightarrow> False
                 | backend # _ \<Rightarrow> backend = FastPath);
          stable = list_ex (\<lambda>backend. backend = AudioTrack) (output_backend_priority contract)
      in \<lparr>amp_mode = mode,
          amp_start_buffer_ms = start_buffer_ms (mc_tuning contract),
          amp_max_buffer_ms = max_buffer_ms (mc_tuning contract),
          amp_batch_frames = batch_frames (mc_tuning contract),
          amp_drop_threshold_ms = drop_threshold_ms (mc_tuning contract),
          prefer_low_latency_path = low,
          prefer_stable_audio_track = stable,
          amp_preferred_codec = mc_preferred_codec contract,
          preferred_sample_format = Sample_Pcm16,
          amp_frame_duration_ms = tuning_frame_duration_ms (mc_tuning contract),
          amp_reset_buffer_on_switch = reset_buffer_on_switch (mc_tuning contract)\<rparr>)"

section \<open>Enums of the configuration\<close>

datatype config_error =
    UnsupportedAudioSource string | UnsupportedTransportMode string | UsbRequiresSerial
  | UnsupportedCodecName string | UnsupportedDataPlaneFormat string
  | MissingValue string | UnsupportedSyntheticSignal string | InvalidSyntheticFrequency
  | InvalidDumpSeconds | UnsupportedAudioMode string

datatype audio_source_kind = Synthetic | WindowsLoopback

definition audio_source_parse :: "string \<Rightarrow> config_error + audio_source_kind" where
  "audio_source_parse input =
     (if input = ''synthetic'' then Inr Synthetic
      else if input = ''windows_loopback'' then Inr WindowsLoopback
      else Inl (UnsupportedAudioSource input))"

fun audio_source_as_str :: "audio_source_kind \<Rightarrow> string" where
  "audio_source_as_str Synthetic = ''synthetic''"
| "audio_source_as_str WindowsLoopback = ''windows_loopback''"

datatype synthetic_signal_kind = Signal_Silence | Signal_Sine

datatype data_plane_format = LegacyLas1 | V2Header

datatype codec_selection = Sel_Pcm16 | Sel_Opus | Sel_Pcm24

datatype transport_mode = Mode_WiFi | Mode_Usb string

definition transport_mode_parse :: "string \<Rightarrow> string option \<Rightarrow> config_error + transport_mode" where
  "transport_mode_parse input adb_serial =
     (if input = ''wifi'' then Inr Mode_WiFi
      else if input = ''usb'' then
        (case adb_serial of None \<Rightarrow> Inl UsbRequiresSerial | Some serial \<Rightarrow> Inr (Mode_Usb serial))
      else Inl (UnsupportedTransportMode input))"

fun transport_mode_as_str :: "transport_mode \<Rightarrow> string" where
  "transport_mode_as_str Mode_WiFi = ''wifi''"
| "transport_mode_as_str (Mode_Usb _) = ''usb''"

fun transport_mode_adb_serial :: "transport_mode \<Rightarrow> string option" where
  "transport_mode_adb_serial Mode_WiFi = None"
| "transport_mode_adb_serial (Mode_Usb serial) = Some serial"

definition codec_selection_parse :: "string \<Rightarrow> config_error + codec_selection" where
  "codec_selection_parse input =
     (if input = ''pcm16'' \<or> input = ''pcm'' then Inr Sel_Pcm16
      else if input = ''opus'' \<or> input = ''opus_experimental'' then Inr Sel_Opus
      else if input = ''pcm24'' \<or> input = ''hires'' \<or> input = ''hires_pcm24'' then Inr Sel_Pcm24
      else Inl (UnsupportedCodecName input))"

fun codec_selection_as_str :: "codec_selection \<Rightarrow> string" where
  "codec_selection_as_str Sel_Pcm16 = ''pcm16''"
| "codec_selection_as_str Sel_Opus = ''opus''"
| "codec_selection_as_str Sel_Pcm24 = ''pcm24''"

fun as_protocol_preference :: "codec_selection \<Rightarrow> audio_codec_preference" where
  "as_protocol_preference Sel_Pcm16 = Pref_Pcm16"
| "as_protocol_preference Sel_Opus = Pref_Opus"
| "as_protocol_preference Sel_Pcm24 = Pref_Pcm24"

fun as_udp_codec :: "codec_selection \<Rightarrow> udp_audio_codec_v2" where
  "as_udp_codec Sel_Pcm16 = Udp_Pcm16"
| "as_udp_codec Sel_Opus = Udp_Opus"
| "as_udp_codec Sel_Pcm24 = Udp_Pcm24"

definition data_plane_format_parse :: "string \<Rightarrow> config_error + data_plane_format" where
  "data_plane_format_parse input =
     (if input = ''legacy_las1'' \<or> input = ''legacy'' \<or> input = ''v1'' then Inr LegacyLas1
      else if input = ''v2_header'' \<or> input = ''v2'' then Inr V2Header
      else Inl (UnsupportedDataPlaneFormat input))"

fun data_plane_format_as_str :: "data_plane_format \<Rightarrow> string" where
  "data_plane_format_as_str LegacyLas1 = ''legacy_las1''"
| "data_plane_format_as_str V2Header = ''v2_header''"

section \<open>The configuration record\<close>

datatype ip_addr = V4 u8 u8 u8 u8 | V6 "128 word"

record socket_addr =
  sa_ip :: ip_addr
  sa_port :: u16

text \<open>The frequency is an \<open>f32\<close>, kept as a value of a type parameter \<open>'f\<close>.\<close>

record 'f server_config =
  server_name :: string
  discovery_bind :: socket_addr
  discovery_broadcast :: socket_addr
  ws_bind :: socket_addr
  udp_bind :: socket_addr
  cfg_sample_rate :: u32
  cfg_channels :: u8
  cfg_frames_per_packet :: u16
  packet_interval_ms :: u64
  audio_source :: audio_source_kind
  audio_source_fallback_to_synthetic :: bool
  synthetic_signal :: synthetic_signal_kind
  synthetic_frequency_hz :: 'f
  capture_debug_dump_wav :: bool
  capture_debug_dump_seconds :: u32
  capture_debug_dump_dir :: string
  cfg_current_audio_mode :: audio_mode
  cfg_codec_selection :: codec_selection
  cfg_data_plane_format :: data_plane_format
  allow_loopback_v2_header_gray :: bool
  cfg_transport_mode :: transport_mode
  cfg_force_rollback :: bool
  reverse_channel_enabled :: bool
  adaptive_runtime_enabled :: bool

definition whoami_fallback :: "(string \<Rightarrow> string option) \<Rightarrow> string" where
  "whoami_fallback env =
     (case env ''COMPUTERNAME'' of Some name \<Rightarrow> name
      | None \<Rightarrow> (case env ''HOSTNAME'' of Some name \<Rightarrow> name | None \<Rightarrow> ''windows-desktop''))"

definition server_config_default :: "(string \<Rightarrow> string option) \<Rightarrow> 'f \<Rightarrow> 'f server_config" where
  "server_config_default env f440 =
     \<lparr>server_name = whoami_fallback env,
      discovery_bind = \<lparr>sa_ip = V4 0 0 0 0, sa_port = 0\<rparr>,
      discovery_broadcast = \<lparr>sa_ip = V4 255 255 255 255, sa_port = DISCOVERY_PORT\<rparr>,
      ws_bind = \<lparr>sa_ip = V4 0 0 0 0, sa_port = WS_PORT\<rparr>,
      udp_bind = \<lparr>sa_ip = V4 0 0 0 0, sa_port = UDP_AUDIO_PORT\<rparr>,
      cfg_sample_rate = 48000, cfg_channels = 2, cfg_frames_per_packet = 480,
      packet_interval_ms = 10, audio_source = WindowsLoopback,
      audio_source_fallback_to_synthetic = True, synthetic_signal = Signal_Sine,
      synthetic_frequency_hz = f440, capture_debug_dump_wav = False,
      capture_debug_dump_seconds = 5, capture_debug_dump_dir = ''debug_captures'',
      cfg_current_audio_mode = Balanced, cfg_codec_selection = Sel_Opus,
      cfg_data_plane_format = V2Header, allow_loopback_v2_header_gray = False,
      cfg_transport_mode = Mode_WiFi, cfg_force_rollback = False,
      reverse_channel_enabled = False, adaptive_runtime_enabled = True\<rparr>"

definition select_data_plane_format ::
  "data_plane_format \<Rightarrow> audio_source_kind \<Rightarrow> bool \<Rightarrow> data_plane_format" where
  "select_data_plane_format desired source allow_gray =
     (if desired \<noteq> V2Header then desired
      else case source of Synthetic \<Rightarrow> desired | WindowsLoopback \<Rightarrow> desired)"

definition selected_data_plane_format :: "'f server_config \<Rightarrow> data_plane_format" where
  "selected_data_plane_format cfg =
     select_data_plane_format (cfg_data_plane_format cfg) (audio_source cfg)
       (allow_loopback_v2_header_gray cfg)"

definition effective_codec_selection :: "'f server_config \<Rightarrow> codec_selection" where
  "effective_codec_selection cfg =
     (case (cfg_codec_selection cfg, selected_data_plane_format cfg) of
        (Sel_Opus, V2Header) \<Rightarrow> Sel_Opus
      | _ \<Rightarrow> Sel_Pcm16)"

section \<open>Command-line arguments\<close>

text \<open>\<open>str::parse::<u32>\<close>: an optional plus sign, then decimal digits, no overflow.\<close>

definition digit_of :: "char \<Rightarrow> nat option" where
  "digit_of c = (let n = of_char c :: nat in if 48 \<le> n \<and> n \<le> 57 then Some (n - 48) else None)"

fun digits_value :: "nat \<Rightarrow> string \<Rightarrow> nat option" where
  "digits_value acc [] = Some acc"
| "digits_value acc (c # cs) =
     (case digit_of c of None \<Rightarrow> None | Some d \<Rightarrow> digits_value (10 * acc + d) cs)"

definition parse_u32 :: "string \<Rightarrow> u32 option" where
  "parse_u32 s =
     (let ds = (case s of c # cs \<Rightarrow> if c = CHR ''+'' then cs else s | [] \<Rightarrow> []) in
      if ds = [] then None
      else case digits_value 0 ds of None \<Rightarrow> None
      | Some n \<Rightarrow> if n < 2 ^ 32 then Some (of_nat n) else None)"

definition parse_synthetic_signal :: "string \<Rightarrow> config_error + synthetic_signal_kind" where
  "parse_synthetic_signal v =
     (if v = ''silence'' then Inr Signal_Silence
      else if v = ''sine'' then Inr Signal_Sine
      else Inl (UnsupportedSyntheticSignal v))"

definition parse_audio_mode_arg :: "string \<Rightarrow> config_error + audio_mode" where
  "parse_audio_mode_arg v =
     (if v = ''ultra_low_latency'' then Inr UltraLowLatency
      else if v = ''low_latency'' then Inr LowLatency
      else if v = ''balanced'' then Inr Balanced
      else if v = ''high_quality'' then Inr HighQuality
      else Inl (UnsupportedAudioMode v))"

text \<open>The locals of the loop: the configuration so far, the transport name, the serial.\<close>

record 'f args_state =
  as_cfg :: "'f server_config"
  as_transport_mode_name :: string
  as_adb_serial :: "string option"

definition valued_options :: "string list" where
  "valued_options = [''--audio-source'', ''--synthetic-signal'', ''--synthetic-frequency-hz'',
     ''--capture-dump-seconds'', ''--capture-dump-dir'', ''--audio-mode'', ''--data-plane'',
     ''--codec'', ''--transport'', ''--adb-serial'']"

text \<open>The arms that take a value: what \<open>value\<close> does to the state, or the error it raises.\<close>

definition apply_valued ::
  "(string \<Rightarrow> 'f option) \<Rightarrow> string \<Rightarrow> string \<Rightarrow> 'f args_state \<Rightarrow> config_error + 'f args_state" where
  "apply_valued parse_f32 arg value s =
     (let upd = \<lambda>f. s\<lparr>as_cfg := f (as_cfg s)\<rparr> in
      if arg = ''--audio-source'' then
        (case audio_source_parse value of Inl e \<Rightarrow> Inl e
         | Inr v \<Rightarrow> Inr (upd (\<lambda>c. c\<lparr>audio_source := v\<rparr>)))
      else if arg = ''--synthetic-signal'' then
        (case parse_synthetic_signal value of Inl e \<Rightarrow> Inl e
         | Inr v \<Rightarrow> Inr (upd (\<lambda>c. c\<lparr>synthetic_signal := v\<rparr>)))
      else if arg = ''--synthetic-frequency-hz'' then
        (case parse_f32 value of None \<Rightarrow> Inl InvalidSyntheticFrequency
         | Some v \<Rightarrow> Inr (upd (\<lambda>c. c\<lparr>synthetic_frequency_hz := v\<rparr>)))
      else if arg = ''--capture-dump-seconds'' then
        (case parse_u32 value of None \<Rightarrow> Inl InvalidDumpSeconds
         | Some v \<Rightarrow> Inr (upd (\<lambda>c. c\<lparr>capture_debug_dump_seconds := v\<rparr>)))
      else if arg = ''--capture-dump-dir'' then
        Inr (upd (\<lambda>c. c\<lparr>capture_debug_dump_dir := value\<rparr>))
      else if arg = ''--audio-mode'' then
        (case parse_audio_mode_arg value of Inl e \<Rightarrow> Inl e
         | Inr v \<Rightarrow> Inr (upd (\<lambda>c. c\<lparr>cfg_current_audio_mode := v\<rparr>)))
      else if arg = ''--data-plane'' then
        (case data_plane_format_parse value of Inl e \<Rightarrow> Inl e
         | Inr v \<Rightarrow> Inr (upd (\<lambda>c. c\<lparr>cfg_data_plane_format := v\<rparr>)))
      else if arg = ''--codec'' then
        (case codec_selection_parse value of Inl e \<Rightarrow> Inl e
         | Inr v \<Rightarrow> Inr (upd (\<lambda>c. c\<lparr>cfg_codec_selection := v\<rparr>)))
      else if arg = ''--transport'' then Inr (s\<lparr>as_transport_mode_name := value\<rparr>)
      else if arg = ''--adb-serial'' then Inr (s\<lparr>as_adb_serial := Some value\<rparr>)
      else Inr s)"

text \<open>The arms without a value; an unknown argument is ignored.\<close>

definition apply_flag :: "string \<Rightarrow> 'f args_state \<Rightarrow> 'f args_state" where
  "apply_flag arg s =
     (let upd = \<lambda>f. s\<lparr>as_cfg := f (as_cfg s)\<rparr> in
      if arg = ''--no-audio-fallback'' then
        upd (\<lambda>c. c\<lparr>audio_source_fallback_to_synthetic := False\<rparr>)
      else if arg = ''--capture-dump-wav'' then upd (\<lambda>c. c\<lparr>capture_debug_dump_wav := True\<rparr>)
      else if arg = ''--allow-loopback-v2-header-gray''
              \<or> arg = ''--enable-loopback-v2-header-gray'' then
        upd (\<lambda>c. c\<lparr>allow_loopback_v2_header_gray := True\<rparr>)
      else if arg = ''--force-rollback'' then upd (\<lambda>c. c\<lparr>cfg_force_rollback := True\<rparr>)
      else if arg = ''--reverse-channel'' then upd (\<lambda>c. c\<lparr>reverse_channel_enabled := True\<rparr>)
      else if arg = ''--no-reverse-channel'' then upd (\<lambda>c. c\<lparr>reverse_channel_enabled := False\<rparr>)
      else if arg = ''--no-adaptive-runtime'' then
        upd (\<lambda>c. c\<lparr>adaptive_runtime_enabled := False\<rparr>)
      else if arg = ''--adaptive-runtime'' then upd (\<lambda>c. c\<lparr>adaptive_runtime_enabled := True\<rparr>)
      else s)"

fun apply_args_loop ::
  "(string \<Rightarrow> 'f option) \<Rightarrow> string list \<Rightarrow> 'f args_state \<Rightarrow> config_error + 'f args_state" where
  "apply_args_loop parse_f32 [] s = Inr s"
| "apply_args_loop parse_f32 (arg # rest) s =
     (if arg \<in> set valued_options then
        (case rest of [] \<Rightarrow> Inl (MissingValue arg)
         | value # rest' \<Rightarrow>
             (case apply_valued parse_f32 arg value s of Inl e \<Rightarrow> Inl e
              | Inr s' \<Rightarrow> apply_args_loop parse_f32 rest' s'))
      else apply_args_loop parse_f32 rest (apply_flag arg s))"

definition apply_args ::
  "(string \<Rightarrow> 'f option) \<Rightarrow> string list \<Rightarrow> 'f server_config \<Rightarrow> config_error + 'f server_config" where
  "apply_args parse_f32 args cfg =
     (case apply_args_loop parse_f32 args
        \<lparr>as_cfg = cfg, as_transport_mode_name = transport_mode_as_str (cfg_transport_mode cfg),
         as_adb_serial = transport_mode_adb_serial (cfg_transport_mode cfg)\<rparr> of
        Inl e \<Rightarrow> Inl e
      | Inr s \<Rightarrow>
          (case transport_mode_parse (as_transport_mode_name s) (as_adb_serial s) of
             Inl e \<Rightarrow> Inl e
           | Inr t \<Rightarrow> Inr ((as_cfg s)\<lparr>cfg_transport_mode := t\<rparr>)))"

section \<open>Lemmas\<close>

lemma apply_args_loop_append:
  "apply_args_loop pf xs s = Inr t \<Longrightarrow> apply_args_loop pf (xs @ ys) s = apply_args_loop pf ys t"
  by (induction pf xs s rule: apply_args_loop.induct) (auto split: if_splits list.splits sum.splits)

lemma apply_args_loop_append_error:
  "apply_args_loop pf xs s = Inl e \<Longrightarrow> (\<And>arg. e \<noteq> MissingValue arg)
   \<Longrightarrow> apply_args_loop pf (xs @ ys) s = Inl e"
  by (induction pf xs s rule: apply_args_loop.induct) (auto split: if_splits list.splits sum.splits)

definition known_flags :: "string list" where
  "known_flags = [''--no-audio-fallback'', ''--capture-dump-wav'',
     ''--allow-loopback-v2-header-gray'', ''--enable-loopback-v2-header-gray'',
     ''--force-rollback'', ''--reverse-channel'', ''--no-reverse-channel'',
     ''--no-adaptive-runtime'', ''--adaptive-runtime'']"

lemma apply_flag_unknown: "arg \<notin> set known_flags \<Longrightarrow> apply_flag arg s = s"
  by (simp add: apply_flag_def known_flags_def Let_def)

lemma transport_mode_roundtrip:
  "transport_mode_parse (transport_mode_as_str t) (transport_mode_adb_serial t) = Inr t"
  by (cases t) (simp_all add: transport_mode_parse_def)

section \<open>Properties\<close>

text \<open>
  The names of the configuration's enums round-trip: parsing what \<open>as_str\<close> prints gives the
  value back for the audio source, the codec, the data-plane format and the transport (with its
  adb serial), so two different values never share a name; USB without a serial is an error.
\<close>
theorem config_names_roundtrip:
  "audio_source_parse (audio_source_as_str a) = Inr a
   \<and> codec_selection_parse (codec_selection_as_str c) = Inr c
   \<and> data_plane_format_parse (data_plane_format_as_str d) = Inr d
   \<and> transport_mode_parse (transport_mode_as_str t) (transport_mode_adb_serial t) = Inr t
   \<and> transport_mode_parse ''usb'' None = Inl UsbRequiresSerial"
  by (cases a; cases c; cases d; cases t)
    (simp_all add: transport_mode_roundtrip audio_source_parse_def codec_selection_parse_def
      data_plane_format_parse_def transport_mode_parse_def)

text \<open>
  The codec the server starts with. \<open>effective_codec_selection\<close> is Opus exactly when Opus was
  selected on the v2 data plane and PCM16 in every other case. In particular a PCM24 selection,
  which the comment on \<open>CodecSelection::Pcm24\<close> calls valid on the v2 header, is never effective.
\<close>
theorem effective_codec_never_pcm24:
  "effective_codec_selection cfg =
     (if cfg_codec_selection cfg = Sel_Opus \<and> cfg_data_plane_format cfg = V2Header
      then Sel_Opus else Sel_Pcm16)"
  by (simp add: effective_codec_selection_def selected_data_plane_format_def
      select_data_plane_format_def split: codec_selection.splits data_plane_format.splits
      audio_source_kind.splits)

text \<open>
  Command-line arguments are processed left to right in complete groups. If a prefix \<open>xs\<close> is
  accepted, the rest is processed from the state it leaves, and an argument the loop does not
  know (neither a flag nor an option with a value) can stand there without changing the result.
\<close>
theorem apply_args_compositional:
  assumes "apply_args_loop pf xs s = Inr t"
    and "arg \<notin> set valued_options" and "arg \<notin> set known_flags"
  shows "apply_args_loop pf (xs @ arg # ys) s = apply_args_loop pf ys t
    \<and> apply_args_loop pf (xs @ arg # ys) s = apply_args_loop pf (xs @ ys) s"
  using apply_args_loop_append [OF assms(1), of "arg # ys"] apply_args_loop_append [OF assms(1), of ys]
    assms(2,3) by (simp add: apply_flag_unknown)

definition sample_config :: "real server_config" where
  "sample_config = server_config_default (\<lambda>_. None) 440"

theorem apply_args_compositional_witness:
  "apply_args_loop (\<lambda>_. None) [''--codec'', ''pcm24'', ''--verbose'', ''--codec'']
     \<lparr>as_cfg = sample_config, as_transport_mode_name = ''wifi'', as_adb_serial = None\<rparr>
   = Inl (MissingValue ''--codec'')"
  using apply_args_compositional [of "\<lambda>_. None" "[''--codec'', ''pcm24'']"
      "\<lparr>as_cfg = sample_config, as_transport_mode_name = ''wifi'', as_adb_serial = None\<rparr>"
      "\<lparr>as_cfg = sample_config\<lparr>cfg_codec_selection := Sel_Pcm24\<rparr>,
        as_transport_mode_name = ''wifi'', as_adb_serial = None\<rparr>"
      "''--verbose''" "[''--codec'']"]
  by (simp add: valued_options_def known_flags_def apply_valued_def codec_selection_parse_def)

end
