(* ===== verification/Data_Plane.thy ===== *)
theory Data_Plane
  imports Server_Config
begin

text \<open>
  The data planes, \<open>crates/lan_audio_server/src/data_plane.rs\<close>: the \<open>DataPlane\<close> trait as a locale
  and its three implementations, the router with its rollback, and the functions that turn an
  encoded audio packet into datagrams, PCM24 fragmentation included. The socket and the stream
  are the operating system's: \<open>udp_send\<close> and \<open>stream_write\<close> act on a world \<open>'w\<close> and are parameters.
\<close>

section \<open>Data-plane implementations\<close>

datatype data_plane_error = SendFailed string | BufferFull | Plane_Closed

record data_plane_health =
  h_rtt_ms :: "u32 option"
  is_healthy :: bool

text \<open>\<open>'sock\<close> is a UDP socket handle, \<open>'wr\<close> the write half of a TCP stream.\<close>

datatype ('sock, 'wr) data_plane =
    LegacyLas1DataPlane "'sock option" "socket_addr option"
  | V2HeaderDataPlane "'sock option" "socket_addr option"
  | UsbDirectDataPlane "'wr option"

text \<open>\<open>session.rs\<close>, \<open>write_length_prefixed_frame\<close>: what is written for one frame.\<close>

definition length_prefixed_frame :: "u8 list \<Rightarrow> u8 list" where
  "length_prefixed_frame payload = be_bytes 4 (of_nat (length payload) :: u32) @ payload"

definition write_length_prefixed_frame ::
  "('wr \<Rightarrow> u8 list \<Rightarrow> 'w \<Rightarrow> (string + unit) \<times> 'w) \<Rightarrow> 'wr \<Rightarrow> u8 list \<Rightarrow> 'w
   \<Rightarrow> (string + unit) \<times> 'w" where
  "write_length_prefixed_frame stream_write writer payload w =
     (case stream_write writer (be_bytes 4 (of_nat (length payload) :: u32)) w of
        (Inl e, w') \<Rightarrow> (Inl e, w')
      | (Inr _, w') \<Rightarrow> stream_write writer payload w')"

definition send_udp ::
  "('sock \<Rightarrow> u8 list \<Rightarrow> socket_addr \<Rightarrow> 'w \<Rightarrow> (string + unit) \<times> 'w)
   \<Rightarrow> 'sock option \<Rightarrow> socket_addr option \<Rightarrow> u8 list \<Rightarrow> 'w \<Rightarrow> (data_plane_error + unit) \<times> 'w" where
  "send_udp udp_send socket target frame w =
     (case socket of None \<Rightarrow> (Inl Plane_Closed, w)
      | Some sk \<Rightarrow> (case target of None \<Rightarrow> (Inl Plane_Closed, w)
          | Some t \<Rightarrow> (case udp_send sk frame t w of
               (Inl e, w') \<Rightarrow> (Inl (SendFailed e), w')
             | (Inr _, w') \<Rightarrow> (Inr (), w'))))"

definition send_usb ::
  "('wr \<Rightarrow> u8 list \<Rightarrow> 'w \<Rightarrow> (string + unit) \<times> 'w)
   \<Rightarrow> 'wr option \<Rightarrow> u8 list \<Rightarrow> 'w \<Rightarrow> (data_plane_error + unit) \<times> 'w" where
  "send_usb stream_write writer frame w =
     (case writer of None \<Rightarrow> (Inl Plane_Closed, w)
      | Some wr \<Rightarrow> (case write_length_prefixed_frame stream_write wr frame w of
               (Inl e, w') \<Rightarrow> (Inl (SendFailed e), w')
             | (Inr _, w') \<Rightarrow> (Inr (), w')))"

fun send_frame ::
  "('sock \<Rightarrow> u8 list \<Rightarrow> socket_addr \<Rightarrow> 'w \<Rightarrow> (string + unit) \<times> 'w)
   \<Rightarrow> ('wr \<Rightarrow> u8 list \<Rightarrow> 'w \<Rightarrow> (string + unit) \<times> 'w)
   \<Rightarrow> ('sock, 'wr) data_plane \<Rightarrow> u8 list \<Rightarrow> 'w \<Rightarrow> (data_plane_error + unit) \<times> 'w" where
  "send_frame us sw (LegacyLas1DataPlane socket target) frame w = send_udp us socket target frame w"
| "send_frame us sw (V2HeaderDataPlane socket target) frame w = send_udp us socket target frame w"
| "send_frame us sw (UsbDirectDataPlane writer) frame w = send_usb sw writer frame w"

fun path_name :: "('sock, 'wr) data_plane \<Rightarrow> string" where
  "path_name (LegacyLas1DataPlane _ _) = ''legacy_las1''"
| "path_name (V2HeaderDataPlane _ _) = ''v2_header''"
| "path_name (UsbDirectDataPlane _) = ''usb_direct''"

fun probe :: "('sock, 'wr) data_plane \<Rightarrow> data_plane_health" where
  "probe (LegacyLas1DataPlane socket target) =
     \<lparr>h_rtt_ms = None, is_healthy = (socket \<noteq> None \<and> target \<noteq> None)\<rparr>"
| "probe (V2HeaderDataPlane socket target) =
     \<lparr>h_rtt_ms = None, is_healthy = (socket \<noteq> None \<and> target \<noteq> None)\<rparr>"
| "probe (UsbDirectDataPlane writer) = \<lparr>h_rtt_ms = Some 0, is_healthy = (writer \<noteq> None)\<rparr>"

subsection \<open>The trait as an interface\<close>

text \<open>
  What a sender relies on: an unhealthy plane refuses with \<open>Closed\<close> and touches nothing, and a
  healthy one never answers \<open>Closed\<close>. Frames are sent in order until the first error.
\<close>

fun send_all :: "('p \<Rightarrow> 'f \<Rightarrow> 'w \<Rightarrow> (data_plane_error + unit) \<times> 'w) \<Rightarrow> 'p \<Rightarrow> 'f list \<Rightarrow> 'w
   \<Rightarrow> (data_plane_error + unit) \<times> 'w" where
  "send_all send p [] w = (Inr (), w)"
| "send_all send p (f # fs) w =
     (case send p f w of (Inl e, w') \<Rightarrow> (Inl e, w') | (Inr _, w') \<Rightarrow> send_all send p fs w')"

locale data_plane_trait =
  fixes send :: "'p \<Rightarrow> 'f \<Rightarrow> 'w \<Rightarrow> (data_plane_error + unit) \<times> 'w"
    and health :: "'p \<Rightarrow> data_plane_health"
  assumes unhealthy_refuses: "\<not> is_healthy (health p) \<Longrightarrow> send p f w = (Inl Plane_Closed, w)"
    and healthy_open: "is_healthy (health p) \<Longrightarrow> fst (send p f w) \<noteq> Inl Plane_Closed"
begin

lemma closed_iff_unhealthy: "fst (send p f w) = Inl Plane_Closed \<longleftrightarrow> \<not> is_healthy (health p)"
  using unhealthy_refuses healthy_open by fastforce

lemma send_all_unhealthy:
  "\<not> is_healthy (health p) \<Longrightarrow> send_all send p fs w
    = (if fs = [] then Inr () else Inl Plane_Closed, w)"
  by (cases fs) (simp_all add: unhealthy_refuses)

lemma send_all_healthy: "is_healthy (health p) \<Longrightarrow> fst (send_all send p fs w) \<noteq> Inl Plane_Closed"
proof (induction fs arbitrary: w)
  case (Cons f fs)
  then show ?case
    using healthy_open [of p f w] by (auto split: prod.splits sum.splits)
qed simp

end

interpretation planes: data_plane_trait "send_frame us sw" probe for us sw
proof
  fix p f w
  show "\<not> is_healthy (probe p) \<Longrightarrow> send_frame us sw p f w = (Inl Plane_Closed, w)"
    by (cases p) (auto simp: send_udp_def send_usb_def split: option.splits)
  show "is_healthy (probe p) \<Longrightarrow> fst (send_frame us sw p f w) \<noteq> Inl Plane_Closed"
    by (cases p) (auto simp: send_udp_def send_usb_def split: option.splits prod.splits sum.splits)
qed

section \<open>The router\<close>

fun data_plane_format_to_path :: "data_plane_format \<Rightarrow> data_plane_path" where
  "data_plane_format_to_path LegacyLas1 = Path_LegacyLas1"
| "data_plane_format_to_path V2Header = Path_V2Header"

definition data_plane_path_from_name :: "string \<Rightarrow> data_plane_path" where
  "data_plane_path_from_name name =
     (if name = ''legacy_las1'' then Path_LegacyLas1
      else if name = ''usb_direct'' then Path_UsbDirect
      else Path_V2Header)"

fun config_plane :: "data_plane_format \<Rightarrow> transport_mode \<Rightarrow> ('sock, 'wr) data_plane" where
  "config_plane LegacyLas1 _ = LegacyLas1DataPlane None None"
| "config_plane V2Header (Mode_Usb _) = UsbDirectDataPlane None"
| "config_plane V2Header Mode_WiFi = V2HeaderDataPlane None None"

record ('sock, 'wr) data_plane_router =
  main_format :: data_plane_format
  main_codec :: codec_selection
  rollback_format :: data_plane_format
  rollback_codec :: codec_selection
  active_format :: data_plane_format
  active_codec :: codec_selection
  active_plane :: "('sock, 'wr) data_plane"
  active_is_main :: bool

definition router_force_rollback ::
  "('sock, 'wr) data_plane_router \<Rightarrow> ('sock, 'wr) data_plane_router" where
  "router_force_rollback r =
     r\<lparr>active_plane := LegacyLas1DataPlane None None, active_format := rollback_format r,
       active_codec := rollback_codec r, active_is_main := False\<rparr>"

definition router_from_config :: "'f server_config \<Rightarrow> ('sock, 'wr) data_plane_router" where
  "router_from_config config =
     (let mf = selected_data_plane_format config;
          mc = effective_codec_selection config;
          router = \<lparr>main_format = mf, main_codec = mc, rollback_format = LegacyLas1,
            rollback_codec = Sel_Pcm16, active_format = mf, active_codec = mc,
            active_plane = config_plane mf (cfg_transport_mode config), active_is_main = True\<rparr>
      in if cfg_force_rollback config then router_force_rollback router else router)"

definition active_path :: "('sock, 'wr) data_plane_router \<Rightarrow> data_plane_path" where
  "active_path r = data_plane_path_from_name (path_name (active_plane r))"

definition rollback_available :: "('sock, 'wr) data_plane_router \<Rightarrow> bool" where
  "rollback_available r \<longleftrightarrow> active_is_main r
     \<and> (main_format r \<noteq> rollback_format r \<or> main_codec r \<noteq> rollback_codec r)"

text \<open>What the session and the transport rely on: path, format and codec of a router agree.\<close>

definition router_inv :: "('sock, 'wr) data_plane_router \<Rightarrow> bool" where
  "router_inv r \<longleftrightarrow> rollback_format r = LegacyLas1 \<and> rollback_codec r = Sel_Pcm16
     \<and> active_codec r \<noteq> Sel_Pcm24
     \<and> (active_format r = LegacyLas1 \<longrightarrow> active_codec r = Sel_Pcm16)
     \<and> (active_format r = LegacyLas1 \<longleftrightarrow> active_path r = Path_LegacyLas1)
     \<and> (active_is_main r \<longrightarrow> active_format r = main_format r \<and> active_codec r = main_codec r)"

lemma effective_codec_cases:
  "effective_codec_selection cfg \<noteq> Sel_Pcm24"
  "selected_data_plane_format cfg = LegacyLas1 \<Longrightarrow> effective_codec_selection cfg = Sel_Pcm16"
  by (simp_all add: effective_codec_selection_def split: codec_selection.splits
      data_plane_format.splits)

lemma path_of_config_plane:
  "data_plane_path_from_name (path_name (config_plane fmt t)) = Path_LegacyLas1 \<longleftrightarrow> fmt = LegacyLas1"
  by (cases fmt; cases t) (simp_all add: data_plane_path_from_name_def)

lemma router_force_rollback_inv: "router_inv r \<Longrightarrow> router_inv (router_force_rollback r)"
  by (simp add: router_inv_def router_force_rollback_def active_path_def
      data_plane_path_from_name_def)

interpretation router: total_machine "\<lambda>(_ :: unit). router_force_rollback" router_inv
  by unfold_locales (rule router_force_rollback_inv)

lemma router_from_config_inv: "router_inv (router_from_config cfg)"
proof -
  have "router_inv (router_from_config (cfg\<lparr>cfg_force_rollback := False\<rparr>))"
    using effective_codec_cases [of "cfg\<lparr>cfg_force_rollback := False\<rparr>"]
    by (simp add: router_inv_def router_from_config_def Let_def active_path_def
        path_of_config_plane)
  then show ?thesis
    using router_force_rollback_inv
    by (fastforce simp: router_from_config_def Let_def selected_data_plane_format_def
        effective_codec_selection_def)
qed

section \<open>From an audio packet to datagrams\<close>

definition frame_duration_of :: "u16 \<Rightarrow> u32 \<Rightarrow> u16" where
  "frame_duration_of frames_per_packet sample_rate =
     (if sample_rate = 0 then 0 else ucast (ucast frames_per_packet * (1000 :: u32) div sample_rate))"

definition build_v2_header_preview ::
  "udp_audio_packet \<Rightarrow> u16 \<Rightarrow> udp_audio_codec_v2 \<Rightarrow> udp_audio_header_v2" where
  "build_v2_header_preview packet flags codec =
     \<lparr>v2_magic = UDP_AUDIO_MAGIC_V2, v2_protocol_version = PROTOCOL_VERSION_V2,
      v2_header_size = of_nat UDP_AUDIO_HEADER_V2_LEN, v2_flags = flags,
      v2_sequence = p_sequence packet, v2_timestamp_ms = p_timestamp_ms packet,
      v2_codec = codec, v2_channels = p_channels packet, v2_sample_rate = p_sample_rate packet,
      v2_frame_duration_ms = frame_duration_of (p_frames_per_packet packet) (p_sample_rate packet),
      v2_payload_size = of_nat (length (p_payload packet)), v2_reserved = 0\<rparr>"

fun encode_packet_by_data_plane ::
  "udp_audio_packet \<Rightarrow> data_plane_format \<Rightarrow> u16 \<Rightarrow> udp_audio_codec_v2 \<Rightarrow> u8 list" where
  "encode_packet_by_data_plane packet LegacyLas1 vflags codec = encode_las1 packet"
| "encode_packet_by_data_plane packet V2Header vflags codec =
     encode_packet_v2 \<lparr>v2_header = build_v2_header_preview packet vflags codec,
       v2_payload = p_payload packet\<rparr>"

definition MAX_PCM24_FRAG_PAYLOAD_BYTES :: nat where
  "MAX_PCM24_FRAG_PAYLOAD_BYTES = 1392"

definition pcm24_total_frags :: "nat \<Rightarrow> nat" where
  "pcm24_total_frags total_payload =
     (if total_payload = 0 then 1
      else max (div_ceil total_payload MAX_PCM24_FRAG_PAYLOAD_BYTES) 1)"

definition pcm24_fragment ::
  "udp_audio_packet \<Rightarrow> u16 \<Rightarrow> udp_audio_codec_v2 \<Rightarrow> u8 \<Rightarrow> nat \<Rightarrow> u32 \<Rightarrow> udp_audio_packet_v3" where
  "pcm24_fragment packet vflags codec total_frags frag_index next_sequence =
     (let total_payload = length (p_payload packet);
          start = frag_index * MAX_PCM24_FRAG_PAYLOAD_BYTES;
          stop = min ((frag_index + 1) * MAX_PCM24_FRAG_PAYLOAD_BYTES) total_payload;
          chunk = slice (p_payload packet) start stop
      in \<lparr>v3_header =
           \<lparr>v3_magic = UDP_AUDIO_MAGIC_V3, v3_protocol_version = PROTOCOL_VERSION_V3,
            v3_header_size = of_nat UDP_AUDIO_HEADER_V3_LEN, v3_flags = vflags,
            v3_sequence = next_sequence, v3_timestamp_ms = p_timestamp_ms packet,
            v3_codec = codec, v3_channels = p_channels packet,
            v3_sample_rate = p_sample_rate packet,
            v3_frame_duration_ms =
              frame_duration_of (p_frames_per_packet packet) (p_sample_rate packet),
            v3_payload_size = of_nat (length chunk),
            v3_frag_index = of_nat frag_index, v3_total_frags = total_frags,
            v3_logical_seq = p_sequence packet\<rparr>,
          v3_payload = chunk\<rparr>)"

text \<open>The \<open>for frag_index in 0..total_frags_u\<close> loop: the datagrams and the advanced counter.\<close>

fun pcm24_frag_loop ::
  "udp_audio_packet \<Rightarrow> u16 \<Rightarrow> udp_audio_codec_v2 \<Rightarrow> u8 \<Rightarrow> nat list \<Rightarrow> u32
   \<Rightarrow> u8 list list \<times> u32" where
  "pcm24_frag_loop packet flags codec nfrags [] next = ([], next)"
| "pcm24_frag_loop packet flags codec nfrags (i # is) next =
     (let bytes = encode_packet_v3 (pcm24_fragment packet flags codec nfrags i next);
          (out, next') = pcm24_frag_loop packet flags codec nfrags is (next + 1)
      in (bytes # out, next'))"

definition encode_packets_by_data_plane ::
  "udp_audio_packet \<Rightarrow> data_plane_format \<Rightarrow> u16 \<Rightarrow> udp_audio_codec_v2 \<Rightarrow> u32
   \<Rightarrow> u8 list list \<times> u32" where
  "encode_packets_by_data_plane packet data_plane vflags codec next_sequence =
     (if codec \<noteq> Udp_Pcm24
      then ([encode_packet_by_data_plane packet data_plane vflags codec], next_sequence + 1)
      else if data_plane = LegacyLas1 then ([], next_sequence)
      else let total_frags_u = pcm24_total_frags (length (p_payload packet)) in
        if total_frags_u > 255 then ([], next_sequence)
        else pcm24_frag_loop packet vflags codec (of_nat total_frags_u)
               [0 ..< total_frags_u] next_sequence)"

section \<open>Lemmas on fragmentation\<close>

lemma pcm24_frag_loop_map:
  "pcm24_frag_loop p fl c t is nx =
     (map (\<lambda>k. encode_packet_v3 (pcm24_fragment p fl c t (is ! k) (nx + of_nat k))) [0 ..< length is],
      nx + of_nat (length is))"
proof (induction "is" arbitrary: nx)
  case (Cons i "is")
  show ?case by (simp add: Cons Let_def map_upt_Suc add.assoc del: upt_Suc)
qed simp

lemma pcm24_total_frags_pos: "0 < pcm24_total_frags n"
  by (simp add: pcm24_total_frags_def less_max_iff_disj)

lemma pcm24_total_frags_le: "pcm24_total_frags n \<le> k \<longleftrightarrow> 0 < k \<and> n \<le> k * 1392"
  by (auto simp: pcm24_total_frags_def MAX_PCM24_FRAG_PAYLOAD_BYTES_def div_ceil_le_iff)

lemma pcm24_total_frags_cover: "n \<le> pcm24_total_frags n * 1392"
  using pcm24_total_frags_le [of n "pcm24_total_frags n"] by simp

lemma wf_pcm24_fragment:
  assumes "i < t" and "t \<le> 255"
  shows "wf_packet_v3 (pcm24_fragment p fl c (of_nat t) i nx)"
proof -
  have "(of_nat i :: u8) < of_nat t"
    using assms by (simp add: word_less_nat_alt take_bit_nat_eq_self unsigned_of_nat)
  moreover have "unat (of_nat (length (v3_payload (pcm24_fragment p fl c (of_nat t) i nx))) :: u16)
      = length (v3_payload (pcm24_fragment p fl c (of_nat t) i nx))"
    by (simp add: pcm24_fragment_def Let_def MAX_PCM24_FRAG_PAYLOAD_BYTES_def unsigned_of_nat
        take_bit_nat_eq_self)
  ultimately show ?thesis
    by (simp add: wf_packet_v3_def wf_header_v3_def pcm24_fragment_def Let_def
        UDP_AUDIO_HEADER_V3_LEN_def UDP_AUDIO_HEADER_V2_LEN_def)
qed

definition pcm24_packets ::
  "udp_audio_packet \<Rightarrow> u16 \<Rightarrow> u32 \<Rightarrow> udp_audio_packet_v3 list" where
  "pcm24_packets p fl seq =
     (let n = pcm24_total_frags (length (p_payload p)) in
      map (\<lambda>k. pcm24_fragment p fl Udp_Pcm24 (of_nat n) k (seq + of_nat k)) [0 ..< n])"

lemma encode_packets_pcm24:
  assumes "length (p_payload p) \<le> 255 * 1392"
  shows "encode_packets_by_data_plane p V2Header fl Udp_Pcm24 seq
    = (map encode_packet_v3 (pcm24_packets p fl seq), seq + of_nat (length (pcm24_packets p fl seq)))"
  using assms pcm24_total_frags_le [of "length (p_payload p)" 255]
  by (simp add: encode_packets_by_data_plane_def Let_def pcm24_frag_loop_map pcm24_packets_def)

lemma decode_pcm24_packets:
  assumes "length (p_payload p) \<le> 255 * 1392"
  shows "map decode_packet_v3 (map encode_packet_v3 (pcm24_packets p fl seq))
    = map Inr (pcm24_packets p fl seq)"
  using assms pcm24_total_frags_le [of "length (p_payload p)" 255]
  by (auto simp: pcm24_packets_def Let_def intro!: v3.decode_encode wf_pcm24_fragment)

lemma concat_pcm24_packets: "concat (map v3_payload (pcm24_packets p fl seq)) = p_payload p"
proof -
  have "map v3_payload (pcm24_packets p fl seq)
      = map (\<lambda>i. slice (p_payload p) (i * 1392) (min ((i + 1) * 1392) (length (p_payload p))))
          [0 ..< pcm24_total_frags (length (p_payload p))]"
    by (simp add: pcm24_packets_def Let_def pcm24_fragment_def MAX_PCM24_FRAG_PAYLOAD_BYTES_def)
  then show ?thesis
    by (simp only: concat_slices) (simp add: pcm24_total_frags_cover)
qed

section \<open>Properties\<close>

text \<open>
  C1: PCM24 fragmentation loses nothing. For any packet of at most 255 fragments' worth of
  payload, every datagram the encoder returns decodes as a v3 packet; the decoded payloads in
  order are the packet's payload; the fragments carry the indices 0, 1, ... below a common total
  (their number), the packet's sequence as the logical sequence and consecutive wire sequence
  numbers, and the worker's counter advances by the number of datagrams. Their number is the payload
  over 1392 rounded up, so 3 for the 2880 bytes of 5 ms of 96 kHz stereo, where the comments of
  \<open>data_plane.rs\<close> and \<open>transport.rs\<close>, the changelog and the design document all say 2.
\<close>
theorem pcm24_fragments_reassemble:
  assumes "length (p_payload p) \<le> 255 * MAX_PCM24_FRAG_PAYLOAD_BYTES"
    and "encode_packets_by_data_plane p V2Header fl Udp_Pcm24 seq = (ds, seq')"
  shows "\<exists>ps :: udp_audio_packet_v3 list. map decode_packet_v3 ds = map Inr ps
    \<and> concat (map v3_payload ps) = p_payload p
    \<and> length ps = max 1 (div_ceil (length (p_payload p)) MAX_PCM24_FRAG_PAYLOAD_BYTES)
    \<and> seq' = seq + of_nat (length ps)
    \<and> (\<forall>i < length ps. let h = v3_header (ps ! i) in
         v3_frag_index h = of_nat i \<and> v3_total_frags h = of_nat (length ps)
         \<and> v3_sequence h = seq + of_nat i \<and> v3_logical_seq h = p_sequence p
         \<and> v3_timestamp_ms h = p_timestamp_ms p \<and> v3_codec h = Udp_Pcm24)"
proof (intro exI conjI allI impI)
  have le: "length (p_payload p) \<le> 255 * 1392"
    using assms(1) by (simp add: MAX_PCM24_FRAG_PAYLOAD_BYTES_def)
  have ds: "ds = map encode_packet_v3 (pcm24_packets p fl seq)"
    using assms(2) by (simp add: encode_packets_pcm24 [OF le])
  show "map decode_packet_v3 ds = map Inr (pcm24_packets p fl seq)"
    unfolding ds by (rule decode_pcm24_packets [OF le])
  show "seq' = seq + of_nat (length (pcm24_packets p fl seq))"
    using assms(2) by (simp add: encode_packets_pcm24 [OF le])
  show "length (pcm24_packets p fl seq)
      = max 1 (div_ceil (length (p_payload p)) MAX_PCM24_FRAG_PAYLOAD_BYTES)"
    by (simp add: pcm24_packets_def Let_def pcm24_total_frags_def div_ceil_def
        MAX_PCM24_FRAG_PAYLOAD_BYTES_def max.commute)
  show "concat (map v3_payload (pcm24_packets p fl seq)) = p_payload p"
    by (rule concat_pcm24_packets)
qed (simp_all add: pcm24_packets_def pcm24_fragment_def Let_def)

definition sample_packet_las1 :: "nat \<Rightarrow> udp_audio_packet" where
  "sample_packet_las1 n = \<lparr>p_version = 1, p_flags = 0, p_sequence = 77, p_timestamp_ms = 5,
     p_sample_rate = 96000, p_channels = 2, p_frames_per_packet = 480,
     p_payload = replicate n 1\<rparr>"

theorem pcm24_fragments_reassemble_witness:
  "\<exists>ps :: udp_audio_packet_v3 list. length ps = 3 \<and> concat (map v3_payload ps) = replicate 2880 1
     \<and> snd (encode_packets_by_data_plane (sample_packet_las1 2880) V2Header 0 Udp_Pcm24 9) = 12"
proof -
  obtain ds seq' where e:
    "encode_packets_by_data_plane (sample_packet_las1 2880) V2Header 0 Udp_Pcm24 9 = (ds, seq')"
    by (cases "encode_packets_by_data_plane (sample_packet_las1 2880) V2Header 0 Udp_Pcm24 9")
  have len: "length (p_payload (sample_packet_las1 2880)) = 2880"
    and pay: "p_payload (sample_packet_las1 2880) = replicate 2880 1"
    by (simp_all add: sample_packet_las1_def)
  then have "length (p_payload (sample_packet_las1 2880)) \<le> 255 * MAX_PCM24_FRAG_PAYLOAD_BYTES"
    by (simp add: MAX_PCM24_FRAG_PAYLOAD_BYTES_def)
  from pcm24_fragments_reassemble [OF this e] obtain ps :: "udp_audio_packet_v3 list"
    where n: "length ps = max 1 (div_ceil 2880 1392)"
      and c: "concat (map v3_payload ps) = replicate 2880 1"
      and q: "seq' = 9 + of_nat (length ps)"
    unfolding pay length_replicate MAX_PCM24_FRAG_PAYLOAD_BYTES_def
    by blast
  have "length ps = 3" using n by (simp add: div_ceil_def)
  with e q have "seq' = 12" by simp
  with \<open>length ps = 3\<close> c e show ?thesis by (metis snd_conv)
qed

text \<open>
  The size contract of PCM24 fragments. Each datagram is a 37-byte v3 header and at most
  1392 bytes of payload, so it stays below 1430 bytes; every fragment but the last carries
  exactly 1392 bytes, a multiple of the 6-byte stereo sample stride, so when the payload is
  sample aligned every fragment is.
\<close>
theorem pcm24_fragment_sizes:
  assumes "length (p_payload p) \<le> 255 * MAX_PCM24_FRAG_PAYLOAD_BYTES"
    and "encode_packets_by_data_plane p V2Header fl Udp_Pcm24 seq = (ds, seq')"
    and "i < length ds"
  shows "length (ds ! i) \<le> 1429
    \<and> (i + 1 < length ds \<longrightarrow> length (ds ! i) = UDP_AUDIO_HEADER_V3_LEN + 1392)
    \<and> (length (p_payload p) mod 6 = 0
        \<longrightarrow> (length (ds ! i) - UDP_AUDIO_HEADER_V3_LEN) mod 6 = 0)"
proof -
  let ?L = "length (p_payload p)" and ?n = "pcm24_total_frags (length (p_payload p))"
  have le: "?L \<le> 255 * 1392"
    using assms(1) by (simp add: MAX_PCM24_FRAG_PAYLOAD_BYTES_def)
  then have n255: "?n \<le> 255" by (simp add: pcm24_total_frags_le)
  have ds: "ds = map encode_packet_v3 (pcm24_packets p fl seq)"
    using assms(2) by (simp add: encode_packets_pcm24 [OF le])
  have i: "i < ?n" using assms(3) by (simp add: ds pcm24_packets_def Let_def)
  have "length (ds ! i) = 37 + min 1392 (?L - i * 1392)"
    using i wf_pcm24_fragment [OF i n255, of p fl Udp_Pcm24 "seq + of_nat i"]
    by (simp add: ds pcm24_packets_def Let_def length_encode_packet_v3 wf_packet_v3_def)
      (auto simp: pcm24_fragment_def Let_def wire_simps MAX_PCM24_FRAG_PAYLOAD_BYTES_def)
  moreover have "i + 1 < ?n \<Longrightarrow> (i + 1) * 1392 < ?L"
    using pcm24_total_frags_le [of ?L "i + 1"] by auto
  moreover have "?L mod 6 = 0 \<Longrightarrow> min 1392 (?L - i * 1392) mod 6 = 0"
    by (cases "1392 \<le> ?L - i * 1392") (auto simp: min_def mod_eq_0_iff_dvd dvd_diff_nat)
  ultimately show ?thesis
    using assms(3) by (auto simp: ds pcm24_packets_def Let_def wire_simps)
qed

theorem pcm24_fragment_sizes_witness:
  "length (fst (encode_packets_by_data_plane (sample_packet_las1 2880) V2Header 0 Udp_Pcm24 9) ! 0)
   = 1429"
proof -
  let ?e = "encode_packets_by_data_plane (sample_packet_las1 2880) V2Header 0 Udp_Pcm24 9"
  have len: "length (p_payload (sample_packet_las1 2880)) = 2880"
    by (simp add: sample_packet_las1_def)
  then have n: "length (fst ?e) = 3"
    by (simp add: encode_packets_pcm24 pcm24_packets_def Let_def pcm24_total_frags_def
        div_ceil_def MAX_PCM24_FRAG_PAYLOAD_BYTES_def)
  then show ?thesis
    using pcm24_fragment_sizes [of "sample_packet_las1 2880" 0 9 "fst ?e" "snd ?e" 0] len
    by (simp add: MAX_PCM24_FRAG_PAYLOAD_BYTES_def wire_simps)
qed

text \<open>
  Every other outcome of \<open>encode_packets_by_data_plane\<close>. A codec other than PCM24 gives
  exactly one datagram and advances the counter by one, wrapping; on the v2 plane that datagram
  decodes to the packet's payload and fields when the payload fits 16 bits. PCM24 on the legacy
  plane, or of more than 255 fragments, gives no datagram and leaves the counter alone.
\<close>
theorem encode_packets_other_codecs:
  "(c \<noteq> Udp_Pcm24 \<longrightarrow>
      encode_packets_by_data_plane p fmt fl c seq = ([encode_packet_by_data_plane p fmt fl c], seq + 1))
   \<and> (length (p_payload p) < 2 ^ 16 \<longrightarrow>
        decode_packet_v2 (encode_packet_by_data_plane p V2Header fl c)
        = Inr \<lparr>v2_header = build_v2_header_preview p fl c, v2_payload = p_payload p\<rparr>
      \<and> decode_las1 (encode_packet_by_data_plane p LegacyLas1 fl c) = Inr p)
   \<and> encode_packets_by_data_plane p LegacyLas1 fl Udp_Pcm24 seq = ([], seq)
   \<and> (255 * MAX_PCM24_FRAG_PAYLOAD_BYTES < length (p_payload p) \<longrightarrow>
        encode_packets_by_data_plane p V2Header fl Udp_Pcm24 seq = ([], seq))"
proof (intro conjI impI)
  show "encode_packets_by_data_plane p V2Header fl Udp_Pcm24 seq = ([], seq)"
    if "255 * MAX_PCM24_FRAG_PAYLOAD_BYTES < length (p_payload p)"
    using that pcm24_total_frags_le [of "length (p_payload p)" 255]
    by (simp add: encode_packets_by_data_plane_def MAX_PCM24_FRAG_PAYLOAD_BYTES_def Let_def)
  assume le: "length (p_payload p) < 2 ^ 16"
  show "decode_las1 (encode_packet_by_data_plane p LegacyLas1 fl c) = Inr p"
    using le by (simp add: las1.decode_encode wf_las1_def)
  have "wf_packet_v2 \<lparr>v2_header = build_v2_header_preview p fl c, v2_payload = p_payload p\<rparr>"
    using le by (simp add: wf_packet_v2_def wf_header_v2_def build_v2_header_preview_def
        UDP_AUDIO_HEADER_V2_LEN_def unsigned_of_nat take_bit_nat_eq_self)
  then show "decode_packet_v2 (encode_packet_by_data_plane p V2Header fl c)
      = Inr \<lparr>v2_header = build_v2_header_preview p fl c, v2_payload = p_payload p\<rparr>"
    by (simp add: v2.decode_encode)
qed (simp_all add: encode_packets_by_data_plane_def)

theorem encode_packets_other_codecs_witness:
  "decode_las1 (encode_packet_by_data_plane (sample_packet_las1 6) LegacyLas1 0 Udp_Pcm16)
   = Inr (sample_packet_las1 6)"
  using encode_packets_other_codecs [where p = "sample_packet_las1 6" and c = Udp_Pcm16 and fl = 0]
  by (simp add: sample_packet_las1_def del: encode_packet_by_data_plane.simps)

text \<open>
  The router. Whatever the configuration, and after any number of forced rollbacks, the
  active format, codec and path agree: the legacy path is active exactly with the legacy format,
  it always carries PCM16, PCM24 is never active, a router still on its main path runs the main
  format and codec, and once a rollback was forced no further rollback is offered.
\<close>
theorem router_consistent:
  "let r = (router_force_rollback ^^ n) (router_from_config cfg) :: ('sock, 'wr) data_plane_router in
     active_codec r \<noteq> Sel_Pcm24
     \<and> (active_format r = LegacyLas1 \<longleftrightarrow> active_path r = Path_LegacyLas1)
     \<and> (active_format r = LegacyLas1 \<longrightarrow> active_codec r = Sel_Pcm16)
     \<and> (active_is_main r \<longrightarrow> active_format r = main_format r \<and> active_codec r = main_codec r)
     \<and> (0 < n \<longrightarrow> active_path r = Path_LegacyLas1 \<and> \<not> rollback_available r)"
proof -
  let ?r = "(router_force_rollback ^^ n) (router_from_config cfg)"
  have "router_inv ?r"
    by (induction n) (simp_all add: router_from_config_inv router_force_rollback_inv)
  moreover have "0 < n \<Longrightarrow> active_path ?r = Path_LegacyLas1 \<and> \<not> rollback_available ?r"
    by (cases n) (simp_all add: router_force_rollback_def active_path_def
        data_plane_path_from_name_def rollback_available_def)
  ultimately show ?thesis by (auto simp: router_inv_def Let_def)
qed

theorem router_consistent_witness:
  "active_path ((router_force_rollback ^^ 1) (router_from_config sample_config)
     :: (nat, nat) data_plane_router) = Path_LegacyLas1"
  using router_consistent [where 'sock = nat and 'wr = nat and n = 1 and cfg = sample_config]
  unfolding Let_def by (simp only: zero_less_one simp_thms)

end
