(* ===== verification/Protocol_Messages.thy ===== *)
theory Protocol_Messages
  imports Server_Config
begin

text \<open>
  The control messages of \<open>crates/lan_audio_protocol/src/lib.rs\<close> as typed values: the v2
  control channel, the legacy client and server messages, the discovery beacon and the watermark
  report. Their JSON text is produced and parsed by serde\_json, which is not under \<open>src/\<close>: a
  \<open>json_api\<close> is a parameter of every operation that reads or writes a message.
\<close>

section \<open>Capabilities and handshake\<close>

record protocol_capabilities =
  supports_pcm16 :: bool
  supports_f32 :: bool
  supports_modes :: bool
  supports_metrics :: bool
  supports_opus_future :: bool
  supports_opus :: bool
  supports_opus_experimental :: bool
  supports_low_latency :: bool
  supports_high_quality :: bool
  supports_native_audio_track :: bool
  supports_fast_path :: bool
  supports_stable_audio_track :: bool
  supports_usb_tethering :: bool
  supports_usb_direct_future :: bool
  supports_reverse_channel :: bool
  supports_hires_pcm24 :: bool
  supports_ultra_low_latency :: bool

record hello =
  hello_protocol_version :: u8
  hello_device_name :: string
  hello_client_id :: string
  hello_udp_port :: u16
  hello_desired_sample_rate :: u32
  hello_channels :: u8
  hello_capabilities :: protocol_capabilities
  hello_preferred_audio_mode :: audio_mode

record hello_ack =
  ack_protocol_version :: u8
  ack_accepted :: bool
  ack_session_id :: uuid
  ack_current_audio_mode :: audio_mode
  ack_transport_type :: transport_type
  ack_mode_profile :: audio_mode_profile
  ack_capabilities :: protocol_capabilities
  ack_message :: string

record server_info =
  si_server_id :: uuid
  si_server_name :: string
  si_platform :: string
  si_app_version :: string
  si_ws_port :: u16
  si_udp_port :: u16
  si_protocol_version :: u8
  si_current_audio_mode :: audio_mode
  si_mode_profile :: audio_mode_profile
  si_codec :: audio_codec_preference
  si_data_plane :: string
  si_gray_mode :: bool
  si_recommended_connection :: string
  si_mix_format_hz :: "u32 option"

record client_info =
  ci_client_name :: string
  ci_platform :: string
  ci_app_version :: string
  ci_udp_port :: u16

section \<open>Modes, clients, playback\<close>

record set_audio_mode =
  sam_mode :: audio_mode
  sam_reason :: string
  sam_preferred_sample_rate :: "u32 option"
  sam_preferred_codec :: "audio_codec_preference option"

record audio_mode_changed =
  amc_mode :: audio_mode
  amc_applied :: bool
  amc_reason :: string
  amc_mode_profile :: audio_mode_profile
  amc_effective_codec :: "audio_codec_preference option"

record client_list_entry =
  cle_id :: uuid
  cle_name :: string
  cle_mode :: audio_mode

datatype playback_state_kind = Playback_Idle | Playback_Buffering | Playback_Streaming | Playback_Error

record playback_state =
  ps_state :: playback_state_kind
  ps_buffered_ms :: u32
  ps_active_sessions :: u32

record proto_metrics_snapshot =
  pms_tx_packets :: u64
  pms_tx_bytes :: u64
  pms_capture_read_errors :: u64
  pms_capture_underruns :: u64
  pms_active_sessions :: u64

record error_message =
  em_code :: string
  em_message :: string
  em_recoverable :: bool
  em_failure_code :: "failure_code option"

record reconnect_hint =
  rh_after_ms :: u32
  rh_reason :: string

datatype negotiation_error =
    UnsupportedProtocolVersion u8 u8
  | UnsupportedCodec audio_codec_preference
  | UnsupportedDataPlane data_plane_path
  | CapabilityMismatch string
  | TooManyClients u8
  | InvalidModeProfile audio_mode string

section \<open>Messages\<close>

datatype control_message_v2 =
    Msg_Hello hello
  | Msg_HelloAck hello_ack
  | Msg_ServerInfo server_info
  | Msg_ClientInfo client_info
  | Msg_ClientList "client_list_entry list"
  | Msg_ClientJoined uuid string
  | Msg_ClientLeft uuid string
  | Msg_SetAudioMode set_audio_mode
  | Msg_AudioModeChanged audio_mode_changed
  | Msg_PlaybackState playback_state
  | Msg_MetricsSnapshot proto_metrics_snapshot
  | Msg_Error error_message
  | Msg_ReconnectHint reconnect_hint

record watermark_report =
  wr_ts_unix_ms :: u64
  wr_jitter_buf_ms :: u32
  wr_ring_buf_ms :: u32
  wr_silence_fill_delta :: u32
  wr_underrun_delta :: u32
  wr_jitter_p95_us :: u32

datatype client_control_message =
    ClientHello string u16 u32 u8 \<comment> \<open>name, udp port, desired rate, channels\<close>
  | ClientPing u64 u64
  | ClientWatermark watermark_report

datatype server_control_message =
    ServerWelcome uuid string u32 u8 u16
  | ServerPong u64 u64
  | ServerMetrics u64 u64 u64
  | ServerError string string

record discovery_beacon =
  db_kind :: string
  db_server_id :: uuid
  db_server_name :: string
  db_ws_port :: u16
  db_udp_port :: u16
  db_reverse_channel_port :: u16
  db_control_channel_port :: u16
  db_ts_unix_ms :: u64

text \<open>The JSON library: printing may fail (\<open>None\<close>), parsing gives an error text or a value.\<close>

record json_api =
  show_v2 :: "control_message_v2 \<Rightarrow> string option"
  show_server :: "server_control_message \<Rightarrow> string option"
  parse_v2 :: "string \<Rightarrow> string + control_message_v2"
  parse_client :: "string \<Rightarrow> string + client_control_message"

end
