(* ===== verification/Service_Metrics.thy ===== *)
theory Service_Metrics
  imports Audio_Prelude
begin

text \<open>
  The shared counters of \<open>crates/lan_audio_server/src/metrics.rs\<close>. Atomic \<open>fetch_add\<close> and
  \<open>fetch_sub\<close> wrap at 64 bits; the locks are not poisoned (no holder panics), so every write
  succeeds. Floating-point levels are real numbers. Strings are byte strings and \<open>trim\<close> removes
  the ASCII white space at both ends.
\<close>

section \<open>Trimming\<close>

definition is_space :: "char \<Rightarrow> bool" where
  "is_space c \<longleftrightarrow> c \<in> {CHR '' '', CHR 0x09, CHR 0x0A, CHR 0x0B, CHR 0x0C, CHR 0x0D}"

definition str_trim :: "string \<Rightarrow> string" where
  "str_trim s = rev (dropWhile is_space (rev (dropWhile is_space s)))"

section \<open>The counters\<close>

record metrics =
  m_tx_packets :: u64
  m_tx_bytes :: u64
  m_active_sessions :: u64
  m_capture_frames_produced :: u64
  m_capture_read_errors :: u64
  m_capture_underruns :: u64
  m_capture_start_attempts :: u64
  m_capture_start_failures :: u64
  m_capture_silent_frames :: u64
  m_capture_non_silent_frames :: u64
  m_capture_no_packet_count :: u64
  m_last_capture_pts_ms :: u64
  m_capture_sample_rate :: u64
  m_capture_channels :: u64
  m_capture_buffer_frames :: u64
  m_capture_last_peak :: real
  m_capture_last_rms :: real
  m_current_audio_source :: string
  m_capture_source_state :: string
  m_capture_device_name :: string
  m_negotiated_data_plane :: string
  m_negotiated_codec :: string
  m_recent_clients :: "string list"
  m_adaptive_tier :: string
  m_adaptive_predicted_cpu_x100 :: u64
  m_adaptive_queue_ratio_x10000 :: u64

definition metrics_default :: metrics where
  "metrics_default =
     \<lparr>m_tx_packets = 0, m_tx_bytes = 0, m_active_sessions = 0, m_capture_frames_produced = 0,
      m_capture_read_errors = 0, m_capture_underruns = 0, m_capture_start_attempts = 0,
      m_capture_start_failures = 0, m_capture_silent_frames = 0, m_capture_non_silent_frames = 0,
      m_capture_no_packet_count = 0, m_last_capture_pts_ms = 0, m_capture_sample_rate = 0,
      m_capture_channels = 0, m_capture_buffer_frames = 0, m_capture_last_peak = 0,
      m_capture_last_rms = 0, m_current_audio_source = [], m_capture_source_state = [],
      m_capture_device_name = [], m_negotiated_data_plane = [], m_negotiated_codec = [],
      m_recent_clients = [], m_adaptive_tier = [], m_adaptive_predicted_cpu_x100 = 0,
      m_adaptive_queue_ratio_x10000 = 0\<rparr>"

definition inc_packets :: "nat \<Rightarrow> metrics \<Rightarrow> metrics" where
  "inc_packets packet_bytes m = m\<lparr>m_tx_packets := m_tx_packets m + 1,
     m_tx_bytes := m_tx_bytes m + of_nat packet_bytes\<rparr>"

definition inc_sessions :: "metrics \<Rightarrow> metrics" where
  "inc_sessions m = m\<lparr>m_active_sessions := m_active_sessions m + 1\<rparr>"

definition dec_sessions :: "metrics \<Rightarrow> metrics" where
  "dec_sessions m = m\<lparr>m_active_sessions := m_active_sessions m - 1\<rparr>"

definition inc_capture_frames_produced :: "metrics \<Rightarrow> metrics" where
  "inc_capture_frames_produced m =
     m\<lparr>m_capture_frames_produced := m_capture_frames_produced m + 1\<rparr>"

definition inc_capture_read_errors :: "metrics \<Rightarrow> metrics" where
  "inc_capture_read_errors m = m\<lparr>m_capture_read_errors := m_capture_read_errors m + 1\<rparr>"

definition inc_capture_underruns :: "metrics \<Rightarrow> metrics" where
  "inc_capture_underruns m = m\<lparr>m_capture_underruns := m_capture_underruns m + 1\<rparr>"

definition inc_capture_start_attempts :: "metrics \<Rightarrow> metrics" where
  "inc_capture_start_attempts m = m\<lparr>m_capture_start_attempts := m_capture_start_attempts m + 1\<rparr>"

definition inc_capture_start_failures :: "metrics \<Rightarrow> metrics" where
  "inc_capture_start_failures m = m\<lparr>m_capture_start_failures := m_capture_start_failures m + 1\<rparr>"

definition inc_capture_silent_frames :: "metrics \<Rightarrow> metrics" where
  "inc_capture_silent_frames m = m\<lparr>m_capture_silent_frames := m_capture_silent_frames m + 1\<rparr>"

definition inc_capture_non_silent_frames :: "metrics \<Rightarrow> metrics" where
  "inc_capture_non_silent_frames m =
     m\<lparr>m_capture_non_silent_frames := m_capture_non_silent_frames m + 1\<rparr>"

definition inc_capture_no_packet_count :: "metrics \<Rightarrow> metrics" where
  "inc_capture_no_packet_count m =
     m\<lparr>m_capture_no_packet_count := m_capture_no_packet_count m + 1\<rparr>"

definition set_current_audio_source :: "string \<Rightarrow> metrics \<Rightarrow> metrics" where
  "set_current_audio_source source m = m\<lparr>m_current_audio_source := source\<rparr>"

definition set_capture_source_state :: "string \<Rightarrow> metrics \<Rightarrow> metrics" where
  "set_capture_source_state state m = m\<lparr>m_capture_source_state := state\<rparr>"

definition set_capture_device_name :: "string \<Rightarrow> metrics \<Rightarrow> metrics" where
  "set_capture_device_name name m = m\<lparr>m_capture_device_name := name\<rparr>"

definition set_negotiated_session_path :: "string \<Rightarrow> string \<Rightarrow> metrics \<Rightarrow> metrics" where
  "set_negotiated_session_path data_plane codec m =
     m\<lparr>m_negotiated_data_plane := data_plane, m_negotiated_codec := codec\<rparr>"

definition set_capture_format :: "u32 \<Rightarrow> u16 \<Rightarrow> metrics \<Rightarrow> metrics" where
  "set_capture_format sample_rate channels m =
     m\<lparr>m_capture_sample_rate := ucast sample_rate, m_capture_channels := ucast channels\<rparr>"

definition set_capture_buffer_frames :: "u32 \<Rightarrow> metrics \<Rightarrow> metrics" where
  "set_capture_buffer_frames frames m = m\<lparr>m_capture_buffer_frames := ucast frames\<rparr>"

definition set_capture_level :: "real \<Rightarrow> real \<Rightarrow> metrics \<Rightarrow> metrics" where
  "set_capture_level peak rms m = m\<lparr>m_capture_last_peak := peak, m_capture_last_rms := rms\<rparr>"

definition set_last_capture_pts_ms :: "u64 \<Rightarrow> metrics \<Rightarrow> metrics" where
  "set_last_capture_pts_ms pts_ms m = m\<lparr>m_last_capture_pts_ms := pts_ms\<rparr>"

definition set_adaptive_tier :: "string \<Rightarrow> metrics \<Rightarrow> metrics" where
  "set_adaptive_tier tier m = m\<lparr>m_adaptive_tier := tier\<rparr>"

definition clamp :: "real \<Rightarrow> real \<Rightarrow> real \<Rightarrow> real" where
  "clamp x lo hi = (if x < lo then lo else if hi < x then hi else x)"

definition round_half_up :: "real \<Rightarrow> int" where \<comment> \<open>\<open>f64::round\<close> on a non-negative value\<close>
  "round_half_up x = \<lfloor>x + 1 / 2\<rfloor>"

definition set_adaptive_predicted_cpu_percent :: "real \<Rightarrow> metrics \<Rightarrow> metrics" where
  "set_adaptive_predicted_cpu_percent percent m =
     m\<lparr>m_adaptive_predicted_cpu_x100 := of_int (round_half_up (clamp percent 0 100 * 100))\<rparr>"

definition set_adaptive_queue_ratio :: "real \<Rightarrow> metrics \<Rightarrow> metrics" where
  "set_adaptive_queue_ratio ratio m =
     m\<lparr>m_adaptive_queue_ratio_x10000 := of_int (round_half_up (clamp ratio 0 10 * 10000))\<rparr>"

definition client_label :: "string \<Rightarrow> string \<Rightarrow> string" where
  "client_label client_name client_ip =
     (let normalized_name = (if str_trim client_name = [] then ''Unknown Client''
                             else str_trim client_name);
          normalized_ip = str_trim client_ip
      in if normalized_ip = [] then normalized_name
         else normalized_name @ '' ('' @ normalized_ip @ '')'')"

definition note_client_connected :: "string \<Rightarrow> string \<Rightarrow> metrics \<Rightarrow> metrics" where
  "note_client_connected client_name client_ip m =
     (let label = client_label client_name client_ip
      in m\<lparr>m_recent_clients :=
            take 8 (label # filter (\<lambda>v. v \<noteq> label) (m_recent_clients m))\<rparr>)"

section \<open>Snapshot\<close>

text \<open>
  The snapshot copies every counter, except that the tier reads green while unset and the two
  scaled values come back as percent and ratio.
\<close>

record metrics_snapshot =
  ms_tx_packets :: u64
  ms_tx_bytes :: u64
  ms_active_sessions :: u64
  ms_capture_frames_produced :: u64
  ms_capture_read_errors :: u64
  ms_capture_underruns :: u64
  ms_capture_start_attempts :: u64
  ms_capture_start_failures :: u64
  ms_capture_silent_frames :: u64
  ms_capture_non_silent_frames :: u64
  ms_capture_no_packet_count :: u64
  ms_current_audio_source :: string
  ms_capture_source_state :: string
  ms_capture_device_name :: string
  ms_negotiated_data_plane :: string
  ms_negotiated_codec :: string
  ms_capture_sample_rate :: u64
  ms_capture_channels :: u64
  ms_capture_buffer_frames :: u64
  ms_capture_last_peak :: real
  ms_capture_last_rms :: real
  ms_last_capture_pts_ms :: u64
  ms_recent_clients :: "string list"
  ms_adaptive_tier :: string
  ms_adaptive_predicted_cpu_percent :: real
  ms_adaptive_queue_ratio :: real

definition snapshot :: "metrics \<Rightarrow> metrics_snapshot" where
  "snapshot m =
     \<lparr>ms_tx_packets = m_tx_packets m,
      ms_tx_bytes = m_tx_bytes m,
      ms_active_sessions = m_active_sessions m,
      ms_capture_frames_produced = m_capture_frames_produced m,
      ms_capture_read_errors = m_capture_read_errors m,
      ms_capture_underruns = m_capture_underruns m,
      ms_capture_start_attempts = m_capture_start_attempts m,
      ms_capture_start_failures = m_capture_start_failures m,
      ms_capture_silent_frames = m_capture_silent_frames m,
      ms_capture_non_silent_frames = m_capture_non_silent_frames m,
      ms_capture_no_packet_count = m_capture_no_packet_count m,
      ms_current_audio_source = m_current_audio_source m,
      ms_capture_source_state = m_capture_source_state m,
      ms_capture_device_name = m_capture_device_name m,
      ms_negotiated_data_plane = m_negotiated_data_plane m,
      ms_negotiated_codec = m_negotiated_codec m,
      ms_capture_sample_rate = m_capture_sample_rate m,
      ms_capture_channels = m_capture_channels m,
      ms_capture_buffer_frames = m_capture_buffer_frames m,
      ms_capture_last_peak = m_capture_last_peak m,
      ms_capture_last_rms = m_capture_last_rms m,
      ms_last_capture_pts_ms = m_last_capture_pts_ms m,
      ms_recent_clients = m_recent_clients m,
      ms_adaptive_tier = (if m_adaptive_tier m = [] then ''green'' else m_adaptive_tier m),
      ms_adaptive_predicted_cpu_percent = real (unat (m_adaptive_predicted_cpu_x100 m)) / 100,
      ms_adaptive_queue_ratio = real (unat (m_adaptive_queue_ratio_x10000 m)) / 10000\<rparr>"

section \<open>Lemmas\<close>

definition recent_clients_ok :: "metrics \<Rightarrow> bool" where
  "recent_clients_ok m \<longleftrightarrow> length (m_recent_clients m) \<le> 8 \<and> distinct (m_recent_clients m)"

lemma note_client_connected_ok:
  "recent_clients_ok m \<Longrightarrow> recent_clients_ok (note_client_connected name key m)"
proof -
  assume "recent_clients_ok m"
  then have "distinct (client_label name key #
      filter (\<lambda>v. v \<noteq> client_label name key) (m_recent_clients m))"
    by (simp add: recent_clients_ok_def)
  then have "distinct (take 8 (client_label name key #
      filter (\<lambda>v. v \<noteq> client_label name key) (m_recent_clients m)))"
    by (rule distinct_take)
  then show ?thesis
    by (simp add: recent_clients_ok_def note_client_connected_def Let_def del: take_Suc_Cons)
qed

interpretation recent: total_machine "\<lambda>(name, key). note_client_connected name key" recent_clients_ok
  by unfold_locales (auto intro: note_client_connected_ok)

lemma note_client_connected_sessions [simp]:
  "m_active_sessions (note_client_connected name key m) = m_active_sessions m"
  by (simp add: note_client_connected_def Let_def)

lemma clamp_bounds: "lo \<le> hi \<Longrightarrow> lo \<le> clamp x lo hi \<and> clamp x lo hi \<le> hi"
  by (simp add: clamp_def)

lemma round_half_up_error: "\<bar>of_int (round_half_up x) - x\<bar> \<le> 1 / 2"
  unfolding round_half_up_def by linarith

lemma scaled_roundtrip:
  assumes "0 \<le> x" and "x \<le> 1000000"
  shows "\<bar>real (unat (of_int (round_half_up x) :: u64)) - x\<bar> \<le> 1 / 2"
proof -
  have "0 \<le> round_half_up x" and "round_half_up x < 2000000"
    using assms unfolding round_half_up_def by linarith+
  then have "real (unat (of_int (round_half_up x) :: u64)) = of_int (round_half_up x)"
    by (simp add: unsigned_of_int take_bit_int_eq_self)
  then show ?thesis using round_half_up_error [of x] by simp
qed

section \<open>Properties\<close>

text \<open>
  The recent-clients list. After any sequence of connections it holds at most eight labels,
  all different, and the client that connected last is the first.
\<close>
theorem recent_clients_bounded:
  "let m = run_all (\<lambda>(name, key). note_client_connected name key) (cs @ [(name, key)]) metrics_default
   in length (m_recent_clients m) \<le> 8 \<and> distinct (m_recent_clients m)
      \<and> hd (m_recent_clients m) = client_label name key"
proof -
  have "recent_clients_ok metrics_default"
    by (simp add: recent_clients_ok_def metrics_default_def)
  then have "recent_clients_ok (run_all (\<lambda>(name, key). note_client_connected name key)
      (cs @ [(name, key)]) metrics_default)"
    by (rule recent.run_all_inv)
  then show ?thesis
    by (simp add: Let_def recent_clients_ok_def run_all_def note_client_connected_def)
qed

text \<open>
  The snapshot reads back what the watchdog stored. The predicted CPU load, clamped to
  0..100, comes back within 0.005 percent, the queue ratio, clamped to 0..10, within 0.00005,
  and the tier label unchanged (green when none was set).
\<close>
theorem adaptive_metrics_roundtrip:
  "let s = snapshot (set_adaptive_tier t (set_adaptive_queue_ratio q
             (set_adaptive_predicted_cpu_percent c m)))
   in \<bar>ms_adaptive_predicted_cpu_percent s - clamp c 0 100\<bar> \<le> 1 / 200
      \<and> \<bar>ms_adaptive_queue_ratio s - clamp q 0 10\<bar> \<le> 1 / 20000
      \<and> ms_adaptive_tier s = (if t = [] then ''green'' else t)"
proof -
  have c: "\<bar>real (unat (of_int (round_half_up (clamp c 0 100 * 100)) :: u64)) - clamp c 0 100 * 100\<bar> \<le> 1 / 2"
    using clamp_bounds [of 0 100 c] by (intro scaled_roundtrip) auto
  have q: "\<bar>real (unat (of_int (round_half_up (clamp q 0 10 * 10000)) :: u64)) - clamp q 0 10 * 10000\<bar> \<le> 1 / 2"
    using clamp_bounds [of 0 10 q] by (intro scaled_roundtrip) auto
  have "\<bar>a / 100 - b\<bar> \<le> 1 / 200" if "\<bar>a - b * 100\<bar> \<le> 1 / 2" for a b :: real
    using that by (simp add: abs_le_iff field_simps)
  moreover have "\<bar>a / 10000 - b\<bar> \<le> 1 / 20000" if "\<bar>a - b * 10000\<bar> \<le> 1 / 2" for a b :: real
    using that by (simp add: abs_le_iff field_simps)
  ultimately show ?thesis
    using c q by (simp add: Let_def snapshot_def set_adaptive_tier_def set_adaptive_queue_ratio_def
        set_adaptive_predicted_cpu_percent_def del: unsigned_of_int)
qed

end
