(* ===== verification/Client_Registry.thy ===== *)
theory Client_Registry
  imports Data_Plane Protocol_Messages Service_Metrics
begin

text \<open>
  The client registry of \<open>crates/lan_audio_server/src/session.rs\<close>: the map of connected clients,
  the queue of USB clients that wait for their forwarded stream, the queue of streams that wait
  for their client, the watermark slot, the session counter and what is sent on the control
  channels. Every operation is one call of the code, taken as atomic. The hash map is a list of
  handles with distinct ids in iteration order; since that order is arbitrary, the registry's
  step relation may permute it between any two operations.
\<close>

section \<open>State\<close>

datatype 'wr client_transport = Transport_Wifi socket_addr | Transport_Usb 'wr

record ('tx, 'wr) client_handle =
  ch_id :: uuid
  ch_name :: string
  ch_client_key :: string
  ch_control_tx :: 'tx
  ch_transport :: "'wr client_transport option"
  ch_prefers_usb_transport :: bool
  ch_data_plane :: data_plane_format
  ch_codec :: codec_selection
  ch_audio_mode :: audio_mode
  ch_preferred_sample_rate :: u32
  ch_pending_first_packet :: bool
  ch_pending_mode_sync :: bool
  ch_supports_v2_events :: bool

record 'wr broadcast_client =
  bc_id :: uuid
  bc_name :: string
  bc_data_plane :: data_plane_format
  bc_codec :: codec_selection
  bc_audio_mode :: audio_mode
  bc_preferred_sample_rate :: u32
  bc_transport :: "'wr client_transport"
  bc_first_packet :: bool
  bc_mode_changed :: bool

datatype client_transport_kind = Kind_Wifi socket_addr | Kind_Usb string

record 'tx register_client_request =
  rq_id :: uuid
  rq_name :: string
  rq_client_key :: string
  rq_control_tx :: 'tx
  rq_transport_kind :: client_transport_kind
  rq_data_plane :: data_plane_format
  rq_codec :: codec_selection
  rq_audio_mode :: audio_mode
  rq_preferred_sample_rate :: u32
  rq_supports_v2_events :: bool

text \<open>
  \<open>reg_sent\<close> is the history of messages put on the control channels, \<open>pending_usb_clients\<close> holds
  the instant (in milliseconds) a client started to wait.
\<close>

record ('tx, 'wr) registry =
  reg_clients :: "('tx, 'wr) client_handle list"
  reg_pending_usb_clients :: "(uuid \<times> nat) list"
  reg_pending_usb_streams :: "'wr list"
  reg_metrics :: metrics
  reg_latest_watermark :: "watermark_report option"
  reg_sent :: "('tx \<times> string) list"

definition MAX_CLIENTS :: nat where "MAX_CLIENTS = 4"
definition USB_PENDING_TIMEOUT_SECS :: nat where "USB_PENDING_TIMEOUT_SECS = 60"

definition registry_new :: "metrics \<Rightarrow> ('tx, 'wr) registry" where
  "registry_new m = \<lparr>reg_clients = [], reg_pending_usb_clients = [], reg_pending_usb_streams = [],
     reg_metrics = m, reg_latest_watermark = None, reg_sent = []\<rparr>"

section \<open>Hash-map access\<close>

definition get_client :: "uuid \<Rightarrow> ('tx, 'wr) client_handle list \<Rightarrow> ('tx, 'wr) client_handle option" where
  "get_client i cs = find (\<lambda>c. ch_id c = i) cs"

definition update_client ::
  "uuid \<Rightarrow> (('tx, 'wr) client_handle \<Rightarrow> ('tx, 'wr) client_handle)
   \<Rightarrow> ('tx, 'wr) client_handle list \<Rightarrow> ('tx, 'wr) client_handle list" where
  "update_client i f cs = map (\<lambda>c. if ch_id c = i then f c else c) cs"

definition insert_client ::
  "('tx, 'wr) client_handle \<Rightarrow> ('tx, 'wr) client_handle list \<Rightarrow> ('tx, 'wr) client_handle list" where
  "insert_client c cs = filter (\<lambda>d. ch_id d \<noteq> ch_id c) cs @ [c]"

definition remove_client_locked ::
  "uuid \<Rightarrow> ('tx, 'wr) registry \<Rightarrow> ('tx, 'wr) client_handle option \<times> ('tx, 'wr) registry" where
  "remove_client_locked i r =
     (get_client i (reg_clients r),
      r\<lparr>reg_pending_usb_clients := filter (\<lambda>(j, _). j \<noteq> i) (reg_pending_usb_clients r),
        reg_clients := filter (\<lambda>c. ch_id c \<noteq> i) (reg_clients r)\<rparr>)"

section \<open>Control messages\<close>

definition build_client_list_json ::
  "json_api \<Rightarrow> ('tx, 'wr) client_handle list \<Rightarrow> string option" where
  "build_client_list_json js cs =
     show_v2 js (Msg_ClientList
       (map (\<lambda>c. \<lparr>cle_id = ch_id c, cle_name = ch_name c, cle_mode = ch_audio_mode c\<rparr>)
         (sort_key ch_id (filter ch_supports_v2_events cs))))"

definition build_client_joined_json :: "json_api \<Rightarrow> uuid \<Rightarrow> string \<Rightarrow> string option" where
  "build_client_joined_json js i name = show_v2 js (Msg_ClientJoined i name)"

definition build_client_left_json :: "json_api \<Rightarrow> uuid \<Rightarrow> string \<Rightarrow> string option" where
  "build_client_left_json js i name = show_v2 js (Msg_ClientLeft i name)"

definition v2_recipients :: "('tx, 'wr) client_handle list \<Rightarrow> 'tx list" where
  "v2_recipients cs = map ch_control_tx (filter ch_supports_v2_events cs)"

definition send_to_all :: "'tx list \<Rightarrow> string \<Rightarrow> ('tx, 'wr) registry \<Rightarrow> ('tx, 'wr) registry" where
  "send_to_all txs json r = r\<lparr>reg_sent := reg_sent r @ map (\<lambda>tx. (tx, json)) txs\<rparr>"

definition broadcast_control_json :: "string \<Rightarrow> ('tx, 'wr) registry \<Rightarrow> ('tx, 'wr) registry" where
  "broadcast_control_json json r = send_to_all (v2_recipients (reg_clients r)) json r"

text \<open>The session counter goes down and the others hear of it.\<close>

definition announce_removed ::
  "json_api \<Rightarrow> ('tx, 'wr) client_handle \<Rightarrow> ('tx, 'wr) registry \<Rightarrow> ('tx, 'wr) registry" where
  "announce_removed js removed r =
     (let r = r\<lparr>reg_metrics := dec_sessions (reg_metrics r)\<rparr> in
      case build_client_left_json js (ch_id removed) (ch_name removed) of
        None \<Rightarrow> r | Some json \<Rightarrow> broadcast_control_json json r)"

section \<open>Registering a client\<close>

datatype register_error = TooManyClientsErr | MultiClientUpgradeRequired

definition check_multi_client_allowed :: "('tx, 'wr) registry \<Rightarrow> bool" where
  "check_multi_client_allowed r = True"

fun is_usb_kind :: "client_transport_kind \<Rightarrow> bool" where
  "is_usb_kind (Kind_Usb _) = True"
| "is_usb_kind (Kind_Wifi _) = False"

definition same_wifi_device :: "string \<Rightarrow> ip_addr \<Rightarrow> ('tx, 'wr) client_handle \<Rightarrow> bool" where
  "same_wifi_device name ip c \<longleftrightarrow> ch_name c = name
     \<and> (case ch_transport c of Some (Transport_Wifi addr) \<Rightarrow> sa_ip addr = ip | _ \<Rightarrow> False)"

definition has_usb_stream :: "('tx, 'wr) client_handle \<Rightarrow> bool" where
  "has_usb_stream c \<longleftrightarrow> (case ch_transport c of Some (Transport_Usb _) \<Rightarrow> True | _ \<Rightarrow> False)"

text \<open>The client a new registration replaces, if any.\<close>

definition replacement_for ::
  "'tx register_client_request \<Rightarrow> ('tx, 'wr) client_handle list \<Rightarrow> ('tx, 'wr) client_handle option" where
  "replacement_for rq cs =
     (case find (\<lambda>c. ch_client_key c = rq_client_key rq) cs of
        Some c \<Rightarrow> Some c
      | None \<Rightarrow> (case rq_transport_kind rq of
            Kind_Usb _ \<Rightarrow> find has_usb_stream cs
          | Kind_Wifi addr \<Rightarrow> find (same_wifi_device (rq_name rq) (sa_ip addr)) cs))"

definition new_client_handle :: "'tx register_client_request \<Rightarrow> ('tx, 'wr) client_handle" where
  "new_client_handle rq =
     \<lparr>ch_id = rq_id rq, ch_name = rq_name rq, ch_client_key = rq_client_key rq,
      ch_control_tx = rq_control_tx rq, ch_transport = None, ch_prefers_usb_transport = False,
      ch_data_plane = rq_data_plane rq, ch_codec = rq_codec rq, ch_audio_mode = rq_audio_mode rq,
      ch_preferred_sample_rate = rq_preferred_sample_rate rq, ch_pending_first_packet = True,
      ch_pending_mode_sync = False, ch_supports_v2_events = rq_supports_v2_events rq\<rparr>"

text \<open>The transport of the new client; a USB client takes a queued stream or starts waiting.\<close>

fun assign_transport ::
  "client_transport_kind \<Rightarrow> nat \<Rightarrow> ('tx, 'wr) client_handle \<Rightarrow> ('tx, 'wr) registry
   \<Rightarrow> ('tx, 'wr) client_handle \<times> ('tx, 'wr) registry" where
  "assign_transport (Kind_Wifi target) now c r =
     (c\<lparr>ch_transport := Some (Transport_Wifi target)\<rparr>, r)"
| "assign_transport (Kind_Usb serial) now c r =
     (let c = c\<lparr>ch_prefers_usb_transport := True\<rparr> in
      case reg_pending_usb_streams r of
        stream # rest \<Rightarrow> (c\<lparr>ch_transport := Some (Transport_Usb stream)\<rparr>,
                          r\<lparr>reg_pending_usb_streams := rest\<rparr>)
      | [] \<Rightarrow> (c, r\<lparr>reg_pending_usb_clients := reg_pending_usb_clients r @ [(ch_id c, now)]\<rparr>))"

definition register_broadcasts ::
  "json_api \<Rightarrow> uuid \<Rightarrow> string \<Rightarrow> ('tx, 'wr) client_handle list \<Rightarrow> ('tx \<times> string) list" where
  "register_broadcasts js i name cs =
     (case build_client_list_json js cs of None \<Rightarrow> []
      | Some json \<Rightarrow> map (\<lambda>tx. (tx, json)) (v2_recipients cs))
     @ (case build_client_joined_json js i name of None \<Rightarrow> []
        | Some json \<Rightarrow> map (\<lambda>tx. (tx, json)) (v2_recipients (filter (\<lambda>c. ch_id c \<noteq> i) cs)))"

definition register_client ::
  "json_api \<Rightarrow> 'tx register_client_request \<Rightarrow> nat \<Rightarrow> ('tx, 'wr) registry
   \<Rightarrow> (register_error + unit) \<times> ('tx, 'wr) registry" where
  "register_client js rq now r =
     (let (replaced, r) = (case replacement_for rq (reg_clients r) of
            None \<Rightarrow> (None, r)
          | Some c \<Rightarrow> remove_client_locked (ch_id c) r) in
      if MAX_CLIENTS \<le> length (reg_clients r) then (Inl TooManyClientsErr, r)
      else if reg_clients r \<noteq> [] \<and> replaced = None \<and> \<not> check_multi_client_allowed r
      then (Inl MultiClientUpgradeRequired, r)
      else
        let (client, r) = assign_transport (rq_transport_kind rq) now (new_client_handle rq) r;
            r = r\<lparr>reg_metrics := inc_sessions
                   (note_client_connected (ch_name client) (ch_client_key client) (reg_metrics r)),
                  reg_clients := insert_client client (reg_clients r)\<rparr>;
            broadcasts = register_broadcasts js (rq_id rq) (rq_name rq) (reg_clients r);
            r = (case replaced of None \<Rightarrow> r | Some removed \<Rightarrow> announce_removed js removed r)
        in (Inr (), r\<lparr>reg_sent := reg_sent r @ broadcasts\<rparr>))"

section \<open>The other operations\<close>

definition remove_client ::
  "json_api \<Rightarrow> uuid \<Rightarrow> ('tx, 'wr) registry \<Rightarrow> string option \<times> ('tx, 'wr) registry" where
  "remove_client js i r =
     (case remove_client_locked i r of
        (None, r) \<Rightarrow> (None, r)
      | (Some removed, r) \<Rightarrow> (Some (ch_name removed), announce_removed js removed r))"

fun resolve_codec_request :: "codec_selection \<Rightarrow> data_plane_format \<Rightarrow> codec_selection option" where
  "resolve_codec_request Sel_Opus V2Header = Some Sel_Opus"
| "resolve_codec_request Sel_Opus LegacyLas1 = Some Sel_Pcm16"
| "resolve_codec_request Sel_Pcm16 _ = Some Sel_Pcm16"
| "resolve_codec_request Sel_Pcm24 V2Header = Some Sel_Pcm24"
| "resolve_codec_request Sel_Pcm24 LegacyLas1 = Some Sel_Pcm16"

definition apply_mode ::
  "audio_mode \<Rightarrow> u32 option \<Rightarrow> codec_selection option \<Rightarrow> ('tx, 'wr) client_handle
   \<Rightarrow> ('tx, 'wr) client_handle" where
  "apply_mode mode preferred_sample_rate preferred_codec c =
     (let c = c\<lparr>ch_audio_mode := mode\<rparr>;
          c = (case preferred_sample_rate of None \<Rightarrow> c
               | Some sample_rate \<Rightarrow> c\<lparr>ch_preferred_sample_rate := sample_rate\<rparr>);
          c = (case preferred_codec of None \<Rightarrow> c
               | Some requested \<Rightarrow>
                   (case resolve_codec_request requested (ch_data_plane c) of None \<Rightarrow> c
                    | Some resolved \<Rightarrow> c\<lparr>ch_codec := resolved, ch_pending_first_packet := True\<rparr>))
      in c\<lparr>ch_pending_mode_sync := True\<rparr>)"

definition set_client_mode ::
  "json_api \<Rightarrow> uuid \<Rightarrow> audio_mode \<Rightarrow> u32 option \<Rightarrow> codec_selection option
   \<Rightarrow> ('tx, 'wr) registry \<Rightarrow> ('tx, 'wr) registry" where
  "set_client_mode js i mode preferred_sample_rate preferred_codec r =
     (case get_client i (reg_clients r) of None \<Rightarrow> r
      | Some _ \<Rightarrow>
          let r = r\<lparr>reg_clients := update_client i
                     (apply_mode mode preferred_sample_rate preferred_codec) (reg_clients r)\<rparr>
          in (case build_client_list_json js (reg_clients r) of None \<Rightarrow> r
              | Some json \<Rightarrow> send_to_all (v2_recipients (reg_clients r)) json r))"

definition expired_pending :: "nat \<Rightarrow> ('tx, 'wr) registry \<Rightarrow> uuid list" where
  "expired_pending now r =
     map fst (filter (\<lambda>(_, ts). USB_PENDING_TIMEOUT_SECS * 1000 < now - ts)
                (reg_pending_usb_clients r))"

definition drop_expired :: "nat \<Rightarrow> ('tx, 'wr) registry \<Rightarrow> ('tx, 'wr) registry" where
  "drop_expired now r =
     (let expired = expired_pending now r;
          r = r\<lparr>reg_pending_usb_clients :=
                 filter (\<lambda>(_, ts). \<not> USB_PENDING_TIMEOUT_SECS * 1000 < now - ts)
                   (reg_pending_usb_clients r)\<rparr>
      in fold (\<lambda>i r. snd (remove_client_locked i r)) expired r)"

definition set_usb_stream :: "'wr \<Rightarrow> ('tx, 'wr) client_handle \<Rightarrow> ('tx, 'wr) client_handle" where
  "set_usb_stream stream c = c\<lparr>ch_transport := Some (Transport_Usb stream)\<rparr>"

definition attach_usb_stream :: "'wr \<Rightarrow> nat \<Rightarrow> ('tx, 'wr) registry \<Rightarrow> ('tx, 'wr) registry" where
  "attach_usb_stream stream now r =
     (let r = drop_expired now r in
      case reg_pending_usb_clients r of
        (i, _) # rest \<Rightarrow>
          r\<lparr>reg_pending_usb_clients := rest,
            reg_clients := update_client i (set_usb_stream stream) (reg_clients r)\<rparr>
      | [] \<Rightarrow>
          (case find (\<lambda>c. ch_prefers_usb_transport c \<and> ch_transport c = None) (reg_clients r) of
             Some c \<Rightarrow>
               r\<lparr>reg_clients := update_client (ch_id c) (set_usb_stream stream) (reg_clients r)\<rparr>
           | None \<Rightarrow> r\<lparr>reg_pending_usb_streams := reg_pending_usb_streams r @ [stream]\<rparr>))"

definition mark_usb_transport_lost ::
  "uuid \<Rightarrow> nat \<Rightarrow> ('tx, 'wr) registry \<Rightarrow> string option \<times> ('tx, 'wr) registry" where
  "mark_usb_transport_lost i now r =
     (case get_client i (reg_clients r) of None \<Rightarrow> (None, r)
      | Some c \<Rightarrow>
          let r = r\<lparr>reg_clients := update_client i (\<lambda>c. c\<lparr>ch_transport := None\<rparr>) (reg_clients r)\<rparr>
          in if \<not> ch_prefers_usb_transport c then (None, r)
             else if list_ex (\<lambda>(j, _). j = i) (reg_pending_usb_clients r)
             then (Some (ch_name c), r)
             else (Some (ch_name c),
               r\<lparr>reg_pending_usb_clients := reg_pending_usb_clients r @ [(i, now)]\<rparr>))"

definition broadcast_view :: "('tx, 'wr) client_handle \<Rightarrow> 'wr broadcast_client option" where
  "broadcast_view c = map_option (\<lambda>t.
     \<lparr>bc_id = ch_id c, bc_name = ch_name c, bc_data_plane = ch_data_plane c, bc_codec = ch_codec c,
      bc_audio_mode = ch_audio_mode c, bc_preferred_sample_rate = ch_preferred_sample_rate c,
      bc_transport = t, bc_first_packet = ch_pending_first_packet c,
      bc_mode_changed = ch_pending_mode_sync c\<rparr>) (ch_transport c)"

definition take_broadcast_clients ::
  "('tx, 'wr) registry \<Rightarrow> 'wr broadcast_client list \<times> ('tx, 'wr) registry" where
  "take_broadcast_clients r =
     (List.map_filter broadcast_view (reg_clients r),
      r\<lparr>reg_clients := map (\<lambda>c. case ch_transport c of None \<Rightarrow> c
           | Some _ \<Rightarrow> c\<lparr>ch_pending_first_packet := False, ch_pending_mode_sync := False\<rparr>)
         (reg_clients r)\<rparr>)"

definition note_client_watermark ::
  "watermark_report \<Rightarrow> ('tx, 'wr) registry \<Rightarrow> ('tx, 'wr) registry" where
  "note_client_watermark report r = r\<lparr>reg_latest_watermark := Some report\<rparr>"

definition take_latest_watermark ::
  "('tx, 'wr) registry \<Rightarrow> watermark_report option \<times> ('tx, 'wr) registry" where
  "take_latest_watermark r = (reg_latest_watermark r, r\<lparr>reg_latest_watermark := None\<rparr>)"

definition client_count :: "('tx, 'wr) registry \<Rightarrow> nat" where
  "client_count r = length (reg_clients r)"

definition client_codec :: "uuid \<Rightarrow> ('tx, 'wr) registry \<Rightarrow> codec_selection option" where
  "client_codec i r = map_option ch_codec (get_client i (reg_clients r))"

section \<open>The registry as a machine\<close>

text \<open>
  One operation of the registry, or a rehash that permutes the map. An operation is admissible
  when a new session id is fresh (the ids are random 128-bit UUIDs) and when the registered path
  is one \<open>negotiate_session_path\<close> can give: PCM16 on the legacy plane.
\<close>

datatype ('tx, 'wr) reg_op =
    Op_Register "'tx register_client_request" nat
  | Op_Remove uuid
  | Op_SetMode uuid audio_mode "u32 option" "codec_selection option"
  | Op_Attach 'wr nat
  | Op_Lost uuid nat
  | Op_Take
  | Op_Watermark watermark_report
  | Op_TakeWatermark
  | Op_Rehash "('tx, 'wr) client_handle list"

fun admissible :: "('tx, 'wr) reg_op \<Rightarrow> ('tx, 'wr) registry \<Rightarrow> bool" where
  "admissible (Op_Register rq now) r \<longleftrightarrow>
     rq_id rq \<notin> ch_id ` set (reg_clients r)
     \<and> (rq_data_plane rq = LegacyLas1 \<longrightarrow> rq_codec rq = Sel_Pcm16)"
| "admissible (Op_Rehash cs) r \<longleftrightarrow> mset cs = mset (reg_clients r)"
| "admissible _ r \<longleftrightarrow> True"

fun reg_apply :: "json_api \<Rightarrow> ('tx, 'wr) reg_op \<Rightarrow> ('tx, 'wr) registry \<Rightarrow> ('tx, 'wr) registry" where
  "reg_apply js (Op_Register rq now) r = snd (register_client js rq now r)"
| "reg_apply js (Op_Remove i) r = snd (remove_client js i r)"
| "reg_apply js (Op_SetMode i mode rate codec) r = set_client_mode js i mode rate codec r"
| "reg_apply js (Op_Attach stream now) r = attach_usb_stream stream now r"
| "reg_apply js (Op_Lost i now) r = snd (mark_usb_transport_lost i now r)"
| "reg_apply js Op_Take r = snd (take_broadcast_clients r)"
| "reg_apply js (Op_Watermark w) r = note_client_watermark w r"
| "reg_apply js Op_TakeWatermark r = snd (take_latest_watermark r)"
| "reg_apply js (Op_Rehash cs) r = r\<lparr>reg_clients := cs\<rparr>"

definition reg_step ::
  "json_api \<Rightarrow> ('tx, 'wr) reg_op \<Rightarrow> ('tx, 'wr) registry \<Rightarrow> unit + ('tx, 'wr) registry" where
  "reg_step js x r = (if admissible x r then Inr (reg_apply js x r) else Inl ())"

inductive reg_reachable :: "json_api \<Rightarrow> ('tx, 'wr) registry \<Rightarrow> bool" for js where
  reg_init: "reg_reachable js (registry_new m)"
| reg_more: "reg_reachable js r \<Longrightarrow> reg_step js x r = Inr s \<Longrightarrow> reg_reachable js s"

inductive_cases reg_reachableE: "reg_reachable js r"

section \<open>The invariant\<close>

definition client_ok :: "('tx, 'wr) client_handle \<Rightarrow> bool" where
  "client_ok c \<longleftrightarrow>
     (ch_data_plane c = LegacyLas1 \<longrightarrow> ch_codec c = Sel_Pcm16)
     \<and> (case ch_transport c of None \<Rightarrow> True
        | Some (Transport_Wifi _) \<Rightarrow> \<not> ch_prefers_usb_transport c
        | Some (Transport_Usb _) \<Rightarrow> ch_prefers_usb_transport c)"

definition clients_ok :: "('tx, 'wr) client_handle list \<Rightarrow> bool" where
  "clients_ok cs \<longleftrightarrow> length cs \<le> MAX_CLIENTS \<and> distinct (map ch_id cs)
     \<and> distinct (map ch_client_key cs) \<and> (\<forall>c \<in> set cs. client_ok c)"

definition waits_for_stream :: "('tx, 'wr) client_handle \<Rightarrow> bool" where
  "waits_for_stream c \<longleftrightarrow> ch_prefers_usb_transport c \<and> ch_transport c = None"

definition waiting_ids :: "('tx, 'wr) client_handle list \<Rightarrow> uuid set" where
  "waiting_ids cs = ch_id ` {c \<in> set cs. waits_for_stream c}"

definition reg_inv :: "('tx, 'wr) registry \<Rightarrow> bool" where
  "reg_inv r \<longleftrightarrow> clients_ok (reg_clients r)
     \<and> distinct (map fst (reg_pending_usb_clients r))
     \<and> set (map fst (reg_pending_usb_clients r)) = waiting_ids (reg_clients r)"

lemma reg_inv_cong:
  "reg_clients r = reg_clients s \<Longrightarrow> reg_pending_usb_clients r = reg_pending_usb_clients s
   \<Longrightarrow> reg_inv r = reg_inv s"
  by (simp add: reg_inv_def)

lemma get_client_SomeD: "get_client i cs = Some c \<Longrightarrow> c \<in> set cs \<and> ch_id c = i"
  by (auto simp: get_client_def find_Some_iff)

lemma get_client_None: "get_client i cs = None \<longleftrightarrow> i \<notin> ch_id ` set cs"
  by (auto simp: get_client_def find_None_iff)

lemma get_client_eq:
  "distinct (map ch_id cs) \<Longrightarrow> c \<in> set cs \<Longrightarrow> get_client (ch_id c) cs = Some c"
  by (induction cs) (force simp: get_client_def)+

lemma clients_ok_filter: "clients_ok cs \<Longrightarrow> clients_ok (filter P cs)"
  unfolding clients_ok_def
  by (auto intro: distinct_map_filter order.trans [OF length_filter_le])

lemma distinct_map_inj: "distinct (map f cs) \<Longrightarrow> c \<in> set cs \<Longrightarrow> d \<in> set cs \<Longrightarrow> f c = f d \<Longrightarrow> c = d"
  by (auto simp: distinct_map inj_on_def)

lemma waiting_ids_Cons:
  "waiting_ids (c # cs) = (if waits_for_stream c then {ch_id c} else {}) \<union> waiting_ids cs"
  by (auto simp: waiting_ids_def)

lemma waiting_ids_filter_id:
  "waiting_ids (filter (\<lambda>c. ch_id c \<notin> I) cs) = waiting_ids cs - I"
  by (auto simp: waiting_ids_def)

lemma remove_locked_inv: "reg_inv r \<Longrightarrow> reg_inv (snd (remove_client_locked i r))"
proof -
  assume r: "reg_inv r"
  have "set (map fst (filter (\<lambda>(j, _). j \<noteq> i) (reg_pending_usb_clients r)))
      = set (map fst (reg_pending_usb_clients r)) - {i}" by force
  then show ?thesis
    using r waiting_ids_filter_id [of "{i}" "reg_clients r"]
    by (simp add: reg_inv_def remove_client_locked_def clients_ok_filter distinct_map_filter)
qed

lemma update_client_ids [simp]:
  "(\<And>c. ch_id (f c) = ch_id c) \<Longrightarrow> map ch_id (update_client i f cs) = map ch_id cs"
  by (simp add: update_client_def)

lemma clients_ok_update:
  assumes "clients_ok cs" and "\<And>c. ch_id (f c) = ch_id c" and "\<And>c. ch_client_key (f c) = ch_client_key c"
    and "\<And>c. c \<in> set cs \<Longrightarrow> ch_id c = i \<Longrightarrow> client_ok c \<Longrightarrow> client_ok (f c)"
  shows "clients_ok (update_client i f cs)"
proof -
  have "map ch_client_key (update_client i f cs) = map ch_client_key cs"
    using assms(3) by (simp add: update_client_def)
  moreover have "length (update_client i f cs) = length cs" by (simp add: update_client_def)
  moreover have "\<forall>c \<in> set (update_client i f cs). client_ok c"
    using assms(1,4) by (auto simp: update_client_def clients_ok_def)
  ultimately show ?thesis using assms(1,2) by (simp add: clients_ok_def)
qed

lemma waiting_ids_update_same:
  assumes "\<And>c. ch_id (f c) = ch_id c" and "\<And>c. waits_for_stream (f c) = waits_for_stream c"
  shows "waiting_ids (update_client i f cs) = waiting_ids cs"
  using assms by (induction cs) (simp_all add: update_client_def waiting_ids_Cons)

lemma announce_removed_frame [simp]:
  "reg_clients (announce_removed js c r) = reg_clients r"
  "reg_pending_usb_clients (announce_removed js c r) = reg_pending_usb_clients r"
  "reg_pending_usb_streams (announce_removed js c r) = reg_pending_usb_streams r"
  "reg_metrics (announce_removed js c r) = dec_sessions (reg_metrics r)"
  by (simp_all add: announce_removed_def Let_def broadcast_control_json_def send_to_all_def
      split: option.splits)

lemma announce_option_frame:
  "reg_clients (case x of None \<Rightarrow> r | Some c \<Rightarrow> announce_removed js c r) = reg_clients r"
  "reg_pending_usb_clients (case x of None \<Rightarrow> r | Some c \<Rightarrow> announce_removed js c r)
    = reg_pending_usb_clients r"
  "reg_metrics (case x of None \<Rightarrow> r | Some c \<Rightarrow> announce_removed js c r)
    = (if x = None then reg_metrics r else dec_sessions (reg_metrics r))"
  by (cases x; simp)+

lemma assign_transport_frame:
  assumes "assign_transport kind now c r = (d, s)"
  shows "reg_clients s = reg_clients r" and "reg_metrics s = reg_metrics r"
    and "ch_id d = ch_id c" and "ch_client_key d = ch_client_key c" and "ch_name d = ch_name c"
    and "ch_data_plane d = ch_data_plane c" and "ch_codec d = ch_codec c"
    and "ch_pending_first_packet d = ch_pending_first_packet c"
  using assms by (cases kind; auto simp: Let_def split: list.splits)+


text \<open>A registration: what it replaces, and the two shapes of its result.\<close>

lemma replacement_for_SomeD: "replacement_for rq cs = Some c \<Longrightarrow> c \<in> set cs"
  by (auto simp: replacement_for_def find_Some_iff split: option.splits client_transport_kind.splits)

definition after_replacement ::
  "'tx register_client_request \<Rightarrow> ('tx, 'wr) registry \<Rightarrow> ('tx, 'wr) registry" where
  "after_replacement rq r =
     (case replacement_for rq (reg_clients r) of None \<Rightarrow> r
      | Some c \<Rightarrow> snd (remove_client_locked (ch_id c) r))"

lemma after_replacement_inv: "reg_inv r \<Longrightarrow> reg_inv (after_replacement rq r)"
  by (auto simp: after_replacement_def remove_locked_inv split: option.splits)

lemma after_replacement_clients:
  "reg_clients (after_replacement rq r) =
    (case replacement_for rq (reg_clients r) of None \<Rightarrow> reg_clients r
     | Some c \<Rightarrow> filter (\<lambda>d. ch_id d \<noteq> ch_id c) (reg_clients r))"
  by (auto simp: after_replacement_def remove_client_locked_def split: option.splits)

lemma after_replacement_key_fresh:
  assumes "reg_inv r"
  shows "rq_client_key rq \<notin> ch_client_key ` set (reg_clients (after_replacement rq r))"
proof (cases "find (\<lambda>c. ch_client_key c = rq_client_key rq) (reg_clients r)")
  case None
  then show ?thesis
    by (auto simp: find_None_iff after_replacement_clients split: option.splits)
next
  case (Some c)
  then have c: "c \<in> set (reg_clients r)" "ch_client_key c = rq_client_key rq"
    by (auto simp: find_Some_iff)
  from Some have "replacement_for rq (reg_clients r) = Some c" by (simp add: replacement_for_def)
  moreover have "\<And>d. d \<in> set (reg_clients r) \<Longrightarrow> ch_client_key d = rq_client_key rq \<Longrightarrow> d = c"
    using assms c distinct_map_inj [of ch_client_key "reg_clients r"]
    by (auto simp: reg_inv_def clients_ok_def)
  ultimately show ?thesis by (auto simp: after_replacement_clients)
qed

lemma length_after_replacement:
  assumes "reg_inv r"
  shows "length (reg_clients (after_replacement rq r)) =
    length (reg_clients r) - (if replacement_for rq (reg_clients r) = None then 0 else 1)"
proof (cases "replacement_for rq (reg_clients r)")
  case None
  then show ?thesis by (simp add: after_replacement_def)
next
  case (Some c)
  then have c: "c \<in> set (reg_clients r)" by (rule replacement_for_SomeD)
  have "distinct (map ch_id (reg_clients r))" using assms by (simp add: reg_inv_def clients_ok_def)
  with c have "length (filter (\<lambda>d. ch_id d = ch_id c) (reg_clients r)) = 1"
  proof (induction "reg_clients r" arbitrary: r)
    case (Cons d ds)
    show ?case
    proof (cases "ch_id d = ch_id c")
      case True
      then have "\<forall>e \<in> set ds. ch_id e \<noteq> ch_id c" using Cons by (metis (no_types, lifting) distinct.simps(2) image_eqI list.set_map list.simps(9))
      then have "filter (\<lambda>d. ch_id d = ch_id c) ds = []" by (simp add: filter_empty_conv)
      with True show ?thesis using Cons.hyps(2) [symmetric] by simp
    next
      case False
      then show ?thesis
        using Cons.hyps(1) [of "r\<lparr>reg_clients := ds\<rparr>"] Cons.prems Cons.hyps(2) [symmetric] by auto
    qed
  qed simp
  then show ?thesis
    using Some sum_length_filter_compl [of "\<lambda>d. ch_id d = ch_id c" "reg_clients r"]
    by (simp add: after_replacement_clients)
qed

text \<open>\<open>register_client\<close> fails exactly when nobody is replaced and four clients are connected.\<close>

lemma register_client_error:
  assumes "reg_inv r"
  shows "fst (register_client js rq now r) =
    (if replacement_for rq (reg_clients r) = None \<and> length (reg_clients r) = MAX_CLIENTS
     then Inl TooManyClientsErr else Inr ())"
proof -
  have "length (reg_clients r) \<le> MAX_CLIENTS" using assms by (simp add: reg_inv_def clients_ok_def)
  then have "MAX_CLIENTS \<le> length (reg_clients (after_replacement rq r)) \<longleftrightarrow>
      replacement_for rq (reg_clients r) = None \<and> length (reg_clients r) = MAX_CLIENTS"
    using length_after_replacement [OF assms, of rq] by (auto simp: MAX_CLIENTS_def)
  then show ?thesis
    by (cases "replacement_for rq (reg_clients r)")
      (auto simp: register_client_def Let_def check_multi_client_allowed_def after_replacement_def
        remove_client_locked_def split: prod.splits)
qed

lemma register_client_unfold:
  assumes "fst (register_client js rq now r) = Inr ()"
    and "assign_transport (rq_transport_kind rq) now (new_client_handle rq) (after_replacement rq r) = (c, s)"
  shows "\<exists>replaced sent.
    (replaced = None \<longleftrightarrow> replacement_for rq (reg_clients r) = None)
    \<and> snd (register_client js rq now r) =
      (let s = s\<lparr>reg_metrics := inc_sessions (note_client_connected (ch_name c) (ch_client_key c) (reg_metrics s)),
                 reg_clients := insert_client c (reg_clients s)\<rparr>;
           s = (case replaced of None \<Rightarrow> s | Some removed \<Rightarrow> announce_removed js removed s)
       in s\<lparr>reg_sent := sent\<rparr>)"
proof (cases "replacement_for rq (reg_clients r)")
  case None
  then show ?thesis
    using assms by (intro exI [of _ None])
      (auto simp: register_client_def Let_def after_replacement_def split: if_splits)
next
  case (Some d)
  then obtain removed where g: "get_client (ch_id d) (reg_clients r) = Some removed"
    using replacement_for_SomeD [of rq "reg_clients r" d]
    by (cases "get_client (ch_id d) (reg_clients r)") (auto simp: get_client_None)
  then have "remove_client_locked (ch_id d) r = (Some removed, after_replacement rq r)"
    using Some by (simp add: remove_client_locked_def after_replacement_def)
  with Some show ?thesis
    using assms by (intro exI [of _ "Some removed"])
      (auto simp: register_client_def Let_def split: if_splits)
qed

lemma after_replacement_metrics [simp]: "reg_metrics (after_replacement rq r) = reg_metrics r"
  by (simp add: after_replacement_def remove_client_locked_def split: option.splits)

lemma register_client_result:
  assumes "fst (register_client js rq now r) = Inr ()"
    and "assign_transport (rq_transport_kind rq) now (new_client_handle rq) (after_replacement rq r) = (c, s)"
  shows "reg_clients (snd (register_client js rq now r)) = insert_client c (reg_clients (after_replacement rq r))"
    and "reg_pending_usb_clients (snd (register_client js rq now r)) = reg_pending_usb_clients s"
    and "m_active_sessions (reg_metrics (snd (register_client js rq now r))) =
      m_active_sessions (reg_metrics r) + (if replacement_for rq (reg_clients r) = None then 1 else 0)"
proof -
  note fr = assign_transport_frame [OF assms(2)]
  obtain replaced sent where
    n: "replaced = None \<longleftrightarrow> replacement_for rq (reg_clients r) = None"
    and e: "snd (register_client js rq now r) =
      (let s = s\<lparr>reg_metrics := inc_sessions (note_client_connected (ch_name c) (ch_client_key c) (reg_metrics s)),
                 reg_clients := insert_client c (reg_clients s)\<rparr>;
           s = (case replaced of None \<Rightarrow> s | Some removed \<Rightarrow> announce_removed js removed s)
       in s\<lparr>reg_sent := sent\<rparr>)"
    using register_client_unfold [OF assms] by (elim exE conjE) (rule that; assumption)
  show "reg_clients (snd (register_client js rq now r)) = insert_client c (reg_clients (after_replacement rq r))"
    unfolding e Let_def by (simp add: announce_option_frame fr(1))
  show "reg_pending_usb_clients (snd (register_client js rq now r)) = reg_pending_usb_clients s"
    unfolding e Let_def by (simp add: announce_option_frame)
  show "m_active_sessions (reg_metrics (snd (register_client js rq now r))) =
      m_active_sessions (reg_metrics r) + (if replacement_for rq (reg_clients r) = None then 1 else 0)"
    unfolding e Let_def n [symmetric]
    by (simp add: announce_option_frame fr(2) inc_sessions_def dec_sessions_def)
qed

lemma register_client_error_state:
  "fst (register_client js rq now r) = Inl e \<Longrightarrow> snd (register_client js rq now r) = after_replacement rq r"
  by (auto simp: register_client_def Let_def after_replacement_def check_multi_client_allowed_def
      split: option.splits prod.splits if_splits)

lemma assign_transport_waits:
  assumes "assign_transport kind now (new_client_handle rq) r = (d, s)"
  shows "reg_pending_usb_clients s =
      reg_pending_usb_clients r @ (if waits_for_stream d then [(rq_id rq, now)] else [])"
    and "(rq_data_plane rq = LegacyLas1 \<longrightarrow> rq_codec rq = Sel_Pcm16) \<Longrightarrow> client_ok d"
  using assms
  by (cases kind; auto simp: Let_def waits_for_stream_def client_ok_def new_client_handle_def
      split: list.splits)+

lemma filter_fresh_id: "i \<notin> ch_id ` set cs \<Longrightarrow> filter (\<lambda>c. ch_id c \<noteq> i) cs = cs"
  by (rule filter_True) (metis image_eqI)

lemma insert_client_fresh: "ch_id c \<notin> ch_id ` set cs \<Longrightarrow> insert_client c cs = cs @ [c]"
  by (simp add: insert_client_def filter_fresh_id)

lemma register_inv:
  assumes inv: "reg_inv r" and adm: "admissible (Op_Register rq now) r"
  shows "reg_inv (snd (register_client js rq now r))"
proof (cases "fst (register_client js rq now r)")
  case (Inl e)
  then show ?thesis using after_replacement_inv [OF inv] by (simp add: register_client_error_state)
next
  case (Inr u)
  let ?a = "after_replacement rq r"
  obtain c s where a: "assign_transport (rq_transport_kind rq) now (new_client_handle rq) ?a = (c, s)"
    by fastforce
  have ok: "fst (register_client js rq now r) = Inr ()" using Inr by simp
  note res = register_client_result [OF ok a] and fr = assign_transport_frame [OF a]
    and w = assign_transport_waits [OF a]
  have inva: "reg_inv ?a" using inv by (rule after_replacement_inv)
  have sub: "set (reg_clients ?a) \<subseteq> set (reg_clients r)"
    by (auto simp: after_replacement_clients split: option.splits)
  have ids: "ch_id c \<notin> ch_id ` set (reg_clients ?a)"
    using adm sub fr(3) by (auto simp: new_client_handle_def)
  have keys: "ch_client_key c \<notin> ch_client_key ` set (reg_clients ?a)"
    using after_replacement_key_fresh [OF inv, of rq] fr(4) by (simp add: new_client_handle_def)
  have "length (reg_clients ?a) < MAX_CLIENTS"
    using ok register_client_error [OF inv, of js rq now] length_after_replacement [OF inv, of rq] inv
    by (auto simp: reg_inv_def clients_ok_def MAX_CLIENTS_def split: if_splits)
  then have "clients_ok (reg_clients ?a @ [c])"
    using inva ids keys w(2) adm by (auto simp: reg_inv_def clients_ok_def)
  moreover have "waiting_ids (reg_clients ?a @ [c])
      = waiting_ids (reg_clients ?a) \<union> (if waits_for_stream c then {ch_id c} else {})"
    by (auto simp: waiting_ids_def)
  moreover have "ch_id c \<notin> waiting_ids (reg_clients ?a)"
    using ids by (auto simp: waiting_ids_def)
  ultimately show ?thesis
    using inva w(1) fr(3) unfolding reg_inv_def res(1,2) insert_client_fresh [OF ids]
    by (auto simp: new_client_handle_def)
qed

lemma set_mode_inv: "reg_inv r \<Longrightarrow> reg_inv (set_client_mode js i mode rate codec r)"
proof -
  assume r: "reg_inv r"
  let ?f = "apply_mode mode rate codec :: ('a, 'b) client_handle \<Rightarrow> _"
  have id: "ch_id (?f c) = ch_id c" "ch_client_key (?f c) = ch_client_key c"
    "waits_for_stream (?f c) = waits_for_stream c" "ch_transport (?f c) = ch_transport c"
    "ch_prefers_usb_transport (?f c) = ch_prefers_usb_transport c"
    "ch_data_plane (?f c) = ch_data_plane c" for c
    by (auto simp: apply_mode_def Let_def waits_for_stream_def split: option.splits)
  have "ch_data_plane c = LegacyLas1 \<Longrightarrow> ch_codec c = Sel_Pcm16 \<Longrightarrow> ch_codec (?f c) = Sel_Pcm16" for c
    by (cases "the codec") (auto simp: apply_mode_def Let_def split: option.splits)
  then have "client_ok c \<Longrightarrow> client_ok (?f c)" for c
    by (auto simp: client_ok_def id split: option.splits client_transport.splits)
  then have "clients_ok (update_client i ?f (reg_clients r))"
    using r id by (intro clients_ok_update) (auto simp: reg_inv_def)
  moreover have "waiting_ids (update_client i ?f (reg_clients r)) = waiting_ids (reg_clients r)"
    using id by (intro waiting_ids_update_same) auto
  ultimately show ?thesis
    using r by (auto simp: set_client_mode_def Let_def reg_inv_def send_to_all_def split: option.splits)
qed

lemma apply_mode_id [simp]: "ch_id (apply_mode mode rate codec c) = ch_id c"
  by (auto simp: apply_mode_def Let_def split: option.splits)

lemma set_client_mode_get:
  "get_client j (reg_clients (set_client_mode js i mode rate codec r)) =
    (if j = i then map_option (apply_mode mode rate codec) (get_client i (reg_clients r))
     else get_client j (reg_clients r))"
proof -
  have "get_client j (update_client i (apply_mode mode rate codec) cs)
      = (if j = i then map_option (apply_mode mode rate codec) (get_client i cs) else get_client j cs)"
    for cs :: "('a, 'b) client_handle list"
    by (induction cs) (auto simp: get_client_def update_client_def)
  then show ?thesis
    by (auto simp: set_client_mode_def Let_def send_to_all_def split: option.splits)
qed

lemma fold_remove_locked:
  "fold (\<lambda>i r. snd (remove_client_locked i r)) is r =
    r\<lparr>reg_pending_usb_clients := filter (\<lambda>(j, _). j \<notin> set is) (reg_pending_usb_clients r),
      reg_clients := filter (\<lambda>c. ch_id c \<notin> set is) (reg_clients r)\<rparr>"
proof (induction "is" arbitrary: r)
  case Nil
  have "filter (\<lambda>(j, _). True) xs = xs" for xs :: "('x \<times> 'y) list"
    by (simp add: case_prod_unfold)
  then show ?case by simp
next
  case (Cons i "is")
  show ?case
    by (simp only: fold_Cons comp_apply Cons.IH) (simp add: remove_client_locked_def case_prod_unfold)
qed

lemma drop_expired_form:
  "drop_expired now r =
    r\<lparr>reg_pending_usb_clients := filter (\<lambda>(j, ts). \<not> USB_PENDING_TIMEOUT_SECS * 1000 < now - ts
          \<and> j \<notin> set (expired_pending now r)) (reg_pending_usb_clients r),
      reg_clients := filter (\<lambda>c. ch_id c \<notin> set (expired_pending now r)) (reg_clients r)\<rparr>"
  by (simp add: drop_expired_def Let_def fold_remove_locked case_prod_unfold)

lemma drop_expired_inv: "reg_inv r \<Longrightarrow> reg_inv (drop_expired now r)"
proof -
  assume r: "reg_inv r"
  let ?E = "set (expired_pending now r)"
  let ?p = "filter (\<lambda>(j, ts). \<not> USB_PENDING_TIMEOUT_SECS * 1000 < now - ts \<and> j \<notin> ?E)
    (reg_pending_usb_clients r)"
  have "set (map fst ?p) = set (map fst (reg_pending_usb_clients r)) - ?E"
    by (force simp: expired_pending_def)
  then show ?thesis
    using r waiting_ids_filter_id [of ?E "reg_clients r"]
    by (simp add: reg_inv_def drop_expired_form clients_ok_filter distinct_map_filter)
qed

lemma waiting_ids_update_stream:
  "waiting_ids (update_client i (set_usb_stream st) cs) = waiting_ids cs - {i}"
  by (induction cs) (auto simp: update_client_def waiting_ids_Cons waiting_ids_def [of "[]"]
      set_usb_stream_def waits_for_stream_def)

lemma attach_stream_client_ok:
  assumes "clients_ok cs" and "i \<in> waiting_ids cs"
  shows "clients_ok (update_client i (set_usb_stream st) cs)"
proof (rule clients_ok_update [OF assms(1)])
  fix c assume c: "c \<in> set cs" "ch_id c = i" "client_ok c"
  have "waits_for_stream c"
    using assms c distinct_map_inj [of ch_id cs] by (auto simp: clients_ok_def waiting_ids_def)
  with c show "client_ok (set_usb_stream st c)"
    by (simp add: client_ok_def set_usb_stream_def waits_for_stream_def)
qed (simp_all add: set_usb_stream_def)

lemma attach_inv: "reg_inv r \<Longrightarrow> reg_inv (attach_usb_stream stream now r)"
proof -
  assume "reg_inv r"
  then have d: "reg_inv (drop_expired now r)" by (rule drop_expired_inv)
  let ?d = "drop_expired now r"
  show ?thesis
  proof (cases "reg_pending_usb_clients ?d")
    case Nil
    then have "waiting_ids (reg_clients ?d) = {}" using d by (simp add: reg_inv_def)
    then have "find (\<lambda>c. ch_prefers_usb_transport c \<and> ch_transport c = None) (reg_clients ?d) = None"
      by (auto simp: find_None_iff waiting_ids_def waits_for_stream_def)
    with Nil d show ?thesis by (simp add: attach_usb_stream_def Let_def reg_inv_def)
  next
    case (Cons p rest)
    obtain i ts where p: "p = (i, ts)" by (cases p)
    have i: "i \<in> waiting_ids (reg_clients ?d)" and w: "waiting_ids (reg_clients ?d) = insert i (fst ` set rest)"
      and nd: "i \<notin> fst ` set rest"
      using d Cons p by (auto simp: reg_inv_def)
    show ?thesis
      using d Cons p nd attach_stream_client_ok [OF _ i, of stream]
      by (auto simp: attach_usb_stream_def Let_def reg_inv_def waiting_ids_update_stream w)
  qed
qed

lemma waiting_ids_update_lost_aux:
  "(\<And>d. d \<in> set cs \<Longrightarrow> ch_id d = i \<Longrightarrow> ch_prefers_usb_transport d = b) \<Longrightarrow>
   waiting_ids (update_client i (\<lambda>c. c\<lparr>ch_transport := None\<rparr>) cs)
    = waiting_ids cs \<union> (if b \<and> i \<in> ch_id ` set cs then {i} else {})"
  by (induction cs) (auto simp: waiting_ids_Cons update_client_def waits_for_stream_def)

lemma waiting_ids_update_lost:
  assumes "distinct (map ch_id cs)" and "get_client i cs = Some c"
  shows "waiting_ids (update_client i (\<lambda>c. c\<lparr>ch_transport := None\<rparr>) cs)
    = waiting_ids cs \<union> (if ch_prefers_usb_transport c then {i} else {})"
proof -
  note c = get_client_SomeD [OF assms(2)]
  have "d = c" if "d \<in> set cs" "ch_id d = i" for d
    using c that distinct_map_inj [OF assms(1), of d c] by simp
  then have "waiting_ids (update_client i (\<lambda>c. c\<lparr>ch_transport := None\<rparr>) cs)
      = waiting_ids cs \<union> (if ch_prefers_usb_transport c \<and> i \<in> ch_id ` set cs then {i} else {})"
    by (intro waiting_ids_update_lost_aux) blast
  moreover have "i \<in> ch_id ` set cs" using c by blast
  ultimately show ?thesis by simp
qed

lemma lost_inv: "reg_inv r \<Longrightarrow> reg_inv (snd (mark_usb_transport_lost i now r))"
proof -
  assume r: "reg_inv r"
  show ?thesis
  proof (cases "get_client i (reg_clients r)")
    case None
    then show ?thesis using r by (simp add: mark_usb_transport_lost_def)
  next
    case (Some c)
    have "clients_ok (update_client i (\<lambda>c. c\<lparr>ch_transport := None\<rparr>) (reg_clients r))"
      using r by (intro clients_ok_update) (auto simp: reg_inv_def client_ok_def)
    moreover have "waiting_ids (update_client i (\<lambda>c. c\<lparr>ch_transport := None\<rparr>) (reg_clients r))
      = waiting_ids (reg_clients r) \<union> (if ch_prefers_usb_transport c then {i} else {})"
      using r Some by (intro waiting_ids_update_lost) (auto simp: reg_inv_def clients_ok_def)
    moreover have "list_ex (\<lambda>(j, _). j = i) xs \<longleftrightarrow> i \<in> fst ` set xs" for xs :: "(uuid \<times> nat) list"
      by (force simp: list_ex_iff)
    ultimately show ?thesis
      using r Some by (auto simp: mark_usb_transport_lost_def Let_def reg_inv_def)
  qed
qed

lemma take_inv: "reg_inv r \<Longrightarrow> reg_inv (snd (take_broadcast_clients r))"
proof -
  assume r: "reg_inv r"
  let ?g = "\<lambda>c :: ('a, 'b) client_handle. case ch_transport c of None \<Rightarrow> c
    | Some _ \<Rightarrow> c\<lparr>ch_pending_first_packet := False, ch_pending_mode_sync := False\<rparr>"
  have g: "ch_id (?g c) = ch_id c" "ch_client_key (?g c) = ch_client_key c"
    "waits_for_stream (?g c) = waits_for_stream c" "client_ok (?g c) = client_ok c" for c
    by (auto simp: waits_for_stream_def client_ok_def split: option.splits client_transport.splits)
  have "clients_ok (map ?g (reg_clients r))"
    using r by (simp add: reg_inv_def clients_ok_def g comp_def)
  moreover have "waiting_ids (map ?g cs) = waiting_ids cs" for cs
    by (induction cs) (simp_all add: waiting_ids_Cons g)
  ultimately show ?thesis using r by (simp add: reg_inv_def take_broadcast_clients_def)
qed

lemma rehash_inv: "mset cs = mset (reg_clients r) \<Longrightarrow> reg_inv r \<Longrightarrow> reg_inv (r\<lparr>reg_clients := cs\<rparr>)"
  using mset_eq_setD [of cs "reg_clients r"] mset_eq_length [of cs "reg_clients r"]
    mset_eq_imp_distinct_iff [of "map ch_id cs" "map ch_id (reg_clients r)"]
    mset_eq_imp_distinct_iff [of "map ch_client_key cs" "map ch_client_key (reg_clients r)"]
  by (simp add: reg_inv_def clients_ok_def waiting_ids_def)

lemma reg_inv_announce [simp]: "reg_inv (announce_removed js c r) = reg_inv r"
  by (rule reg_inv_cong) simp_all

lemma remove_inv: "reg_inv r \<Longrightarrow> reg_inv (snd (remove_client js i r))"
  using remove_locked_inv [of r i]
  by (auto simp: remove_client_def split: prod.splits option.splits)

lemma reg_apply_inv: "reg_inv r \<Longrightarrow> admissible x r \<Longrightarrow> reg_inv (reg_apply js x r)"
proof (cases x)
  case (Op_Watermark w)
  then show "reg_inv r \<Longrightarrow> ?thesis"
    by (simp add: note_client_watermark_def reg_inv_def)
next
  case Op_TakeWatermark
  then show "reg_inv r \<Longrightarrow> ?thesis"
    by (simp add: take_latest_watermark_def reg_inv_def)
next
  case (Op_Rehash cs)
  then show "reg_inv r \<Longrightarrow> admissible x r \<Longrightarrow> ?thesis"
    using rehash_inv [of cs r] by simp
qed (use register_inv remove_inv set_mode_inv attach_inv lost_inv take_inv in \<open>fastforce+\<close>)

lemma reg_step_inv: "reg_inv r \<Longrightarrow> reg_step js x r = Inr s \<Longrightarrow> reg_inv s"
  using reg_apply_inv [of r x js] by (simp add: reg_step_def split: if_splits)

interpretation registry: guarded_machine "reg_step js" reg_inv for js
  by unfold_locales (rule reg_step_inv)

lemma reg_new_inv: "reg_inv (registry_new m)"
  by (simp add: reg_inv_def registry_new_def clients_ok_def waiting_ids_def)

lemma reg_reachable_inv: "reg_reachable js r \<Longrightarrow> reg_inv r"
  by (induction rule: reg_reachable.induct) (blast intro: reg_new_inv reg_step_inv)+

lemma assigned_client:
  "assign_transport kind now (new_client_handle rq) r = (c, s) \<Longrightarrow>
    ch_id c = rq_id rq \<and> ch_name c = rq_name rq \<and> ch_client_key c = rq_client_key rq
    \<and> ch_control_tx c = rq_control_tx rq \<and> ch_data_plane c = rq_data_plane rq \<and> ch_codec c = rq_codec rq
    \<and> ch_audio_mode c = rq_audio_mode rq \<and> ch_preferred_sample_rate c = rq_preferred_sample_rate rq
    \<and> ch_pending_first_packet c \<and> ch_supports_v2_events c = rq_supports_v2_events rq"
  by (cases kind) (auto simp: new_client_handle_def Let_def split: list.splits)

section \<open>The session counter\<close>

definition sessions_ok :: "('tx, 'wr) registry \<Rightarrow> bool" where
  "sessions_ok r \<longleftrightarrow> m_active_sessions (reg_metrics r) = of_nat (length (reg_clients r))"

lemma length_remove_id:
  assumes "distinct (map ch_id cs)"
  shows "length (filter (\<lambda>c. ch_id c \<noteq> i) cs) = length cs - (if i \<in> ch_id ` set cs then 1 else 0)"
  using assms
proof (induction cs)
  case (Cons c cs)
  then have "ch_id c = i \<Longrightarrow> filter (\<lambda>c. ch_id c \<noteq> i) cs = cs"
    by (intro filter_fresh_id) auto
  then show ?case
    using Cons by (cases cs) auto
qed simp

lemma register_sessions:
  assumes inv: "reg_inv r" and adm: "admissible (Op_Register rq now) r" and s: "sessions_ok r"
  shows "sessions_ok (snd (register_client js rq now r))"
proof (cases "fst (register_client js rq now r)")
  case (Inl e)
  then have "replacement_for rq (reg_clients r) = None"
    using register_client_error [OF inv, of js rq now] by (auto split: if_splits)
  then show ?thesis
    using Inl s by (simp add: register_client_error_state after_replacement_def)
next
  case (Inr u)
  obtain c t where a: "assign_transport (rq_transport_kind rq) now (new_client_handle rq)
      (after_replacement rq r) = (c, t)" by fastforce
  have ok: "fst (register_client js rq now r) = Inr ()" using Inr by simp
  note res = register_client_result [OF ok a]
  have "set (reg_clients (after_replacement rq r)) \<subseteq> set (reg_clients r)"
    by (auto simp: after_replacement_clients split: option.splits)
  then have "ch_id c \<notin> ch_id ` set (reg_clients (after_replacement rq r))"
    using adm assign_transport_frame(3) [OF a] by (auto simp: new_client_handle_def)
  moreover have "reg_clients r = [] \<Longrightarrow> replacement_for rq (reg_clients r) = None"
    using replacement_for_SomeD [of rq "reg_clients r"] by fastforce
  ultimately show ?thesis
    using s length_after_replacement [OF inv, of rq]
    by (cases "reg_clients r") (auto simp: sessions_ok_def res insert_client_fresh)
qed

lemma remove_sessions:
  assumes inv: "reg_inv r" and s: "sessions_ok r"
  shows "sessions_ok (snd (remove_client js i r))"
proof -
  have "distinct (map ch_id (reg_clients r))" using inv by (simp add: reg_inv_def clients_ok_def)
  note len = length_remove_id [OF this, of i]
  show ?thesis
  proof (cases "get_client i (reg_clients r)")
    case None
    then have "i \<notin> ch_id ` set (reg_clients r)" by (rule iffD1 [OF get_client_None])
    then show ?thesis
      using None s len by (simp add: remove_client_def remove_client_locked_def sessions_ok_def)
  next
    case (Some c)
    then have i: "i \<in> ch_id ` set (reg_clients r)" using get_client_SomeD by blast
    then have "reg_clients r \<noteq> []" by auto
    then have "(of_nat (length (reg_clients r) - 1) :: u64) = of_nat (length (reg_clients r)) - 1"
      by (cases "reg_clients r") auto
    then show ?thesis
      using Some s len i
      by (simp add: remove_client_def remove_client_locked_def sessions_ok_def dec_sessions_def)
  qed
qed

lemma length_update_client [simp]: "length (update_client i f cs) = length cs"
  by (simp add: update_client_def)

lemma other_ops_sessions:
  "sessions_ok r \<Longrightarrow> sessions_ok (set_client_mode js i mode rate codec r)"
  "sessions_ok r \<Longrightarrow> sessions_ok (snd (mark_usb_transport_lost i now r))"
  "sessions_ok r \<Longrightarrow> sessions_ok (snd (take_broadcast_clients r))"
  "sessions_ok r \<Longrightarrow> sessions_ok (note_client_watermark w r)"
  "sessions_ok r \<Longrightarrow> sessions_ok (snd (take_latest_watermark r))"
  by (auto simp: sessions_ok_def set_client_mode_def mark_usb_transport_lost_def Let_def
      take_broadcast_clients_def note_client_watermark_def take_latest_watermark_def send_to_all_def
      split: option.splits)

lemma attach_sizes:
  "length (reg_clients (attach_usb_stream st now r)) = length (reg_clients (drop_expired now r))"
  "reg_metrics (attach_usb_stream st now r) = reg_metrics r"
  by (auto simp: attach_usb_stream_def Let_def drop_expired_form split: list.splits option.splits)

lemma length_drop_expired:
  assumes "reg_inv r"
  shows "length (reg_clients (drop_expired now r)) + length (expired_pending now r) = length (reg_clients r)"
proof -
  let ?E = "set (expired_pending now r)"
  have dp: "distinct (map fst (reg_pending_usb_clients r))" and dc: "distinct (map ch_id (reg_clients r))"
    using assms by (auto simp: reg_inv_def clients_ok_def)
  have "?E \<subseteq> set (map fst (reg_pending_usb_clients r))" by (auto simp: expired_pending_def)
  then have sub: "?E \<subseteq> ch_id ` set (reg_clients r)"
    using assms by (auto simp: reg_inv_def waiting_ids_def)
  have "distinct (expired_pending now r)"
    using dp by (simp add: expired_pending_def distinct_map_filter)
  then have card: "card ?E = length (expired_pending now r)" by (rule distinct_card)
  have "?E = set (map ch_id (filter (\<lambda>c. ch_id c \<in> ?E) (reg_clients r)))" using sub by auto
  moreover have "distinct (map ch_id (filter (\<lambda>c. ch_id c \<in> ?E) (reg_clients r)))"
    using dc by (rule distinct_map_filter)
  ultimately have "card ?E = length (filter (\<lambda>c. ch_id c \<in> ?E) (reg_clients r))"
    by (metis distinct_card length_map)
  then show ?thesis
    using sum_length_filter_compl [of "\<lambda>c. ch_id c \<in> ?E" "reg_clients r"] card
    by (simp add: drop_expired_form)
qed

lemma attach_sessions:
  assumes "reg_inv r" and "sessions_ok r"
  shows "m_active_sessions (reg_metrics (attach_usb_stream st now r))
    = of_nat (length (reg_clients (attach_usb_stream st now r)) + length (expired_pending now r))"
  using assms length_drop_expired [OF assms(1), of now] by (simp add: sessions_ok_def attach_sizes)

lemma sort_key_mset_unique:
  assumes "mset xs = mset ys" and "distinct (map f xs)"
  shows "sort_key f xs = sort_key f ys"
proof (rule properties_for_sort_key)
  show "mset (sort_key f ys) = mset xs" using assms(1) by simp
  show "sorted (map f (sort_key f ys))" by simp
  fix k assume "k \<in> set (sort_key f ys)"
  then have "k \<in> set xs" using assms(1) by (metis mset_eq_setD set_sort)
  have "filter (\<lambda>x. f k = f x) zs = [k]" if "mset zs = mset xs" for zs
  proof -
    have "distinct (map f zs)"
      using that assms(2) by (metis mset_eq_imp_distinct_iff mset_map)
    moreover have "k \<in> set zs" using \<open>k \<in> set xs\<close> that by (metis mset_eq_setD)
    ultimately show ?thesis
    proof (induction zs)
      case (Cons z zs)
      show ?case
      proof (cases "z = k")
        case True
        have "filter (\<lambda>x. f k = f x) zs = []"
          using Cons.prems True by (auto simp: filter_empty_conv image_iff)
        with True show ?thesis by simp
      next
        case False
        then have "k \<in> set zs" using Cons.prems by simp
        moreover from this have "f z \<noteq> f k" using Cons.prems by (auto simp: image_iff)
        ultimately show ?thesis using Cons by auto
      qed
    qed simp
  qed
  then show "filter (\<lambda>x. f k = f x) (sort_key f ys) = filter (\<lambda>x. f k = f x) xs"
    using assms(1) by simp
qed

section \<open>Properties\<close>

text \<open>
  C2: the invariant of every reachable registry, whatever operations ran, in whatever order and
  with whatever hash-map iteration order. At most four clients are connected, with distinct
  session ids and distinct client keys (one session per device); a client on the legacy plane
  has codec PCM16; and the queue of USB clients that wait for their stream holds, once each,
  exactly the USB clients that have no transport.
\<close>
theorem registry_reachable_invariant:
  assumes "reg_reachable js r"
  shows "length (reg_clients r) \<le> MAX_CLIENTS
    \<and> distinct (map ch_id (reg_clients r)) \<and> distinct (map ch_client_key (reg_clients r))
    \<and> (\<forall>c \<in> set (reg_clients r). ch_data_plane c = LegacyLas1 \<longrightarrow> ch_codec c = Sel_Pcm16)
    \<and> distinct (map fst (reg_pending_usb_clients r))
    \<and> fst ` set (reg_pending_usb_clients r) =
        ch_id ` {c \<in> set (reg_clients r). ch_prefers_usb_transport c \<and> ch_transport c = None}"
  using reg_reachable_inv [OF assms]
  by (auto simp: reg_inv_def clients_ok_def client_ok_def waiting_ids_def waits_for_stream_def)

definition sample_json :: json_api where
  "sample_json = \<lparr>show_v2 = (\<lambda>_. Some ''v2''), show_server = (\<lambda>_. Some ''server''),
     parse_v2 = (\<lambda>_. Inl ''bad''), parse_client = (\<lambda>_. Inl ''bad'')\<rparr>"

definition sample_request :: "uuid \<Rightarrow> string \<Rightarrow> client_transport_kind \<Rightarrow> nat register_client_request" where
  "sample_request i key kind = \<lparr>rq_id = i, rq_name = ''phone'', rq_client_key = key,
     rq_control_tx = unat i, rq_transport_kind = kind, rq_data_plane = V2Header,
     rq_codec = Sel_Opus, rq_audio_mode = Balanced, rq_preferred_sample_rate = 48000,
     rq_supports_v2_events = True\<rparr>"

definition sample_registry :: "(nat, nat) registry" where
  "sample_registry = snd (register_client sample_json (sample_request 1 ''k1'' (Kind_Usb ''s'')) 0
     (registry_new metrics_default))"

lemmas register_eval = sample_registry_def sample_request_def sample_json_def register_client_def
  replacement_for_def new_client_handle_def register_broadcasts_def v2_recipients_def
  insert_client_def registry_new_def MAX_CLIENTS_def check_multi_client_allowed_def
  build_client_list_json_def build_client_joined_json_def inc_sessions_def Let_def

lemma sample_registry_reachable: "reg_reachable sample_json sample_registry"
proof -
  have "reg_step sample_json (Op_Register (sample_request 1 ''k1'' (Kind_Usb ''s'')) 0)
      (registry_new metrics_default) = Inr sample_registry"
    by (simp add: reg_step_def sample_registry_def registry_new_def sample_request_def)
  then show ?thesis using reg_init reg_more by blast
qed

theorem registry_reachable_invariant_witness:
  "fst ` set (reg_pending_usb_clients sample_registry) = {1}"
  using registry_reachable_invariant [OF sample_registry_reachable]
  by (auto simp: register_eval)

text \<open>
  C25: registering a client, in every reachable registry and under a fresh session id (with PCM16 if
  the plane is the legacy one, as negotiation ensures). It fails only with \<open>too_many_clients\<close>,
  exactly when the newcomer replaces nobody and four clients are connected, and then nothing changes.
  Otherwise the map afterwards holds the newcomer, with the plane, codec, mode and rate it asked for,
  and exactly the old clients but the replaced one; and the session counter goes up by one when
  nobody is replaced and stays when somebody is. A reconnecting device (same client key) is always
  replaced, so it can reconnect to a full server. A USB newcomer replaces only a USB client that
  holds a stream, so the remark in \<open>register_client\<close> that only one USB session is allowed does not
  hold: see \<open>usb_sessions_coexist\<close>.
\<close>
theorem register_client_outcome:
  assumes "reg_reachable js r" and "admissible (Op_Register rq now) r"
  shows "case register_client js rq now r of
      (Inl e, s) \<Rightarrow> e = TooManyClientsErr \<and> replacement_for rq (reg_clients r) = None
        \<and> length (reg_clients r) = MAX_CLIENTS \<and> s = r
    | (Inr _, s) \<Rightarrow>
        (replacement_for rq (reg_clients r) \<noteq> None \<or> length (reg_clients r) < MAX_CLIENTS)
        \<and> (\<exists>c. ch_id c = rq_id rq \<and> ch_name c = rq_name rq \<and> ch_client_key c = rq_client_key rq
            \<and> ch_data_plane c = rq_data_plane rq \<and> ch_codec c = rq_codec rq
            \<and> ch_audio_mode c = rq_audio_mode rq
            \<and> ch_preferred_sample_rate c = rq_preferred_sample_rate rq \<and> ch_pending_first_packet c
            \<and> reg_clients s = (case replacement_for rq (reg_clients r) of
                None \<Rightarrow> reg_clients r
              | Some d \<Rightarrow> filter (\<lambda>e. ch_id e \<noteq> ch_id d) (reg_clients r)) @ [c])
        \<and> m_active_sessions (reg_metrics s) = m_active_sessions (reg_metrics r)
            + (if replacement_for rq (reg_clients r) = None then 1 else 0)"
proof (cases "register_client js rq now r")
  case (Pair e s)
  note inv = reg_reachable_inv [OF assms(1)]
  note err = register_client_error [OF inv, of js rq now]
  show ?thesis
  proof (cases e)
    case (Inl x)
    then show ?thesis
      using err Pair register_client_error_state [of js rq now r x]
      by (auto simp: after_replacement_def split: if_splits)
  next
    case (Inr u)
    obtain c t where a: "assign_transport (rq_transport_kind rq) now (new_client_handle rq)
        (after_replacement rq r) = (c, t)" by fastforce
    have ok: "fst (register_client js rq now r) = Inr ()" using Inr Pair by simp
    note fr = assign_transport_frame [OF a]
    have "set (reg_clients (after_replacement rq r)) \<subseteq> set (reg_clients r)"
      by (auto simp: after_replacement_clients split: option.splits)
    then have fresh: "ch_id c \<notin> ch_id ` set (reg_clients (after_replacement rq r))"
      using assms(2) fr(3) by (auto simp: new_client_handle_def)
    have "length (reg_clients r) \<le> MAX_CLIENTS" using inv by (simp add: reg_inv_def clients_ok_def)
    moreover have "reg_clients s = reg_clients (after_replacement rq r) @ [c]"
      using register_client_result(1) [OF ok a] Pair insert_client_fresh [OF fresh] by simp
    moreover note register_client_result(3) [OF ok a] assigned_client [OF a]
    ultimately show ?thesis
      using Pair Inr ok err fr
      by (auto simp: after_replacement_clients new_client_handle_def split: if_splits)
  qed
qed

text \<open>The same device comes back over WiFi: its old session makes room, the counter stays at one.\<close>

theorem register_client_outcome_witness:
  "\<exists>c s. register_client sample_json (sample_request 2 ''k1'' (Kind_Wifi \<lparr>sa_ip = V4 10 0 0 2, sa_port = 9\<rparr>))
      7 sample_registry = (Inr (), s)
   \<and> reg_clients s = [c] \<and> ch_id c = 2 \<and> m_active_sessions (reg_metrics s) = 1"
proof -
  let ?rq = "sample_request 2 ''k1'' (Kind_Wifi \<lparr>sa_ip = V4 10 0 0 2, sa_port = 9\<rparr>)"
  have adm: "admissible (Op_Register ?rq 7) sample_registry" by (simp add: register_eval)
  have l: "length (reg_clients sample_registry) \<noteq> MAX_CLIENTS"
    and m: "m_active_sessions (reg_metrics sample_registry) = 1"
    by (simp_all add: register_eval note_client_connected_def metrics_default_def)
  obtain d where d: "reg_clients sample_registry = [d]" "ch_client_key d = ''k1''"
    by (simp add: register_eval)
  have r: "replacement_for ?rq [d] = Some d"
    by (simp add: d(2) replacement_for_def sample_request_def)
  have i: "rq_id ?rq = 2" by (simp add: sample_request_def)
  show ?thesis
    using register_client_outcome [OF sample_registry_reachable adm] l m i
    by (cases "register_client sample_json ?rq 7 sample_registry")
      (auto simp: r d split: sum.splits)
qed

text \<open>
  Two USB sessions at once. A USB client that still waits for its stream is not replaced by another
  USB device, so both are registered, and both wait.
\<close>
theorem usb_sessions_coexist:
  "\<exists>r. reg_reachable sample_json (r :: (nat, nat) registry) \<and> map ch_id (reg_clients r) = [1, 2]
    \<and> list_all ch_prefers_usb_transport (reg_clients r) \<and> map fst (reg_pending_usb_clients r) = [1, 2]"
proof -
  let ?x = "Op_Register (sample_request 2 ''k2'' (Kind_Usb ''t'')) 5"
  have "reg_step sample_json ?x sample_registry = Inr (reg_apply sample_json ?x sample_registry)"
    by (simp add: reg_step_def register_eval)
  from reg_more [OF sample_registry_reachable this] show ?thesis
    by (intro exI [of _ "reg_apply sample_json ?x sample_registry"])
      (simp add: register_eval has_usb_stream_def)
qed

text \<open>
  The active-sessions metric. Every operation but one keeps it equal to the number of
  connected clients. The exception is \<open>attach_usb_stream\<close>: it drops the USB clients that waited
  more than 60 seconds without \<open>dec_sessions\<close>, so afterwards the metric exceeds the number of
  clients by the number of expired ones, for good.
\<close>
theorem sessions_metric:
  assumes "reg_reachable js r" and "sessions_ok r" and "admissible x r"
  shows "case x of
      Op_Attach st now \<Rightarrow> m_active_sessions (reg_metrics (reg_apply js x r))
        = of_nat (length (reg_clients (reg_apply js x r)) + length (expired_pending now r))
    | _ \<Rightarrow> m_active_sessions (reg_metrics (reg_apply js x r))
        = of_nat (length (reg_clients (reg_apply js x r)))"
proof (cases x)
  case (Op_Register rq now)
  then show ?thesis
    using register_sessions [OF reg_reachable_inv [OF assms(1)] _ assms(2), of rq now js] assms(3)
    by (simp add: sessions_ok_def)
next
  case (Op_Remove i)
  then show ?thesis
    using remove_sessions [OF reg_reachable_inv [OF assms(1)] assms(2), of js i]
    by (simp add: sessions_ok_def)
next
  case (Op_Attach st now)
  then show ?thesis
    using attach_sessions [OF reg_reachable_inv [OF assms(1)] assms(2), of st now] by simp
next
  case (Op_Rehash cs)
  then show ?thesis
    using assms(2,3) mset_eq_length [of cs "reg_clients r"] by (simp add: sessions_ok_def)
qed (use other_ops_sessions [OF assms(2)] in \<open>simp_all add: sessions_ok_def\<close>)

theorem sessions_metric_witness:
  "m_active_sessions (reg_metrics (attach_usb_stream 5 60001 sample_registry)) = 1
   \<and> reg_clients (attach_usb_stream 5 60001 sample_registry) = []"
proof -
  have s: "sessions_ok sample_registry"
    by (simp add: sessions_ok_def register_eval note_client_connected_def metrics_default_def)
  have e: "expired_pending 60001 sample_registry = [1]"
    by (simp add: expired_pending_def register_eval USB_PENDING_TIMEOUT_SECS_def)
  have c: "reg_clients (attach_usb_stream 5 60001 sample_registry) = []"
    using length_drop_expired [OF reg_reachable_inv [OF sample_registry_reachable], of 60001] e
      attach_sizes(1) [of 5 60001 sample_registry]
    by (simp add: register_eval)
  show ?thesis
    using sessions_metric [OF sample_registry_reachable s, of "Op_Attach 5 60001"] e c by simp
qed

text \<open>
  Changing mode and codec. For a connected client \<open>set_client_mode\<close> sets the mode, the
  sample rate when one is given, and the codec the client's plane can carry: Opus and PCM24 only
  on the v2 plane and PCM16 otherwise, without looking at any advertised capability. A codec
  request forces a first-packet mark; every other client is untouched, and the new client list
  goes to every v2 client.
\<close>
theorem set_client_mode_outcome:
  assumes "reg_reachable js r" and "get_client i (reg_clients r) = Some c"
  shows "get_client i (reg_clients (set_client_mode js i mode rate codec r)) = Some (c\<lparr>
      ch_audio_mode := mode,
      ch_preferred_sample_rate := (case rate of None \<Rightarrow> ch_preferred_sample_rate c | Some n \<Rightarrow> n),
      ch_codec := (case codec of None \<Rightarrow> ch_codec c
                   | Some k \<Rightarrow> if ch_data_plane c = V2Header then k else Sel_Pcm16),
      ch_pending_first_packet := (codec \<noteq> None \<or> ch_pending_first_packet c),
      ch_pending_mode_sync := True\<rparr>)
    \<and> (\<forall>j. j \<noteq> i \<longrightarrow> get_client j (reg_clients (set_client_mode js i mode rate codec r))
                    = get_client j (reg_clients r))"
proof -
  have "resolve_codec_request k (ch_data_plane c) = Some (if ch_data_plane c = V2Header then k else Sel_Pcm16)" for k
    by (cases k; cases "ch_data_plane c") simp_all
  then have "apply_mode mode rate codec c = c\<lparr>
      ch_audio_mode := mode,
      ch_preferred_sample_rate := (case rate of None \<Rightarrow> ch_preferred_sample_rate c | Some n \<Rightarrow> n),
      ch_codec := (case codec of None \<Rightarrow> ch_codec c
                   | Some k \<Rightarrow> if ch_data_plane c = V2Header then k else Sel_Pcm16),
      ch_pending_first_packet := (codec \<noteq> None \<or> ch_pending_first_packet c),
      ch_pending_mode_sync := True\<rparr>"
    by (cases rate; cases codec) (simp_all add: apply_mode_def Let_def)
  then show ?thesis using assms(2) by (simp add: set_client_mode_get)
qed

theorem set_client_mode_outcome_witness:
  "map_option ch_codec (get_client 1 (reg_clients
     (set_client_mode sample_json 1 HighQuality None (Some Sel_Pcm24) sample_registry))) = Some Sel_Pcm24"
proof -
  obtain c where c: "get_client 1 (reg_clients sample_registry) = Some c" "ch_data_plane c = V2Header"
    by (simp add: register_eval get_client_def)
  then show ?thesis
    using set_client_mode_outcome [OF sample_registry_reachable c(1), of HighQuality None "Some Sel_Pcm24"]
    by simp
qed

text \<open>
  The first-packet and mode-changed marks reach the encoder exactly once. A snapshot lists
  exactly the clients that have a transport, with the marks as they stand, and clears them for
  those clients only; so in the next snapshot every client listed before has both marks off.
\<close>
theorem broadcast_marks_once:
  fixes r :: "('tx, 'wr) registry"
  assumes "take_broadcast_clients r = (bs, s)" and "take_broadcast_clients s = (bs', t)"
  shows "map bc_id bs = map ch_id (filter (\<lambda>c. ch_transport c \<noteq> None) (reg_clients r))
    \<and> map bc_first_packet bs = map ch_pending_first_packet (filter (\<lambda>c. ch_transport c \<noteq> None) (reg_clients r))
    \<and> map bc_id bs' = map bc_id bs
    \<and> (\<forall>b \<in> set bs'. \<not> bc_first_packet b \<and> \<not> bc_mode_changed b)
    \<and> filter (\<lambda>c. ch_transport c = None) (reg_clients s)
        = filter (\<lambda>c. ch_transport c = None) (reg_clients r)"
proof -
  let ?g = "\<lambda>c :: ('tx, 'wr) client_handle. case ch_transport c of None \<Rightarrow> c
    | Some _ \<Rightarrow> c\<lparr>ch_pending_first_packet := False, ch_pending_mode_sync := False\<rparr>"
  have "map bc_id (List.map_filter broadcast_view cs) = map ch_id (filter (\<lambda>c. ch_transport c \<noteq> None) cs)
    \<and> map bc_first_packet (List.map_filter broadcast_view cs)
        = map ch_pending_first_packet (filter (\<lambda>c. ch_transport c \<noteq> None) cs)
    \<and> map bc_id (List.map_filter broadcast_view (map ?g cs))
        = map ch_id (filter (\<lambda>c. ch_transport c \<noteq> None) cs)
    \<and> (\<forall>b \<in> set (List.map_filter broadcast_view (map ?g cs)). \<not> bc_first_packet b \<and> \<not> bc_mode_changed b)
    \<and> filter (\<lambda>c. ch_transport c = None) (map ?g cs) = filter (\<lambda>c. ch_transport c = None) cs"
    for cs
    by (induction cs) (auto simp: map_filter_simps broadcast_view_def split: option.splits)
  from this [of "reg_clients r"] show ?thesis
    using assms by (auto simp: take_broadcast_clients_def simp del: map_map filter_map)
qed

theorem broadcast_marks_once_witness:
  "\<not> bc_first_packet (hd (fst (take_broadcast_clients (snd (take_broadcast_clients
     (attach_usb_stream 5 10 sample_registry))))))"
proof -
  let ?r = "attach_usb_stream 5 10 sample_registry"
  obtain bs s where 1: "take_broadcast_clients ?r = (bs, s)" by fastforce
  obtain bs' t where 2: "take_broadcast_clients s = (bs', t)" by fastforce
  have "filter (\<lambda>c. ch_transport c \<noteq> None) (reg_clients ?r) \<noteq> []"
    by (simp add: attach_usb_stream_def drop_expired_def expired_pending_def register_eval
        USB_PENDING_TIMEOUT_SECS_def update_client_def set_usb_stream_def)
  then have "bs' \<noteq> []" using broadcast_marks_once [OF 1 2] by (metis map_is_Nil_conv)
  then show ?thesis using broadcast_marks_once [OF 1 2] 1 2 by simp
qed

text \<open>
  The client list every v2 client receives does not depend on the hash map's iteration order:
  two maps with the same clients (with distinct ids) give the same text.
\<close>
theorem client_list_deterministic:
  assumes "mset cs = mset ds" and "distinct (map ch_id cs)"
  shows "build_client_list_json js cs = build_client_list_json js ds"
proof -
  have "mset (filter ch_supports_v2_events cs) = mset (filter ch_supports_v2_events ds)"
    using assms(1) by simp
  moreover have "distinct (map ch_id (filter ch_supports_v2_events cs))"
    using assms(2) by (rule distinct_map_filter)
  ultimately have "sort_key ch_id (filter ch_supports_v2_events cs)
      = sort_key ch_id (filter ch_supports_v2_events ds)"
    by (rule sort_key_mset_unique)
  then show ?thesis by (simp add: build_client_list_json_def)
qed

theorem client_list_deterministic_witness:
  "build_client_list_json sample_json
     [new_client_handle (sample_request 2 ''b'' (Kind_Usb ''s'')),
      new_client_handle (sample_request 1 ''a'' (Kind_Usb ''s'')) :: (nat, nat) client_handle]
   = build_client_list_json sample_json
     [new_client_handle (sample_request 1 ''a'' (Kind_Usb ''s'')),
      new_client_handle (sample_request 2 ''b'' (Kind_Usb ''s'')) :: (nat, nat) client_handle]"
  by (rule client_list_deterministic) (simp_all add: new_client_handle_def sample_request_def)

text \<open>
  A USB stream that reconnects too early is lost to its client. When a USB client's transport
  is marked lost it joins the waiting queue and stays without a transport even if a forwarded
  stream is already queued, and the queued streams stay where they are: only a later
  \<open>attach_usb_stream\<close> serves the client.
\<close>
theorem usb_lost_ignores_queued_streams:
  assumes "reg_reachable js r" and "get_client i (reg_clients r) = Some c"
    and "ch_prefers_usb_transport c" and "mark_usb_transport_lost i now r = (name, s)"
  shows "name = Some (ch_name c)
    \<and> get_client i (reg_clients s) = Some (c\<lparr>ch_transport := None\<rparr>)
    \<and> i \<in> fst ` set (reg_pending_usb_clients s)
    \<and> reg_pending_usb_streams s = reg_pending_usb_streams r"
proof -
  have "get_client i (update_client i (\<lambda>c. c\<lparr>ch_transport := None\<rparr>) cs)
      = map_option (\<lambda>c. c\<lparr>ch_transport := None\<rparr>) (get_client i cs)"
    for cs :: "('a, 'b) client_handle list"
    by (induction cs) (auto simp: get_client_def update_client_def)
  moreover have "list_ex (\<lambda>(j, _). j = i) xs \<longleftrightarrow> i \<in> fst ` set xs" for xs :: "(uuid \<times> nat) list"
    by (force simp: list_ex_iff)
  ultimately show ?thesis
    using assms(2-4) by (auto simp: mark_usb_transport_lost_def Let_def split: if_splits)
qed

theorem usb_lost_ignores_queued_streams_witness:
  "let s = snd (mark_usb_transport_lost 1 30 (attach_usb_stream 6 20 (attach_usb_stream 5 10 sample_registry)))
   in reg_pending_usb_streams s = [6] \<and> 1 \<in> fst ` set (reg_pending_usb_clients s)"
proof -
  let ?r = "attach_usb_stream 6 20 (attach_usb_stream 5 10 sample_registry)"
  note ev = attach_usb_stream_def drop_expired_def expired_pending_def register_eval
    USB_PENDING_TIMEOUT_SECS_def update_client_def set_usb_stream_def get_client_def
  have "reg_step sample_json (Op_Attach 5 10) sample_registry = Inr (attach_usb_stream 5 10 sample_registry)"
    and "reg_step sample_json (Op_Attach 6 20) (attach_usb_stream 5 10 sample_registry) = Inr ?r"
    by (simp_all add: reg_step_def)
  then have reach: "reg_reachable sample_json ?r"
    using sample_registry_reachable reg_more by blast
  obtain c where c: "get_client 1 (reg_clients ?r) = Some c" "ch_prefers_usb_transport c"
    by (simp add: ev)
  have q: "reg_pending_usb_streams ?r = [6]" by (simp add: ev)
  obtain name s where "mark_usb_transport_lost 1 30 ?r = (name, s)" by fastforce
  from usb_lost_ignores_queued_streams [OF reach c this] this q show ?thesis by (simp add: Let_def)
qed

end
