(* ===== verification/Session_Server.thy ===== *)
theory Session_Server
  imports Client_Registry
begin

text \<open>
  A control session of \<open>crates/lan_audio_server/src/session.rs\<close>: the hello, the negotiation of
  data plane and codec, the registration, the greeting messages, and the message loop of
  \<open>handle_client\<close> until it breaks or fails. What the WebSocket delivers is a list of events; JSON,
  the \<open>Display\<close> of an IP address and the package version are parameters (\<open>session_env\<close>). The
  session works on the shared registry, router and current mode; its sends are the registry's
  \<open>reg_sent\<close> history.
\<close>

section \<open>Hello and capabilities\<close>

definition preferred_sample_rate_default :: u32 where "preferred_sample_rate_default = 48000"

definition normalize_preferred_sample_rate :: "u32 \<Rightarrow> u32" where
  "normalize_preferred_sample_rate sample_rate =
     (if sample_rate \<in> {8000, 12000, 16000, 24000, 48000} then sample_rate
      else preferred_sample_rate_default)"

definition legacy_client_capabilities :: protocol_capabilities where
  "legacy_client_capabilities =
     \<lparr>supports_pcm16 = True, supports_f32 = False, supports_modes = False,
      supports_metrics = False, supports_opus_future = False, supports_opus = False,
      supports_opus_experimental = False, supports_low_latency = False,
      supports_high_quality = False, supports_native_audio_track = False,
      supports_fast_path = False, supports_stable_audio_track = False,
      supports_usb_tethering = False, supports_usb_direct_future = False,
      supports_reverse_channel = False, supports_hires_pcm24 = False,
      supports_ultra_low_latency = False\<rparr>"

definition default_server_capabilities :: protocol_capabilities where
  "default_server_capabilities =
     \<lparr>supports_pcm16 = True, supports_f32 = False, supports_modes = True,
      supports_metrics = True, supports_opus_future = True, supports_opus = True,
      supports_opus_experimental = True, supports_low_latency = True,
      supports_high_quality = True, supports_native_audio_track = True,
      supports_fast_path = False, supports_stable_audio_track = True,
      supports_usb_tethering = True, supports_usb_direct_future = False,
      supports_reverse_channel = False, supports_hires_pcm24 = False,
      supports_ultra_low_latency = True\<rparr>"

datatype session_error =
    HelloTimeout | DisconnectedBeforeHello | WebSocketError string | ExpectedTextHello
  | UnsupportedVersion u8 | InvalidHelloJson string | FirstMessageNotHello | SerializeFailed

datatype session_hello =
    Hello_Legacy string u16 u32 u8 \<comment> \<open>client name, udp port, desired rate, channels\<close>
  | Hello_V2 hello

definition parse_session_hello :: "json_api \<Rightarrow> string \<Rightarrow> session_error + session_hello" where
  "parse_session_hello js txt =
     (case parse_v2 js txt of
        Inr (Msg_Hello h) \<Rightarrow>
          if hello_protocol_version h \<noteq> PROTOCOL_VERSION_V2
          then Inl (UnsupportedVersion (hello_protocol_version h))
          else Inr (Hello_V2 h)
      | _ \<Rightarrow>
          (case parse_client js txt of
             Inl e \<Rightarrow> Inl (InvalidHelloJson e)
           | Inr (ClientHello client_name udp_port desired_sample_rate channels) \<Rightarrow>
               Inr (Hello_Legacy client_name udp_port desired_sample_rate channels)
           | Inr _ \<Rightarrow> Inl FirstMessageNotHello))"

section \<open>Negotiation\<close>

record negotiated_session_path =
  np_data_plane :: data_plane_format
  np_codec :: codec_selection

definition negotiate_session_path ::
  "('sock, 'wr) data_plane_router \<Rightarrow> bool \<Rightarrow> protocol_capabilities \<Rightarrow> negotiated_session_path" where
  "negotiate_session_path router v2_session caps =
     (if \<not> v2_session then \<lparr>np_data_plane = LegacyLas1, np_codec = Sel_Pcm16\<rparr>
      else let data_plane = active_format router;
               codec =
                 (if active_codec router = Sel_Opus \<and> data_plane = V2Header
                     \<and> (supports_opus caps \<or> supports_opus_experimental caps) then Sel_Opus
                  else if active_codec router = Sel_Pcm24 \<and> data_plane = V2Header
                     \<and> supports_hires_pcm24 caps then Sel_Pcm24
                  else Sel_Pcm16)
           in \<lparr>np_data_plane = data_plane, np_codec = codec\<rparr>)"

section \<open>The session's world\<close>

record session_env =
  env_json :: json_api
  env_show_ip :: "ip_addr \<Rightarrow> string"
  env_app_version :: string

record ('tx, 'wr, 'sock) session_world =
  sw_registry :: "('tx, 'wr) registry"
  sw_router :: "('sock, 'wr) data_plane_router"
  sw_audio_mode :: audio_mode

record 'tx session =
  se_id :: uuid
  se_v2 :: bool
  se_conn :: connection_state_machine
  se_tx :: 'tx

datatype ws_message = Ws_Text string | Ws_Close | Ws_OtherMessage
datatype ws_read = Read_Timeout | Read_End | Read_Error string | Read_Message ws_message
datatype session_event = Ev_Shutdown | Ev_Read ws_read

text \<open>\<open>let _ = conn_state.transition(..)\<close>: a refused operation changes nothing.\<close>

definition csm_ignore ::
  "(connection_state_machine \<Rightarrow> transition_error + connection_state_machine)
   \<Rightarrow> connection_state_machine \<Rightarrow> connection_state_machine" where
  "csm_ignore f m = (case f m of Inl _ \<Rightarrow> m | Inr n \<Rightarrow> n)"

text \<open>\<open>control_tx.send(serde_json::to_string(..)?)\<close>: \<open>None\<close> is the failing \<open>?\<close>.\<close>

definition send_json ::
  "string option \<Rightarrow> 'tx \<Rightarrow> ('tx, 'wr) registry \<Rightarrow> ('tx, 'wr) registry option" where
  "send_json json tx r =
     (case json of None \<Rightarrow> None | Some txt \<Rightarrow> Some (r\<lparr>reg_sent := reg_sent r @ [(tx, txt)]\<rparr>))"

fun send_jsons ::
  "string option list \<Rightarrow> 'tx \<Rightarrow> ('tx, 'wr) registry \<Rightarrow> bool \<times> ('tx, 'wr) registry" where
  "send_jsons [] tx r = (True, r)"
| "send_jsons (j # js) tx r =
     (case send_json j tx r of None \<Rightarrow> (False, r) | Some s \<Rightarrow> send_jsons js tx s)"

section \<open>Opening a session\<close>

record hello_facts =
  hf_client_name :: string
  hf_client_key :: string
  hf_udp_port :: u16
  hf_desired_sample_rate :: u32
  hf_channels :: u8
  hf_v2 :: bool
  hf_capabilities :: protocol_capabilities

definition hello_facts_of :: "session_env \<Rightarrow> socket_addr \<Rightarrow> session_hello \<Rightarrow> hello_facts" where
  "hello_facts_of env peer h =
     (case h of
        Hello_Legacy name udp_port rate channels \<Rightarrow>
          \<lparr>hf_client_name = name,
           hf_client_key = ''legacy-'' @ name @ ''-'' @ env_show_ip env (sa_ip peer),
           hf_udp_port = udp_port, hf_desired_sample_rate = rate, hf_channels = channels,
           hf_v2 = False, hf_capabilities = legacy_client_capabilities\<rparr>
      | Hello_V2 hello \<Rightarrow>
          \<lparr>hf_client_name = hello_device_name hello, hf_client_key = hello_client_id hello,
           hf_udp_port = hello_udp_port hello,
           hf_desired_sample_rate = hello_desired_sample_rate hello,
           hf_channels = hello_channels hello, hf_v2 = True,
           hf_capabilities = hello_capabilities hello\<rparr>)"

fun transport_kind_of :: "transport_mode \<Rightarrow> ip_addr \<Rightarrow> u16 \<Rightarrow> client_transport_kind" where
  "transport_kind_of Mode_WiFi ip udp_port = Kind_Wifi \<lparr>sa_ip = ip, sa_port = udp_port\<rparr>"
| "transport_kind_of (Mode_Usb serial) ip udp_port = Kind_Usb serial"

fun transport_type_of :: "transport_mode \<Rightarrow> transport_type" where
  "transport_type_of Mode_WiFi = Wifi"
| "transport_type_of (Mode_Usb _) = Usb"

definition hello_ack_for ::
  "uuid \<Rightarrow> audio_mode \<Rightarrow> transport_mode \<Rightarrow> bool \<Rightarrow> string \<Rightarrow> control_message_v2" where
  "hello_ack_for sid mode tm accepted message =
     Msg_HelloAck \<lparr>ack_protocol_version = PROTOCOL_VERSION_V2, ack_accepted = accepted,
       ack_session_id = sid, ack_current_audio_mode = mode,
       ack_transport_type = transport_type_of tm, ack_mode_profile = mode_profile mode,
       ack_capabilities = default_server_capabilities, ack_message = message\<rparr>"

definition server_info_for ::
  "session_env \<Rightarrow> 'f server_config \<Rightarrow> uuid \<Rightarrow> audio_mode \<Rightarrow> negotiated_session_path
   \<Rightarrow> control_message_v2" where
  "server_info_for env cfg sid mode path =
     Msg_ServerInfo \<lparr>si_server_id = sid, si_server_name = server_name cfg,
       si_platform = ''windows'', si_app_version = env_app_version env,
       si_ws_port = sa_port (ws_bind cfg), si_udp_port = sa_port (udp_bind cfg),
       si_protocol_version = PROTOCOL_VERSION_V2, si_current_audio_mode = mode,
       si_mode_profile = mode_profile mode, si_codec = as_protocol_preference (np_codec path),
       si_data_plane = data_plane_format_as_str (np_data_plane path),
       si_gray_mode = (np_data_plane path \<noteq> LegacyLas1),
       si_recommended_connection = (case cfg_transport_mode cfg of
           Mode_WiFi \<Rightarrow> ''usb_tethering_or_5ghz_wifi'' | Mode_Usb _ \<Rightarrow> ''usb''),
       si_mix_format_hz = Some (cfg_sample_rate cfg)\<rparr>"

fun register_error_text :: "register_error \<Rightarrow> string" where
  "register_error_text TooManyClientsErr = ''too_many_clients''"
| "register_error_text MultiClientUpgradeRequired = ''multi_client_upgrade_required''"

text \<open>
  From the parsed hello to the established session. The result is an error (the handler
  returned \<open>Err\<close>), \<open>Inr None\<close> (the registration was refused and the client told), or the session.
\<close>

definition session_request ::
  "session_env \<Rightarrow> 'f server_config \<Rightarrow> socket_addr \<Rightarrow> uuid \<Rightarrow> 'tx \<Rightarrow> audio_mode
   \<Rightarrow> negotiated_session_path \<Rightarrow> hello_facts \<Rightarrow> 'tx register_client_request" where
  "session_request env cfg peer sid tx mode path f =
     \<lparr>rq_id = sid, rq_name = hf_client_name f, rq_client_key = hf_client_key f,
      rq_control_tx = tx,
      rq_transport_kind = transport_kind_of (cfg_transport_mode cfg) (sa_ip peer) (hf_udp_port f),
      rq_data_plane = np_data_plane path, rq_codec = np_codec path, rq_audio_mode = mode,
      rq_preferred_sample_rate = normalize_preferred_sample_rate (hf_desired_sample_rate f),
      rq_supports_v2_events = hf_v2 f\<rparr>"

definition greeting ::
  "session_env \<Rightarrow> 'f server_config \<Rightarrow> uuid \<Rightarrow> audio_mode \<Rightarrow> negotiated_session_path
   \<Rightarrow> hello_facts \<Rightarrow> string option list" where
  "greeting env cfg sid mode path f =
     (if hf_v2 f then
        [show_v2 (env_json env) (hello_ack_for sid mode (cfg_transport_mode cfg) True ''hello_ack''),
         show_v2 (env_json env) (server_info_for env cfg sid mode path)]
      else [])
     @ [show_server (env_json env) (ServerWelcome sid (codec_selection_as_str (np_codec path))
          (normalize_preferred_sample_rate (hf_desired_sample_rate f)) (hf_channels f)
          (cfg_frames_per_packet cfg))]"

definition refusal ::
  "session_env \<Rightarrow> 'f server_config \<Rightarrow> uuid \<Rightarrow> audio_mode \<Rightarrow> hello_facts \<Rightarrow> register_error
   \<Rightarrow> string option" where
  "refusal env cfg sid mode f e =
     (if hf_v2 f then show_v2 (env_json env)
        (hello_ack_for sid mode (cfg_transport_mode cfg) False (register_error_text e))
      else show_server (env_json env) (ServerError ''register_client_failed'' (register_error_text e)))"

definition establish ::
  "session_env \<Rightarrow> 'f server_config \<Rightarrow> socket_addr \<Rightarrow> uuid \<Rightarrow> 'tx \<Rightarrow> nat \<Rightarrow> hello_facts
   \<Rightarrow> connection_state_machine \<Rightarrow> ('tx, 'wr, 'sock) session_world
   \<Rightarrow> (session_error + 'tx session option) \<times> connection_state_machine
      \<times> ('tx, 'wr, 'sock) session_world" where
  "establish env cfg peer sid tx now f conn w =
     (let mode = sw_audio_mode w;
          path = negotiate_session_path (sw_router w) (hf_v2 f) (hf_capabilities f);
          reg = sw_registry w;
          reg = reg\<lparr>reg_metrics := set_negotiated_session_path
                  (data_plane_format_as_str (np_data_plane path))
                  (codec_selection_as_str (np_codec path)) (reg_metrics reg)\<rparr>;
          conn = csm_ignore (csm_transition Negotiated) conn
      in case register_client (env_json env) (session_request env cfg peer sid tx mode path f) now reg of
           (Inl e, reg) \<Rightarrow>
             let conn = csm_ignore (csm_fail Closed NegotiationMismatch) conn;
                 (ok, reg) = send_jsons [refusal env cfg sid mode f e] tx reg
             in (if ok then Inr None else Inl SerializeFailed, conn, w\<lparr>sw_registry := reg\<rparr>)
         | (Inr _, reg) \<Rightarrow>
             let (ok, reg) = send_jsons (greeting env cfg sid mode path f) tx reg in
             if \<not> ok then (Inl SerializeFailed, conn, w\<lparr>sw_registry := reg\<rparr>)
             else let conn = csm_ignore (csm_transition Streaming) conn
                  in (Inr (Some \<lparr>se_id = sid, se_v2 = hf_v2 f, se_conn = conn, se_tx = tx\<rparr>),
                      conn, w\<lparr>sw_registry := reg\<rparr>))"

definition open_session ::
  "session_env \<Rightarrow> 'f server_config \<Rightarrow> socket_addr \<Rightarrow> uuid \<Rightarrow> 'tx \<Rightarrow> nat \<Rightarrow> ws_read
   \<Rightarrow> ('tx, 'wr, 'sock) session_world
   \<Rightarrow> (session_error + 'tx session option) \<times> connection_state_machine
      \<times> ('tx, 'wr, 'sock) session_world" where
  "open_session env cfg peer sid tx now hello_read w =
     (let conn = csm_ignore (csm_transition Handshaking) csm_default;
          timed_out = csm_ignore (csm_fail Closed HandshakeTimeout) conn
      in case hello_read of
           Read_Timeout \<Rightarrow> (Inl HelloTimeout, timed_out, w)
         | Read_End \<Rightarrow> (Inl DisconnectedBeforeHello, timed_out, w)
         | Read_Error e \<Rightarrow> (Inl (WebSocketError e), conn, w)
         | Read_Message m \<Rightarrow>
             (case m of
                Ws_Text txt \<Rightarrow>
                  (case parse_session_hello (env_json env) txt of
                     Inl e \<Rightarrow> (Inl e, conn, w)
                   | Inr h \<Rightarrow> establish env cfg peer sid tx now (hello_facts_of env peer h) conn w)
              | _ \<Rightarrow> (Inl ExpectedTextHello, conn, w)))"

section \<open>The message loop\<close>

datatype loop_outcome = Loop_Continue | Loop_Break | Loop_Fail session_error

fun codec_of_preference :: "audio_codec_preference \<Rightarrow> codec_selection" where
  "codec_of_preference Pref_Opus = Sel_Opus"
| "codec_of_preference Pref_Pcm16 = Sel_Pcm16"
| "codec_of_preference Pref_Pcm24 = Sel_Pcm24"

definition handle_set_audio_mode ::
  "session_env \<Rightarrow> 'tx session \<Rightarrow> set_audio_mode \<Rightarrow> ('tx, 'wr, 'sock) session_world
   \<Rightarrow> loop_outcome \<times> ('tx, 'wr, 'sock) session_world" where
  "handle_set_audio_mode env se req w =
     (let mode = sam_mode req;
          rate = map_option normalize_preferred_sample_rate (sam_preferred_sample_rate req);
          codec_request = map_option codec_of_preference (sam_preferred_codec req);
          w = w\<lparr>sw_audio_mode := mode\<rparr>;
          reg = set_client_mode (env_json env) (se_id se) mode rate codec_request (sw_registry w);
          resolved_codec = map_option as_protocol_preference (client_codec (se_id se) reg);
          (ok, reg) = send_jsons [show_v2 (env_json env) (Msg_AudioModeChanged
            \<lparr>amc_mode = mode, amc_applied = True, amc_reason = sam_reason req,
             amc_mode_profile = mode_profile mode, amc_effective_codec = resolved_codec\<rparr>)]
            (se_tx se) reg
      in (if ok then Loop_Continue else Loop_Fail SerializeFailed, w\<lparr>sw_registry := reg\<rparr>))"

definition handle_v2_text ::
  "session_env \<Rightarrow> 'tx session \<Rightarrow> string \<Rightarrow> ('tx, 'wr, 'sock) session_world
   \<Rightarrow> loop_outcome \<times> ('tx, 'wr, 'sock) session_world" where
  "handle_v2_text env se txt w =
     (case parse_v2 (env_json env) txt of
        Inr (Msg_SetAudioMode req) \<Rightarrow> handle_set_audio_mode env se req w
      | Inr _ \<Rightarrow> (Loop_Continue, w)
      | Inl err \<Rightarrow>
          let (ok, reg) = send_jsons [show_v2 (env_json env) (Msg_Error
                \<lparr>em_code = ''bad_control_message'', em_message = ''invalid v2 message: '' @ err,
                 em_recoverable = True, em_failure_code = None\<rparr>)] (se_tx se) (sw_registry w)
          in (if ok then Loop_Continue else Loop_Fail SerializeFailed, w\<lparr>sw_registry := reg\<rparr>))"

definition handle_text ::
  "session_env \<Rightarrow> 'tx session \<Rightarrow> string \<Rightarrow> ('tx, 'wr, 'sock) session_world
   \<Rightarrow> loop_outcome \<times> ('tx, 'wr, 'sock) session_world" where
  "handle_text env se txt w =
     (case parse_client (env_json env) txt of
        Inr (ClientPing seq ts_unix_ms) \<Rightarrow>
          let snap = snapshot (reg_metrics (sw_registry w));
              (ok, reg) = send_jsons
                [show_server (env_json env) (ServerPong seq ts_unix_ms),
                 show_server (env_json env) (ServerMetrics (ms_tx_packets snap) (ms_tx_bytes snap)
                   (ms_active_sessions snap))] (se_tx se) (sw_registry w)
          in (if ok then Loop_Continue else Loop_Fail SerializeFailed, w\<lparr>sw_registry := reg\<rparr>)
      | Inr (ClientWatermark report) \<Rightarrow>
          (Loop_Continue, w\<lparr>sw_registry := note_client_watermark report (sw_registry w)\<rparr>)
      | _ \<Rightarrow> if se_v2 se then handle_v2_text env se txt w else (Loop_Continue, w))"

fun handle_event ::
  "session_env \<Rightarrow> 'tx session \<Rightarrow> session_event \<Rightarrow> ('tx, 'wr, 'sock) session_world
   \<Rightarrow> loop_outcome \<times> ('tx, 'wr, 'sock) session_world" where
  "handle_event env se Ev_Shutdown w = (Loop_Break, w)"
| "handle_event env se (Ev_Read Read_Timeout) w = (Loop_Break, w)"
| "handle_event env se (Ev_Read Read_End) w = (Loop_Break, w)"
| "handle_event env se (Ev_Read (Read_Error e)) w = (Loop_Fail (WebSocketError e), w)"
| "handle_event env se (Ev_Read (Read_Message (Ws_Text txt))) w = handle_text env se txt w"
| "handle_event env se (Ev_Read (Read_Message Ws_Close)) w = (Loop_Break, w)"
| "handle_event env se (Ev_Read (Read_Message Ws_OtherMessage)) w = (Loop_Continue, w)"

text \<open>After the loop: the client leaves the registry and the connection is closed.\<close>

definition close_session ::
  "session_env \<Rightarrow> 'tx session \<Rightarrow> ('tx, 'wr, 'sock) session_world
   \<Rightarrow> 'tx session \<times> ('tx, 'wr, 'sock) session_world" where
  "close_session env se w =
     (se\<lparr>se_conn := csm_ignore (csm_transition Closed) (se_conn se)\<rparr>,
      w\<lparr>sw_registry := snd (remove_client (env_json env) (se_id se) (sw_registry w))\<rparr>)"

datatype 'tx session_end = Session_Open "'tx session" | Session_Closed "'tx session"
  | Session_Failed session_error

fun run_session ::
  "session_env \<Rightarrow> 'tx session \<Rightarrow> session_event list \<Rightarrow> ('tx, 'wr, 'sock) session_world
   \<Rightarrow> 'tx session_end \<times> ('tx, 'wr, 'sock) session_world" where
  "run_session env se [] w = (Session_Open se, w)"
| "run_session env se (ev # evs) w =
     (case handle_event env se ev w of
        (Loop_Continue, w) \<Rightarrow> run_session env se evs w
      | (Loop_Break, w) \<Rightarrow>
          let (se, w) = close_session env se w in (Session_Closed se, w)
      | (Loop_Fail e, w) \<Rightarrow> (Session_Failed e, w))"

section \<open>Lemmas\<close>

lemma normalize_preferred_sample_rate_valid:
  "normalize_preferred_sample_rate n \<in> {8000, 12000, 16000, 24000, 48000}"
  "normalize_preferred_sample_rate (normalize_preferred_sample_rate n) = normalize_preferred_sample_rate n"
  by (auto simp: normalize_preferred_sample_rate_def preferred_sample_rate_default_def)

lemma send_jsons_frame:
  "send_jsons js tx r = (ok, s) \<Longrightarrow> reg_clients s = reg_clients r
    \<and> reg_pending_usb_clients s = reg_pending_usb_clients r \<and> reg_metrics s = reg_metrics r"
  by (induction js arbitrary: r) (auto simp: send_json_def split: option.splits)

lemma send_jsons_ok:
  "send_jsons js tx r = (True, s) \<Longrightarrow> s = r\<lparr>reg_sent := reg_sent r @ map (\<lambda>j. (tx, the j)) js\<rparr>"
proof (induction js arbitrary: r)
  case (Cons j js)
  then obtain b where "j = Some b" "send_jsons js tx (r\<lparr>reg_sent := reg_sent r @ [(tx, b)]\<rparr>) = (True, s)"
    by (auto simp: send_json_def split: option.splits)
  with Cons.IH [OF this(2)] show ?case by simp
qed simp

lemma send_jsons_some: "send_jsons js tx r = (True, s) \<Longrightarrow> None \<notin> set js"
  by (induction js arbitrary: r) (auto simp: send_json_def split: option.splits)

lemma send_jsons_sent: "None \<notin> set js \<Longrightarrow> \<exists>s. send_jsons js tx r = (True, s)"
proof (induction js arbitrary: r)
  case (Cons j js)
  then show ?case by (cases j) (auto simp: send_json_def)
qed simp

declare send_jsons.simps [simp del]

lemma send_jsons_inv: "send_jsons js tx r = (ok, s) \<Longrightarrow> reg_inv s = reg_inv r"
  using send_jsons_frame [of js tx r ok s] by (intro reg_inv_cong) auto

lemma set_client_mode_ids: "map ch_id (reg_clients (set_client_mode js i m n c r)) = map ch_id (reg_clients r)"
  by (auto simp: set_client_mode_def Let_def send_to_all_def update_client_def apply_mode_def
      split: option.splits)

lemma watermark_frame:
  "reg_clients (note_client_watermark x r) = reg_clients r"
  "reg_inv (note_client_watermark x r) = reg_inv r"
  by (simp_all add: note_client_watermark_def reg_inv_def)

definition world_ids :: "('tx, 'wr, 'sock) session_world \<Rightarrow> uuid list" where
  "world_ids w = map ch_id (reg_clients (sw_registry w))"

text \<open>No message of a session adds or removes a client, and each keeps the registry's invariant.\<close>

lemma handle_event_keeps:
  assumes "handle_event env se ev w = (x, w')" and "reg_inv (sw_registry w)"
  shows "world_ids w' = world_ids w \<and> reg_inv (sw_registry w')"
proof -
  have set_mode: "world_ids w' = world_ids w \<and> reg_inv (sw_registry w')"
    if "handle_set_audio_mode env se req w = (x, w')" for req x w'
    using that assms(2) set_mode_inv [OF assms(2)]
    by (auto simp: handle_set_audio_mode_def Let_def world_ids_def set_client_mode_ids
        dest: send_jsons_frame send_jsons_inv split: prod.splits)
  have v2: "world_ids w' = world_ids w \<and> reg_inv (sw_registry w')"
    if "handle_v2_text env se body w = (x, w')" for body x w'
    using that assms(2) set_mode
    by (auto simp: handle_v2_text_def Let_def world_ids_def
        dest: send_jsons_frame send_jsons_inv split: prod.splits sum.splits control_message_v2.splits)
  have "world_ids w' = world_ids w \<and> reg_inv (sw_registry w')"
    if "handle_text env se body w = (x, w')" for body x w'
    using that assms(2) v2
    by (auto simp: handle_text_def Let_def world_ids_def watermark_frame
        dest: send_jsons_frame send_jsons_inv split: prod.splits sum.splits client_control_message.splits if_splits)
  with assms show ?thesis by (cases "(env, se, ev, w)" rule: handle_event.cases) auto
qed

text \<open>
  Two registries that agree on every client but one: the handle under every other id, the waiting
  entries of the others and the queue of streams are the same.
\<close>

definition same_others :: "uuid \<Rightarrow> ('tx, 'wr) registry \<Rightarrow> ('tx, 'wr) registry \<Rightarrow> bool" where
  "same_others i r s \<longleftrightarrow>
     (\<forall>j. j \<noteq> i \<longrightarrow> get_client j (reg_clients s) = get_client j (reg_clients r))
     \<and> filter (\<lambda>(j, _). j \<noteq> i) (reg_pending_usb_clients s) = filter (\<lambda>(j, _). j \<noteq> i) (reg_pending_usb_clients r)
     \<and> reg_pending_usb_streams s = reg_pending_usb_streams r"

lemma same_others_refl [simp]: "same_others i r r"
  by (simp add: same_others_def)

lemma same_others_trans: "same_others i r s \<Longrightarrow> same_others i s t \<Longrightarrow> same_others i r t"
  by (simp add: same_others_def)

lemma get_client_remove: "j \<noteq> i \<Longrightarrow> get_client j (filter (\<lambda>c. ch_id c \<noteq> i) cs) = get_client j cs"
  by (induction cs) (auto simp: get_client_def)

lemma get_client_update_other:
  "j \<noteq> i \<Longrightarrow> (\<And>c. ch_id (f c) = ch_id c) \<Longrightarrow> get_client j (update_client i f cs) = get_client j cs"
  by (induction cs) (auto simp: get_client_def update_client_def)

lemma set_client_mode_others: "same_others i r (set_client_mode js i m n c r)"
  by (auto simp: same_others_def set_client_mode_def Let_def send_to_all_def apply_mode_def
      intro!: get_client_update_other split: option.splits)

lemma remove_client_others: "same_others i r (snd (remove_client js i r))"
  by (auto simp: same_others_def remove_client_def remove_client_locked_def announce_removed_def
      broadcast_control_json_def send_to_all_def Let_def get_client_remove filter_filter
      split: option.splits prod.splits)

lemma send_jsons_others: "send_jsons js tx r = (ok, s) \<Longrightarrow> same_others i r s"
  by (induction js arbitrary: r)
    (auto simp: send_jsons.simps send_json_def same_others_def split: option.splits)

lemma watermark_others: "same_others i r (note_client_watermark x r)"
  by (simp add: same_others_def note_client_watermark_def)

text \<open>A message of a session touches the client of that session only.\<close>

lemma handle_event_others:
  assumes "handle_event env se ev w = (x, w')"
  shows "same_others (se_id se) (sw_registry w) (sw_registry w')"
proof -
  have set_mode: "same_others (se_id se) (sw_registry w) (sw_registry w')"
    if "handle_set_audio_mode env se req w = (x, w')" for req x w'
    using that
    by (auto simp: handle_set_audio_mode_def Let_def
        intro: same_others_trans [OF set_client_mode_others send_jsons_others] split: prod.splits)
  have v2: "same_others (se_id se) (sw_registry w) (sw_registry w')"
    if "handle_v2_text env se body w = (x, w')" for body x w'
    using that set_mode
    by (auto simp: handle_v2_text_def Let_def intro: send_jsons_others
        split: prod.splits sum.splits control_message_v2.splits)
  have "same_others (se_id se) (sw_registry w) (sw_registry w')"
    if "handle_text env se body w = (x, w')" for body x w'
    using that v2
    by (auto simp: handle_text_def Let_def intro: send_jsons_others watermark_others
        split: prod.splits sum.splits client_control_message.splits if_splits)
  with assms show ?thesis by (cases "(env, se, ev, w)" rule: handle_event.cases) auto
qed

lemma csm_ignore_closed: "csm_state (csm_ignore (csm_transition Closed) m) = Closed"
  by (cases "csm_state m") (auto simp: csm_ignore_def csm_transition_def Let_def)

lemma remove_client_ids:
  "reg_inv r \<Longrightarrow> i \<notin> ch_id ` set (reg_clients (snd (remove_client js i r)))"
  by (auto simp: remove_client_def remove_client_locked_def split: option.splits prod.splits)

lemma register_client_present:
  assumes "reg_inv r" and "admissible (Op_Register rq now) r" and "register_client js rq now r = (Inr u, s)"
  shows "\<exists>c \<in> set (reg_clients s). ch_id c = rq_id rq \<and> ch_name c = rq_name rq
    \<and> ch_client_key c = rq_client_key rq \<and> ch_control_tx c = rq_control_tx rq
    \<and> ch_codec c = rq_codec rq \<and> ch_data_plane c = rq_data_plane rq
    \<and> ch_audio_mode c = rq_audio_mode rq \<and> ch_supports_v2_events c = rq_supports_v2_events rq"
proof -
  obtain c t where a: "assign_transport (rq_transport_kind rq) now (new_client_handle rq)
      (after_replacement rq r) = (c, t)" by fastforce
  have ok: "fst (register_client js rq now r) = Inr ()" using assms(3) by simp
  from register_client_result(1) [OF this a] assms(3) assigned_client [OF a]
  show ?thesis by (intro bexI [of _ c]) (auto simp: insert_client_def)
qed

lemma negotiate_admissible:
  "np_data_plane (negotiate_session_path r v2 caps) = LegacyLas1
   \<Longrightarrow> np_codec (negotiate_session_path r v2 caps) = Sel_Pcm16"
  by (auto simp: negotiate_session_path_def Let_def)

subsection \<open>Opening a session\<close>

text \<open>What the handshake offers to the registry: the negotiated path, noted in the metrics.\<close>

definition offered_path ::
  "('tx, 'wr, 'sock) session_world \<Rightarrow> hello_facts \<Rightarrow> negotiated_session_path" where
  "offered_path w f = negotiate_session_path (sw_router w) (hf_v2 f) (hf_capabilities f)"

definition offered_registry ::
  "('tx, 'wr, 'sock) session_world \<Rightarrow> hello_facts \<Rightarrow> ('tx, 'wr) registry" where
  "offered_registry w f = (sw_registry w)\<lparr>reg_metrics := set_negotiated_session_path
     (data_plane_format_as_str (np_data_plane (offered_path w f)))
     (codec_selection_as_str (np_codec (offered_path w f))) (reg_metrics (sw_registry w))\<rparr>"

definition offered_request ::
  "session_env \<Rightarrow> 'f server_config \<Rightarrow> socket_addr \<Rightarrow> uuid \<Rightarrow> 'tx \<Rightarrow> ('tx, 'wr, 'sock) session_world
   \<Rightarrow> hello_facts \<Rightarrow> 'tx register_client_request" where
  "offered_request env cfg peer sid tx w f =
     session_request env cfg peer sid tx (sw_audio_mode w) (offered_path w f) f"

lemmas offered_defs = offered_path_def offered_registry_def offered_request_def

lemma offered_ok:
  assumes "reg_inv (sw_registry w)" and "sid \<notin> set (world_ids w)"
  shows "reg_inv (offered_registry w f)"
    and "admissible (Op_Register (offered_request env cfg peer sid tx w f) now) (offered_registry w f)"
  using assms negotiate_admissible by (auto simp: offered_defs reg_inv_def session_request_def world_ids_def)

text \<open>What a readable hello says, if the first thing the client sends is one.\<close>

definition hello_read_as :: "session_env \<Rightarrow> socket_addr \<Rightarrow> ws_read \<Rightarrow> hello_facts option" where
  "hello_read_as env peer hello_read =
     (case hello_read of
        Read_Message (Ws_Text txt) \<Rightarrow>
          (case parse_session_hello (env_json env) txt of Inl _ \<Rightarrow> None
           | Inr h \<Rightarrow> Some (hello_facts_of env peer h))
      | _ \<Rightarrow> None)"

text \<open>The three ways a handshake ends, for the hello it read, if any.\<close>

definition session_established ::
  "session_env \<Rightarrow> 'f server_config \<Rightarrow> socket_addr \<Rightarrow> uuid \<Rightarrow> 'tx \<Rightarrow> nat \<Rightarrow> hello_facts \<Rightarrow> 'tx session
   \<Rightarrow> connection_state_machine \<Rightarrow> ('tx, 'wr, 'sock) session_world \<Rightarrow> ('tx, 'wr, 'sock) session_world \<Rightarrow> bool" where
  "session_established env cfg peer sid tx now f se conn w w' \<longleftrightarrow>
     csm_state conn = Streaming
     \<and> se = \<lparr>se_id = sid, se_v2 = hf_v2 f, se_conn = conn, se_tx = tx\<rparr>
     \<and> (\<exists>c \<in> set (reg_clients (sw_registry w')). ch_id c = sid
           \<and> ch_name c = hf_client_name f \<and> ch_client_key c = hf_client_key f \<and> ch_control_tx c = tx
           \<and> ch_data_plane c = np_data_plane (offered_path w f) \<and> ch_codec c = np_codec (offered_path w f)
           \<and> ch_audio_mode c = sw_audio_mode w \<and> ch_supports_v2_events c = hf_v2 f)
     \<and> None \<notin> set (greeting env cfg sid (sw_audio_mode w) (offered_path w f) f)
     \<and> reg_sent (sw_registry w') =
         reg_sent (snd (register_client (env_json env) (offered_request env cfg peer sid tx w f) now
           (offered_registry w f)))
         @ map (\<lambda>j. (tx, the j)) (greeting env cfg sid (sw_audio_mode w) (offered_path w f) f)"

definition session_refused ::
  "session_env \<Rightarrow> 'f server_config \<Rightarrow> uuid \<Rightarrow> 'tx \<Rightarrow> hello_facts \<Rightarrow> connection_state_machine
   \<Rightarrow> ('tx, 'wr, 'sock) session_world \<Rightarrow> ('tx, 'wr, 'sock) session_world \<Rightarrow> bool" where
  "session_refused env cfg sid tx f conn w w' \<longleftrightarrow>
     csm_state conn = Closed \<and> csm_failure_code conn = Some NegotiationMismatch
     \<and> reg_clients (sw_registry w') = reg_clients (sw_registry w)
     \<and> length (reg_clients (sw_registry w)) = MAX_CLIENTS
     \<and> (\<exists>json. refusal env cfg sid (sw_audio_mode w) f TooManyClientsErr = Some json
           \<and> reg_sent (sw_registry w') = reg_sent (sw_registry w) @ [(tx, json)])"

definition handshaking :: connection_state_machine where
  "handshaking = csm_ignore (csm_transition Handshaking) csm_default"

lemma handshaking_simps:
  "csm_ignore (csm_transition Negotiated) handshaking
    = \<lparr>csm_state = Negotiated, csm_rollback_state = MainPathActive, csm_failure_code = None\<rparr>"
  "csm_state (csm_ignore (csm_transition Streaming)
      \<lparr>csm_state = Negotiated, csm_rollback_state = MainPathActive, csm_failure_code = None\<rparr>) = Streaming"
  "csm_ignore (csm_fail Closed NegotiationMismatch)
      \<lparr>csm_state = Negotiated, csm_rollback_state = MainPathActive, csm_failure_code = None\<rparr>
    = \<lparr>csm_state = Closed, csm_rollback_state = MainPathActive, csm_failure_code = Some NegotiationMismatch\<rparr>"
  by (simp_all add: handshaking_def csm_ignore_def csm_transition_def csm_fail_def Let_def csm_default_def)

lemma establish_refused:
  assumes "reg_inv (sw_registry w)" and "sid \<notin> set (world_ids w)"
    and "register_client (env_json env) (offered_request env cfg peer sid tx w f) now (offered_registry w f) = (Inl x, reg)"
    and "establish env cfg peer sid tx now f handshaking w = (result, conn, w')"
  shows "reg_inv (sw_registry w')
    \<and> (result = Inr None \<and> session_refused env cfg sid tx f conn w w' \<or> result = Inl SerializeFailed)"
proof -
  note offer = offered_ok [OF assms(1,2)]
  have r: "reg = offered_registry w f" "length (reg_clients (sw_registry w)) = MAX_CLIENTS"
      "x = TooManyClientsErr"
    using register_client_error [OF offer(1), of "env_json env" "offered_request env cfg peer sid tx w f" now f]
      register_client_error_state [of "env_json env" "offered_request env cfg peer sid tx w f" now "offered_registry w f" x]
      assms(3)
    by (auto simp: after_replacement_def offered_registry_def split: if_splits)
  obtain ok reg' where s: "send_jsons [refusal env cfg sid (sw_audio_mode w) f x] tx reg = (ok, reg')"
    by fastforce
  have e: "result = (if ok then Inr None else Inl SerializeFailed)" "w' = w\<lparr>sw_registry := reg'\<rparr>"
      "conn = csm_ignore (csm_fail Closed NegotiationMismatch) (csm_ignore (csm_transition Negotiated) handshaking)"
    using assms(3,4) s by (auto simp: establish_def Let_def offered_defs)
  have iv: "reg_inv (sw_registry w')" using e(2) send_jsons_inv [OF s] offer(1) r by simp
  show ?thesis
  proof (cases ok)
    case True
    note t = s [unfolded eqTrueI [OF True]]
    have "\<exists>json. refusal env cfg sid (sw_audio_mode w) f x = Some json"
      using send_jsons_some [OF t] by (cases "refusal env cfg sid (sw_audio_mode w) f x") auto
    then show ?thesis
      using send_jsons_frame [OF s] send_jsons_ok [OF t] r e True iv
      by (auto simp: session_refused_def handshaking_simps offered_registry_def)
  qed (use e iv in simp)
qed

lemma establish_accepted:
  assumes "reg_inv (sw_registry w)" and "sid \<notin> set (world_ids w)"
    and "register_client (env_json env) (offered_request env cfg peer sid tx w f) now (offered_registry w f) = (Inr u, reg)"
    and "establish env cfg peer sid tx now f handshaking w = (result, conn, w')"
  shows "reg_inv (sw_registry w')
    \<and> (result = Inl SerializeFailed
      \<or> (\<exists>se. result = Inr (Some se) \<and> session_established env cfg peer sid tx now f se conn w w'))"
proof -
  note offer = offered_ok [OF assms(1,2)]
  obtain ok reg' where s: "send_jsons (greeting env cfg sid (sw_audio_mode w) (offered_path w f) f) tx reg = (ok, reg')"
    by fastforce
  obtain c where c: "c \<in> set (reg_clients reg)" "ch_id c = sid"
      "ch_data_plane c = np_data_plane (offered_path w f)" "ch_codec c = np_codec (offered_path w f)"
      "ch_name c = hf_client_name f" "ch_client_key c = hf_client_key f" "ch_control_tx c = tx"
      "ch_audio_mode c = sw_audio_mode w" "ch_supports_v2_events c = hf_v2 f"
    using register_client_present [OF offer assms(3)] by (auto simp: session_request_def offered_request_def)
  have w': "w' = w\<lparr>sw_registry := reg'\<rparr>"
    using assms(3,4) s by (auto simp: establish_def Let_def offered_defs split: if_splits)
  have "admissible (Op_Register (offered_request env cfg peer sid tx w f) now) (offered_registry w f)" by (rule offer(2))
  from register_inv [OF offer(1) this, of "env_json env"] have "reg_inv reg" unfolding assms(3) by simp
  then have iv: "reg_inv (sw_registry w')" using send_jsons_inv [OF s] by (simp add: w')
  show ?thesis
  proof (cases ok)
    case False
    then show ?thesis using assms(3,4) s iv by (auto simp: establish_def Let_def offered_defs)
  next
    case True
    note t = s [unfolded eqTrueI [OF True]]
    have r: "result = Inr (Some \<lparr>se_id = sid, se_v2 = hf_v2 f, se_conn = conn, se_tx = tx\<rparr>)"
        "conn = csm_ignore (csm_transition Streaming) (csm_ignore (csm_transition Negotiated) handshaking)"
      using assms(3,4) s True by (auto simp: establish_def Let_def offered_defs)
    have "\<exists>c \<in> set (reg_clients (sw_registry w')). ch_id c = sid
           \<and> ch_name c = hf_client_name f \<and> ch_client_key c = hf_client_key f \<and> ch_control_tx c = tx
           \<and> ch_data_plane c = np_data_plane (offered_path w f) \<and> ch_codec c = np_codec (offered_path w f)
           \<and> ch_audio_mode c = sw_audio_mode w \<and> ch_supports_v2_events c = hf_v2 f"
      using c send_jsons_frame [OF s] by (intro bexI [of _ c]) (simp_all add: w')
    moreover have "csm_state conn = Streaming" by (simp add: r(2) handshaking_simps)
    moreover have "reg_sent (sw_registry w') =
         reg_sent (snd (register_client (env_json env) (offered_request env cfg peer sid tx w f) now
           (offered_registry w f)))
         @ map (\<lambda>j. (tx, the j)) (greeting env cfg sid (sw_audio_mode w) (offered_path w f) f)"
      using send_jsons_ok [OF t] by (simp add: w' assms(3))
    ultimately show ?thesis
      using iv r(1) send_jsons_some [OF t] unfolding session_established_def by simp
  qed
qed

lemma open_session_result:
  assumes "reg_inv (sw_registry w)" and "sid \<notin> set (world_ids w)"
    and "open_session env cfg peer sid tx now hello_read w = (result, conn, w')"
  shows "reg_inv (sw_registry w') \<and>
    (case result of
      Inr (Some se) \<Rightarrow> (\<exists>f. hello_read_as env peer hello_read = Some f
        \<and> session_established env cfg peer sid tx now f se conn w w')
    | Inr None \<Rightarrow> (\<exists>f. hello_read_as env peer hello_read = Some f
        \<and> session_refused env cfg sid tx f conn w w')
    | Inl e \<Rightarrow> (if hello_read_as env peer hello_read = None then w' = w else e = SerializeFailed))"
    (is "?outcome result conn w'")
proof (cases "hello_read_as env peer hello_read")
  case None
  then show ?thesis
    using assms(1,3) unfolding open_session_def Let_def
    by (auto simp: hello_read_as_def split: ws_read.splits ws_message.splits sum.splits)
next
  case (Some f)
  then have e: "establish env cfg peer sid tx now f handshaking w = (result, conn, w')"
    using assms(3) unfolding open_session_def Let_def handshaking_def
    by (auto simp: hello_read_as_def split: ws_read.splits ws_message.splits sum.splits)
  show ?thesis
  proof (cases "register_client (env_json env) (offered_request env cfg peer sid tx w f) now (offered_registry w f)")
    case (Pair res reg)
    show ?thesis
    proof (cases res)
      case (Inl x)
      from establish_refused [OF assms(1,2) Pair [unfolded Inl] e] show ?thesis using Some by auto
    next
      case (Inr u)
      from establish_accepted [OF assms(1,2) Pair [unfolded Inr] e] show ?thesis using Some by auto
    qed
  qed
qed

section \<open>Properties\<close>

text \<open>
  C12: negotiation is safe. With any router the server can build (any configuration, any number of
  rollbacks) a session gets the legacy plane only with PCM16, gets Opus exactly when it speaks v2,
  the router runs Opus on the v2 plane and the client advertises an Opus capability, and never
  gets PCM24: the PCM24 arm cannot be reached, since no router runs PCM24.
\<close>
theorem negotiation_safe:
  "let r = (router_force_rollback ^^ n) (router_from_config cfg) :: ('sock, 'wr) data_plane_router;
       p = negotiate_session_path r v2_session caps
   in (np_data_plane p = (if v2_session then active_format r else LegacyLas1))
      \<and> (np_data_plane p = LegacyLas1 \<longrightarrow> np_codec p = Sel_Pcm16)
      \<and> (np_codec p = Sel_Opus \<longleftrightarrow> v2_session \<and> active_codec r = Sel_Opus \<and> active_format r = V2Header
           \<and> (supports_opus caps \<or> supports_opus_experimental caps))
      \<and> np_codec p \<noteq> Sel_Pcm24"
proof -
  let ?r = "(router_force_rollback ^^ n) (router_from_config cfg) :: ('sock, 'wr) data_plane_router"
  have "router_inv ?r"
    by (induction n) (simp_all add: router_from_config_inv router_force_rollback_inv)
  then have "active_codec ?r \<noteq> Sel_Pcm24" by (simp add: router_inv_def)
  then show ?thesis by (auto simp: negotiate_session_path_def Let_def)
qed

theorem negotiation_safe_witness:
  "np_codec (negotiate_session_path (router_from_config sample_config :: (nat, nat) data_plane_router)
     False default_server_capabilities) = Sel_Pcm16"
proof -
  let ?p = "negotiate_session_path (router_from_config sample_config :: (nat, nat) data_plane_router)
     False default_server_capabilities"
  have "np_data_plane ?p = LegacyLas1" by (simp add: negotiate_session_path_def)
  then show ?thesis
    using negotiation_safe [where 'sock = nat and 'wr = nat and n = 0 and cfg = sample_config
        and v2_session = False and caps = default_server_capabilities]
    unfolding Let_def funpow_0 by blast
qed

text \<open>
  C24: opening a session, on a registry that satisfies its invariant and under a fresh session id. It is
  established only for a readable hello, and then the connection is
  Streaming, the client is in the registry under the session id with the name and key of that hello,
  the plane and codec negotiated for it and the mode of the moment, and what is sent after the
  announcement of the registration is exactly the greeting, on the client's channel and in order
  (acknowledgement and server info for a v2 hello, then the welcome). If it is refused, the connection
  is Closed with \<open>NEGOTIATION_MISMATCH\<close>, the four connected clients stay, and the one message sent is
  the refusal that names \<open>too_many_clients\<close>, on the channel of the refused client. Without a readable
  hello nothing changes; with one, the only other outcome is that a message could not be serialized.
\<close>
theorem open_session_outcome:
  assumes "reg_inv (sw_registry w)" and "sid \<notin> set (world_ids w)"
    and "open_session env cfg peer sid tx now hello_read w = (result, conn, w')"
  shows "reg_inv (sw_registry w') \<and>
    (case result of
      Inr (Some se) \<Rightarrow> (\<exists>f. hello_read_as env peer hello_read = Some f
        \<and> csm_state conn = Streaming
        \<and> se = \<lparr>se_id = sid, se_v2 = hf_v2 f, se_conn = conn, se_tx = tx\<rparr>
        \<and> (let path = negotiate_session_path (sw_router w) (hf_v2 f) (hf_capabilities f) in
            (\<exists>c \<in> set (reg_clients (sw_registry w')). ch_id c = sid
                \<and> ch_name c = hf_client_name f \<and> ch_client_key c = hf_client_key f \<and> ch_control_tx c = tx
                \<and> ch_data_plane c = np_data_plane path \<and> ch_codec c = np_codec path
                \<and> ch_audio_mode c = sw_audio_mode w \<and> ch_supports_v2_events c = hf_v2 f)
            \<and> None \<notin> set (greeting env cfg sid (sw_audio_mode w) path f)
            \<and> reg_sent (sw_registry w') =
                reg_sent (snd (register_client (env_json env) (offered_request env cfg peer sid tx w f) now
                  (offered_registry w f)))
                @ map (\<lambda>j. (tx, the j)) (greeting env cfg sid (sw_audio_mode w) path f)))
    | Inr None \<Rightarrow> (\<exists>f json. hello_read_as env peer hello_read = Some f
        \<and> csm_state conn = Closed \<and> csm_failure_code conn = Some NegotiationMismatch
        \<and> reg_clients (sw_registry w') = reg_clients (sw_registry w)
        \<and> length (reg_clients (sw_registry w)) = MAX_CLIENTS
        \<and> refusal env cfg sid (sw_audio_mode w) f TooManyClientsErr = Some json
        \<and> reg_sent (sw_registry w') = reg_sent (sw_registry w) @ [(tx, json)])
    | Inl e \<Rightarrow> (if hello_read_as env peer hello_read = None then w' = w else e = SerializeFailed))"
  using open_session_result [OF assms]
  by (auto simp: session_established_def session_refused_def offered_path_def Let_def
      split: sum.split option.split)

definition sample_env :: session_env where
  "sample_env = \<lparr>env_json = sample_json, env_show_ip = (\<lambda>_. ''ip''), env_app_version = ''1.0''\<rparr>"

definition sample_world :: "(nat, nat, nat) session_world" where
  "sample_world = \<lparr>sw_registry = sample_registry, sw_router = router_from_config sample_config,
     sw_audio_mode = Balanced\<rparr>"

text \<open>
  A legacy phone says hello to a server with one client: the session is established on the legacy
  plane, and the phone gets its welcome.
\<close>

definition hello_json :: json_api where
  "hello_json = sample_json\<lparr>parse_client := (\<lambda>_. Inr (ClientHello ''tablet'' 5004 48000 2))\<rparr>"

definition hello_env :: session_env where
  "hello_env = sample_env\<lparr>env_json := hello_json\<rparr>"

definition hello_peer :: socket_addr where
  "hello_peer = \<lparr>sa_ip = V4 10 0 0 3, sa_port = 1\<rparr>"

theorem open_session_outcome_witness:
  "\<exists>se conn w'. open_session hello_env sample_config hello_peer 2 8 0 (Read_Message (Ws_Text ''hello''))
      sample_world = (Inr (Some se), conn, w')
    \<and> csm_state conn = Streaming
    \<and> (\<exists>c \<in> set (reg_clients (sw_registry w')). ch_id c = 2 \<and> ch_name c = ''tablet''
          \<and> ch_data_plane c = LegacyLas1 \<and> ch_codec c = Sel_Pcm16)
    \<and> last (reg_sent (sw_registry w')) = (8, ''server'')"
proof -
  let ?r = "Read_Message (Ws_Text ''hello'')"
  have inv: "reg_inv (sw_registry sample_world)"
    using reg_reachable_inv [OF sample_registry_reachable] by (simp add: sample_world_def)
  have fresh: "2 \<notin> set (world_ids sample_world)"
    by (simp add: world_ids_def sample_world_def register_eval)
  have f: "hello_read_as hello_env hello_peer ?r = Some (hello_facts_of hello_env hello_peer
      (Hello_Legacy ''tablet'' 5004 48000 2))"
    by (simp add: hello_read_as_def parse_session_hello_def hello_env_def hello_json_def sample_env_def sample_json_def)
  let ?f = "hello_facts_of hello_env hello_peer (Hello_Legacy ''tablet'' 5004 48000 2)"
  have v: "\<not> hf_v2 ?f" "hf_client_name ?f = ''tablet''" by (simp_all add: hello_facts_of_def)
  have g: "greeting hello_env sample_config 2 m p ?f = [Some ''server'']" for m p
    unfolding greeting_def by (simp add: v) (simp add: hello_env_def hello_json_def sample_env_def sample_json_def)
  have "length (reg_clients (offered_registry sample_world ?f)) \<noteq> MAX_CLIENTS"
    by (simp add: offered_registry_def sample_world_def register_eval)
  then have "fst (register_client (env_json hello_env) (offered_request hello_env sample_config hello_peer 2 8 sample_world ?f)
      0 (offered_registry sample_world ?f)) = Inr ()"
    using register_client_error [OF offered_ok(1) [OF inv fresh]] by simp
  then obtain reg where r: "register_client (env_json hello_env)
      (offered_request hello_env sample_config hello_peer 2 8 sample_world ?f) 0 (offered_registry sample_world ?f) = (Inr (), reg)"
    by (metis prod.collapse)
  obtain s where "send_jsons (greeting hello_env sample_config 2 (sw_audio_mode sample_world)
      (offered_path sample_world ?f) ?f) 8 reg = (True, s)"
    using send_jsons_sent [of "[Some ''server'']" 8 reg] unfolding g by auto
  then have "\<exists>se conn w'. establish hello_env sample_config hello_peer 2 8 0 ?f handshaking sample_world
      = (Inr (Some se), conn, w')"
    using r by (simp add: establish_def Let_def offered_defs)
  then obtain se conn w' where e: "open_session hello_env sample_config hello_peer 2 8 0 ?r sample_world
      = (Inr (Some se), conn, w')"
    by (auto simp: open_session_def parse_session_hello_def hello_env_def hello_json_def sample_env_def
        sample_json_def handshaking_def Let_def)
  have n: "negotiate_session_path rt False caps = \<lparr>np_data_plane = LegacyLas1, np_codec = Sel_Pcm16\<rparr>" for rt caps
    by (simp add: negotiate_session_path_def)
  show ?thesis
    using open_session_outcome [OF inv fresh e] e by (auto simp: f g v n Let_def)
qed

text \<open>
  C13: the end of a session. A session that ends because the peer closed, fell silent or the server
  shuts down is removed from the registry and its connection is Closed. A session that ends with
  an error (a WebSocket read error, the usual end of a connection that drops) returns early from
  \<open>handle_client\<close>: its client stays registered, as it does while the session is still open.
\<close>
theorem session_end_cleanup:
  assumes "reg_inv (sw_registry w)" and "se_id se \<in> set (world_ids w)"
    and "run_session env se evs w = (result, w')"
  shows "reg_inv (sw_registry w') \<and>
    (case result of
      Session_Closed se' \<Rightarrow> se_id se \<notin> set (world_ids w') \<and> csm_state (se_conn se') = Closed
    | Session_Failed e \<Rightarrow> world_ids w' = world_ids w
    | Session_Open se' \<Rightarrow> world_ids w' = world_ids w \<and> se' = se)"
  using assms
proof (induction evs arbitrary: w)
  case (Cons ev evs)
  obtain x u where h: "handle_event env se ev w = (x, u)" by fastforce
  note k = handle_event_keeps [OF h Cons.prems(1)]
  show ?case
  proof (cases x)
    case Loop_Continue
    then show ?thesis using Cons.prems Cons.IH [of u] h k by (cases result) simp_all
  next
    case Loop_Break
    then show ?thesis
      using Cons.prems(3) h k remove_inv [of "sw_registry u" "env_json env" "se_id se"]
        remove_client_ids [of "sw_registry u" "se_id se" "env_json env"]
      by (auto simp: close_session_def csm_ignore_closed world_ids_def)
  next
    case (Loop_Fail e)
    then show ?thesis using Cons.prems(3) h k by auto
  qed
qed auto

definition sample_session :: "nat session" where
  "sample_session = \<lparr>se_id = 1, se_v2 = True, se_conn = csm_default, se_tx = 8\<rparr>"

theorem session_end_cleanup_witness:
  "1 \<in> set (world_ids (snd (run_session sample_env sample_session
     [Ev_Read (Read_Message Ws_OtherMessage), Ev_Read (Read_Error ''reset'')] sample_world)))"
proof -
  let ?evs = "[Ev_Read (Read_Message Ws_OtherMessage), Ev_Read (Read_Error ''reset'')]"
  have inv: "reg_inv (sw_registry sample_world)"
    using reg_reachable_inv [OF sample_registry_reachable] by (simp add: sample_world_def)
  have one: "se_id sample_session \<in> set (world_ids sample_world)"
    by (simp add: sample_session_def world_ids_def sample_world_def register_eval)
  obtain result w' where e: "run_session sample_env sample_session ?evs sample_world = (result, w')"
    by fastforce
  then have "result = Session_Failed (WebSocketError ''reset'')" by simp
  then have "world_ids w' = world_ids sample_world"
    using session_end_cleanup [OF inv one e] by simp
  with one e show ?thesis by (simp add: sample_session_def)
qed

text \<open>
  The reply to a mode change tells the truth. For a connected session, after the request the
  server's current mode is the requested one, the client's entry has that mode and the codec its
  plane can carry, and the \<open>audio_mode_changed\<close> message sent to it names exactly that codec.
\<close>
theorem mode_change_reply:
  assumes "reg_inv (sw_registry w)" and "get_client (se_id se) (reg_clients (sw_registry w)) = Some c"
    and "handle_set_audio_mode env se req w = (Loop_Continue, w')"
  shows "sw_audio_mode w' = sam_mode req \<and>
    (\<exists>d j before. get_client (se_id se) (reg_clients (sw_registry w')) = Some d
      \<and> ch_audio_mode d = sam_mode req
      \<and> (ch_data_plane d = LegacyLas1 \<longrightarrow> ch_codec d = Sel_Pcm16)
      \<and> reg_sent (sw_registry w') = before @ [(se_tx se, the j)]
      \<and> j = show_v2 (env_json env) (Msg_AudioModeChanged
          \<lparr>amc_mode = sam_mode req, amc_applied = True, amc_reason = sam_reason req,
           amc_mode_profile = mode_profile (sam_mode req),
           amc_effective_codec = Some (as_protocol_preference (ch_codec d))\<rparr>))"
proof -
  let ?r = "set_client_mode (env_json env) (se_id se) (sam_mode req)
    (map_option normalize_preferred_sample_rate (sam_preferred_sample_rate req))
    (map_option codec_of_preference (sam_preferred_codec req)) (sw_registry w)"
  obtain d where d: "get_client (se_id se) (reg_clients ?r) = Some d"
    and ap: "\<exists>rate codec. d = apply_mode (sam_mode req) rate codec c"
    using assms(2) by (auto simp: set_client_mode_get)
  have "client_ok d"
    using set_mode_inv [OF assms(1)] get_client_SomeD [OF d] by (auto simp: reg_inv_def clients_ok_def)
  moreover have "ch_audio_mode d = sam_mode req"
    using ap by (auto simp: apply_mode_def Let_def split: option.splits)
  moreover obtain reg where s: "send_jsons [show_v2 (env_json env) (Msg_AudioModeChanged
          \<lparr>amc_mode = sam_mode req, amc_applied = True, amc_reason = sam_reason req,
           amc_mode_profile = mode_profile (sam_mode req),
           amc_effective_codec = Some (as_protocol_preference (ch_codec d))\<rparr>)] (se_tx se) ?r = (True, reg)"
    and w': "w' = w\<lparr>sw_audio_mode := sam_mode req, sw_registry := reg\<rparr>"
    using assms(3) d by (auto simp: handle_set_audio_mode_def Let_def client_codec_def
        split: prod.splits if_splits)
  moreover have "get_client (se_id se) (reg_clients reg) = Some d"
    using send_jsons_frame [OF s] d by simp
  ultimately show ?thesis
    using send_jsons_ok [OF s] unfolding client_ok_def w' by auto
qed

theorem mode_change_reply_witness:
  "\<exists>d. get_client 1 (reg_clients (sw_registry (snd (handle_set_audio_mode sample_env sample_session
       \<lparr>sam_mode = HighQuality, sam_reason = [], sam_preferred_sample_rate = None,
        sam_preferred_codec = Some Pref_Pcm16\<rparr> sample_world)))) = Some d
     \<and> ch_audio_mode d = HighQuality"
proof -
  let ?req = "\<lparr>sam_mode = HighQuality, sam_reason = [], sam_preferred_sample_rate = None,
    sam_preferred_codec = Some Pref_Pcm16\<rparr>"
  have inv: "reg_inv (sw_registry sample_world)"
    using reg_reachable_inv [OF sample_registry_reachable] by (simp add: sample_world_def)
  obtain c where c: "get_client (se_id sample_session) (reg_clients (sw_registry sample_world)) = Some c"
    by (simp add: sample_session_def sample_world_def register_eval get_client_def)
  obtain w' where e: "handle_set_audio_mode sample_env sample_session ?req sample_world = (Loop_Continue, w')"
    by (simp add: handle_set_audio_mode_def Let_def send_jsons.simps send_json_def sample_env_def
        sample_json_def)
  from mode_change_reply [OF inv c e] e show ?thesis by (auto simp: sample_session_def)
qed

end
