(* ===== verification/Audio_Capture.thy ===== *)
theory Audio_Capture
  imports Audio_Prelude
begin

text \<open>
  Audio capture, \<open>crates/lan_audio_server/src/audio_capture/\<close>: formats and frames (\<open>mod.rs\<close>), the
  accumulator that cuts captured chunks into fixed-size frames (\<open>pcm_accumulator.rs\<close>), and the
  synthetic source. Samples are real numbers in place of \<open>f32\<close>. The \<open>AudioCaptureSource\<close> trait
  is the locale \<open>capture_source\<close>. Instants are natural numbers of milliseconds.
\<close>

section \<open>Formats and frames\<close>

datatype sample_format = SampleF32

datatype capture_source_state =
    Cap_Created | Cap_DeviceResolved | Cap_ClientInitialized | Cap_Started | Cap_Stopped | Cap_Failed

fun capture_state_as_str :: "capture_source_state \<Rightarrow> string" where
  "capture_state_as_str Cap_Created = ''created''"
| "capture_state_as_str Cap_DeviceResolved = ''device_resolved''"
| "capture_state_as_str Cap_ClientInitialized = ''client_initialized''"
| "capture_state_as_str Cap_Started = ''started''"
| "capture_state_as_str Cap_Stopped = ''stopped''"
| "capture_state_as_str Cap_Failed = ''failed''"

record audio_format =
  sample_rate_hz :: u32
  af_channels :: u16
  af_sample_format :: sample_format
  af_frame_duration_ms :: u16

definition audio_format_default :: audio_format where
  "audio_format_default = \<lparr>sample_rate_hz = 48000, af_channels = 2,
     af_sample_format = SampleF32, af_frame_duration_ms = 10\<rparr>"

definition samples_per_channel_per_frame :: "audio_format \<Rightarrow> nat" where
  "samples_per_channel_per_frame f =
     unat (sample_rate_hz f) * unat (af_frame_duration_ms f) div 1000"

definition total_samples_per_frame :: "audio_format \<Rightarrow> nat" where
  "total_samples_per_frame f = samples_per_channel_per_frame f * unat (af_channels f)"

datatype packet_kind = NoPacket | SilentPacket | AudioPacket | MixedPacket | SyntheticPacket

record audio_frame =
  fr_pts_ms :: u64
  fr_format :: audio_format
  fr_samples :: "real list"
  fr_is_silence :: bool
  fr_source_buffer_frames :: "u32 option"
  fr_packet_kind :: packet_kind
  fr_peak :: real
  fr_rms :: real

datatype capture_error =
    Cap_NotStarted | Cap_DefaultDeviceNotFound | Cap_DeviceActivationFailed string
  | Cap_AudioClientInitFailed string | Cap_CaptureClientInitFailed string
  | Cap_UnsupportedMixFormat string | Cap_StartFailed string | Cap_ReadBufferFailed string
  | Cap_UnsupportedPlatform string | Cap_InvalidFrameLength nat nat | Cap_NotImplemented string

definition new_with_meta ::
  "u64 \<Rightarrow> audio_format \<Rightarrow> real list \<Rightarrow> bool \<Rightarrow> u32 option \<Rightarrow> packet_kind \<Rightarrow> real \<Rightarrow> real
   \<Rightarrow> capture_error + audio_frame" where
  "new_with_meta pts_ms format samples is_silence source_buffer_frames kind peak rms =
     (if length samples \<noteq> total_samples_per_frame format
      then Inl (Cap_InvalidFrameLength (total_samples_per_frame format) (length samples))
      else Inr \<lparr>fr_pts_ms = pts_ms, fr_format = format, fr_samples = samples,
        fr_is_silence = is_silence, fr_source_buffer_frames = source_buffer_frames,
        fr_packet_kind = kind, fr_peak = peak, fr_rms = rms\<rparr>)"

definition audio_frame_new :: "u64 \<Rightarrow> audio_format \<Rightarrow> real list \<Rightarrow> capture_error + audio_frame" where
  "audio_frame_new pts_ms format samples =
     new_with_meta pts_ms format samples False None SyntheticPacket 0 0"

definition audio_frame_silence :: "u64 \<Rightarrow> audio_format \<Rightarrow> audio_frame" where
  "audio_frame_silence pts_ms format =
     \<lparr>fr_pts_ms = pts_ms, fr_format = format,
      fr_samples = replicate (total_samples_per_frame format) 0, fr_is_silence = True,
      fr_source_buffer_frames = None, fr_packet_kind = SilentPacket, fr_peak = 0, fr_rms = 0\<rparr>"

section \<open>Peak and RMS\<close>

fun peak_sum_loop :: "real list \<Rightarrow> real \<Rightarrow> real \<Rightarrow> real \<times> real" where
  "peak_sum_loop [] peak sum_sq = (peak, sum_sq)"
| "peak_sum_loop (s # ss) peak sum_sq =
     peak_sum_loop ss (if \<bar>s\<bar> > peak then \<bar>s\<bar> else peak) (sum_sq + s * s)"

definition compute_peak_rms :: "real list \<Rightarrow> real \<times> real" where
  "compute_peak_rms samples =
     (if samples = [] then (0, 0)
      else let (peak, sum_sq) = peak_sum_loop samples 0 0
           in (peak, sqrt (sum_sq / real (length samples))))"

lemma peak_sum_loop_sum: "snd (peak_sum_loop ss p q) = q + sum_list (map (\<lambda>s. s * s) ss)"
  by (induction ss arbitrary: p q) auto

lemma peak_sum_loop_peak: "fst (peak_sum_loop ss p q) = fold (\<lambda>s m. max \<bar>s\<bar> m) ss p"
  by (induction ss arbitrary: p q) (auto simp: max_def)

lemma fold_max_le: "fold (\<lambda>s m. max \<bar>s\<bar> m) ss p \<le> b \<longleftrightarrow> p \<le> b \<and> (\<forall>s \<in> set ss. \<bar>s\<bar> \<le> b)"
  for b :: real
  by (induction ss arbitrary: p) auto

lemma fold_max_mem: "fold (\<lambda>s m. max \<bar>s\<bar> m) ss p \<in> insert p ((\<lambda>s. \<bar>s\<bar>) ` set ss)" for p :: real
  by (induction ss arbitrary: p) (auto simp: max_def split: if_splits)

lemma sum_sq_le: "(\<forall>s \<in> set ss. \<bar>s\<bar> \<le> b) \<Longrightarrow> sum_list (map (\<lambda>s. s * s) ss) \<le> real (length ss) * (b * b)"
  for b :: real
proof (induction ss)
  case (Cons s ss)
  then have "\<bar>s\<bar> * \<bar>s\<bar> \<le> b * b" by (intro mult_mono) auto
  with Cons show ?case by (simp add: algebra_simps)
qed simp

lemma peak_bound:
  "\<forall>s \<in> set ss. \<bar>s\<bar> \<le> fst (compute_peak_rms ss)" "0 \<le> fst (compute_peak_rms ss)"
  using fold_max_le [of ss 0 "fold (\<lambda>s m. max \<bar>s\<bar> m) ss 0"]
  by (auto simp: compute_peak_rms_def peak_sum_loop_peak Let_def case_prod_unfold)

lemma peak_le: "0 \<le> b \<Longrightarrow> \<forall>s \<in> set ss. \<bar>s\<bar> \<le> b \<Longrightarrow> fst (compute_peak_rms ss) \<le> b"
  using fold_max_le [of ss 0 b]
  by (auto simp: compute_peak_rms_def peak_sum_loop_peak Let_def case_prod_unfold)

lemma rms_le_peak: "0 \<le> snd (compute_peak_rms ss) \<and> snd (compute_peak_rms ss) \<le> fst (compute_peak_rms ss)"
proof (cases "ss = []")
  case False
  let ?p = "fst (compute_peak_rms ss)"
  let ?q = "sum_list (map (\<lambda>s. s * s) ss)"
  have rms: "snd (compute_peak_rms ss) = sqrt (?q / real (length ss))"
    using False by (simp add: compute_peak_rms_def Let_def case_prod_unfold peak_sum_loop_sum)
  have "?q \<le> real (length ss) * (?p * ?p)" using peak_bound by (intro sum_sq_le) auto
  then have "?q / real (length ss) \<le> ?p * ?p"
    using False by (simp add: divide_le_eq mult.commute)
  then have "sqrt (?q / real (length ss)) \<le> sqrt (?p * ?p)" by (rule real_sqrt_le_mono)
  moreover have "0 \<le> ?q" by (intro sum_list_nonneg) auto
  ultimately show ?thesis using peak_bound(2) [of ss] by (simp add: rms)
qed (simp add: compute_peak_rms_def)

section \<open>The accumulator\<close>

record pcm_frame_accumulator =
  acc_format :: audio_format
  acc_samples :: "real list"
  acc_silence_flags :: "bool list"

record accumulated_frame =
  ac_samples :: "real list"
  ac_is_silence :: bool
  ac_peak :: real
  ac_rms :: real
  ac_packet_kind :: packet_kind

definition accumulator_new :: "audio_format \<Rightarrow> pcm_frame_accumulator" where
  "accumulator_new format = \<lparr>acc_format = format, acc_samples = [], acc_silence_flags = []\<rparr>"

definition push_samples :: "real list \<Rightarrow> bool \<Rightarrow> pcm_frame_accumulator \<Rightarrow> pcm_frame_accumulator" where
  "push_samples input is_silence a =
     (if input = [] then a
      else a\<lparr>acc_samples := acc_samples a @ input,
             acc_silence_flags := acc_silence_flags a @ replicate (length input) is_silence\<rparr>)"

definition push_silence_samples :: "nat \<Rightarrow> pcm_frame_accumulator \<Rightarrow> pcm_frame_accumulator" where
  "push_silence_samples n a =
     (if n = 0 then a
      else a\<lparr>acc_samples := acc_samples a @ replicate n 0,
             acc_silence_flags := acc_silence_flags a @ replicate n True\<rparr>)"

definition packet_kind_of :: "bool list \<Rightarrow> packet_kind" where
  "packet_kind_of flags =
     (let all_silent = list_all (\<lambda>f. f) flags;
          any_silent = list_ex (\<lambda>f. f) flags;
          any_non_silent = list_ex (\<lambda>f. \<not> f) flags
      in if all_silent then SilentPacket
         else if \<not> any_silent \<and> any_non_silent then AudioPacket
         else if any_silent \<and> any_non_silent then MixedPacket
         else AudioPacket)"

definition pop_frame ::
  "pcm_frame_accumulator \<Rightarrow> accumulated_frame option \<times> pcm_frame_accumulator" where
  "pop_frame a =
     (let frame_samples = total_samples_per_frame (acc_format a) in
      if length (acc_samples a) < frame_samples then (None, a)
      else let samples = take frame_samples (acc_samples a);
               flags = take frame_samples (acc_silence_flags a);
               (peak, rms) = compute_peak_rms samples
           in (Some \<lparr>ac_samples = samples, ac_is_silence = list_all (\<lambda>f. f) flags,
                     ac_peak = peak, ac_rms = rms, ac_packet_kind = packet_kind_of flags\<rparr>,
               a\<lparr>acc_samples := drop frame_samples (acc_samples a),
                 acc_silence_flags := drop frame_samples (acc_silence_flags a)\<rparr>))"

definition into_audio_frame ::
  "u64 \<Rightarrow> accumulated_frame \<Rightarrow> u32 option \<Rightarrow> pcm_frame_accumulator \<Rightarrow> capture_error + audio_frame" where
  "into_audio_frame pts_ms frame source_buffer_frames a =
     new_with_meta pts_ms (acc_format a) (ac_samples frame) (ac_is_silence frame)
       source_buffer_frames (ac_packet_kind frame) (ac_peak frame) (ac_rms frame)"

subsection \<open>The accumulator is a queue\<close>

datatype acc_op = Push "real list" bool | PushSilence nat

fun acc_push :: "acc_op \<Rightarrow> pcm_frame_accumulator \<Rightarrow> pcm_frame_accumulator" where
  "acc_push (Push xs s) a = push_samples xs s a"
| "acc_push (PushSilence n) a = push_silence_samples n a"

text \<open>What a push adds, as pairs of a sample and its silence flag.\<close>

fun pushed :: "acc_op \<Rightarrow> (real \<times> bool) list" where
  "pushed (Push xs s) = map (\<lambda>x. (x, s)) xs"
| "pushed (PushSilence n) = replicate n (0, True)"

definition acc_content :: "pcm_frame_accumulator \<Rightarrow> (real \<times> bool) list" where
  "acc_content a = zip (acc_samples a) (acc_silence_flags a)"

definition acc_inv :: "pcm_frame_accumulator \<Rightarrow> bool" where
  "acc_inv a \<longleftrightarrow> length (acc_samples a) = length (acc_silence_flags a)"

lemma acc_push_inv: "acc_inv a \<Longrightarrow> acc_inv (acc_push x a)"
  by (cases x) (auto simp: acc_inv_def push_samples_def push_silence_samples_def)

interpretation acc: total_machine acc_push acc_inv
  by unfold_locales (rule acc_push_inv)

lemma zip_replicate_flag: "zip xs (replicate (length xs) s) = map (\<lambda>x. (x, s)) xs"
  by (induction xs) auto

lemma acc_push_content: "acc_inv a \<Longrightarrow> acc_content (acc_push x a) = acc_content a @ pushed x"
  by (cases x) (auto simp: acc_inv_def acc_content_def push_samples_def push_silence_samples_def
      zip_replicate_flag)

lemma acc_push_format [simp]: "acc_format (acc_push x a) = acc_format a"
  by (cases x) (auto simp: push_samples_def push_silence_samples_def)

lemma run_pushes:
  "acc_inv a \<Longrightarrow> acc_content (run_all acc_push xs a) = acc_content a @ concat (map pushed xs)
    \<and> acc_inv (run_all acc_push xs a) \<and> acc_format (run_all acc_push xs a) = acc_format a"
proof (induction xs arbitrary: a)
  case (Cons x xs)
  then show ?case
    using Cons.IH [of "acc_push x a"] acc_push_inv [of a x] acc_push_content [of a x]
    by (simp add: run_all_def)
qed (simp add: run_all_def)

lemma pop_frame_content:
  assumes "acc_inv a" and "pop_frame a = (Some f, b)"
  shows "acc_content a = zip (ac_samples f) (take (total_samples_per_frame (acc_format a)) (acc_silence_flags a))
      @ acc_content b"
    and "acc_inv b" and "acc_format b = acc_format a"
    and "length (ac_samples f) = total_samples_per_frame (acc_format a)"
    and "ac_samples f = take (total_samples_per_frame (acc_format a)) (acc_samples a)"
    and "acc_samples b = drop (total_samples_per_frame (acc_format a)) (acc_samples a)"
  using assms
  by (auto simp: pop_frame_def Let_def acc_inv_def acc_content_def zip_append1 split: prod.splits if_splits)
    (metis append_take_drop_id length_take zip_append)

fun pop_all :: "nat \<Rightarrow> pcm_frame_accumulator \<Rightarrow> accumulated_frame list \<times> pcm_frame_accumulator" where
  "pop_all 0 a = ([], a)"
| "pop_all (Suc n) a =
     (case pop_frame a of (None, a) \<Rightarrow> ([], a)
      | (Some f, a) \<Rightarrow> let (fs, a) = pop_all n a in (f # fs, a))"

lemma pop_all_samples:
  "acc_inv a \<Longrightarrow> pop_all n a = (fs, b) \<Longrightarrow>
     concat (map ac_samples fs) @ acc_samples b = acc_samples a
     \<and> (\<forall>f \<in> set fs. length (ac_samples f) = total_samples_per_frame (acc_format a))
     \<and> acc_inv b \<and> acc_format b = acc_format a"
proof (induction n arbitrary: a fs b)
  case (Suc n)
  show ?case
  proof (cases "pop_frame a")
    case (Pair x c)
    show ?thesis
    proof (cases x)
      case None
      then show ?thesis using Suc.prems Pair
        by (auto simp: pop_frame_def Let_def split: prod.splits if_splits)
    next
      case (Some f)
      obtain gs where g: "pop_all n c = (gs, b)" "fs = f # gs"
        using Suc.prems(2) Pair Some by (auto split: prod.splits)
      note pf = pop_frame_content [OF Suc.prems(1) Pair [unfolded Some]]
      from Suc.IH [OF pf(2) g(1)] show ?thesis
        using pf g(2) by (auto simp: pf(5,6))
    qed
  qed
qed simp

section \<open>Capture sources\<close>

text \<open>
  The trait as an interface: a source is ready to read exactly while started, every frame it
  returns has the length its format requires, and stopping makes it refuse reads until the next
  start. \<open>'e\<close> is what the operating system delivers to a call (the clock for the synthetic source).
\<close>

locale capture_source =
  fixes start :: "'e \<Rightarrow> 's \<Rightarrow> (capture_error + unit) \<times> 's"
    and read :: "'e \<Rightarrow> 's \<Rightarrow> (capture_error + audio_frame) \<times> 's"
    and stop :: "'e \<Rightarrow> 's \<Rightarrow> (capture_error + unit) \<times> 's"
    and state_of :: "'s \<Rightarrow> capture_source_state"
  assumes start_started: "start e s = (Inr (), t) \<Longrightarrow> state_of t = Cap_Started"
    and read_not_started: "state_of s \<noteq> Cap_Started \<Longrightarrow> read e s = (Inl Cap_NotStarted, s)"
    and read_frame_length: "read e s = (Inr f, t)
          \<Longrightarrow> length (fr_samples f) = total_samples_per_frame (fr_format f)"
    and stop_stopped: "stop e s = (Inr (), t) \<Longrightarrow> state_of t = Cap_Stopped"
begin

text \<open>Reading until the first error, as the capture loop does.\<close>

fun read_all :: "'e list \<Rightarrow> 's \<Rightarrow> audio_frame list \<times> 's" where
  "read_all [] s = ([], s)"
| "read_all (e # es) s =
     (case read e s of (Inl _, s) \<Rightarrow> ([], s)
      | (Inr f, s) \<Rightarrow> let (fs, s) = read_all es s in (f # fs, s))"

lemma read_all_wf: "read_all es s = (fs, t) \<Longrightarrow>
    \<forall>f \<in> set fs. length (fr_samples f) = total_samples_per_frame (fr_format f)"
  by (induction es arbitrary: s fs)
    (auto split: prod.splits sum.splits dest: read_frame_length)

lemma stopped_reads_nothing: "stop e s = (Inr (), t) \<Longrightarrow> read_all es t = ([], t)"
  using stop_stopped by (cases es) (auto simp: read_not_started)

end

datatype synthetic_mode = Syn_Silence | Syn_Sine real

record synthetic_source =
  syn_format :: audio_format
  syn_mode :: synthetic_mode
  syn_phase :: real
  syn_state :: capture_source_state
  syn_next_tick :: "nat option"

definition synthetic_silence :: "audio_format \<Rightarrow> synthetic_source" where
  "synthetic_silence format = \<lparr>syn_format = format, syn_mode = Syn_Silence, syn_phase = 0,
     syn_state = Cap_Created, syn_next_tick = None\<rparr>"

definition synthetic_sine :: "audio_format \<Rightarrow> real \<Rightarrow> synthetic_source" where
  "synthetic_sine format frequency_hz = \<lparr>syn_format = format, syn_mode = Syn_Sine frequency_hz,
     syn_phase = 0, syn_state = Cap_Created, syn_next_tick = None\<rparr>"

text \<open>A call sees the instant it starts at and the wall clock when it stamps the frame.\<close>

record clock =
  now_instant :: nat
  now_ms :: u64

definition synthetic_start :: "clock \<Rightarrow> synthetic_source \<Rightarrow> (capture_error + unit) \<times> synthetic_source" where
  "synthetic_start clk s =
     (Inr (), s\<lparr>syn_state := Cap_Started, syn_next_tick := Some (now_instant clk)\<rparr>)"

fun sine_loop :: "nat \<Rightarrow> real \<Rightarrow> nat \<Rightarrow> real \<Rightarrow> real list \<times> real" where
  "sine_loop 0 step channels phase = ([], phase)"
| "sine_loop (Suc n) step channels phase =
     (let sample = sin (2 * pi * phase) * (2 / 10);
          phase = phase + step;
          phase = (if phase \<ge> 1 then phase - 1 else phase);
          (rest, phase) = sine_loop n step channels phase
      in (replicate channels sample @ rest, phase))"

text \<open>The instant at which the read returns: the source sleeps until its tick.\<close>

definition synthetic_wakes :: "clock \<Rightarrow> synthetic_source \<Rightarrow> nat" where
  "synthetic_wakes clk s =
     (case syn_next_tick s of None \<Rightarrow> now_instant clk | Some t \<Rightarrow> max t (now_instant clk))"

definition synthetic_read ::
  "clock \<Rightarrow> synthetic_source \<Rightarrow> (capture_error + audio_frame) \<times> synthetic_source" where
  "synthetic_read clk s =
     (if syn_state s \<noteq> Cap_Started then (Inl Cap_NotStarted, s)
      else
        let current_tick = (case syn_next_tick s of None \<Rightarrow> now_instant clk | Some t \<Rightarrow> t);
            s = s\<lparr>syn_next_tick := Some (current_tick + unat (af_frame_duration_ms (syn_format s)))\<rparr>;
            (samples, is_silence, phase) =
              (case syn_mode s of
                 Syn_Silence \<Rightarrow>
                   (replicate (total_samples_per_frame (syn_format s)) 0, True, syn_phase s)
               | Syn_Sine frequency_hz \<Rightarrow>
                   let (samples, phase) =
                     sine_loop (samples_per_channel_per_frame (syn_format s))
                       (frequency_hz / real (unat (sample_rate_hz (syn_format s))))
                       (unat (af_channels (syn_format s))) (syn_phase s)
                   in (samples, False, phase));
            (peak, rms) = compute_peak_rms samples
        in (new_with_meta (now_ms clk) (syn_format s) samples is_silence None SyntheticPacket peak rms,
            s\<lparr>syn_phase := phase\<rparr>))"

definition synthetic_stop :: "clock \<Rightarrow> synthetic_source \<Rightarrow> (capture_error + unit) \<times> synthetic_source" where
  "synthetic_stop clk s = (Inr (), s\<lparr>syn_state := Cap_Stopped, syn_next_tick := None\<rparr>)"

lemma new_with_meta_length:
  "new_with_meta p f xs b sb k pk r = Inr fr \<Longrightarrow>
   length (fr_samples fr) = total_samples_per_frame (fr_format fr) \<and> fr_samples fr = xs \<and> fr_format fr = f
   \<and> fr_is_silence fr = b \<and> fr_peak fr = pk \<and> fr_rms fr = r"
  by (auto simp: new_with_meta_def split: if_splits)

interpretation synthetic: capture_source synthetic_start synthetic_read synthetic_stop syn_state
  by unfold_locales
    (auto simp: synthetic_start_def synthetic_stop_def synthetic_read_def Let_def
      split: prod.splits synthetic_mode.splits if_splits dest: new_with_meta_length)

lemma length_sine_loop: "length (fst (sine_loop n st c ph)) = n * c"
  by (induction n arbitrary: ph) (simp_all add: Let_def case_prod_unfold)

lemma sine_loop_bound: "s \<in> set (fst (sine_loop n st c ph)) \<Longrightarrow> \<bar>s\<bar> \<le> 2 / 10"
proof (induction n arbitrary: ph)
  case (Suc n)
  have b: "\<bar>sin (2 * pi * ph) * (2 / 10)\<bar> \<le> 2 / 10"
    using abs_sin_le_one [of "2 * pi * ph"] by (simp add: abs_mult)
  from Suc.prems consider "s = sin (2 * pi * ph) * (2 / 10)"
    | "s \<in> set (fst (sine_loop n st c (if ph + st \<ge> 1 then ph + st - 1 else ph + st)))"
    by (auto simp: Let_def case_prod_unfold)
  then show ?case
    by cases (use b in \<open>simp only:\<close>, rule Suc.IH)
qed simp

lemma sine_loop_phase:
  "0 \<le> st \<Longrightarrow> st \<le> 1 \<Longrightarrow> 0 \<le> ph \<Longrightarrow> ph < 1
   \<Longrightarrow> 0 \<le> snd (sine_loop n st c ph) \<and> snd (sine_loop n st c ph) < 1"
proof (induction n arbitrary: ph)
  case (Suc n)
  let ?ph = "if ph + st \<ge> 1 then ph + st - 1 else ph + st"
  have "0 \<le> ?ph" "?ph < 1" using Suc.prems by auto
  from Suc.IH [OF Suc.prems(1,2) this] show ?case
    by (auto simp: Let_def split: prod.splits if_splits)
qed simp

section \<open>Properties\<close>

text \<open>
  C14: the accumulator is a lossless FIFO that re-frames. Whatever chunks were pushed, the frames
  popped afterwards, concatenated and followed by what is still buffered, are exactly the pushed
  samples in order, and every frame has exactly the length its format requires, so turning it
  into an \<open>AudioFrame\<close> cannot fail.
\<close>
theorem accumulator_fifo:
  assumes "pop_all n (run_all acc_push xs (accumulator_new format)) = (fs, b)"
  shows "concat (map ac_samples fs) @ acc_samples b = map fst (concat (map pushed xs))
    \<and> (\<forall>f \<in> set fs. length (ac_samples f) = total_samples_per_frame format
        \<and> (\<exists>fr. into_audio_frame pts f sb b = Inr fr \<and> fr_samples fr = ac_samples f))"
proof -
  have i: "acc_inv (accumulator_new format)" by (simp add: acc_inv_def accumulator_new_def)
  let ?a = "run_all acc_push xs (accumulator_new format)"
  have r: "acc_content ?a = concat (map pushed xs)" "acc_inv ?a" "acc_format ?a = format"
    using run_pushes [OF i, of xs] by (simp_all add: acc_content_def accumulator_new_def)
  have "acc_samples ?a = map fst (concat (map pushed xs))"
    using r(2) unfolding r(1) [symmetric] by (simp add: acc_content_def acc_inv_def)
  then show ?thesis
    using pop_all_samples [OF r(2) assms] r(3)
    by (auto simp: into_audio_frame_def new_with_meta_def)
qed

theorem accumulator_fifo_witness:
  "let f = \<lparr>sample_rate_hz = 1000, af_channels = 1, af_sample_format = SampleF32,
            af_frame_duration_ms = 2\<rparr>;
       (fs, b) = pop_all 1 (run_all acc_push [Push [1] False, PushSilence 1, Push [3] False]
          (accumulator_new f))
   in concat (map ac_samples fs) @ acc_samples b = [1, 0, 3]"
proof -
  let ?f = "\<lparr>sample_rate_hz = 1000, af_channels = 1, af_sample_format = SampleF32,
            af_frame_duration_ms = 2\<rparr>"
  obtain fs b where e: "pop_all 1 (run_all acc_push [Push [1] False, PushSilence 1, Push [3] False]
          (accumulator_new ?f)) = (fs, b)" by fastforce
  from accumulator_fifo [OF this, of 0 None] e show ?thesis by (simp add: Let_def)
qed

text \<open>
  What a popped frame says about itself. It is silent exactly when every sample in it was
  pushed as silence; its kind is Silent then, Audio when no sample was pushed as silence, Mixed
  otherwise; its peak bounds every sample, and its RMS lies between 0 and its peak.
\<close>
theorem accumulator_frame_labels:
  assumes "acc_inv a" and "pop_frame a = (Some f, b)"
    and "flags = take (total_samples_per_frame (acc_format a)) (acc_silence_flags a)"
  shows "ac_is_silence f = (\<forall>x \<in> set flags. x)
    \<and> ac_packet_kind f = (if \<forall>x \<in> set flags. x then SilentPacket
        else if \<forall>x \<in> set flags. \<not> x then AudioPacket else MixedPacket)
    \<and> (\<forall>s \<in> set (ac_samples f). \<bar>s\<bar> \<le> ac_peak f)
    \<and> 0 \<le> ac_rms f \<and> ac_rms f \<le> ac_peak f"
proof -
  obtain peak rms where c: "compute_peak_rms (ac_samples f) = (peak, rms)" by fastforce
  then have "ac_peak f = peak" "ac_rms f = rms" "ac_is_silence f = list_all (\<lambda>f. f) flags"
    "ac_packet_kind f = packet_kind_of flags"
    using assms by (auto simp: pop_frame_def Let_def split: prod.splits if_splits)
  then show ?thesis
    using peak_bound [of "ac_samples f"] rms_le_peak [of "ac_samples f"] c
    by (auto simp: packet_kind_of_def Let_def list_all_iff list_ex_iff)
qed

theorem accumulator_frame_labels_witness:
  "\<exists>f b. pop_frame \<lparr>acc_format = \<lparr>sample_rate_hz = 1000, af_channels = 1,
        af_sample_format = SampleF32, af_frame_duration_ms = 2\<rparr>,
      acc_samples = [1, 0, 3], acc_silence_flags = [False, True, False]\<rparr> = (Some f, b)
    \<and> ac_packet_kind f = MixedPacket"
proof -
  let ?a = "\<lparr>acc_format = \<lparr>sample_rate_hz = 1000, af_channels = 1,
        af_sample_format = SampleF32, af_frame_duration_ms = 2\<rparr>,
      acc_samples = [1, 0, 3], acc_silence_flags = [False, True, False]\<rparr>"
  note t = total_samples_per_frame_def samples_per_channel_per_frame_def
  obtain f b where p: "pop_frame ?a = (Some f, b)"
    by (simp add: pop_frame_def total_samples_per_frame_def samples_per_channel_per_frame_def
        Let_def case_prod_unfold)
  have "acc_inv ?a" by (simp add: acc_inv_def)
  from accumulator_frame_labels [OF this p refl] p show ?thesis
    by (intro exI [of _ f] exI [of _ b]) (simp add: t ex_bool_eq)
qed

text \<open>
  The synthetic source. A read while it is not started is refused and changes nothing. While
  started every read returns a frame of exactly the format's length whose samples stay within
  0.2, is silent exactly in silence mode, advances the tick by one frame duration whatever the
  clock says (so the pace does not drift), and keeps the phase in [0, 1) for a frequency between
  0 and the sample rate.
\<close>
theorem synthetic_source_reads:
  assumes "0 \<le> syn_phase s" and "syn_phase s < 1" and "syn_next_tick s = Some t"
    and "\<forall>f. syn_mode s = Syn_Sine f \<longrightarrow> 0 \<le> f \<and> f \<le> real (unat (sample_rate_hz (syn_format s)))"
  shows "if syn_state s \<noteq> Cap_Started then synthetic_read clk s = (Inl Cap_NotStarted, s)
    else \<exists>fr s'. synthetic_read clk s = (Inr fr, s')
      \<and> length (fr_samples fr) = total_samples_per_frame (syn_format s)
      \<and> fr_peak fr \<le> 2 / 10 \<and> (\<forall>x \<in> set (fr_samples fr). \<bar>x\<bar> \<le> 2 / 10)
      \<and> fr_is_silence fr = (syn_mode s = Syn_Silence)
      \<and> syn_next_tick s' = Some (t + unat (af_frame_duration_ms (syn_format s)))
      \<and> 0 \<le> syn_phase s' \<and> syn_phase s' < 1 \<and> syn_state s' = Cap_Started"
proof (cases "syn_state s = Cap_Started")
  case True
  show ?thesis
  proof (cases "syn_mode s")
    case Syn_Silence
    have "fst (compute_peak_rms (replicate n 0)) \<le> 2 / 10" for n by (rule peak_le) auto
    then show ?thesis
      using True Syn_Silence assms(1-3)
      by (auto simp: synthetic_read_def Let_def new_with_meta_def split: prod.splits)
        (metis fst_conv)
  next
    case (Syn_Sine f)
    let ?st = "f / real (unat (sample_rate_hz (syn_format s)))"
    obtain xs ph where x: "sine_loop (samples_per_channel_per_frame (syn_format s)) ?st
        (unat (af_channels (syn_format s))) (syn_phase s) = (xs, ph)" by fastforce
    have f: "0 \<le> f" "f \<le> real (unat (sample_rate_hz (syn_format s)))"
      using assms(4) Syn_Sine by auto
    then have "0 \<le> ?st" "?st \<le> 1"
      by (auto simp: divide_le_eq)
    then have ph: "0 \<le> ph" "ph < 1"
      using sine_loop_phase [OF _ _ assms(1,2), of ?st "samples_per_channel_per_frame (syn_format s)"
          "unat (af_channels (syn_format s))"] unfolding x snd_conv by blast+
    have len: "length xs = total_samples_per_frame (syn_format s)"
      using length_sine_loop [of "samples_per_channel_per_frame (syn_format s)" ?st
          "unat (af_channels (syn_format s))" "syn_phase s"]
      unfolding x fst_conv total_samples_per_frame_def .
    have b: "\<forall>x \<in> set xs. \<bar>x\<bar> \<le> 2 / 10"
      using sine_loop_bound [of _ "samples_per_channel_per_frame (syn_format s)" ?st
          "unat (af_channels (syn_format s))" "syn_phase s"] unfolding x fst_conv by blast
    obtain pk r where c: "compute_peak_rms xs = (pk, r)" by fastforce
    have "pk \<le> 2 / 10" using peak_le [OF _ b] c by simp
    then show ?thesis
      using True Syn_Sine x ph len b c assms(3)
      by (simp add: synthetic_read_def Let_def new_with_meta_def)
  qed
qed (simp add: synthetic_read_def)

theorem synthetic_source_reads_witness:
  "\<exists>fr s'. synthetic_read \<lparr>now_instant = 3, now_ms = 7\<rparr>
     (snd (synthetic_start \<lparr>now_instant = 3, now_ms = 7\<rparr> (synthetic_sine audio_format_default 440)))
   = (Inr fr, s') \<and> syn_next_tick s' = Some 13"
proof -
  let ?s = "snd (synthetic_start \<lparr>now_instant = 3, now_ms = 7\<rparr> (synthetic_sine audio_format_default 440))"
  have "syn_state ?s = Cap_Started" "syn_next_tick ?s = Some 3" "0 \<le> syn_phase ?s" "syn_phase ?s < 1"
    "\<forall>f. syn_mode ?s = Syn_Sine f \<longrightarrow> 0 \<le> f \<and> f \<le> real (unat (sample_rate_hz (syn_format ?s)))"
    "unat (af_frame_duration_ms (syn_format ?s)) = 10"
    by (simp_all add: synthetic_start_def synthetic_sine_def audio_format_default_def)
  then show ?thesis
    using synthetic_source_reads [of ?s 3 "\<lparr>now_instant = 3, now_ms = 7\<rparr>"] by auto
qed

end
