(* ===== verification/Cpu_Watchdog.thy ===== *)
theory Cpu_Watchdog
  imports Service_Metrics
begin

text \<open>
  The CPU watchdog of \<open>crates/lan_audio_server/src/watchdog.rs\<close>: a load predictor (smoothed value
  plus smoothed trend, extrapolated) and the tier machine Green, Yellow, Red with immediate
  demotion and a hold before promotion. \<open>f64\<close> values are real numbers, durations natural numbers
  of milliseconds (\<open>saturating_add\<close> never saturates there).
\<close>

section \<open>Tiers\<close>

datatype degradation_tier = Green | Yellow | Red

fun tier_label :: "degradation_tier \<Rightarrow> string" where
  "tier_label Green = ''green''"
| "tier_label Yellow = ''yellow''"
| "tier_label Red = ''red''"

fun tier_index :: "degradation_tier \<Rightarrow> nat" where
  "tier_index Green = 0"
| "tier_index Yellow = 1"
| "tier_index Red = 2"

text \<open>The tiers are ordered by their index, so a demotion is an increase.\<close>

instantiation degradation_tier :: linorder
begin

definition less_eq_degradation_tier :: "degradation_tier \<Rightarrow> degradation_tier \<Rightarrow> bool" where
  "less_eq_degradation_tier a b \<longleftrightarrow> tier_index a \<le> tier_index b"

definition less_degradation_tier :: "degradation_tier \<Rightarrow> degradation_tier \<Rightarrow> bool" where
  "less_degradation_tier a b \<longleftrightarrow> tier_index a < tier_index b"

lemma tier_index_inj: "tier_index a = tier_index b \<Longrightarrow> a = b"
  by (cases a; cases b) auto

instance
  by standard (auto simp: less_eq_degradation_tier_def less_degradation_tier_def intro: tier_index_inj)

end

definition is_demotion :: "degradation_tier \<Rightarrow> degradation_tier \<Rightarrow> bool" where
  "is_demotion a b \<longleftrightarrow> tier_index b > tier_index a"

definition is_promotion :: "degradation_tier \<Rightarrow> degradation_tier \<Rightarrow> bool" where
  "is_promotion a b \<longleftrightarrow> tier_index b < tier_index a"

lemma demotion_less: "is_demotion a b \<longleftrightarrow> a < b"
  by (simp add: is_demotion_def less_degradation_tier_def)

lemma promotion_less: "is_promotion a b \<longleftrightarrow> b < a"
  by (simp add: is_promotion_def less_degradation_tier_def)

lemma green_least [simp]: "Green \<le> t"
  by (simp add: less_eq_degradation_tier_def)

section \<open>Prediction\<close>

record cpu_predictor =
  ewma :: real
  trend :: real
  last_sample :: real
  forecast_horizon_seconds :: real
  alpha_ewma :: real
  alpha_trend :: real

definition predictor_new :: "real \<Rightarrow> cpu_predictor" where
  "predictor_new horizon = \<lparr>ewma = 0, trend = 0, last_sample = 0,
     forecast_horizon_seconds = horizon, alpha_ewma = 3 / 10, alpha_trend = 3 / 10\<rparr>"

definition forecast :: "cpu_predictor \<Rightarrow> real" where
  "forecast p = clamp (ewma p + trend p * forecast_horizon_seconds p) 0 100"

definition observe_cpu :: "real \<Rightarrow> cpu_predictor \<Rightarrow> real \<times> cpu_predictor" where
  "observe_cpu current_cpu p =
     (let delta = current_cpu - last_sample p;
          p = p\<lparr>trend := (1 - alpha_trend p) * trend p + alpha_trend p * delta\<rparr>;
          p = p\<lparr>ewma := (1 - alpha_ewma p) * ewma p + alpha_ewma p * current_cpu\<rparr>;
          p = p\<lparr>last_sample := current_cpu\<rparr>
      in (forecast p, p))"

record pressure_signals =
  current_cpu_percent :: real
  consecutive_dropped_frames :: u32
  encode_queue_depth :: u32
  encode_queue_capacity :: u32

definition queue_fill_ratio :: "pressure_signals \<Rightarrow> real" where
  "queue_fill_ratio s =
     (if encode_queue_capacity s = 0 then 0
      else real (unat (encode_queue_depth s)) / real (unat (encode_queue_capacity s)))"

section \<open>The watchdog\<close>

record watchdog_config =
  yellow_cpu_threshold :: real
  red_cpu_threshold :: real
  red_drop_streak :: u32
  yellow_queue_ratio :: real
  red_queue_ratio :: real
  upgrade_hold :: nat

definition watchdog_config_default :: watchdog_config where
  "watchdog_config_default = \<lparr>yellow_cpu_threshold = 60, red_cpu_threshold = 85,
     red_drop_streak = 3, yellow_queue_ratio = 5 / 10, red_queue_ratio = 85 / 100,
     upgrade_hold = 3000\<rparr>"

record cpu_watchdog =
  wd_cfg :: watchdog_config
  wd_predictor :: cpu_predictor
  wd_tier :: degradation_tier
  wd_healthy_streak :: nat

record watchdog_tick_result =
  tr_previous_tier :: degradation_tier
  tr_tier :: degradation_tier
  tr_predicted_cpu :: real
  tr_healthy_streak :: nat

definition watchdog_new :: "watchdog_config \<Rightarrow> real \<Rightarrow> cpu_watchdog" where
  "watchdog_new cfg horizon = \<lparr>wd_cfg = cfg, wd_predictor = predictor_new horizon,
     wd_tier = Green, wd_healthy_streak = 0\<rparr>"

definition compute_desired_tier ::
  "watchdog_config \<Rightarrow> real \<Rightarrow> real \<Rightarrow> pressure_signals \<Rightarrow> degradation_tier" where
  "compute_desired_tier cfg predicted_cpu queue_ratio signals =
     (if predicted_cpu \<ge> red_cpu_threshold cfg
         \<or> consecutive_dropped_frames signals \<ge> red_drop_streak cfg
         \<or> queue_ratio \<ge> red_queue_ratio cfg then Red
      else if predicted_cpu \<ge> yellow_cpu_threshold cfg
         \<or> queue_ratio \<ge> yellow_queue_ratio cfg then Yellow
      else Green)"

definition watchdog_tick ::
  "pressure_signals \<Rightarrow> nat \<Rightarrow> cpu_watchdog \<Rightarrow> watchdog_tick_result \<times> cpu_watchdog" where
  "watchdog_tick signals cadence w =
     (let (predicted_cpu, predictor) = observe_cpu (current_cpu_percent signals) (wd_predictor w);
          w = w\<lparr>wd_predictor := predictor\<rparr>;
          queue_ratio = queue_fill_ratio signals;
          desired = compute_desired_tier (wd_cfg w) predicted_cpu queue_ratio signals;
          previous = wd_tier w;
          w = (if is_demotion previous desired
               then w\<lparr>wd_tier := desired, wd_healthy_streak := 0\<rparr>
               else if is_promotion previous desired then
                 (let w = w\<lparr>wd_healthy_streak := wd_healthy_streak w + cadence\<rparr> in
                  if wd_healthy_streak w \<ge> upgrade_hold (wd_cfg w)
                  then w\<lparr>wd_tier := desired, wd_healthy_streak := 0\<rparr> else w)
               else if previous = Green then w\<lparr>wd_healthy_streak := 0\<rparr>
               else w\<lparr>wd_healthy_streak := wd_healthy_streak w + cadence\<rparr>)
      in (\<lparr>tr_previous_tier = previous, tr_tier = wd_tier w, tr_predicted_cpu = predicted_cpu,
           tr_healthy_streak = wd_healthy_streak w\<rparr>, w))"

text \<open>The tier the signals of a tick call for, in the state it finds.\<close>

definition desired_tier :: "pressure_signals \<Rightarrow> cpu_watchdog \<Rightarrow> degradation_tier" where
  "desired_tier signals w =
     compute_desired_tier (wd_cfg w)
       (fst (observe_cpu (current_cpu_percent signals) (wd_predictor w)))
       (queue_fill_ratio signals) signals"

definition watchdog_step :: "pressure_signals \<times> nat \<Rightarrow> cpu_watchdog \<Rightarrow> cpu_watchdog" where
  "watchdog_step x w = snd (watchdog_tick (fst x) (snd x) w)"

section \<open>Lemmas\<close>

lemma watchdog_tick_tier:
  "wd_tier (snd (watchdog_tick sg cad w)) =
    (if wd_tier w < desired_tier sg w then desired_tier sg w
     else if desired_tier sg w < wd_tier w \<and> upgrade_hold (wd_cfg w) \<le> wd_healthy_streak w + cad
     then desired_tier sg w else wd_tier w)"
  by (auto simp: watchdog_tick_def desired_tier_def Let_def demotion_less promotion_less
      split: prod.splits)

lemma watchdog_tick_streak:
  "wd_healthy_streak (snd (watchdog_tick sg cad w)) =
    (if wd_tier (snd (watchdog_tick sg cad w)) \<noteq> wd_tier w \<or> wd_tier w = Green then 0
     else wd_healthy_streak w + cad)"
  by (auto simp: watchdog_tick_def Let_def demotion_less promotion_less split: prod.splits)
    (metis green_least linorder_not_le)+

lemma watchdog_tick_cfg: "wd_cfg (snd (watchdog_tick sg cad w)) = wd_cfg w"
  by (simp add: watchdog_tick_def Let_def split: prod.splits)

lemma watchdog_tick_result:
  "fst (watchdog_tick sg cad w) = \<lparr>tr_previous_tier = wd_tier w,
     tr_tier = wd_tier (snd (watchdog_tick sg cad w)),
     tr_predicted_cpu = fst (observe_cpu (current_cpu_percent sg) (wd_predictor w)),
     tr_healthy_streak = wd_healthy_streak (snd (watchdog_tick sg cad w))\<rparr>"
  by (simp add: watchdog_tick_def Let_def split: prod.splits)

lemma watchdog_tick_predictor:
  "wd_predictor (snd (watchdog_tick sg cad w)) = snd (observe_cpu (current_cpu_percent sg) (wd_predictor w))"
  by (simp add: watchdog_tick_def Let_def split: prod.splits)

lemmas watchdog_step_simps =
  watchdog_tick_tier [of "fst x" "snd x" w for x w, folded watchdog_step_def]
  watchdog_tick_streak [of "fst x" "snd x" w for x w, folded watchdog_step_def]
  watchdog_tick_cfg [of "fst x" "snd x" w for x w, folded watchdog_step_def]

definition watchdog_inv :: "cpu_watchdog \<Rightarrow> bool" where
  "watchdog_inv w \<longleftrightarrow> wd_tier w = Green \<longrightarrow> wd_healthy_streak w = 0"

interpretation watchdog: total_machine watchdog_step watchdog_inv
  by unfold_locales (auto simp: watchdog_inv_def watchdog_step_simps)

definition predictor_ok :: "cpu_predictor \<Rightarrow> bool" where
  "predictor_ok p \<longleftrightarrow> 0 \<le> ewma p \<and> ewma p \<le> 100 \<and> \<bar>trend p\<bar> \<le> 100 \<and> 0 \<le> last_sample p
     \<and> last_sample p \<le> 100 \<and> 0 \<le> alpha_ewma p \<and> alpha_ewma p \<le> 1
     \<and> 0 \<le> alpha_trend p \<and> alpha_trend p \<le> 1"

lemma observe_cpu_ok:
  assumes "predictor_ok p" and "0 \<le> c" and "c \<le> 100"
  shows "predictor_ok (snd (observe_cpu c p))"
proof -
  have "0 \<le> (1 - alpha_ewma p) * ewma p + alpha_ewma p * c
      \<and> (1 - alpha_ewma p) * ewma p + alpha_ewma p * c \<le> 100"
    using assms by (intro convex_in) (auto simp: predictor_ok_def)
  moreover have "- 100 \<le> (1 - alpha_trend p) * trend p + alpha_trend p * (c - last_sample p)
      \<and> (1 - alpha_trend p) * trend p + alpha_trend p * (c - last_sample p) \<le> 100"
    using assms by (intro convex_in) (auto simp: predictor_ok_def)
  ultimately show ?thesis
    using assms by (auto simp: predictor_ok_def observe_cpu_def Let_def abs_le_iff)
qed

interpretation predictor: guarded_machine
  "\<lambda>c p. if 0 \<le> c \<and> c \<le> 100 then Inr (snd (observe_cpu c p)) else Inl ()" predictor_ok
  by unfold_locales (auto split: if_splits intro: observe_cpu_ok)

lemma forecast_bounds: "0 \<le> forecast p \<and> forecast p \<le> 100"
  unfolding forecast_def by (rule clamp_bounds) simp

section \<open>Properties\<close>

text \<open>
  C15: one tick of the watchdog. A worse desired tier is adopted at once; a better one only when
  the streak so far plus this tick reaches the hold, and then the watchdog jumps to it directly, from
  Red to Green if that is what is desired (the comment of its test speaks of one step);
  otherwise the tier stays. Every change of tier resets the streak, which otherwise grows by the
  cadence (and is 0 in Green); the reported forecast is between 0 and 100.
\<close>
theorem watchdog_tick_outcome:
  assumes "watchdog_tick sg cad w = (res, w')" and "d = desired_tier sg w"
  shows "wd_tier w' = (if wd_tier w < d then d
      else if d < wd_tier w \<and> upgrade_hold (wd_cfg w) \<le> wd_healthy_streak w + cad then d
      else wd_tier w)
    \<and> wd_healthy_streak w' = (if wd_tier w' \<noteq> wd_tier w \<or> wd_tier w = Green then 0
        else wd_healthy_streak w + cad)
    \<and> tr_previous_tier res = wd_tier w \<and> tr_tier res = wd_tier w'
    \<and> tr_healthy_streak res = wd_healthy_streak w'
    \<and> 0 \<le> tr_predicted_cpu res \<and> tr_predicted_cpu res \<le> 100"
proof -
  have w': "w' = snd (watchdog_tick sg cad w)" and res: "res = fst (watchdog_tick sg cad w)"
    using assms(1) by simp_all
  have "0 \<le> fst (observe_cpu c p) \<and> fst (observe_cpu c p) \<le> 100" for c p
    by (simp add: observe_cpu_def Let_def forecast_bounds)
  then show ?thesis
    unfolding w' res assms(2) watchdog_tick_result
    by (simp add: watchdog_tick_tier watchdog_tick_streak)
qed

definition sample_signals :: "u32 \<Rightarrow> pressure_signals" where
  "sample_signals drops = \<lparr>current_cpu_percent = 0, consecutive_dropped_frames = drops,
     encode_queue_depth = 0, encode_queue_capacity = 64\<rparr>"

lemmas watchdog_eval = watchdog_new_def predictor_new_def watchdog_config_default_def
  sample_signals_def desired_tier_def compute_desired_tier_def observe_cpu_def forecast_def
  clamp_def queue_fill_ratio_def

theorem watchdog_tick_outcome_witness:
  "wd_tier (snd (watchdog_tick (sample_signals 3) 500 (watchdog_new watchdog_config_default 2))) = Red"
proof -
  let ?w = "watchdog_new watchdog_config_default 2"
  have d: "desired_tier (sample_signals 3) ?w = Red" by (simp add: watchdog_eval)
  have g: "wd_tier ?w < Red" by (simp add: watchdog_new_def less_degradation_tier_def)
  obtain res w' where e: "watchdog_tick (sample_signals 3) 500 ?w = (res, w')" by fastforce
  from watchdog_tick_outcome [OF e d [symmetric]] have "wd_tier w' = Red" using g by simp
  then show ?thesis by (simp add: e)
qed

definition red_watchdog :: "nat \<Rightarrow> cpu_watchdog" where
  "red_watchdog streak = (watchdog_new watchdog_config_default 2)\<lparr>wd_tier := Red,
     wd_healthy_streak := streak\<rparr>"

lemma red_watchdog_desired:
  "desired_tier (sample_signals 3) (red_watchdog k) = Red"
  "desired_tier (sample_signals 0) (red_watchdog k) = Green"
  by (simp_all add: red_watchdog_def watchdog_eval)

lemma red_watchdog_step:
  "watchdog_step (sample_signals 3, 500) (red_watchdog k) = red_watchdog (k + 500)"
  "k + 500 < 3000 \<Longrightarrow> watchdog_step (sample_signals 0, 500) (red_watchdog k) = red_watchdog (k + 500)"
  by (simp_all add: watchdog_step_def watchdog_tick_def red_watchdog_def watchdog_eval Let_def
      is_demotion_def is_promotion_def)

lemma red_watchdog_run:
  "run_all watchdog_step (replicate n (sample_signals 3, 500)) (red_watchdog 0) = red_watchdog (500 * n)"
  "n < 6 \<Longrightarrow> run_all watchdog_step (replicate n (sample_signals 0, 500)) (red_watchdog 0)
    = red_watchdog (500 * n)"
  by (induction n) (simp_all add: red_watchdog_step replicate_append_same [symmetric] add.commute)

text \<open>
  A promotion never comes early. Starting with an empty streak (as after every change of
  tier), if the tier stayed the same over the ticks \<open>xs\<close> and the next tick lowers it, then the
  cadences of all those ticks add up to at least the configured hold.
\<close>
theorem watchdog_promotion_waits:
  assumes "wd_healthy_streak w = 0"
    and "\<forall>n \<le> length xs. wd_tier (run_all watchdog_step (take n xs) w) = wd_tier w"
    and "wd_tier (run_all watchdog_step (xs @ [x]) w) < wd_tier w"
  shows "upgrade_hold (wd_cfg w) \<le> sum_list (map snd (xs @ [x]))"
proof -
  have streak: "wd_healthy_streak (run_all watchdog_step ys w) = sum_list (map snd ys)
      \<and> wd_cfg (run_all watchdog_step ys w) = wd_cfg w"
    if "\<forall>n \<le> length ys. wd_tier (run_all watchdog_step (take n ys) w) = wd_tier w" "wd_tier w \<noteq> Green"
    for ys using that
  proof (induction ys rule: rev_induct)
    case (snoc y ys)
    have "\<forall>n \<le> length ys. wd_tier (run_all watchdog_step (take n ys) w) = wd_tier w"
      using snoc.prems(1) by (metis (no_types, lifting) append_take_drop_id le_SucI length_append_singleton take_append diff_is_0_eq' self_append_conv take_eq_Nil)
    moreover from this have "wd_tier (run_all watchdog_step ys w) = wd_tier w" by force
    moreover have "wd_tier (run_all watchdog_step (ys @ [y]) w) = wd_tier w"
      using snoc.prems(1) by force
    ultimately show ?case
      using snoc.IH snoc.prems(2)
      by (simp add: watchdog_step_simps(2,3))
  qed (simp add: assms(1))
  have ng: "wd_tier w \<noteq> Green" using assms(3) green_least [of "wd_tier (run_all watchdog_step (xs @ [x]) w)"]
    by (auto simp: not_le [symmetric])
  let ?u = "run_all watchdog_step xs w"
  have u: "wd_tier ?u = wd_tier w" using assms(2) by force
  have s: "wd_healthy_streak ?u = sum_list (map snd xs)" "wd_cfg ?u = wd_cfg w"
    using streak [OF assms(2) ng] by simp_all
  have "wd_tier (watchdog_step x ?u) < wd_tier ?u" using assms(3) u by simp
  then have "upgrade_hold (wd_cfg ?u) \<le> wd_healthy_streak ?u + snd x"
    by (auto simp: watchdog_step_simps split: if_splits)
  then show ?thesis using s by simp
qed

theorem watchdog_promotion_waits_witness:
  "upgrade_hold (wd_cfg (red_watchdog 0)) \<le> 3000"
proof -
  let ?xs = "replicate 5 (sample_signals 0, 500 :: nat)"
  have "\<forall>n \<le> length ?xs. wd_tier (run_all watchdog_step (take n ?xs) (red_watchdog 0)) = wd_tier (red_watchdog 0)"
    by (auto simp: min_def red_watchdog_run(2)) (simp add: red_watchdog_def)
  moreover have "wd_tier (run_all watchdog_step (?xs @ [(sample_signals 0, 500)]) (red_watchdog 0))
      < wd_tier (red_watchdog 0)"
    using red_watchdog_desired(2) [of 2500]
    by (simp only: run_all_snoc red_watchdog_run(2) watchdog_step_simps)
      (simp add: red_watchdog_def watchdog_new_def watchdog_config_default_def
        less_degradation_tier_def)
  ultimately show ?thesis
    using watchdog_promotion_waits [of "red_watchdog 0" ?xs "(sample_signals 0, 500)"]
    by (simp add: red_watchdog_def sum_list_replicate)
qed

text \<open>
  Time spent overloaded counts as healthy time. \<open>WatchdogConfig::upgrade_hold\<close> is documented
  as how long the system must look healthy before a promotion; but the streak also grows on ticks
  that call for the current bad tier. Once such ticks have filled the hold, a single healthy tick
  takes the watchdog from Red straight to Green.
\<close>
theorem watchdog_unhealthy_time_counts:
  assumes "wd_tier w = Red"
    and "\<forall>n < length xs. desired_tier (fst (xs ! n)) (run_all watchdog_step (take n xs) w) = Red"
    and "upgrade_hold (wd_cfg w) \<le> sum_list (map snd xs)"
    and "desired_tier sg (run_all watchdog_step xs w) = Green"
  shows "wd_tier (run_all watchdog_step xs w) = Red
    \<and> wd_tier (run_all watchdog_step (xs @ [(sg, cad)]) w) = Green"
proof -
  have "wd_tier (run_all watchdog_step xs w) = Red \<and> wd_cfg (run_all watchdog_step xs w) = wd_cfg w
      \<and> wd_healthy_streak (run_all watchdog_step xs w) = wd_healthy_streak w + sum_list (map snd xs)"
    using assms(2)
  proof (induction xs rule: rev_induct)
    case Nil
    show ?case by (simp add: assms(1))
  next
    case (snoc x xs)
    have "\<forall>n < length xs. desired_tier (fst (xs ! n)) (run_all watchdog_step (take n xs) w) = Red"
    proof (intro allI impI)
      fix n assume "n < length xs"
      then show "desired_tier (fst (xs ! n)) (run_all watchdog_step (take n xs) w) = Red"
        using snoc.prems [rule_format, of n] by (simp add: nth_append)
    qed
    moreover have "desired_tier (fst x) (run_all watchdog_step xs w) = Red"
      using snoc.prems [rule_format, of "length xs"] by simp
    ultimately show ?case
      using snoc.IH by (simp add: watchdog_step_simps)
  qed
  then show ?thesis
    using assms(3,4) by (simp add: watchdog_step_simps less_degradation_tier_def)
qed

theorem watchdog_unhealthy_time_counts_witness:
  "wd_tier (run_all watchdog_step (replicate 6 (sample_signals 3, 500) @ [(sample_signals 0, 500)])
     (red_watchdog 0)) = Green"
proof -
  let ?xs = "replicate 6 (sample_signals 3, 500 :: nat)"
  have "\<forall>n < length ?xs. desired_tier (fst (?xs ! n)) (run_all watchdog_step (take n ?xs) (red_watchdog 0)) = Red"
    by (simp add: red_watchdog_run(1) red_watchdog_desired(1))
  moreover have "desired_tier (sample_signals 0) (run_all watchdog_step ?xs (red_watchdog 0)) = Green"
    by (simp add: red_watchdog_run(1) red_watchdog_desired(2))
  moreover have "upgrade_hold (wd_cfg (red_watchdog 0)) \<le> sum_list (map snd ?xs)"
    by (simp add: red_watchdog_def watchdog_new_def watchdog_config_default_def sum_list_replicate)
  moreover have "wd_tier (red_watchdog 0) = Red" by (simp add: red_watchdog_def)
  ultimately show ?thesis
    using watchdog_unhealthy_time_counts [of "red_watchdog 0" ?xs "sample_signals 0" 500] by blast
qed

end
