(* ===== verification/Sync_Engine.thy ===== *)
theory Sync_Engine
  imports Service_Metrics
begin

text \<open>
  The clock-drift controller of \<open>crates/lan_audio_server/src/sync_engine.rs\<close>: a two-state Kalman
  filter over the client's reported buffer level, and a PID controller that turns the predicted
  level into a resample offset. All \<open>f64\<close> values are real numbers: the lemmas are about the exact
  arithmetic of the algorithm, not its rounding.
\<close>

section \<open>Constants\<close>

definition MAX_RESAMPLE_OFFSET_MHZ :: real where "MAX_RESAMPLE_OFFSET_MHZ = 20"
definition PID_INTEGRAL_CLAMP_MHZ :: real where "PID_INTEGRAL_CLAMP_MHZ = 50"
definition BANG_BANG_THRESHOLD_MS :: real where "BANG_BANG_THRESHOLD_MS = 30"
definition DEAD_ZONE_MS :: real where "DEAD_ZONE_MS = 5"

lemmas sync_consts = MAX_RESAMPLE_OFFSET_MHZ_def PID_INTEGRAL_CLAMP_MHZ_def
  BANG_BANG_THRESHOLD_MS_def DEAD_ZONE_MS_def

section \<open>The Kalman filter\<close>

record buffer_kalman_filter =
  kf_buffer_ms :: real
  kf_drift_rate :: real
  p00 :: real
  p01 :: real
  p11 :: real
  process_noise_buffer :: real
  process_noise_drift :: real
  measurement_noise :: real

definition kalman_new :: "real \<Rightarrow> buffer_kalman_filter" where
  "kalman_new initial_buffer_ms = \<lparr>kf_buffer_ms = initial_buffer_ms, kf_drift_rate = 0,
     p00 = 100, p01 = 0, p11 = 1, process_noise_buffer = 5 / 10,
     process_noise_drift = 1 / 100, measurement_noise = 4\<rparr>"

definition set_jitter_p95_us :: "u32 \<Rightarrow> buffer_kalman_filter \<Rightarrow> buffer_kalman_filter" where
  "set_jitter_p95_us jitter_p95_us k =
     (let jitter_ms = real (unat jitter_p95_us) / 1000
      in k\<lparr>measurement_noise := 4 + jitter_ms * jitter_ms * (25 / 100)\<rparr>)"

definition kalman_predict_step :: "real \<Rightarrow> buffer_kalman_filter \<Rightarrow> buffer_kalman_filter" where
  "kalman_predict_step dt k =
     (let k = k\<lparr>kf_buffer_ms := kf_buffer_ms k + kf_drift_rate k * dt\<rparr>;
          p00_new = p00 k + 2 * dt * p01 k + dt * dt * p11 k;
          p01_new = p01 k + dt * p11 k;
          p11_new = p11 k
      in k\<lparr>p00 := p00_new + process_noise_buffer k, p01 := p01_new,
           p11 := p11_new + process_noise_drift k\<rparr>)"

definition kalman_measure :: "real \<Rightarrow> buffer_kalman_filter \<Rightarrow> buffer_kalman_filter" where
  "kalman_measure measurement_ms k =
     (let s = p00 k + measurement_noise k in
      if \<bar>s\<bar> < 1 / 1000000000 then k
      else let k0 = p00 k / s;
               k1 = p01 k / s;
               innovation = measurement_ms - kf_buffer_ms k
           in k\<lparr>kf_buffer_ms := kf_buffer_ms k + k0 * innovation,
                kf_drift_rate := kf_drift_rate k + k1 * innovation,
                p00 := (1 - k0) * p00 k,
                p01 := (1 - k0) * p01 k,
                p11 := - k1 * p01 k + p11 k\<rparr>)"

definition kalman_step :: "real \<Rightarrow> real \<Rightarrow> buffer_kalman_filter \<Rightarrow> buffer_kalman_filter" where
  "kalman_step dt_seconds measurement_ms k =
     kalman_measure measurement_ms (kalman_predict_step dt_seconds k)"

definition kalman_predict :: "real \<Rightarrow> buffer_kalman_filter \<Rightarrow> real" where
  "kalman_predict horizon_seconds k = kf_buffer_ms k + kf_drift_rate k * horizon_seconds"

section \<open>The PID controller\<close>

record resample_pid_controller =
  kp :: real
  ki :: real
  kd :: real
  pid_target_buffer_ms :: real
  pid_integral :: real
  last_error :: "real option"
  last_d_filtered :: real
  d_filter_alpha :: real
  integral_frozen :: bool

definition pid_new :: "real \<Rightarrow> resample_pid_controller" where
  "pid_new target_buffer_ms = \<lparr>kp = 30 / 100, ki = 2 / 100, kd = 10 / 100,
     pid_target_buffer_ms = target_buffer_ms, pid_integral = 0, last_error = None,
     last_d_filtered = 0, d_filter_alpha = 6 / 10, integral_frozen = False\<rparr>"

definition set_yellow :: "resample_pid_controller \<Rightarrow> resample_pid_controller" where
  "set_yellow c = c\<lparr>integral_frozen := True, kp := 20 / 100\<rparr>"

definition set_green :: "resample_pid_controller \<Rightarrow> resample_pid_controller" where
  "set_green c = c\<lparr>integral_frozen := False, kp := 30 / 100\<rparr>"

definition pid_reset :: "resample_pid_controller \<Rightarrow> resample_pid_controller" where
  "pid_reset c = c\<lparr>pid_integral := 0, last_error := None, last_d_filtered := 0\<rparr>"

definition copysign :: "real \<Rightarrow> real \<Rightarrow> real" where
  "copysign m s = (if s < 0 then - \<bar>m\<bar> else \<bar>m\<bar>)"

definition pid_step ::
  "real \<Rightarrow> real \<Rightarrow> resample_pid_controller \<Rightarrow> real \<times> resample_pid_controller" where
  "pid_step predicted_buffer_ms dt_seconds c =
     (let error = pid_target_buffer_ms c - predicted_buffer_ms in
      if \<bar>error\<bar> > BANG_BANG_THRESHOLD_MS
      then (copysign MAX_RESAMPLE_OFFSET_MHZ error, c\<lparr>last_error := Some error\<rparr>)
      else if \<bar>error\<bar> < DEAD_ZONE_MS
      then (0, c\<lparr>last_error := Some error,
                 last_d_filtered := last_d_filtered c * (1 - d_filter_alpha c)\<rparr>)
      else
        let c = (if \<not> integral_frozen c
                 then c\<lparr>pid_integral := clamp (pid_integral c + error * dt_seconds)
                          (- PID_INTEGRAL_CLAMP_MHZ) PID_INTEGRAL_CLAMP_MHZ\<rparr>
                 else c);
            derivative_raw = (case last_error c of
                Some prev \<Rightarrow> (error - prev) / max dt_seconds (1 / 1000000) | None \<Rightarrow> 0);
            c = c\<lparr>last_d_filtered := d_filter_alpha c * derivative_raw
                   + (1 - d_filter_alpha c) * last_d_filtered c,
                  last_error := Some error\<rparr>;
            raw = kp c * error + ki c * pid_integral c + kd c * last_d_filtered c
        in (clamp raw (- MAX_RESAMPLE_OFFSET_MHZ) MAX_RESAMPLE_OFFSET_MHZ, c))"

section \<open>The engine\<close>

record watermark_observation =
  wo_jitter_buf_ms :: u32
  wo_ring_buf_ms :: u32
  wo_silence_fill_delta :: u32
  wo_underrun_delta :: u32
  wo_jitter_p95_us :: u32

definition total_buffer_ms :: "watermark_observation \<Rightarrow> real" where
  "total_buffer_ms ob = real (unat (wo_jitter_buf_ms ob)) + real (unat (wo_ring_buf_ms ob))"

record audio_sync_engine =
  kalman :: buffer_kalman_filter
  pid :: resample_pid_controller
  se_forecast_horizon_seconds :: real
  last_offset_mhz :: real

record audio_sync_decision =
  sd_estimated_buffer_ms :: real
  sd_estimated_drift_rate_ms_per_s :: real
  sd_predicted_buffer_ms :: real
  sd_resample_offset_mhz :: real

definition sync_engine_new :: "real \<Rightarrow> real \<Rightarrow> audio_sync_engine" where
  "sync_engine_new target_buffer_ms initial_buffer_ms =
     \<lparr>kalman = kalman_new initial_buffer_ms, pid = pid_new target_buffer_ms,
      se_forecast_horizon_seconds = 2, last_offset_mhz = 0\<rparr>"

definition sync_observe ::
  "watermark_observation \<Rightarrow> real \<Rightarrow> audio_sync_engine \<Rightarrow> audio_sync_decision \<times> audio_sync_engine" where
  "sync_observe observation dt e =
     (let dt_secs = max dt (5 / 100);
          e = e\<lparr>kalman := set_jitter_p95_us (wo_jitter_p95_us observation) (kalman e)\<rparr>;
          e = e\<lparr>kalman := kalman_step dt_secs (total_buffer_ms observation) (kalman e)\<rparr>;
          predicted = kalman_predict (se_forecast_horizon_seconds e) (kalman e);
          (offset, pid') = pid_step predicted dt_secs (pid e);
          e = e\<lparr>pid := pid', last_offset_mhz := offset\<rparr>
      in (\<lparr>sd_estimated_buffer_ms = kf_buffer_ms (kalman e),
           sd_estimated_drift_rate_ms_per_s = kf_drift_rate (kalman e),
           sd_predicted_buffer_ms = predicted, sd_resample_offset_mhz = offset\<rparr>, e))"

section \<open>Lemmas\<close>

text \<open>The covariance is positive semidefinite and the noises are positive.\<close>

definition kalman_ok :: "buffer_kalman_filter \<Rightarrow> bool" where
  "kalman_ok k \<longleftrightarrow> 0 \<le> p00 k \<and> 0 \<le> p11 k \<and> (p01 k)\<^sup>2 \<le> p00 k * p11 k
     \<and> 0 \<le> process_noise_buffer k \<and> 0 \<le> process_noise_drift k \<and> 4 \<le> measurement_noise k"

lemma kalman_new_ok: "kalman_ok (kalman_new b)"
  by (simp add: kalman_ok_def kalman_new_def)

lemma set_jitter_ok: "kalman_ok k \<Longrightarrow> kalman_ok (set_jitter_p95_us j k)"
  by (simp add: kalman_ok_def set_jitter_p95_us_def Let_def)

lemma psd_quadratic:
  assumes "0 \<le> a" and "0 \<le> c" and "b\<^sup>2 \<le> a * c"
  shows "0 \<le> a + 2 * t * b + t * t * (c :: real)"
proof (cases "c = 0")
  case True
  with assms show ?thesis by simp
next
  case False
  then have c: "0 < c" using assms(2) by simp
  have "0 \<le> (b + t * c)\<^sup>2" by simp
  then have "0 \<le> a * c + 2 * t * b * c + t * t * c * c"
    using assms(3) by (simp add: power2_eq_square algebra_simps)
  then have "0 \<le> (a + 2 * t * b + t * t * c) * c" by (simp add: algebra_simps)
  with c show ?thesis by (simp add: zero_le_mult_iff)
qed

lemma predict_step_ok:
  assumes "kalman_ok k"
  shows "kalman_ok (kalman_predict_step dt k)"
proof -
  let ?a = "p00 k" and ?b = "p01 k" and ?c = "p11 k"
  have k: "0 \<le> ?a" "0 \<le> ?c" "?b\<^sup>2 \<le> ?a * ?c" "0 \<le> process_noise_buffer k" "0 \<le> process_noise_drift k"
    using assms by (auto simp: kalman_ok_def)
  let ?q = "?a + 2 * dt * ?b + dt * dt * ?c"
  have q: "0 \<le> ?q" using k by (intro psd_quadratic)
  have "(?b + dt * ?c)\<^sup>2 \<le> ?q * ?c"
    using k(3) by (simp add: power2_eq_square algebra_simps)
  also have "\<dots> \<le> (?q + process_noise_buffer k) * (?c + process_noise_drift k)"
    using q k by (intro mult_mono) auto
  finally have "(?b + dt * ?c)\<^sup>2 \<le> (?q + process_noise_buffer k) * (?c + process_noise_drift k)" .
  then show ?thesis
    using assms q k by (simp add: kalman_ok_def kalman_predict_step_def Let_def)
qed

lemma psd_shrink:
  assumes "r * b\<^sup>2 \<le> a * x" and "0 \<le> r" and "0 < s"
  shows "(r / s * b)\<^sup>2 \<le> (r / s * a) * (x / (s :: real))"
proof -
  have "(r * (r * b\<^sup>2)) / (s * s) \<le> (r * (a * x)) / (s * s)"
    using assms by (intro divide_right_mono mult_left_mono) auto
  then show ?thesis by (simp add: power2_eq_square mult_ac)
qed

lemma update_ok:
  assumes "kalman_ok k"
  shows "kalman_ok (kalman_measure z k)"
    and "0 \<le> p00 k / (p00 k + measurement_noise k)" and "p00 k / (p00 k + measurement_noise k) < 1"
proof -
  let ?a = "p00 k" and ?b = "p01 k" and ?c = "p11 k" and ?r = "measurement_noise k"
  let ?s = "?a + ?r"
  have k: "0 \<le> ?a" "0 \<le> ?c" "?b\<^sup>2 \<le> ?a * ?c" "4 \<le> ?r" using assms by (auto simp: kalman_ok_def)
  then have s: "0 < ?s" "4 \<le> ?s" by auto
  show "0 \<le> ?a / ?s" "?a / ?s < 1" using k s by auto
  have g: "1 - ?a / ?s = ?r / ?s" using s by (simp add: field_simps)
  have p11: "- (?b / ?s) * ?b + ?c = (?c * ?s - ?b\<^sup>2) / ?s"
    using s by (simp add: field_simps power2_eq_square)
  have num: "?c * ?r \<le> ?c * ?s - ?b\<^sup>2" using k(3) by (simp add: algebra_simps)
  moreover have "0 \<le> ?c * ?r" using k by (intro mult_nonneg_nonneg) auto
  ultimately have "0 \<le> ?c * ?s - ?b\<^sup>2" by linarith
  then have c0: "0 \<le> (?c * ?s - ?b\<^sup>2) / ?s"
    using s by (intro divide_nonneg_pos) auto
  have "(?r / ?s * ?b)\<^sup>2 \<le> (?r / ?s * ?a) * ((?c * ?s - ?b\<^sup>2) / ?s)"
  proof -
    have "?r * ?b\<^sup>2 \<le> ?a * (?c * ?s - ?b\<^sup>2)"
    proof -
      have "?b\<^sup>2 * ?s \<le> ?a * ?c * ?s" using k(3) s by (intro mult_right_mono) auto
      then show ?thesis by (simp add: algebra_simps)
    qed
    then show ?thesis using k(4) s(1) by (intro psd_shrink) auto
  qed
  moreover have nz: "\<not> \<bar>?s\<bar> < 1 / 1000000000" using s by simp
  have "p00 (kalman_measure z k) = (1 - ?a / ?s) * ?a" "p01 (kalman_measure z k) = (1 - ?a / ?s) * ?b"
    "p11 (kalman_measure z k) = - (?b / ?s) * ?b + ?c"
    using nz by (simp_all add: kalman_measure_def Let_def)
  then have f: "p00 (kalman_measure z k) = ?r / ?s * ?a" "p01 (kalman_measure z k) = ?r / ?s * ?b"
    "p11 (kalman_measure z k) = (?c * ?s - ?b\<^sup>2) / ?s"
    by (simp_all only: g p11)
  moreover have "process_noise_buffer (kalman_measure z k) = process_noise_buffer k"
    "process_noise_drift (kalman_measure z k) = process_noise_drift k"
    "measurement_noise (kalman_measure z k) = ?r"
    by (simp_all add: kalman_measure_def Let_def)
  moreover have "0 \<le> ?r / ?s * ?a" using k s by (intro mult_nonneg_nonneg divide_nonneg_pos) auto
  ultimately show "kalman_ok (kalman_measure z k)"
    using assms c0 unfolding kalman_ok_def by presburger
qed

lemma kalman_measure_estimate:
  assumes "kalman_ok k"
  shows "kf_buffer_ms (kalman_measure z k) =
    (1 - p00 k / (p00 k + measurement_noise k)) * kf_buffer_ms k
    + p00 k / (p00 k + measurement_noise k) * z"
proof -
  have "\<not> \<bar>p00 k + measurement_noise k\<bar> < 1 / 1000000000"
    using assms by (simp add: kalman_ok_def)
  then show ?thesis by (simp add: kalman_measure_def Let_def algebra_simps)
qed

lemma kalman_step_ok: "kalman_ok k \<Longrightarrow> kalman_ok (kalman_step dt z k)"
  by (simp add: kalman_step_def update_ok(1) predict_step_ok)

interpretation kalman: total_machine "\<lambda>(dt, z). kalman_step dt z" kalman_ok
  by unfold_locales (auto intro: kalman_step_ok)

definition pid_ok :: "resample_pid_controller \<Rightarrow> bool" where
  "pid_ok c \<longleftrightarrow> \<bar>pid_integral c\<bar> \<le> PID_INTEGRAL_CLAMP_MHZ"

lemma abs_clamp: "0 \<le> b \<Longrightarrow> \<bar>clamp x (- b) b\<bar> \<le> b"
  using clamp_bounds [of "- b" b x] by (simp add: abs_le_iff)

lemma pid_step_ok: "pid_ok c \<Longrightarrow> pid_ok (snd (pid_step p dt c))"
  by (simp add: pid_ok_def pid_step_def Let_def abs_clamp PID_INTEGRAL_CLAMP_MHZ_def)

lemma pid_step_bound: "\<bar>fst (pid_step p dt c)\<bar> \<le> MAX_RESAMPLE_OFFSET_MHZ"
  by (simp add: pid_step_def Let_def abs_clamp copysign_def MAX_RESAMPLE_OFFSET_MHZ_def)

interpretation pid_machine: total_machine "\<lambda>(p, dt) c. snd (pid_step p dt c)" pid_ok
  by unfold_locales (auto intro: pid_step_ok)

section \<open>Properties\<close>

text \<open>
  C35: the Kalman filter stays sound. Whatever intervals and measurements it is fed, the
  covariance remains positive semidefinite (both variances non-negative, the covariance squared
  at most their product), and one step moves the buffer estimate from its prediction towards the
  measurement without passing it.
\<close>
theorem kalman_sound:
  "let k = run_all (\<lambda>(dt, z). kalman_step dt z) xs (kalman_new b);
       predicted = kf_buffer_ms k + kf_drift_rate k * dt;
       est = kf_buffer_ms (kalman_step dt z k)
   in 0 \<le> p00 k \<and> 0 \<le> p11 k \<and> (p01 k)\<^sup>2 \<le> p00 k * p11 k
      \<and> min predicted z \<le> est \<and> est \<le> max predicted z"
proof -
  let ?k = "run_all (\<lambda>(dt, z). kalman_step dt z) xs (kalman_new b)"
  have ok: "kalman_ok ?k" by (rule kalman.run_all_inv [OF kalman_new_ok])
  let ?q = "kalman_predict_step dt ?k"
  let ?p = "kf_buffer_ms ?k + kf_drift_rate ?k * dt" and ?g = "p00 ?q / (p00 ?q + measurement_noise ?q)"
  have qok: "kalman_ok ?q" using ok by (rule predict_step_ok)
  note g = update_ok(2,3) [OF qok]
  have p: "kf_buffer_ms ?q = ?p" by (simp add: kalman_predict_step_def Let_def)
  have est: "kf_buffer_ms (kalman_step dt z ?k) = (1 - ?g) * ?p + ?g * z"
    using kalman_measure_estimate [OF qok, of z] unfolding p kalman_step_def .
  have "min ?p z \<le> (1 - ?g) * ?p + ?g * z \<and> (1 - ?g) * ?p + ?g * z \<le> max ?p z"
    using g by (intro convex_in) auto
  then show ?thesis using ok est by (simp add: Let_def kalman_ok_def)
qed

text \<open>
  C36: one PID step. The offset never leaves the 20 mHz band and the integral stays within its
  clamp; beyond 30 ms of error the output is the full band with the error's sign, below 5 ms it is
  0, and in both cases the integral does not move; nor does it move while it is frozen.
\<close>
theorem pid_step_outcome:
  assumes "pid_ok c" and "pid_step predicted dt c = (offset, c')"
    and "err = pid_target_buffer_ms c - predicted"
  shows "\<bar>offset\<bar> \<le> 20 \<and> \<bar>pid_integral c'\<bar> \<le> 50
    \<and> (\<bar>err\<bar> > 30 \<longrightarrow> offset = (if err < 0 then - 20 else 20))
    \<and> (\<bar>err\<bar> < 5 \<longrightarrow> offset = 0)
    \<and> (\<bar>err\<bar> > 30 \<or> \<bar>err\<bar> < 5 \<or> integral_frozen c \<longrightarrow> pid_integral c' = pid_integral c)
    \<and> integral_frozen c' = integral_frozen c \<and> last_error c' = Some err"
proof -
  have "\<bar>offset\<bar> \<le> 20" using pid_step_bound [of predicted dt c] assms(2) by (simp add: sync_consts)
  moreover have "\<bar>pid_integral c'\<bar> \<le> 50"
    using pid_step_ok [OF assms(1), of predicted dt] assms(2) by (simp add: pid_ok_def sync_consts)
  moreover have "(\<bar>err\<bar> > 30 \<longrightarrow> offset = (if err < 0 then - 20 else 20))
    \<and> (\<bar>err\<bar> < 5 \<longrightarrow> offset = 0)
    \<and> (\<bar>err\<bar> > 30 \<or> \<bar>err\<bar> < 5 \<or> integral_frozen c \<longrightarrow> pid_integral c' = pid_integral c)
    \<and> integral_frozen c' = integral_frozen c \<and> last_error c' = Some err"
    using assms(2,3)
    by (auto simp: pid_step_def Let_def copysign_def sync_consts split: if_splits)
  ultimately show ?thesis by blast
qed

theorem pid_step_outcome_witness:
  "fst (pid_step 100 1 (pid_new 60)) = - 20"
proof -
  obtain f c' where e: "pid_step 100 1 (pid_new 60) = (f, c')" by fastforce
  have "pid_ok (pid_new 60)" by (simp add: pid_ok_def pid_new_def sync_consts)
  from pid_step_outcome [OF this e refl] have "f = - 20" by (simp add: pid_new_def)
  then show ?thesis by (simp add: e)
qed

end
