(* ===== verification/Adaptive_Runtime.thy ===== *)
theory Adaptive_Runtime
  imports Cpu_Watchdog Sync_Engine Audio_Domain
begin

text \<open>
  The adaptive runtime of \<open>crates/lan_audio_server/src/adaptive_runtime.rs\<close>: each tick drives the
  watchdog with the CPU sample and the queue signals, couples the PID's integrator to the tier and
  feeds a fresh client watermark to the sync engine. The CPU sample comes from the operating
  system (\<open>cpu_sampler.rs\<close>) and is an argument. Also the encoder profile of each tier.
\<close>

section \<open>Encoder profiles\<close>

record tier_encoder_profile =
  tp_bitrate_bps :: int
  tp_complexity :: int
  tp_use_vbr :: bool
  tp_force_pcm16_fallback :: bool

fun baseline_profile :: "audio_mode \<Rightarrow> tier_encoder_profile" where
  "baseline_profile UltraLowLatency = \<lparr>tp_bitrate_bps = 48000, tp_complexity = 0,
     tp_use_vbr = False, tp_force_pcm16_fallback = False\<rparr>"
| "baseline_profile LowLatency = \<lparr>tp_bitrate_bps = 64000, tp_complexity = 1,
     tp_use_vbr = False, tp_force_pcm16_fallback = False\<rparr>"
| "baseline_profile Balanced = \<lparr>tp_bitrate_bps = 96000, tp_complexity = 2,
     tp_use_vbr = True, tp_force_pcm16_fallback = False\<rparr>"
| "baseline_profile HighQuality = \<lparr>tp_bitrate_bps = 128000, tp_complexity = 4,
     tp_use_vbr = True, tp_force_pcm16_fallback = False\<rparr>"

fun tier_profile :: "degradation_tier \<Rightarrow> audio_mode \<Rightarrow> tier_encoder_profile" where
  "tier_profile Green mode = baseline_profile mode"
| "tier_profile Yellow mode =
     \<lparr>tp_bitrate_bps = min (tp_bitrate_bps (baseline_profile mode)) 96000,
      tp_complexity = min (tp_complexity (baseline_profile mode)) 2,
      tp_use_vbr = False, tp_force_pcm16_fallback = False\<rparr>"
| "tier_profile Red mode =
     \<lparr>tp_bitrate_bps = 64000, tp_complexity = 1, tp_use_vbr = False,
      tp_force_pcm16_fallback = True\<rparr>"

section \<open>The runtime\<close>

record adaptive_runtime =
  ar_watchdog :: cpu_watchdog
  ar_sync_engine :: audio_sync_engine
  ar_cadence :: nat \<comment> \<open>milliseconds\<close>
  ar_last_observed_tier :: degradation_tier

record adaptive_decision =
  ad_tier :: degradation_tier
  ad_previous_tier :: degradation_tier
  ad_predicted_cpu :: real
  ad_predicted_buffer_ms :: real
  ad_estimated_drift_rate_ms_per_s :: real
  ad_resample_offset_mhz :: real

definition runtime_new ::
  "watchdog_config \<Rightarrow> real \<Rightarrow> real \<Rightarrow> real \<Rightarrow> nat \<Rightarrow> adaptive_runtime" where
  "runtime_new cfg horizon target_buffer_ms initial_buffer_ms cadence =
     \<lparr>ar_watchdog = watchdog_new cfg horizon,
      ar_sync_engine = sync_engine_new target_buffer_ms initial_buffer_ms,
      ar_cadence = cadence, ar_last_observed_tier = Green\<rparr>"

definition couple_pid :: "degradation_tier \<Rightarrow> resample_pid_controller \<Rightarrow> resample_pid_controller" where
  "couple_pid tier c = (case tier of Green \<Rightarrow> set_green c | _ \<Rightarrow> set_yellow c)"

definition runtime_tick ::
  "real option \<Rightarrow> u32 \<Rightarrow> u32 \<Rightarrow> u32 \<Rightarrow> watermark_observation option \<Rightarrow> adaptive_runtime
   \<Rightarrow> adaptive_decision \<times> adaptive_runtime" where
  "runtime_tick cpu_sample queue_depth queue_capacity dropped watermark a =
     (let cpu = (case cpu_sample of None \<Rightarrow> 0 | Some p \<Rightarrow> p);
          signals = \<lparr>current_cpu_percent = cpu, consecutive_dropped_frames = dropped,
            encode_queue_depth = queue_depth, encode_queue_capacity = queue_capacity\<rparr>;
          (tick, wd) = watchdog_tick signals (ar_cadence a) (ar_watchdog a);
          a = a\<lparr>ar_watchdog := wd\<rparr>;
          eng = ar_sync_engine a;
          eng = eng\<lparr>pid := couple_pid (tr_tier tick) (pid eng)\<rparr>;
          (sync_decision, eng) = (case watermark of None \<Rightarrow> (None, eng)
             | Some obs \<Rightarrow> let (d, eng) = sync_observe obs (real (ar_cadence a) / 1000) eng
                          in (Some d, eng));
          a = a\<lparr>ar_sync_engine := eng, ar_last_observed_tier := tr_tier tick\<rparr>
      in (\<lparr>ad_tier = tr_tier tick, ad_previous_tier = tr_previous_tier tick,
           ad_predicted_cpu = tr_predicted_cpu tick,
           ad_predicted_buffer_ms = (case sync_decision of
               Some d \<Rightarrow> sd_predicted_buffer_ms d | None \<Rightarrow> kf_buffer_ms (kalman eng)),
           ad_estimated_drift_rate_ms_per_s = (case sync_decision of
               Some d \<Rightarrow> sd_estimated_drift_rate_ms_per_s d | None \<Rightarrow> kf_drift_rate (kalman eng)),
           ad_resample_offset_mhz = (case sync_decision of
               Some d \<Rightarrow> sd_resample_offset_mhz d | None \<Rightarrow> last_offset_mhz eng)\<rparr>, a))"

section \<open>Lemmas\<close>

definition runtime_inv :: "adaptive_runtime \<Rightarrow> bool" where
  "runtime_inv a \<longleftrightarrow> kalman_ok (kalman (ar_sync_engine a)) \<and> pid_ok (pid (ar_sync_engine a))
     \<and> \<bar>last_offset_mhz (ar_sync_engine a)\<bar> \<le> MAX_RESAMPLE_OFFSET_MHZ
     \<and> (integral_frozen (pid (ar_sync_engine a)) \<longleftrightarrow> ar_last_observed_tier a \<noteq> Green)
     \<and> ar_last_observed_tier a = wd_tier (ar_watchdog a)"

lemma couple_pid_simps:
  "integral_frozen (couple_pid t c) \<longleftrightarrow> t \<noteq> Green"
  "pid_ok (couple_pid t c) = pid_ok c"
  "pid_integral (couple_pid t c) = pid_integral c"
  by (cases t; simp add: couple_pid_def set_green_def set_yellow_def pid_ok_def)+

lemma pid_step_frozen: "integral_frozen (snd (pid_step p dt c)) = integral_frozen c"
  by (auto simp: pid_step_def Let_def)

lemma sync_observe_keeps:
  assumes "sync_observe obs dt e = (d, e')" and "kalman_ok (kalman e)" and "pid_ok (pid e)"
  shows "kalman_ok (kalman e') \<and> pid_ok (pid e')
    \<and> \<bar>last_offset_mhz e'\<bar> \<le> MAX_RESAMPLE_OFFSET_MHZ
    \<and> integral_frozen (pid e') = integral_frozen (pid e)
    \<and> sd_resample_offset_mhz d = last_offset_mhz e'"
proof -
  let ?k = "kalman_step (max dt (5 / 100)) (total_buffer_ms obs)
    (set_jitter_p95_us (wo_jitter_p95_us obs) (kalman e))"
  have k: "kalman_ok ?k" using assms(2) by (intro kalman_step_ok set_jitter_ok)
  let ?p = "kalman_predict (se_forecast_horizon_seconds e) ?k"
  obtain f c where c: "pid_step ?p (max dt (5 / 100)) (pid e) = (f, c)" by fastforce
  show ?thesis
    using assms k c pid_step_ok [of "pid e" ?p "max dt (5 / 100)"]
      pid_step_bound [of ?p "max dt (5 / 100)" "pid e"] pid_step_frozen [of ?p "max dt (5 / 100)" "pid e"]
    by (auto simp: sync_observe_def Let_def)
qed

lemma runtime_tick_keeps:
  assumes "runtime_tick cpu qd qc dr wm a = (d, b)" and "runtime_inv a"
  shows "runtime_inv b \<and> ad_tier d = wd_tier (ar_watchdog b)
    \<and> \<bar>ad_resample_offset_mhz d\<bar> \<le> MAX_RESAMPLE_OFFSET_MHZ"
proof -
  let ?sg = "\<lparr>current_cpu_percent = (case cpu of None \<Rightarrow> 0 | Some p \<Rightarrow> p),
    consecutive_dropped_frames = dr, encode_queue_depth = qd, encode_queue_capacity = qc\<rparr>"
  obtain tick wd where t: "watchdog_tick ?sg (ar_cadence a) (ar_watchdog a) = (tick, wd)" by fastforce
  then have tt: "tr_tier tick = wd_tier wd"
    using watchdog_tick_result [of ?sg "ar_cadence a" "ar_watchdog a"] by simp
  let ?e = "(ar_sync_engine a)\<lparr>pid := couple_pid (tr_tier tick) (pid (ar_sync_engine a))\<rparr>"
  have e: "kalman_ok (kalman ?e)" "pid_ok (pid ?e)" "integral_frozen (pid ?e) \<longleftrightarrow> tr_tier tick \<noteq> Green"
    "\<bar>last_offset_mhz ?e\<bar> \<le> MAX_RESAMPLE_OFFSET_MHZ"
    using assms(2) by (simp_all add: runtime_inv_def couple_pid_simps)
  show ?thesis
  proof (cases wm)
    case None
    then show ?thesis
      using assms(1) t tt e by (auto simp: runtime_tick_def Let_def runtime_inv_def)
  next
    case (Some obs)
    obtain sd e' where s: "sync_observe obs (real (ar_cadence a) / 1000) ?e = (sd, e')" by fastforce
    note k = sync_observe_keeps [OF s e(1,2)]
    show ?thesis
      using assms(1) t tt e(3) s k Some by (auto simp: runtime_tick_def Let_def runtime_inv_def)
  qed
qed

definition runtime_step ::
  "real option \<times> u32 \<times> u32 \<times> u32 \<times> watermark_observation option \<Rightarrow> adaptive_runtime \<Rightarrow> adaptive_runtime" where
  "runtime_step x a = (case x of (cpu, qd, qc, dr, wm) \<Rightarrow> snd (runtime_tick cpu qd qc dr wm a))"

interpretation runtime: total_machine runtime_step runtime_inv
proof (unfold_locales)
  fix a :: adaptive_runtime and x :: "real option \<times> u32 \<times> u32 \<times> u32 \<times> watermark_observation option"
  assume a: "runtime_inv a"
  obtain cpu qd qc dr wm where x: "x = (cpu, qd, qc, dr, wm)" by (cases x)
  obtain d b where "runtime_tick cpu qd qc dr wm a = (d, b)" by fastforce
  with runtime_tick_keeps [OF this a] show "runtime_inv (runtime_step x a)"
    by (simp add: runtime_step_def x)
qed

lemma runtime_new_inv: "runtime_inv (runtime_new cfg h t b c)"
  by (simp add: runtime_inv_def runtime_new_def sync_engine_new_def kalman_new_ok pid_ok_def
      pid_new_def watchdog_new_def sync_consts)

section \<open>Properties\<close>

text \<open>
  C33: the coupling of watchdog and sync engine. After any sequence of ticks the last observed tier
  is the watchdog's, the PID's integrator is frozen exactly outside Green, the integral is within
  its clamp, and the offset the transport reads never exceeds 20 mHz in magnitude.
\<close>
theorem runtime_coupling:
  "let a = run_all runtime_step xs (runtime_new cfg horizon target initial cadence) in
     ar_last_observed_tier a = wd_tier (ar_watchdog a)
     \<and> (integral_frozen (pid (ar_sync_engine a)) \<longleftrightarrow> wd_tier (ar_watchdog a) \<noteq> Green)
     \<and> \<bar>pid_integral (pid (ar_sync_engine a))\<bar> \<le> 50
     \<and> \<bar>last_offset_mhz (ar_sync_engine a)\<bar> \<le> 20"
proof -
  let ?a = "run_all runtime_step xs (runtime_new cfg horizon target initial cadence)"
  have "runtime_inv ?a" by (rule runtime.run_all_inv [OF runtime_new_inv])
  then show ?thesis by (simp add: Let_def runtime_inv_def pid_ok_def sync_consts)
qed

text \<open>
  Degrading the tier never raises the encoder's cost, except in ultra-low latency: for every
  other mode bitrate and complexity are the same or lower in a worse tier, and VBR is never
  switched on; in \<open>UltraLowLatency\<close> Red asks for 64 kbit/s and complexity 1 where Green has
  48 kbit/s and complexity 0. Only Red forces the PCM16 fallback.
\<close>
theorem tier_profile_degrades:
  assumes "t \<le> u"
  shows "(mode \<noteq> UltraLowLatency \<longrightarrow>
      tp_bitrate_bps (tier_profile u mode) \<le> tp_bitrate_bps (tier_profile t mode)
      \<and> tp_complexity (tier_profile u mode) \<le> tp_complexity (tier_profile t mode))
    \<and> (tp_use_vbr (tier_profile u mode) \<longrightarrow> tp_use_vbr (tier_profile t mode))
    \<and> (tp_force_pcm16_fallback (tier_profile t mode) \<longleftrightarrow> t = Red)
    \<and> tp_bitrate_bps (tier_profile Red UltraLowLatency) > tp_bitrate_bps (tier_profile Green UltraLowLatency)
    \<and> tp_complexity (tier_profile Red UltraLowLatency) > tp_complexity (tier_profile Green UltraLowLatency)"
  using assms by (cases t; cases u; cases mode) (auto simp: less_eq_degradation_tier_def)

theorem tier_profile_degrades_witness:
  "tp_bitrate_bps (tier_profile Red HighQuality) \<le> tp_bitrate_bps (tier_profile Yellow HighQuality)"
  using tier_profile_degrades [of Yellow Red HighQuality] by (simp add: less_eq_degradation_tier_def)

end
