(* ===== verification/Frame_Encoder.thy ===== *)
theory Frame_Encoder
  imports Wire_Format Server_Config Service_Metrics Audio_Capture Adaptive_Runtime
begin

text \<open>
  The per-client audio encoder of \<open>crates/lan_audio_server/src/transport.rs\<close>: PCM16 and PCM24
  payloads, the stereo fold and the fallback resampler, the buffer that pairs 10 ms blocks into the
  20 ms frames Opus wants, and \<open>AudioFrameEncoder\<close> itself. libopus and the rubato resampler are
  parameters: records of the calls the code makes, over a state type of their own. Samples are real
  numbers in place of \<open>f32\<close> and \<open>f64\<close>.
\<close>

section \<open>Constants and conversions\<close>

definition DEFAULT_OUTPUT_SAMPLE_RATE :: u32 where "DEFAULT_OUTPUT_SAMPLE_RATE = 48000"
definition FIXED_OUTPUT_CHANNELS :: nat where "FIXED_OUTPUT_CHANNELS = 2"
definition MAX_PCM24_OUTPUT_SAMPLE_RATE :: u32 where "MAX_PCM24_OUTPUT_SAMPLE_RATE = 96000"

definition normalize_encoder_sample_rate :: "u32 \<Rightarrow> u32" where
  "normalize_encoder_sample_rate sample_rate =
     (if sample_rate \<in> {8000, 12000, 16000, 24000, 48000} then sample_rate
      else DEFAULT_OUTPUT_SAMPLE_RATE)"

definition pcm24_target_sample_rate :: "u32 \<Rightarrow> u32" where
  "pcm24_target_sample_rate input_rate =
     (if input_rate > MAX_PCM24_OUTPUT_SAMPLE_RATE then MAX_PCM24_OUTPUT_SAMPLE_RATE else input_rate)"

text \<open>\<open>(s.clamp(-1.0, 1.0) * scale) as i16\<close> (or \<open>as i32\<close>): the cast truncates towards zero.\<close>

definition trunc_to_int :: "real \<Rightarrow> int" where
  "trunc_to_int x = (if x < 0 then \<lceil>x\<rceil> else \<lfloor>x\<rfloor>)"

definition quantize :: "int \<Rightarrow> real \<Rightarrow> int" where
  "quantize scale s = trunc_to_int (clamp s (- 1) 1 * of_int scale)"

definition samples_to_i16 :: "real list \<Rightarrow> 16 word list" where
  "samples_to_i16 samples = map (\<lambda>s. word_of_int (quantize 32767 s)) samples"

record encoded_frame =
  ef_pts_ms :: u64
  ef_sample_rate :: u32
  ef_channels :: u8
  ef_frames_per_packet :: u16
  ef_codec :: udp_audio_codec_v2
  ef_is_silence :: bool
  ef_source_peak :: real
  ef_source_rms :: real
  ef_payload :: "u8 list"

definition encode_pcm16_from_samples :: "audio_frame \<Rightarrow> real list \<Rightarrow> u32 \<Rightarrow> encoded_frame" where
  "encode_pcm16_from_samples frame samples output_sample_rate =
     \<lparr>ef_pts_ms = fr_pts_ms frame, ef_sample_rate = output_sample_rate, ef_channels = 2,
      ef_frames_per_packet = ucast (max (output_sample_rate div 100) 1),
      ef_codec = Udp_Pcm16, ef_is_silence = fr_is_silence frame,
      ef_source_peak = fr_peak frame, ef_source_rms = fr_rms frame,
      ef_payload = concat (map (le_bytes 2) (samples_to_i16 samples))\<rparr>"

section \<open>Stereo blocks\<close>

definition in_channels_of :: "audio_frame \<Rightarrow> nat" where
  "in_channels_of frame = unat (max (af_channels (fr_format frame)) 1)"

definition in_frames_of :: "audio_frame \<Rightarrow> nat" where
  "in_frames_of frame = length (fr_samples frame) div in_channels_of frame"

definition get_or :: "real list \<Rightarrow> nat \<Rightarrow> real \<Rightarrow> real" where
  "get_or xs i d = (if i < length xs then xs ! i else d)"

text \<open>The left and right sample of one input frame: mono is doubled, extra channels are ignored.\<close>

definition stereo_at :: "nat \<Rightarrow> real list \<Rightarrow> nat \<Rightarrow> real \<times> real" where
  "stereo_at channels samples f =
     (let base = f * channels;
          l = get_or samples base 0;
          r = (if channels > 1 then get_or samples (base + 1) l else l)
      in (l, r))"

definition interleave :: "(real \<times> real) list \<Rightarrow> real list" where
  "interleave lrs = concat (map (\<lambda>(l, r). [l, r]) lrs)"

definition out_frames_10ms :: "u32 \<Rightarrow> nat" where
  "out_frames_10ms out_rate = max (unat out_rate div 100) 1"

definition same_rate_stereo_fold :: "audio_frame \<Rightarrow> nat \<Rightarrow> real list" where
  "same_rate_stereo_fold frame out_frames =
     interleave (map (\<lambda>o'. stereo_at (in_channels_of frame) (fr_samples frame)
                       (min o' (in_frames_of frame - 1))) [0 ..< out_frames])"

definition to_fixed_stereo_10ms_nearest :: "audio_frame \<Rightarrow> u32 \<Rightarrow> real list" where
  "to_fixed_stereo_10ms_nearest frame out_rate =
     (let out_frames = out_frames_10ms out_rate;
          in_rate = max (sample_rate_hz (fr_format frame)) 1
      in if in_frames_of frame = 0 then replicate (out_frames * FIXED_OUTPUT_CHANNELS) 0
         else interleave (map (\<lambda>o'. stereo_at (in_channels_of frame) (fr_samples frame)
                (min ((o' * unat in_rate) div unat out_rate) (in_frames_of frame - 1)))
              [0 ..< out_frames]))"

section \<open>The resampler\<close>

text \<open>
  \<open>rs_new\<close> is \<open>SincFixedIn::new\<close> with the parameters of the code (\<open>None\<close> for its error),
  \<open>rs_process\<close> is \<open>process\<close> on the two planar channels.
\<close>

record 'r resampler_api =
  rs_new :: "u32 \<Rightarrow> u32 \<Rightarrow> nat \<Rightarrow> 'r option"
  rs_process :: "real list \<Rightarrow> real list \<Rightarrow> 'r \<Rightarrow> (string + real list \<times> real list) \<times> 'r"

record 'r persistent_resampler =
  pr_inner :: 'r
  pr_in_rate :: u32
  pr_out_rate :: u32
  pr_in_frames :: nat

definition persistent_new ::
  "'r resampler_api \<Rightarrow> u32 \<Rightarrow> u32 \<Rightarrow> nat \<Rightarrow> 'r persistent_resampler option" where
  "persistent_new rs in_rate out_rate in_frames =
     map_option (\<lambda>i. \<lparr>pr_inner = i, pr_in_rate = in_rate, pr_out_rate = out_rate,
       pr_in_frames = in_frames\<rparr>) (rs_new rs in_rate out_rate in_frames)"

definition resampler_matches :: "u32 \<Rightarrow> u32 \<Rightarrow> nat \<Rightarrow> 'r persistent_resampler \<Rightarrow> bool" where
  "resampler_matches in_rate out_rate in_frames p \<longleftrightarrow>
     pr_in_rate p = in_rate \<and> pr_out_rate p = out_rate \<and> pr_in_frames p = in_frames"

definition planar_input :: "audio_frame \<Rightarrow> (real \<times> real) list" where
  "planar_input frame =
     map (stereo_at (in_channels_of frame) (fr_samples frame)) [0 ..< in_frames_of frame]"

text \<open>Cut or pad the resampler's output to the fixed number of frames, repeating the last one.\<close>

definition last_or :: "real list \<Rightarrow> real \<Rightarrow> real" where
  "last_or xs d = (if xs = [] then d else last xs)"

definition fit_frames :: "nat \<Rightarrow> real list \<Rightarrow> real list \<Rightarrow> real list" where
  "fit_frames out_frames ls rs =
     (let avail = min (length ls) (length rs) in
      interleave (map (\<lambda>f. if avail \<le> f then (last_or ls 0, last_or rs (last_or ls 0))
                           else (ls ! f, rs ! f)) [0 ..< out_frames]))"

section \<open>PCM24\<close>

text \<open>
  \<open>resample_stereo_for_pcm24\<close>: on failure of the resampler the input samples are returned as they
  are, with their own channels and rate.
\<close>

definition resample_stereo_for_pcm24 ::
  "'r resampler_api \<Rightarrow> audio_frame \<Rightarrow> u32 \<Rightarrow> u32 \<Rightarrow> real list" where
  "resample_stereo_for_pcm24 rs frame in_rate out_rate =
     (if in_frames_of frame = 0 \<or> in_rate = out_rate then fr_samples frame
      else case rs_new rs in_rate out_rate (in_frames_of frame) of
             None \<Rightarrow> fr_samples frame
           | Some r \<Rightarrow>
               (case fst (rs_process rs (map fst (planar_input frame)) (map snd (planar_input frame)) r) of
                  Inl _ \<Rightarrow> fr_samples frame
                | Inr (ls, rr) \<Rightarrow>
                    interleave (map (\<lambda>f. (ls ! f, get_or rr f (ls ! f))) [0 ..< length ls])))"

definition PCM24_SCALE :: int where "PCM24_SCALE = 8388607"

text \<open>Three bytes of the 32-bit integer, high to low, without its most significant byte.\<close>

definition be24 :: "32 word \<Rightarrow> u8 list" where
  "be24 v = [ucast (signed_drop_bit 16 v AND 255), ucast (signed_drop_bit 8 v AND 255),
             ucast (v AND 255)]"

definition encode_pcm24_from_native :: "'r resampler_api \<Rightarrow> audio_frame \<Rightarrow> encoded_frame" where
  "encode_pcm24_from_native rs frame =
     (let in_rate = max (sample_rate_hz (fr_format frame)) 1;
          target_rate = pcm24_target_sample_rate in_rate;
          (samples, working_channels) =
            (if target_rate \<noteq> in_rate
             then (resample_stereo_for_pcm24 rs frame in_rate target_rate, 2)
             else (fr_samples frame, in_channels_of frame));
          in_frames = length samples div working_channels;
          payload = concat (map (\<lambda>f. let (l, r) = stereo_at working_channels samples f in
              be24 (word_of_int (quantize PCM24_SCALE l)) @ be24 (word_of_int (quantize PCM24_SCALE r)))
            [0 ..< in_frames])
      in \<lparr>ef_pts_ms = fr_pts_ms frame, ef_sample_rate = target_rate, ef_channels = 2,
          ef_frames_per_packet = of_nat in_frames, ef_codec = Udp_Pcm24,
          ef_is_silence = fr_is_silence frame, ef_source_peak = fr_peak frame,
          ef_source_rms = fr_rms frame, ef_payload = payload\<rparr>)"

section \<open>The Opus frame buffer\<close>

record opus_input_frame =
  oi_pts_ms :: u64
  oi_samples :: "real list"
  oi_is_silence :: bool
  oi_source_peak :: real
  oi_source_rms :: real

record opus_frame_buffer =
  fb_samples_per_20ms_total :: nat
  fb_samples :: "real list"
  fb_pending_pts_ms :: "u64 option"
  fb_pending_is_silence :: bool
  fb_pending_peak :: real
  fb_pending_rms_sum_sq :: real
  fb_pending_rms_frames :: u32

definition frame_buffer_new :: "u32 \<Rightarrow> opus_frame_buffer" where
  "frame_buffer_new sample_rate =
     \<lparr>fb_samples_per_20ms_total = max (unat sample_rate div 50) 1 * FIXED_OUTPUT_CHANNELS,
      fb_samples = [], fb_pending_pts_ms = None, fb_pending_is_silence = True,
      fb_pending_peak = 0, fb_pending_rms_sum_sq = 0, fb_pending_rms_frames = 0\<rparr>"

definition push_10ms ::
  "u64 \<Rightarrow> real list \<Rightarrow> bool \<Rightarrow> real \<Rightarrow> real \<Rightarrow> opus_frame_buffer \<Rightarrow> opus_frame_buffer" where
  "push_10ms pts_ms samples is_silence source_peak source_rms b =
     (let b = (case fb_pending_pts_ms b of
            None \<Rightarrow> b\<lparr>fb_pending_pts_ms := Some pts_ms, fb_pending_is_silence := is_silence,
                      fb_pending_peak := source_peak,
                      fb_pending_rms_sum_sq := source_rms * source_rms,
                      fb_pending_rms_frames := 1\<rparr>
          | Some _ \<Rightarrow> b\<lparr>fb_pending_is_silence := fb_pending_is_silence b \<and> is_silence,
                      fb_pending_peak := max (fb_pending_peak b) source_peak,
                      fb_pending_rms_sum_sq := fb_pending_rms_sum_sq b + source_rms * source_rms,
                      fb_pending_rms_frames := fb_pending_rms_frames b + 1\<rparr>)
      in b\<lparr>fb_samples := fb_samples b @ samples\<rparr>)"

definition pop_20ms :: "opus_frame_buffer \<Rightarrow> opus_input_frame option \<times> opus_frame_buffer" where
  "pop_20ms b =
     (if length (fb_samples b) < fb_samples_per_20ms_total b then (None, b)
      else case fb_pending_pts_ms b of None \<Rightarrow> (None, b)
      | Some pts_ms \<Rightarrow>
          let n = fb_samples_per_20ms_total b;
              source_rms = (if fb_pending_rms_frames b = 0 then 0
                else sqrt (fb_pending_rms_sum_sq b / real (unat (fb_pending_rms_frames b))));
              rest = drop n (fb_samples b)
          in (Some \<lparr>oi_pts_ms = pts_ms, oi_samples = take n (fb_samples b),
                   oi_is_silence = fb_pending_is_silence b,
                   oi_source_peak = fb_pending_peak b, oi_source_rms = source_rms\<rparr>,
              b\<lparr>fb_samples := rest, fb_pending_is_silence := True, fb_pending_peak := 0,
                fb_pending_rms_sum_sq := 0, fb_pending_rms_frames := 0,
                fb_pending_pts_ms := (if rest = [] then None else Some (sat_add pts_ms 10))\<rparr>))"

section \<open>The Opus encoder\<close>

datatype opus_application = Opus_LowDelay | Opus_Audio

datatype opus_setting =
    Set_Application opus_application | Set_Bitrate int | Set_Complexity int | Set_Vbr bool
  | Set_Inband_Fec bool | Set_Packet_Loss_Perc int | Set_Dtx bool

text \<open>
  libopus as the code calls it; the result of a setter is only logged, \<open>oa_encode\<close> gets the PCM
  samples and the room for the payload and returns the bytes written.
\<close>

record 'o opus_api =
  oa_new :: "u32 \<Rightarrow> opus_application \<Rightarrow> string + 'o"
  oa_set :: "opus_setting \<Rightarrow> 'o \<Rightarrow> (string + unit) \<times> 'o"
  oa_encode :: "16 word list \<Rightarrow> nat \<Rightarrow> 'o \<Rightarrow> (string + u8 list) \<times> 'o"

record 'o experimental_opus_encoder =
  oe_inner :: 'o
  oe_mode :: audio_mode
  oe_sample_rate :: u32

fun opus_application_for :: "audio_mode \<Rightarrow> opus_application" where
  "opus_application_for UltraLowLatency = Opus_LowDelay"
| "opus_application_for LowLatency = Opus_LowDelay"
| "opus_application_for Balanced = Opus_Audio"
| "opus_application_for HighQuality = Opus_Audio"

definition apply_settings :: "'o opus_api \<Rightarrow> opus_setting list \<Rightarrow> 'o \<Rightarrow> 'o" where
  "apply_settings oa settings i = fold (\<lambda>st i. snd (oa_set oa st i)) settings i"

definition opus_mode_settings :: "audio_mode \<Rightarrow> opus_setting list" where
  "opus_mode_settings mode =
     (let (bitrate_bps, complexity, use_vbr) = (case mode of
            UltraLowLatency \<Rightarrow> (48000, 0, False) | LowLatency \<Rightarrow> (64000, 1, False)
          | Balanced \<Rightarrow> (96000, 2, True) | HighQuality \<Rightarrow> (128000, 4, True))
      in [Set_Application (opus_application_for mode), Set_Bitrate bitrate_bps,
          Set_Complexity complexity, Set_Vbr use_vbr, Set_Inband_Fec False,
          Set_Packet_Loss_Perc 0, Set_Dtx False])"

definition opus_encoder_new ::
  "'o opus_api \<Rightarrow> audio_mode \<Rightarrow> u32 \<Rightarrow> string + 'o experimental_opus_encoder" where
  "opus_encoder_new oa mode sample_rate =
     (let sample_rate = normalize_encoder_sample_rate sample_rate in
      case oa_new oa sample_rate (opus_application_for mode) of
        Inl e \<Rightarrow> Inl e
      | Inr i \<Rightarrow> Inr \<lparr>oe_inner = apply_settings oa (opus_mode_settings mode) i, oe_mode = mode,
                     oe_sample_rate = sample_rate\<rparr>)"

definition opus_apply_profile ::
  "'o opus_api \<Rightarrow> tier_encoder_profile \<Rightarrow> audio_mode \<Rightarrow> 'o experimental_opus_encoder
   \<Rightarrow> 'o experimental_opus_encoder" where
  "opus_apply_profile oa profile mode e =
     e\<lparr>oe_inner := apply_settings oa
         (opus_mode_settings mode @ [Set_Bitrate (tp_bitrate_bps profile),
            Set_Complexity (tp_complexity profile), Set_Vbr (tp_use_vbr profile)]) (oe_inner e),
       oe_mode := mode\<rparr>"

definition opus_encode ::
  "'o opus_api \<Rightarrow> opus_input_frame \<Rightarrow> audio_mode \<Rightarrow> 'o experimental_opus_encoder
   \<Rightarrow> (string + encoded_frame) \<times> 'o experimental_opus_encoder" where
  "opus_encode oa frame mode e =
     (let e = (if oe_mode e \<noteq> mode
               then e\<lparr>oe_inner := apply_settings oa (opus_mode_settings mode) (oe_inner e),
                      oe_mode := mode\<rparr> else e)
      in case oa_encode oa (samples_to_i16 (oi_samples frame)) 4000 (oe_inner e) of
           (Inl err, i) \<Rightarrow> (Inl (''opus encode: '' @ err), e\<lparr>oe_inner := i\<rparr>)
         | (Inr payload, i) \<Rightarrow>
             (Inr \<lparr>ef_pts_ms = oi_pts_ms frame, ef_sample_rate = oe_sample_rate e, ef_channels = 2,
                ef_frames_per_packet = ucast (max (oe_sample_rate e div 50) 1),
                ef_codec = Udp_Opus, ef_is_silence = oi_is_silence frame,
                ef_source_peak = oi_source_peak frame, ef_source_rms = oi_source_rms frame,
                ef_payload = payload\<rparr>, e\<lparr>oe_inner := i\<rparr>))"

section \<open>AudioFrameEncoder\<close>

record ('o, 'r) audio_frame_encoder =
  fe_codec :: codec_selection
  fe_output_sample_rate :: u32
  fe_opus :: "'o experimental_opus_encoder option"
  fe_opus_frame_buffer :: "opus_frame_buffer option"
  fe_force_pcm16_fallback :: bool
  fe_persistent_resampler :: "'r persistent_resampler option"

definition frame_encoder_new ::
  "'o opus_api \<Rightarrow> codec_selection \<Rightarrow> audio_mode \<Rightarrow> u32 \<Rightarrow> ('o, 'r) audio_frame_encoder" where
  "frame_encoder_new oa codec initial_mode output_sample_rate =
     (let output_sample_rate = normalize_encoder_sample_rate output_sample_rate in
      \<lparr>fe_codec = codec, fe_output_sample_rate = output_sample_rate,
       fe_opus = (if codec = Sel_Opus
         then (case opus_encoder_new oa initial_mode output_sample_rate of
                 Inl _ \<Rightarrow> None | Inr e \<Rightarrow> Some e) else None),
       fe_opus_frame_buffer =
         (if codec = Sel_Opus then Some (frame_buffer_new output_sample_rate) else None),
       fe_force_pcm16_fallback = False, fe_persistent_resampler = None\<rparr>)"

definition apply_tier_profile ::
  "'o opus_api \<Rightarrow> tier_encoder_profile \<Rightarrow> audio_mode \<Rightarrow> ('o, 'r) audio_frame_encoder
   \<Rightarrow> ('o, 'r) audio_frame_encoder" where
  "apply_tier_profile oa profile mode e =
     e\<lparr>fe_force_pcm16_fallback := tp_force_pcm16_fallback profile,
       fe_opus := map_option (opus_apply_profile oa profile mode) (fe_opus e)\<rparr>"

text \<open>Resampling to a 10 ms stereo block with the encoder's own resampler.\<close>

definition resample_with ::
  "'r resampler_api \<Rightarrow> audio_frame \<Rightarrow> u32 \<Rightarrow> 'r persistent_resampler
   \<Rightarrow> real list \<times> 'r persistent_resampler option" where
  "resample_with rs frame out_rate p =
     (case rs_process rs (map fst (planar_input frame)) (map snd (planar_input frame)) (pr_inner p) of
        (Inl _, _) \<Rightarrow> (to_fixed_stereo_10ms_nearest frame out_rate, None)
      | (Inr (ls, rr), i) \<Rightarrow> (fit_frames (out_frames_10ms out_rate) ls rr, Some (p\<lparr>pr_inner := i\<rparr>)))"

definition resample_to_stereo_10ms ::
  "'r resampler_api \<Rightarrow> audio_frame \<Rightarrow> ('o, 'r) audio_frame_encoder
   \<Rightarrow> real list \<times> ('o, 'r) audio_frame_encoder" where
  "resample_to_stereo_10ms rs frame e =
     (let out_rate = normalize_encoder_sample_rate (fe_output_sample_rate e);
          in_rate = max (sample_rate_hz (fr_format frame)) 1;
          in_frames = in_frames_of frame;
          out_frames = out_frames_10ms out_rate
      in if in_frames = 0 then (replicate (out_frames * FIXED_OUTPUT_CHANNELS) 0, e)
         else if in_rate = out_rate
         then (same_rate_stereo_fold frame out_frames, e\<lparr>fe_persistent_resampler := None\<rparr>)
         else
           let current = (case fe_persistent_resampler e of
                 Some p \<Rightarrow> if resampler_matches in_rate out_rate in_frames p then Some p
                           else persistent_new rs in_rate out_rate in_frames
               | None \<Rightarrow> persistent_new rs in_rate out_rate in_frames)
           in case current of
                None \<Rightarrow> (to_fixed_stereo_10ms_nearest frame out_rate, e)
              | Some p \<Rightarrow> let (out, p') = resample_with rs frame out_rate p
                          in (out, e\<lparr>fe_persistent_resampler := p'\<rparr>))"

text \<open>
  \<open>while let Some(..) = buffer.pop_20ms()\<close>; the fuel bounds the number of frames a buffer can
  hold, \<open>drain_opus_fuel\<close> shows that more of it changes nothing on a buffer of the constructor.
\<close>

fun drain_opus ::
  "nat \<Rightarrow> 'o opus_api \<Rightarrow> audio_mode \<Rightarrow> encoded_frame list \<Rightarrow> 'o experimental_opus_encoder
   \<Rightarrow> opus_frame_buffer
   \<Rightarrow> (string + encoded_frame list) \<times> 'o experimental_opus_encoder \<times> opus_frame_buffer" where
  "drain_opus 0 oa mode acc oe b = (Inr acc, oe, b)"
| "drain_opus (Suc n) oa mode acc oe b =
     (case pop_20ms b of
        (None, b') \<Rightarrow> (Inr acc, oe, b')
      | (Some opus_input, b') \<Rightarrow>
          (case opus_encode oa opus_input mode oe of
             (Inr encoded, oe') \<Rightarrow> drain_opus n oa mode (acc @ [encoded]) oe' b'
           | (Inl err, oe') \<Rightarrow> (Inl err, oe', b')))"

definition encode_frame ::
  "'o opus_api \<Rightarrow> 'r resampler_api \<Rightarrow> audio_frame \<Rightarrow> audio_mode \<Rightarrow> ('o, 'r) audio_frame_encoder
   \<Rightarrow> encoded_frame list \<times> ('o, 'r) audio_frame_encoder" where
  "encode_frame oa rs frame mode e =
     (if fe_codec e = Sel_Pcm24 \<and> \<not> fe_force_pcm16_fallback e
      then ([encode_pcm24_from_native rs frame], e)
      else
        let (samples, e) = resample_to_stereo_10ms rs frame e;
            pcm16 = [encode_pcm16_from_samples frame samples (fe_output_sample_rate e)]
        in if fe_codec e = Sel_Opus \<and> \<not> fe_force_pcm16_fallback e then
             (case (fe_opus e, fe_opus_frame_buffer e) of
                (Some oe, Some b) \<Rightarrow>
                  let b = push_10ms (fr_pts_ms frame) samples (fr_is_silence frame)
                            (fr_peak frame) (fr_rms frame) b;
                      (r, oe, b) = drain_opus (Suc (length (fb_samples b))) oa mode [] oe b;
                      e = e\<lparr>fe_opus := Some oe, fe_opus_frame_buffer := Some b\<rparr>
                  in (case r of Inl _ \<Rightarrow> (pcm16, e) | Inr frames \<Rightarrow> (frames, e))
              | _ \<Rightarrow> (pcm16, e))
           else (pcm16, e))"

section \<open>Packet flags\<close>

definition legacy_flags_for_frame :: "encoded_frame \<Rightarrow> u8" where
  "legacy_flags_for_frame frame =
     (let flags = (if ef_is_silence frame then 0 OR UDP_FLAG_V2_SILENCE else 0)
      in ucast (flags AND 255))"

definition v2_flags_for_frame :: "udp_audio_packet \<Rightarrow> bool \<Rightarrow> bool \<Rightarrow> u16" where
  "v2_flags_for_frame packet mode_changed first_packet =
     (let flags = (if p_flags packet AND 1 \<noteq> 0 then UDP_FLAG_V2_SILENCE else 0)
      in if mode_changed
         then flags OR (UDP_FLAG_V2_CONFIG_CHANGED OR UDP_FLAG_V2_DISCONTINUITY)
         else if first_packet then flags OR UDP_FLAG_V2_DISCONTINUITY
         else flags)"

section \<open>Lemmas on conversions and blocks\<close>

lemma quantize_bounds: "0 \<le> scale \<Longrightarrow> - scale \<le> quantize scale s \<and> quantize scale s \<le> scale"
proof -
  assume sc: "0 \<le> scale"
  let ?c = "clamp s (- 1) 1"
  have c: "- 1 \<le> ?c" "?c \<le> 1" by (auto simp: clamp_def)
  then have b: "of_int (- scale) \<le> ?c * of_int scale" "?c * of_int scale \<le> of_int scale"
    using mult_right_mono [OF c(1), of "of_int scale"] mult_right_mono [OF c(2), of "of_int scale"] sc
    by simp_all
  then show ?thesis
    unfolding quantize_def trunc_to_int_def
    by (auto simp: le_floor_iff floor_le_iff ceiling_le_iff le_ceiling_iff; linarith)
qed

lemma trunc_error: "\<bar>of_int (trunc_to_int x) - x\<bar> < 1"
  unfolding trunc_to_int_def by (auto; linarith)

lemma quantize_error:
  assumes "0 < scale"
  shows "\<bar>of_int (quantize scale s) / of_int scale - clamp s (- 1) 1\<bar> < 1 / of_int scale"
proof -
  let ?x = "clamp s (- 1) 1 * of_int scale"
  have "\<bar>of_int (trunc_to_int ?x) - ?x\<bar> < 1" by (rule trunc_error)
  then have "\<bar>(of_int (trunc_to_int ?x) - ?x) / of_int scale\<bar> < 1 / of_int scale"
    using assms by (simp add: abs_divide divide_strict_right_mono)
  then show ?thesis using assms by (simp add: quantize_def diff_divide_distrib)
qed

lemma length_interleave [simp]: "length (interleave xs) = 2 * length xs"
  by (induction xs) (auto simp: interleave_def)

lemma length_fit_frames [simp]: "length (fit_frames n ls rr) = 2 * n"
  by (simp add: fit_frames_def Let_def)

lemma length_nearest [simp]:
  "length (to_fixed_stereo_10ms_nearest frame r) = 2 * out_frames_10ms r"
  by (simp add: to_fixed_stereo_10ms_nearest_def Let_def FIXED_OUTPUT_CHANNELS_def)

lemma length_fold [simp]: "length (same_rate_stereo_fold frame n) = 2 * n"
  by (simp add: same_rate_stereo_fold_def)

text \<open>Whatever the resampler does, a block has the fixed size.\<close>

lemma resample_length:
  "length (fst (resample_to_stereo_10ms rs frame e))
    = 2 * out_frames_10ms (normalize_encoder_sample_rate (fe_output_sample_rate e))"
  by (simp add: resample_to_stereo_10ms_def Let_def resample_with_def FIXED_OUTPUT_CHANNELS_def
      split: option.splits sum.splits prod.splits)

lemma resample_keeps:
  "resample_to_stereo_10ms rs frame e = (xs, e') \<Longrightarrow>
    fe_codec e' = fe_codec e \<and> fe_output_sample_rate e' = fe_output_sample_rate e
    \<and> fe_opus e' = fe_opus e \<and> fe_opus_frame_buffer e' = fe_opus_frame_buffer e
    \<and> fe_force_pcm16_fallback e' = fe_force_pcm16_fallback e"
  by (auto simp: resample_to_stereo_10ms_def Let_def split: if_splits option.splits prod.splits)

section \<open>Lemmas on the Opus buffer\<close>

text \<open>The fuel of \<open>drain_opus\<close> suffices: afterwards the buffer holds less than one frame.\<close>

lemma pop_20ms_shrinks:
  "pop_20ms b = (Some inp, b') \<Longrightarrow> 0 < fb_samples_per_20ms_total b \<Longrightarrow>
    length (fb_samples b') < length (fb_samples b)
    \<and> fb_samples_per_20ms_total b' = fb_samples_per_20ms_total b"
  by (auto simp: pop_20ms_def Let_def split: if_splits option.splits)

text \<open>
  A buffer of the constructor, and the invariant of its use: samples that wait have a time stamp.
\<close>

definition buffer_labelled :: "opus_frame_buffer \<Rightarrow> bool" where
  "buffer_labelled b \<longleftrightarrow> 0 < fb_samples_per_20ms_total b
     \<and> (fb_samples b \<noteq> [] \<longrightarrow> fb_pending_pts_ms b \<noteq> None)"

lemma buffer_labelled_new: "buffer_labelled (frame_buffer_new rate)"
  by (simp add: buffer_labelled_def frame_buffer_new_def FIXED_OUTPUT_CHANNELS_def)

lemma buffer_labelled_push: "buffer_labelled b \<Longrightarrow> buffer_labelled (push_10ms pts xs si pk rms b)"
  by (auto simp: buffer_labelled_def push_10ms_def Let_def split: option.split)

lemma pop_20ms_None:
  "pop_20ms b = (None, c) \<Longrightarrow> buffer_labelled b \<Longrightarrow>
    c = b \<and> length (fb_samples b) < fb_samples_per_20ms_total b"
  by (auto simp: pop_20ms_def buffer_labelled_def Let_def split: if_splits option.splits)

lemma pop_20ms_Some:
  assumes "pop_20ms b = (Some inp, c)" and "buffer_labelled b"
  shows "buffer_labelled c"
    and "fb_samples c = drop (fb_samples_per_20ms_total b) (fb_samples b)"
    and "fb_samples_per_20ms_total c = fb_samples_per_20ms_total b"
    and "fb_samples_per_20ms_total b \<le> length (fb_samples b)"
  using assms by (auto simp: pop_20ms_def buffer_labelled_def Let_def split: if_splits option.splits)

lemma take_prefix_of: "take (Suc (length acc)) out = acc @ [ef] \<Longrightarrow> take (length acc) out = acc"
  by (metis append_eq_conv_conj le_SucI order_refl take_take min.absorb1 append_take_drop_id)

lemma drain_opus_fuel:
  "0 < fb_samples_per_20ms_total b \<Longrightarrow> length (fb_samples b) < n \<Longrightarrow> length (fb_samples b) < m \<Longrightarrow>
    drain_opus n oa mode acc oe b = drain_opus m oa mode acc oe b"
proof (induction n arbitrary: m acc oe b)
  case (Suc n)
  then obtain k where k: "m = Suc k" by (cases m) auto
  obtain x c where p: "pop_20ms b = (x, c)" by fastforce
  show ?case
  proof (cases x)
    case (Some inp)
    note sh = pop_20ms_shrinks [OF p [unfolded Some] Suc.prems(1)]
    have "drain_opus n oa mode acc' oe' c = drain_opus k oa mode acc' oe' c" for acc' oe'
      using Suc.IH [of c k] Suc.prems sh k by simp
    then show ?thesis by (simp add: k p Some split: prod.split sum.split)
  qed (simp add: k p)
qed simp

definition encoder_rates_ok :: "('o, 'r) audio_frame_encoder \<Rightarrow> opus_frame_buffer \<Rightarrow> bool" where
  "encoder_rates_ok e b \<longleftrightarrow> fe_codec e = Sel_Opus \<and> \<not> fe_force_pcm16_fallback e \<and> fe_opus e \<noteq> None
     \<and> fe_opus_frame_buffer e = Some b
     \<and> normalize_encoder_sample_rate (fe_output_sample_rate e) = fe_output_sample_rate e
     \<and> fb_samples_per_20ms_total b = 4 * out_frames_10ms (fe_output_sample_rate e)"

definition opus_ready :: "('o, 'r) audio_frame_encoder \<Rightarrow> bool" where
  "opus_ready e \<longleftrightarrow> (case fe_opus_frame_buffer e of None \<Rightarrow> False | Some b \<Rightarrow>
     encoder_rates_ok e b \<and> fb_samples b = [] \<and> fb_pending_pts_ms b = None)"

definition opus_half :: "audio_frame \<Rightarrow> ('o, 'r) audio_frame_encoder \<Rightarrow> bool" where
  "opus_half f e \<longleftrightarrow> (case fe_opus_frame_buffer e of None \<Rightarrow> False | Some b \<Rightarrow>
     encoder_rates_ok e b \<and> length (fb_samples b) = 2 * out_frames_10ms (fe_output_sample_rate e)
     \<and> fb_pending_pts_ms b = Some (fr_pts_ms f) \<and> fb_pending_is_silence b = fr_is_silence f
     \<and> fb_pending_peak b = fr_peak f \<and> fb_pending_rms_sum_sq b = fr_rms f * fr_rms f
     \<and> fb_pending_rms_frames b = 1)"

lemma out_frames_pos [simp]: "0 < out_frames_10ms r"
  by (simp add: out_frames_10ms_def)

lemma twenty_ms_total:
  "normalize_encoder_sample_rate r = r \<Longrightarrow>
    max (unat r div 50) (Suc 0) * FIXED_OUTPUT_CHANNELS = 4 * out_frames_10ms r"
  by (auto simp: normalize_encoder_sample_rate_def DEFAULT_OUTPUT_SAMPLE_RATE_def
      out_frames_10ms_def FIXED_OUTPUT_CHANNELS_def split: if_splits)

lemma normalize_idem [simp]:
  "normalize_encoder_sample_rate (normalize_encoder_sample_rate r) = normalize_encoder_sample_rate r"
  by (simp add: normalize_encoder_sample_rate_def DEFAULT_OUTPUT_SAMPLE_RATE_def)

lemma frame_encoder_new_ready:
  "opus_encoder_new oa mode (normalize_encoder_sample_rate r) = Inr oe \<Longrightarrow>
    opus_ready (frame_encoder_new oa Sel_Opus mode r)"
  by (simp add: opus_ready_def encoder_rates_ok_def frame_encoder_new_def Let_def
      frame_buffer_new_def twenty_ms_total)

text \<open>The first block of a pair is kept back.\<close>

lemma encode_first_block:
  assumes "opus_ready e"
  shows "\<exists>e'. encode_frame oa rs f mode e = ([], e') \<and> opus_half f e'
    \<and> fe_output_sample_rate e' = fe_output_sample_rate e"
proof -
  obtain b where b: "fe_opus_frame_buffer e = Some b" "encoder_rates_ok e b"
    "fb_samples b = []" "fb_pending_pts_ms b = None"
    using assms by (auto simp: opus_ready_def split: option.splits)
  obtain oe where oe: "fe_opus e = Some oe" using b(2) by (auto simp: encoder_rates_ok_def)
  obtain xs e1 where r: "resample_to_stereo_10ms rs f e = (xs, e1)" by fastforce
  note k = resample_keeps [OF r]
  have len: "length xs = 2 * out_frames_10ms (fe_output_sample_rate e)"
    using resample_length [of rs f e] r b(2) by (simp add: encoder_rates_ok_def)
  have tot: "fb_samples_per_20ms_total b = 4 * out_frames_10ms (fe_output_sample_rate e)"
    using b(2) by (simp add: encoder_rates_ok_def)
  define b1 where "b1 = push_10ms (fr_pts_ms f) xs (fr_is_silence f) (fr_peak f) (fr_rms f) b"
  have b1: "fb_samples b1 = xs" "fb_pending_pts_ms b1 = Some (fr_pts_ms f)"
    "fb_pending_is_silence b1 = fr_is_silence f" "fb_pending_peak b1 = fr_peak f"
    "fb_pending_rms_sum_sq b1 = fr_rms f * fr_rms f" "fb_pending_rms_frames b1 = 1"
    "fb_samples_per_20ms_total b1 = fb_samples_per_20ms_total b"
    using b(3,4) by (simp_all add: b1_def push_10ms_def Let_def)
  have pop: "pop_20ms b1 = (None, b1)"
    by (simp add: pop_20ms_def b1 len tot)
  have d: "drain_opus (Suc n) oa mode [] oe b1 = (Inr [], oe, b1)" for n
    using pop by simp
  let ?e = "e1\<lparr>fe_opus := Some oe, fe_opus_frame_buffer := Some b1\<rparr>"
  have "encode_frame oa rs f mode e = ([], ?e)"
    using b(1,2) k oe d
    by (simp add: encode_frame_def r encoder_rates_ok_def Let_def b1_def [symmetric] del: drain_opus.simps)
  moreover have "opus_half f ?e"
    using b(2) k tot len by (simp add: opus_half_def encoder_rates_ok_def b1)
  ultimately show ?thesis using k by (intro exI [of _ ?e]) simp
qed

text \<open>
  The second block completes the pair: one packet, and the buffer is empty again. If libopus
  fails, the packet is the second block alone, as PCM16.
\<close>

definition paired_packet ::
  "audio_frame \<Rightarrow> audio_frame \<Rightarrow> u32 \<Rightarrow> encoded_frame \<Rightarrow> bool" where
  "paired_packet f g rate p \<longleftrightarrow>
     (if ef_codec p = Udp_Opus
      then ef_pts_ms p = fr_pts_ms f \<and> ef_is_silence p = (fr_is_silence f \<and> fr_is_silence g)
        \<and> ef_source_peak p = max (fr_peak f) (fr_peak g)
        \<and> ef_source_rms p = sqrt ((fr_rms f * fr_rms f + fr_rms g * fr_rms g) / 2)
      else ef_codec p = Udp_Pcm16 \<and> ef_pts_ms p = fr_pts_ms g \<and> ef_is_silence p = fr_is_silence g
        \<and> length (ef_payload p) = 4 * out_frames_10ms rate)"

lemma length_pcm16_payload:
  "length (ef_payload (encode_pcm16_from_samples f xs r)) = 2 * length xs"
  by (simp add: encode_pcm16_from_samples_def samples_to_i16_def length_concat comp_def
      sum_list_triv)

text \<open>The second block of a pair completes the buffer, which is popped and left empty.\<close>

lemma second_block_pop:
  assumes "length (fb_samples b) = 2 * n" and "fb_pending_pts_ms b = Some (fr_pts_ms f)"
    and "fb_pending_is_silence b = fr_is_silence f" and "fb_pending_peak b = fr_peak f"
    and "fb_pending_rms_sum_sq b = fr_rms f * fr_rms f" and "fb_pending_rms_frames b = 1"
    and "fb_samples_per_20ms_total b = 4 * n" and "length xs = 2 * n"
  shows "\<exists>inp b2. pop_20ms (push_10ms (fr_pts_ms g) xs (fr_is_silence g) (fr_peak g) (fr_rms g) b) = (Some inp, b2)
    \<and> pop_20ms b2 = (None, b2) \<and> oi_pts_ms inp = fr_pts_ms f
    \<and> oi_is_silence inp = (fr_is_silence f \<and> fr_is_silence g)
    \<and> oi_source_peak inp = max (fr_peak f) (fr_peak g)
    \<and> oi_source_rms inp = sqrt ((fr_rms f * fr_rms f + fr_rms g * fr_rms g) / 2)
    \<and> fb_samples b2 = [] \<and> fb_pending_pts_ms b2 = None \<and> fb_samples_per_20ms_total b2 = 4 * n"
  using assms by (simp add: push_10ms_def pop_20ms_def Let_def)

lemma encode_second_block:
  assumes "opus_half f e"
  shows "\<exists>p e'. encode_frame oa rs g mode e = ([p], e') \<and> opus_ready e'
    \<and> fe_output_sample_rate e' = fe_output_sample_rate e
    \<and> paired_packet f g (fe_output_sample_rate e) p"
proof -
  let ?n = "out_frames_10ms (fe_output_sample_rate e)"
  obtain b where b: "fe_opus_frame_buffer e = Some b" "encoder_rates_ok e b"
    and h: "length (fb_samples b) = 2 * ?n" "fb_pending_pts_ms b = Some (fr_pts_ms f)"
      "fb_pending_is_silence b = fr_is_silence f" "fb_pending_peak b = fr_peak f"
      "fb_pending_rms_sum_sq b = fr_rms f * fr_rms f" "fb_pending_rms_frames b = 1"
    using assms by (auto simp: opus_half_def split: option.splits)
  obtain oe where oe: "fe_opus e = Some oe" using b(2) by (auto simp: encoder_rates_ok_def)
  obtain xs e1 where r: "resample_to_stereo_10ms rs g e = (xs, e1)" by fastforce
  note k = resample_keeps [OF r]
  have len: "length xs = 2 * ?n"
    using resample_length [of rs g e] r b(2) by (simp add: encoder_rates_ok_def)
  have tot: "fb_samples_per_20ms_total b = 4 * ?n" using b(2) by (simp add: encoder_rates_ok_def)
  define b1 where "b1 = push_10ms (fr_pts_ms g) xs (fr_is_silence g) (fr_peak g) (fr_rms g) b"
  obtain inp b2 where pop: "pop_20ms b1 = (Some inp, b2)" "pop_20ms b2 = (None, b2)"
    and inp: "oi_pts_ms inp = fr_pts_ms f" "oi_is_silence inp = (fr_is_silence f \<and> fr_is_silence g)"
      "oi_source_peak inp = max (fr_peak f) (fr_peak g)"
      "oi_source_rms inp = sqrt ((fr_rms f * fr_rms f + fr_rms g * fr_rms g) / 2)"
    and b2: "fb_samples b2 = []" "fb_pending_pts_ms b2 = None" "fb_samples_per_20ms_total b2 = 4 * ?n"
    using second_block_pop [OF h tot len, of g] unfolding b1_def by blast
  obtain y oe2 where o: "opus_encode oa inp mode oe = (y, oe2)" by fastforce
  have pay: "ef_pts_ms p = oi_pts_ms inp \<and> ef_codec p = Udp_Opus \<and> ef_is_silence p = oi_is_silence inp
    \<and> ef_source_peak p = oi_source_peak inp \<and> ef_source_rms p = oi_source_rms inp" if "y = Inr p" for p
    using o that by (auto simp: opus_encode_def Let_def split: prod.splits sum.splits)
  have "0 < length (fb_samples b1)"
    using len out_frames_pos [of "fe_output_sample_rate e"] by (simp add: b1_def push_10ms_def Let_def)
  then have d: "drain_opus (Suc (length (fb_samples b1))) oa mode [] oe b1
      = (case y of Inr p \<Rightarrow> (Inr [p], oe2, b2) | Inl err \<Rightarrow> (Inl err, oe2, b2))"
    using pop o by (cases "length (fb_samples b1)") (auto split: sum.splits)
  let ?e = "e1\<lparr>fe_opus := Some oe2, fe_opus_frame_buffer := Some b2\<rparr>"
  let ?p = "case y of Inr p \<Rightarrow> p
    | Inl _ \<Rightarrow> encode_pcm16_from_samples g xs (fe_output_sample_rate e)"
  have "encode_frame oa rs g mode e = ([?p], ?e)"
    using b(1,2) k oe d
    by (auto simp: encode_frame_def r encoder_rates_ok_def Let_def b1_def [symmetric]
        simp del: drain_opus.simps split: sum.splits)
  moreover have "opus_ready ?e" using b(2) k b2 by (simp add: opus_ready_def encoder_rates_ok_def)
  moreover have "paired_packet f g (fe_output_sample_rate e) ?p"
    using pay inp len by (cases y) (simp_all add: paired_packet_def encode_pcm16_from_samples_def
        length_pcm16_payload [unfolded encode_pcm16_from_samples_def, simplified])
  ultimately show ?thesis using k by (intro exI [of _ ?p] exI [of _ ?e]) simp
qed

text \<open>The frames of a capture, handed to one encoder in turn, and all packets that come out.\<close>

fun encode_run ::
  "'o opus_api \<Rightarrow> 'r resampler_api \<Rightarrow> audio_mode \<Rightarrow> audio_frame list \<Rightarrow> ('o, 'r) audio_frame_encoder
   \<Rightarrow> encoded_frame list \<times> ('o, 'r) audio_frame_encoder" where
  "encode_run oa rs mode [] e = ([], e)"
| "encode_run oa rs mode (f # fs) e =
     (let (out, e) = encode_frame oa rs f mode e; (outs, e) = encode_run oa rs mode fs e
      in (out @ outs, e))"

lemma encode_run_pair:
  assumes "opus_ready e"
  shows "\<exists>p e'. encode_run oa rs mode (f # g # fs) e
      = (let (outs, e'') = encode_run oa rs mode fs e' in (p # outs, e''))
    \<and> opus_ready e' \<and> fe_output_sample_rate e' = fe_output_sample_rate e
    \<and> paired_packet f g (fe_output_sample_rate e) p"
proof -
  obtain e1 where 1: "encode_frame oa rs f mode e = ([], e1)" "opus_half f e1"
    "fe_output_sample_rate e1 = fe_output_sample_rate e"
    using encode_first_block [OF assms, of oa rs f mode] by blast
  obtain p e2 where 2: "encode_frame oa rs g mode e1 = ([p], e2)" "opus_ready e2"
    "fe_output_sample_rate e2 = fe_output_sample_rate e1"
    "paired_packet f g (fe_output_sample_rate e1) p"
    using encode_second_block [OF 1(2), of oa rs g mode] by blast
  show ?thesis
    using 1 2 by (intro exI [of _ p] exI [of _ e2]) (simp add: Let_def split: prod.splits)
qed

section \<open>Lemmas on PCM24\<close>

definition sample24 :: "u8 list \<Rightarrow> int" where
  "sample24 bs = signed_take_bit 23 (uint (be_word bs :: 32 word))"

lemma length_be24 [simp]: "length (be24 v) = 3"
  by (simp add: be24_def)

lemma be24_value:
  assumes "- (2 ^ 23) \<le> i" and "i < 2 ^ 23"
  shows "sample24 (be24 (word_of_int i)) = i"
proof -
  let ?v = "word_of_int i :: 32 word"
  have m: "(255 :: 32 word) = mask 8" by (simp add: mask_eq_exp_minus_1)
  have "(be_word (be24 ?v) :: 32 word) = take_bit 24 ?v"
  proof (rule bit_word_eqI)
    fix n :: nat
    consider "n < 8" | "8 \<le> n" "n < 16" | "16 \<le> n" "n < 24" | "24 \<le> n" by linarith
    then show "bit (be_word (be24 ?v) :: 32 word) n \<longleftrightarrow> bit (take_bit 24 ?v) n"
      by cases (auto simp: be_word_def be24_def m bit_simps)
  qed
  then have "sample24 (be24 ?v) = signed_take_bit 23 (uint (take_bit 24 ?v))"
    by (simp add: sample24_def)
  also have "uint (take_bit 24 ?v) = take_bit 24 i"
    by (simp add: unsigned_take_bit_eq unsigned_of_int)
  also have "signed_take_bit 23 (take_bit 24 i) = signed_take_bit 23 i"
    by (simp add: signed_take_bit_take_bit)
  also have "\<dots> = i" using assms by (simp add: signed_take_bit_int_eq_self)
  finally show ?thesis .
qed

lemma pcm24_native:
  assumes "sample_rate_hz (fr_format f) \<le> 96000"
  shows "ef_payload (encode_pcm24_from_native rs f) = concat (map (\<lambda>(l, r).
      be24 (word_of_int (quantize PCM24_SCALE l)) @ be24 (word_of_int (quantize PCM24_SCALE r)))
    (planar_input f))"
proof -
  have "pcm24_target_sample_rate (max (sample_rate_hz (fr_format f)) 1) = max (sample_rate_hz (fr_format f)) 1"
    using assms by (auto simp: pcm24_target_sample_rate_def MAX_PCM24_OUTPUT_SAMPLE_RATE_def max_def)
  then show ?thesis
    by (simp add: encode_pcm24_from_native_def Let_def planar_input_def in_frames_of_def comp_def
        case_prod_unfold)
qed

lemma length_concat_const:
  "\<forall>x \<in> set xs. length (h x) = k \<Longrightarrow> length (concat (map h xs)) = k * length xs"
  by (induction xs) auto

lemma concat_slice6:
  "i < length xs \<Longrightarrow> \<forall>x \<in> set xs. length (h x) = 6 \<Longrightarrow>
    slice (concat (map h xs)) (6 * i) (6 * i + 6) = h (xs ! i)"
proof (induction xs arbitrary: i)
  case (Cons x xs)
  show ?case
  proof (cases i)
    case 0
    then show ?thesis using Cons.prems by (simp add: slice_def)
  next
    case (Suc j)
    then have "slice (concat (map h (x # xs))) (6 * i) (6 * i + 6)
        = slice (concat (map h xs)) (6 * j) (6 * j + 6)"
      using Cons.prems by (simp add: slice_def)
    then show ?thesis using Cons Suc by simp
  qed
qed simp

section \<open>Lemmas on the red tier and on short frames\<close>

lemma encode_frame_forced:
  assumes "fe_force_pcm16_fallback e"
  shows "\<exists>p e'. encode_frame oa rs f mode e = ([p], e') \<and> ef_codec p = Udp_Pcm16
    \<and> ef_pts_ms p = fr_pts_ms f
    \<and> fe_force_pcm16_fallback e' \<and> fe_codec e' = fe_codec e \<and> fe_opus e' = fe_opus e
    \<and> fe_opus_frame_buffer e' = fe_opus_frame_buffer e
    \<and> fe_output_sample_rate e' = fe_output_sample_rate e"
proof -
  obtain xs e1 where r: "resample_to_stereo_10ms rs f e = (xs, e1)" by fastforce
  note k = resample_keeps [OF r]
  show ?thesis
    using assms k
    by (intro exI [of _ "encode_pcm16_from_samples f xs (fe_output_sample_rate e)"] exI [of _ e1])
      (simp add: encode_frame_def r encode_pcm16_from_samples_def)
qed

lemma encode_run_forced:
  "fe_force_pcm16_fallback e \<Longrightarrow> encode_run oa rs mode fs e = (outs, e') \<Longrightarrow>
    map ef_codec outs = replicate (length fs) Udp_Pcm16 \<and> map ef_pts_ms outs = map fr_pts_ms fs
    \<and> fe_force_pcm16_fallback e' \<and> fe_codec e' = fe_codec e \<and> fe_opus e' = fe_opus e
    \<and> fe_opus_frame_buffer e' = fe_opus_frame_buffer e
    \<and> fe_output_sample_rate e' = fe_output_sample_rate e"
proof (induction fs arbitrary: e outs e')
  case (Cons f fs)
  obtain p e1 where p: "encode_frame oa rs f mode e = ([p], e1)" "ef_codec p = Udp_Pcm16"
    "ef_pts_ms p = fr_pts_ms f" "fe_force_pcm16_fallback e1" "fe_codec e1 = fe_codec e"
    "fe_opus e1 = fe_opus e" "fe_opus_frame_buffer e1 = fe_opus_frame_buffer e"
    "fe_output_sample_rate e1 = fe_output_sample_rate e"
    using encode_frame_forced [OF Cons.prems(1), of oa rs f mode] by blast
  obtain os e2 where r: "encode_run oa rs mode fs e1 = (os, e2)" by fastforce
  show ?case using Cons.IH [OF p(4) r] Cons.prems(2) p r by auto
qed simp

lemma interleave_pairs:
  "length xs = 2 * n \<Longrightarrow> interleave (map (\<lambda>i. (xs ! (2 * i), xs ! (2 * i + 1))) [0 ..< n]) = xs"
proof (induction n arbitrary: xs)
  case (Suc n)
  then obtain a b ys where xs: "xs = a # b # ys" "length ys = 2 * n"
    by (auto simp: numeral_2_eq_2 length_Suc_conv)
  have "interleave (map (\<lambda>i. (xs ! (2 * i), xs ! (2 * i + 1))) [0 ..< Suc n])
      = a # b # interleave (map (\<lambda>i. (ys ! (2 * i), ys ! (2 * i + 1))) [0 ..< n])"
    by (simp add: map_upt_Suc xs(1) interleave_def comp_def del: upt_Suc)
  then show ?case using Suc.IH [OF xs(2)] xs(1) by simp
qed (simp add: interleave_def)

lemma interleave_append: "interleave (xs @ ys) = interleave xs @ interleave ys"
  by (simp add: interleave_def)

lemma short_block:
  assumes "af_channels (fr_format f) = 2" and "length (fr_samples f) = 2 * n" and "0 < n" and "n \<le> m"
  shows "same_rate_stereo_fold f m
    = fr_samples f @ concat (replicate (m - n) (drop (2 * n - 2) (fr_samples f)))"
proof -
  let ?xs = "fr_samples f"
  let ?at = "\<lambda>i. (?xs ! (2 * i), ?xs ! (2 * i + 1))"
  have ch: "in_channels_of f = 2" using assms(1) by (simp add: in_channels_of_def)
  have fr: "in_frames_of f = n" using ch assms(2) by (simp add: in_frames_of_def)
  have at: "stereo_at 2 ?xs i = ?at i" if "i < n" for i
    using that assms(2) by (simp add: stereo_at_def get_or_def Let_def mult.commute)
  have last: "drop (2 * n - 2) ?xs = [fst (?at (n - 1)), snd (?at (n - 1))]"
  proof -
    have "2 * n - 2 < length ?xs" "Suc (2 * n - 2) < length ?xs" using assms(2,3) by auto
    moreover have "2 * (n - 1) = 2 * n - 2" "2 * n - 2 + 2 = 2 * n" using assms(3) by auto
    ultimately show ?thesis
      using assms(2) by (simp add: Cons_nth_drop_Suc [symmetric])
  qed
  have "[0 ..< m] = [0 ..< n] @ [n ..< m]" using assms(4) upt_add_eq_append [of 0 n "m - n"] by simp
  then have "same_rate_stereo_fold f m
      = interleave (map (\<lambda>i. stereo_at 2 ?xs (min i (n - 1))) [0 ..< n])
        @ interleave (map (\<lambda>i. stereo_at 2 ?xs (min i (n - 1))) [n ..< m])"
    by (simp add: same_rate_stereo_fold_def ch fr interleave_append)
  also have "map (\<lambda>i. stereo_at 2 ?xs (min i (n - 1))) [0 ..< n] = map ?at [0 ..< n]"
    using at by (auto simp: min_def)
  also have "map (\<lambda>i. stereo_at 2 ?xs (min i (n - 1))) [n ..< m] = replicate (m - n) (?at (n - 1))"
  proof -
    have "map (\<lambda>i. stereo_at 2 ?xs (min i (n - 1))) [n ..< m] = map (\<lambda>_. ?at (n - 1)) [n ..< m]"
      using at [of "n - 1"] assms(3) by (intro map_cong) (auto simp: min_def)
    then show ?thesis by (simp add: map_replicate_const)
  qed
  finally show ?thesis
    using interleave_pairs [OF assms(2)] last by (simp add: interleave_def map_replicate)
qed

section \<open>Properties\<close>

text \<open>
  C16: the cadence of Opus. An encoder created for Opus with a working libopus turns any sequence of
  capture frames into one packet per two frames. If libopus encodes the pair, the packet carries
  the first frame's time stamp, is silent if both are, has the larger peak and the quadratic mean
  of the two RMS values; if it fails, the packet is the second frame alone as PCM16 and the first
  is lost.
\<close>
theorem opus_cadence:
  assumes "opus_ready e" and "encode_run oa rs mode fs e = (outs, e')"
  shows "length outs = length fs div 2 \<and> (\<forall>k < length fs div 2.
    paired_packet (fs ! (2 * k)) (fs ! (2 * k + 1)) (fe_output_sample_rate e) (outs ! k))"
  using assms
proof (induction fs arbitrary: e outs rule: induct_list012)
  case (2 f)
  obtain e1 where "encode_frame oa rs f mode e = ([], e1)"
    using encode_first_block [OF 2(1), of oa rs f mode] by blast
  then show ?case using 2 by simp
next
  case (3 f g fs)
  obtain p e1 where p: "encode_run oa rs mode (f # g # fs) e
      = (let (outs, e'') = encode_run oa rs mode fs e1 in (p # outs, e''))"
    "opus_ready e1" "fe_output_sample_rate e1 = fe_output_sample_rate e"
    "paired_packet f g (fe_output_sample_rate e) p"
    using encode_run_pair [OF 3(3), of oa rs mode f g fs] by blast
  obtain os e2 where r: "encode_run oa rs mode fs e1 = (os, e2)" by fastforce
  then have o: "outs = p # os" "e' = e2" using 3(4) p(1) by auto
  note ih = 3(1) [OF p(2), of os] 
  have "length os = length fs div 2 \<and> (\<forall>k < length fs div 2.
      paired_packet (fs ! (2 * k)) (fs ! (2 * k + 1)) (fe_output_sample_rate e) (os ! k))"
    using ih r o p(3) by simp
  then show ?case
    using p(4) o by (auto simp: nth_Cons split: nat.split) 
qed simp

text \<open>A libopus that writes one byte, for concrete runs.\<close>

definition sample_opus :: "unit opus_api" where
  "sample_opus = \<lparr>oa_new = (\<lambda>r a. Inr ()), oa_set = (\<lambda>s i. (Inr (), i)),
     oa_encode = (\<lambda>xs n i. (Inr [of_nat (length xs)], i))\<rparr>"

definition sample_resampler :: "unit resampler_api" where
  "sample_resampler = \<lparr>rs_new = (\<lambda>a b n. None), rs_process = (\<lambda>l r i. (Inl ''no'', i))\<rparr>"

definition sample_frame :: audio_frame where
  "sample_frame = \<lparr>fr_pts_ms = 20, fr_format = audio_format_default, fr_samples = [1/2, -1, 2, 0],
     fr_is_silence = False, fr_source_buffer_frames = None, fr_packet_kind = AudioPacket,
     fr_peak = 2, fr_rms = 1\<rparr>"

definition sample_encoder :: "(unit, unit) audio_frame_encoder" where
  "sample_encoder = frame_encoder_new sample_opus Sel_Opus Balanced 48000"

lemma sample_encoder_ready: "opus_ready sample_encoder"
  unfolding sample_encoder_def
  by (rule frame_encoder_new_ready
      [where oe = "\<lparr>oe_inner = (), oe_mode = Balanced, oe_sample_rate = 48000\<rparr>"])
    (simp add: opus_encoder_new_def sample_opus_def normalize_encoder_sample_rate_def Let_def)

theorem opus_cadence_witness:
  "length (fst (encode_run sample_opus sample_resampler Balanced
     [sample_frame, sample_frame, sample_frame] sample_encoder)) = 1"
proof -
  obtain outs e' where r: "encode_run sample_opus sample_resampler Balanced
      [sample_frame, sample_frame, sample_frame] sample_encoder = (outs, e')" by fastforce
  show ?thesis using opus_cadence [OF sample_encoder_ready r] by (simp only: r) simp
qed

text \<open>
  Red keeps half a packet. Under the Red profile every frame becomes one PCM16 packet, but the
  10 ms block an Opus encoder had kept back stays in its buffer for as long as Red lasts. The first
  frame after the return to Green is paired with that old block: the packet has the old block's
  time stamp and its first half repeats audio from before the red phase.
\<close>
theorem red_tier_keeps_stale_block:
  assumes "opus_half f e"
    and "encode_run oa rs mode hs (apply_tier_profile oa (tier_profile Red mode) mode e) = (outs, e1)"
    and "encode_frame oa rs g mode (apply_tier_profile oa (tier_profile Green mode) mode e1) = (out, e2)"
  shows "map ef_codec outs = replicate (length hs) Udp_Pcm16 \<and> map ef_pts_ms outs = map fr_pts_ms hs
    \<and> fe_opus_frame_buffer e1 = fe_opus_frame_buffer e
    \<and> (\<exists>p. out = [p] \<and> paired_packet f g (fe_output_sample_rate e) p)"
proof -
  let ?r = "apply_tier_profile oa (tier_profile Red mode) mode e"
  let ?g = "apply_tier_profile oa (tier_profile Green mode) mode e1"
  have "fe_force_pcm16_fallback ?r" by (simp add: apply_tier_profile_def)
  note k = encode_run_forced [OF this assms(2)]
  have "opus_half f ?g"
    using assms(1) k by (cases mode)
      (auto simp: opus_half_def encoder_rates_ok_def apply_tier_profile_def split: option.splits)
  moreover have "fe_output_sample_rate ?g = fe_output_sample_rate e"
    using k by (simp add: apply_tier_profile_def)
  ultimately obtain p e' where p: "encode_frame oa rs g mode ?g = ([p], e')"
    "paired_packet f g (fe_output_sample_rate e) p"
    using encode_second_block [of f ?g oa rs g mode] by auto
  have "(out, e2) = ([p], e')" by (rule trans [OF assms(3) [symmetric] p(1)])
  then show ?thesis using k p(2) by (simp add: apply_tier_profile_def)
qed

theorem red_tier_keeps_stale_block_witness:
  "\<exists>e. opus_half sample_frame (e :: (unit, unit) audio_frame_encoder)
    \<and> length (fst (encode_frame sample_opus sample_resampler sample_frame Balanced
        (apply_tier_profile sample_opus (tier_profile Green Balanced) Balanced
          (snd (encode_run sample_opus sample_resampler Balanced [sample_frame]
            (apply_tier_profile sample_opus (tier_profile Red Balanced) Balanced e)))))) = 1"
proof -
  obtain e where e: "opus_half sample_frame (e :: (unit, unit) audio_frame_encoder)"
    using encode_first_block [OF sample_encoder_ready] by blast
  have "\<exists>p. fst (encode_frame sample_opus sample_resampler sample_frame Balanced
        (apply_tier_profile sample_opus (tier_profile Green Balanced) Balanced
          (snd (encode_run sample_opus sample_resampler Balanced [sample_frame]
            (apply_tier_profile sample_opus (tier_profile Red Balanced) Balanced e))))) = [p]"
    using red_tier_keeps_stale_block [OF e surjective_pairing surjective_pairing] by blast
  then show ?thesis using e by auto
qed

text \<open>
  PCM24 is lossless up to one step. At 96 kHz or below the payload of a frame is, for every
  stereo pair, two big-endian signed 24-bit numbers; each decodes to the clamped sample within one
  part in 8388607.
\<close>
theorem pcm24_samples_roundtrip:
  assumes "sample_rate_hz (fr_format f) \<le> 96000" and "i < in_frames_of f"
    and "bs = slice (ef_payload (encode_pcm24_from_native rs f)) (6 * i) (6 * i + 6)"
    and "stereo_at (in_channels_of f) (fr_samples f) i = (l, r)"
  shows "length (ef_payload (encode_pcm24_from_native rs f)) = 6 * in_frames_of f
    \<and> \<bar>of_int (sample24 (take 3 bs)) / 8388607 - clamp l (- 1) 1\<bar> < 1 / 8388607
    \<and> \<bar>of_int (sample24 (drop 3 bs)) / 8388607 - clamp r (- 1) 1\<bar> < 1 / 8388607"
proof -
  let ?h = "\<lambda>(l, r). be24 (word_of_int (quantize PCM24_SCALE l)) @ be24 (word_of_int (quantize PCM24_SCALE r))"
  note p = pcm24_native [OF assms(1), of rs]
  have six: "\<forall>x \<in> set (planar_input f). length (?h x) = 6" by (auto simp: be24_def)
  have len: "length (planar_input f) = in_frames_of f" by (simp add: planar_input_def)
  have "bs = ?h (planar_input f ! i)"
    unfolding assms(3) p using assms(2) six len by (intro concat_slice6) simp_all
  then have bs: "bs = ?h (l, r)" using assms(2,4) by (simp add: planar_input_def)
  have v: "sample24 (be24 (word_of_int (quantize PCM24_SCALE x))) = quantize PCM24_SCALE x" for x
    using quantize_bounds [of PCM24_SCALE x] by (intro be24_value) (auto simp: PCM24_SCALE_def)
  have "length (concat (map ?h (planar_input f))) = 6 * in_frames_of f"
    unfolding len [symmetric] using six by (rule length_concat_const)
  then have n: "length (ef_payload (encode_pcm24_from_native rs f)) = 6 * in_frames_of f"
    unfolding p .
  have t: "take 3 bs = be24 (word_of_int (quantize PCM24_SCALE l))"
    "drop 3 bs = be24 (word_of_int (quantize PCM24_SCALE r))" by (simp_all add: bs)
  have sc: "(of_int PCM24_SCALE :: real) = 8388607" and pos: "0 < PCM24_SCALE"
    by (simp_all add: PCM24_SCALE_def)
  show ?thesis
    unfolding t v using n quantize_error [OF pos, of l] quantize_error [OF pos, of r]
    unfolding sc by blast
qed

theorem pcm24_samples_roundtrip_witness:
  "\<bar>of_int (sample24 (take 3 (slice (ef_payload
      (encode_pcm24_from_native sample_resampler sample_frame)) 6 12))) / 8388607 - 1\<bar>
    < (1 / 8388607 :: real)"
proof -
  have ch: "in_channels_of sample_frame = 2" "length (fr_samples sample_frame) = 4"
    by (simp_all add: in_channels_of_def sample_frame_def audio_format_default_def)
  have at: "stereo_at (in_channels_of sample_frame) (fr_samples sample_frame) 1 = (2, 0)"
    by (simp add: ch stereo_at_def get_or_def) (simp add: sample_frame_def)
  have "sample_rate_hz (fr_format sample_frame) \<le> 96000" "1 < in_frames_of sample_frame"
    by (simp_all add: in_frames_of_def ch) (simp add: sample_frame_def audio_format_default_def)
  from pcm24_samples_roundtrip [OF this refl at, of sample_resampler]
  show ?thesis by (simp add: clamp_def)
qed

text \<open>
  A short frame is stretched. The encoder works in fixed 10 ms blocks. At the output's own rate
  a stereo frame of fewer samples, such as the 5 ms frames that capture produces in ultra-low
  latency, is padded to 10 ms with copies of its last sample pair, so a PCM16 packet that claims
  10 ms of audio carries the frame followed by a held sample.
\<close>
theorem short_frame_padded:
  assumes "fe_codec e = Sel_Pcm16" and "normalize_encoder_sample_rate (fe_output_sample_rate e) = fe_output_sample_rate e"
    and "sample_rate_hz (fr_format f) = fe_output_sample_rate e" and "af_channels (fr_format f) = 2"
    and "length (fr_samples f) = 2 * n" and "0 < n" and "n \<le> out_frames_10ms (fe_output_sample_rate e)"
  shows "\<exists>e'. encode_frame oa rs f mode e = ([encode_pcm16_from_samples f
      (fr_samples f @ concat (replicate (out_frames_10ms (fe_output_sample_rate e) - n)
        (drop (2 * n - 2) (fr_samples f)))) (fe_output_sample_rate e)], e')"
proof -
  have ch: "in_channels_of f = 2" using assms(4) by (simp add: in_channels_of_def)
  have fr: "in_frames_of f = n" using ch assms(5) by (simp add: in_frames_of_def)
  have "fe_output_sample_rate e \<in> {8000, 12000, 16000, 24000, 48000}"
    using assms(2) by (auto simp: normalize_encoder_sample_rate_def DEFAULT_OUTPUT_SAMPLE_RATE_def split: if_splits)
  then have "max (sample_rate_hz (fr_format f)) 1 = fe_output_sample_rate e"
    unfolding assms(3) by auto
  then have "resample_to_stereo_10ms rs f e
      = (fr_samples f @ concat (replicate (out_frames_10ms (fe_output_sample_rate e) - n)
          (drop (2 * n - 2) (fr_samples f))), e\<lparr>fe_persistent_resampler := None\<rparr>)"
    using assms(2,6) short_block [OF assms(4,5,6,7)]
    by (simp add: resample_to_stereo_10ms_def Let_def fr)
  then show ?thesis using assms(1) by (simp add: encode_frame_def)
qed

theorem short_frame_padded_witness:
  "\<exists>e'. encode_frame sample_opus sample_resampler sample_frame UltraLowLatency
      (frame_encoder_new sample_opus Sel_Pcm16 UltraLowLatency 48000)
    = ([encode_pcm16_from_samples sample_frame
        ([1/2, -1, 2, 0] @ concat (replicate 478 [2, 0])) 48000], e' :: (unit, unit) audio_frame_encoder)"
  using short_frame_padded [of "frame_encoder_new sample_opus Sel_Pcm16 UltraLowLatency 48000"
      sample_frame 2 sample_opus sample_resampler UltraLowLatency]
  by (simp add: frame_encoder_new_def normalize_encoder_sample_rate_def out_frames_10ms_def
      sample_frame_def audio_format_default_def Let_def)

lemma drain_opus_outcome:
  assumes "buffer_labelled b" and "length (fb_samples b) < n" and "t = fb_samples_per_20ms_total b"
  shows "case drain_opus n oa mode acc oe b of
      (Inr out, oe', b') \<Rightarrow> length out = length acc + length (fb_samples b) div t \<and> take (length acc) out = acc
        \<and> fb_samples b' = drop (length (fb_samples b) div t * t) (fb_samples b) \<and> buffer_labelled b'
    | (Inl e, oe', b') \<Rightarrow> (\<exists>k. 0 < k \<and> k \<le> length (fb_samples b) div t
        \<and> fb_samples b' = drop (k * t) (fb_samples b)) \<and> buffer_labelled b'"
  using assms
proof (induction n arbitrary: acc oe b)
  case (Suc n)
  obtain x c where p: "pop_20ms b = (x, c)" by fastforce
  show ?case
  proof (cases x)
    case None
    then show ?thesis
      using pop_20ms_None [OF p [unfolded None] Suc.prems(1)] Suc.prems(1,3) p by simp
  next
    case (Some inp)
    note c = pop_20ms_Some [OF p [unfolded Some] Suc.prems(1), folded Suc.prems(3)]
    have t: "0 < t" "t \<le> length (fb_samples b)" using Suc.prems c by (simp_all add: buffer_labelled_def)
    then have q: "length (fb_samples b) div t = Suc (length (fb_samples c) div t)"
      using le_div_geq [of t "length (fb_samples b)"] by (simp add: c(2))
    have d: "drop (k * t) (fb_samples c) = drop (Suc k * t) (fb_samples b)" for k
      by (simp add: c(2) add.commute)
    obtain y oe2 where o: "opus_encode oa inp mode oe = (y, oe2)" by fastforce
    show ?thesis
    proof (cases y)
      case (Inl e)
      then show ?thesis using p Some o c(1,2) q by (auto intro!: exI [of _ 1])
    next
      case (Inr ef)
      have "length (fb_samples c) < n" using t Suc.prems(2) by (simp add: c(2))
      note ih = Suc.IH [OF c(1) this c(3) [symmetric], of "acc @ [ef]" oe2]
      have e: "drain_opus (Suc n) oa mode acc oe b = drain_opus n oa mode (acc @ [ef]) oe2 c"
        using p Some o Inr by simp
      show ?thesis
        using ih unfolding e q d
        by (auto simp del: drop_drop split: sum.splits prod.splits dest: take_prefix_of)
    qed
  qed
qed simp

text \<open>
  C40: the drain loop ends and takes out all whole frames. On a buffer in which waiting samples have a
  time stamp, as in a new buffer and after every push and pop, the loop needs at most one turn per
  sample: with that much fuel the outcome does not depend on the fuel. If no encoding fails, it adds
  one packet per whole 20 ms frame in the buffer, and what it leaves is the rest, less than a frame.
  If one fails, the frames up to and with the failing one are gone from the buffer.
\<close>
theorem drain_opus_terminates:
  assumes "buffer_labelled b" and "length (fb_samples b) < n" and "length (fb_samples b) < m"
    and "t = fb_samples_per_20ms_total b"
  shows "drain_opus n oa mode acc oe b = drain_opus m oa mode acc oe b
    \<and> (case drain_opus n oa mode acc oe b of
        (Inr out, oe', b') \<Rightarrow> length out = length acc + length (fb_samples b) div t \<and> take (length acc) out = acc
          \<and> fb_samples b' = drop (length (fb_samples b) div t * t) (fb_samples b)
          \<and> length (fb_samples b') < t \<and> buffer_labelled b'
      | (Inl e, oe', b') \<Rightarrow> (\<exists>k. 0 < k \<and> k \<le> length (fb_samples b) div t
          \<and> fb_samples b' = drop (k * t) (fb_samples b)) \<and> buffer_labelled b')"
proof
  show "drain_opus n oa mode acc oe b = drain_opus m oa mode acc oe b"
    by (rule drain_opus_fuel) (use assms in \<open>simp_all add: buffer_labelled_def\<close>)
  have "length (fb_samples b) - length (fb_samples b) div t * t < t"
    using assms(1,4) by (simp add: buffer_labelled_def minus_div_mult_eq_mod)
  then show "case drain_opus n oa mode acc oe b of
        (Inr out, oe', b') \<Rightarrow> length out = length acc + length (fb_samples b) div t \<and> take (length acc) out = acc
          \<and> fb_samples b' = drop (length (fb_samples b) div t * t) (fb_samples b)
          \<and> length (fb_samples b') < t \<and> buffer_labelled b'
      | (Inl e, oe', b') \<Rightarrow> (\<exists>k. 0 < k \<and> k \<le> length (fb_samples b) div t
          \<and> fb_samples b' = drop (k * t) (fb_samples b)) \<and> buffer_labelled b'"
    using drain_opus_outcome [OF assms(1,2,4), where oa = oa and mode = mode and acc = acc and oe = oe] by (auto split: sum.splits prod.splits)
qed

text \<open>Six samples in a buffer of four a frame: one frame is taken out, two samples stay.\<close>

theorem drain_opus_terminates_witness:
  "length (fb_samples (snd (snd (drain_opus 7 sample_opus Balanced []
      \<lparr>oe_inner = (), oe_mode = Balanced, oe_sample_rate = 48000\<rparr>
      (push_10ms 0 [0, 1, 2, 3, 4, 5] False 0 0 (frame_buffer_new 100)))))) = 2"
proof -
  let ?b = "push_10ms 0 [0, 1, 2, 3, 4, 5] False 0 0 (frame_buffer_new 100)"
  have b: "buffer_labelled ?b" by (intro buffer_labelled_push buffer_labelled_new)
  have l: "fb_samples ?b = [0, 1, 2, 3, 4, 5]" "4 = fb_samples_per_20ms_total ?b"
    by (simp_all add: push_10ms_def frame_buffer_new_def FIXED_OUTPUT_CHANNELS_def Let_def)
  have k: "0 < k \<Longrightarrow> k \<le> 1 \<Longrightarrow> k = (1 :: nat)" for k by simp
  show ?thesis
    using drain_opus_terminates [OF b _ _ l(2), where n = 7 and m = 7 and oa = sample_opus and mode = Balanced
        and acc = "[]" and oe = "\<lparr>oe_inner = (), oe_mode = Balanced, oe_sample_rate = 48000\<rparr>"]
    unfolding l(1)
    by (cases "fst (drain_opus 7 sample_opus Balanced [] \<lparr>oe_inner = (), oe_mode = Balanced, oe_sample_rate = 48000\<rparr> ?b)")
      (auto dest: k split: prod.splits)
qed

text \<open>
  \<open>to_fixed_stereo_10ms\<close>, the routine the encoder used before it kept its resampler: it builds a
  resampler for the one frame.
\<close>

definition to_fixed_stereo_10ms :: "'r resampler_api \<Rightarrow> audio_frame \<Rightarrow> u32 \<Rightarrow> real list" where
  "to_fixed_stereo_10ms rs frame out_rate =
     (let out_rate = normalize_encoder_sample_rate out_rate;
          out_frames = out_frames_10ms out_rate;
          in_rate = max (sample_rate_hz (fr_format frame)) 1;
          in_frames = in_frames_of frame
      in if in_frames = 0 then replicate (out_frames * FIXED_OUTPUT_CHANNELS) 0
         else if in_rate = out_rate
         then interleave (map (\<lambda>f. stereo_at (in_channels_of frame) (fr_samples frame)
                (min f (in_frames - 1))) [0 ..< out_frames])
         else case rs_new rs in_rate out_rate in_frames of
           None \<Rightarrow> to_fixed_stereo_10ms_nearest frame out_rate
         | Some i \<Rightarrow>
             (case rs_process rs (map fst (planar_input frame)) (map snd (planar_input frame)) i of
                (Inl _, _) \<Rightarrow> to_fixed_stereo_10ms_nearest frame out_rate
              | (Inr (ls, rr), _) \<Rightarrow>
                  let avail = min (length ls) (length rr) in
                  interleave (map (\<lambda>f. let l = get_or ls f 0; r = get_or rr f l in
                    if avail \<le> f then (last_or ls 0, last_or rr (last_or ls 0)) else (l, r))
                    [0 ..< out_frames])))"

definition encode_passthrough :: "'r resampler_api \<Rightarrow> audio_frame \<Rightarrow> encoded_frame" where
  "encode_passthrough rs frame =
     encode_pcm16_from_samples frame (to_fixed_stereo_10ms rs frame DEFAULT_OUTPUT_SAMPLE_RATE)
       DEFAULT_OUTPUT_SAMPLE_RATE"

text \<open>
  C39: keeping the resampler changes only the history. Unless the encoder holds a resampler for the
  frame's very rate and length and needs it, a block is the one \<open>to_fixed_stereo_10ms\<close> computes,
  the fallbacks included.
\<close>
theorem persistent_resampler_equivalence:
  assumes "\<forall>p. fe_persistent_resampler e = Some p \<longrightarrow>
      max (sample_rate_hz (fr_format frame)) 1 = normalize_encoder_sample_rate (fe_output_sample_rate e)
      \<or> \<not> resampler_matches (max (sample_rate_hz (fr_format frame)) 1)
            (normalize_encoder_sample_rate (fe_output_sample_rate e)) (in_frames_of frame) p"
  shows "fst (resample_to_stereo_10ms rs frame e) = to_fixed_stereo_10ms rs frame (fe_output_sample_rate e)"
proof -
  let ?out = "normalize_encoder_sample_rate (fe_output_sample_rate e)"
    and ?in = "max (sample_rate_hz (fr_format frame)) 1"
  have fit: "fit_frames n ls rr = interleave (map (\<lambda>f. let l = get_or ls f 0; r = get_or rr f l in
      if min (length ls) (length rr) \<le> f then (last_or ls 0, last_or rr (last_or ls 0)) else (l, r))
      [0 ..< n])" for n ls rr
    unfolding fit_frames_def Let_def by (intro arg_cong [where f = interleave] map_cong) (auto simp: get_or_def)
  show ?thesis
  proof (cases "in_frames_of frame = 0 \<or> ?in = ?out")
    case True
    then show ?thesis
      by (auto simp: resample_to_stereo_10ms_def to_fixed_stereo_10ms_def same_rate_stereo_fold_def Let_def)
  next
    case False
    then have "(case fe_persistent_resampler e of
        Some p \<Rightarrow> if resampler_matches ?in ?out (in_frames_of frame) p then Some p
                  else persistent_new rs ?in ?out (in_frames_of frame)
      | None \<Rightarrow> persistent_new rs ?in ?out (in_frames_of frame)) = persistent_new rs ?in ?out (in_frames_of frame)"
      using assms by (auto split: option.split)
    then show ?thesis
      using False
      by (auto simp: resample_to_stereo_10ms_def to_fixed_stereo_10ms_def Let_def persistent_new_def
          resample_with_def fit [unfolded Let_def] split: option.split prod.split sum.split)
  qed
qed

theorem persistent_resampler_equivalence_witness:
  "fst (resample_to_stereo_10ms sample_resampler sample_frame sample_encoder)
    = to_fixed_stereo_10ms sample_resampler sample_frame (fe_output_sample_rate sample_encoder)"
proof -
  have "fe_persistent_resampler sample_encoder = None"
    by (simp add: sample_encoder_def frame_encoder_new_def Let_def)
  then show ?thesis using persistent_resampler_equivalence [of sample_encoder sample_frame sample_resampler] by simp
qed

end
