(* ===== verification/Encode_Worker.thy ===== *)
theory Encode_Worker
  imports Frame_Encoder Data_Plane Client_Registry
begin

text \<open>
  The encode worker of \<open>crates/lan_audio_server/src/transport.rs\<close> (\<open>spawn_encode_worker\<close>): one thread
  that owns the pool of encoders, groups the recipients of a frame by encoder key, encodes once per
  group and builds the wire frames of every recipient. The shared sequence counter, which only the
  worker touches, is a field of its state. A hash map's iteration order is arbitrary: the order in
  which a job visits its groups is an argument.
\<close>

section \<open>Jobs, wire frames and the worker's state\<close>

type_synonym encoder_key = "codec_selection \<times> audio_mode \<times> u32"

record 'wr encode_job =
  job_frame :: audio_frame
  job_clients :: "'wr broadcast_client list"
  job_active_tier :: degradation_tier

record 'wr wire_frame_out =
  wf_client :: "'wr broadcast_client"
  wf_packet :: udp_audio_packet
  wf_wire_bytes :: "u8 list"
  wf_v2_flags :: u16
  wf_mode_changed :: bool
  wf_codec :: udp_audio_codec_v2
  wf_source_peak :: real
  wf_source_rms :: real
  wf_detected_wire_kind :: data_plane_packet_kind

record ('o, 'r) encode_worker =
  ew_encoders :: "encoder_key \<Rightarrow> ('o, 'r) audio_frame_encoder option"
  ew_last_applied_tier :: degradation_tier
  ew_sequence :: u32

definition worker_new :: "u32 \<Rightarrow> ('o, 'r) encode_worker" where
  "worker_new sequence =
     \<lparr>ew_encoders = (\<lambda>_. None), ew_last_applied_tier = Green, ew_sequence = sequence\<rparr>"

definition encoder_key_of :: "'wr broadcast_client \<Rightarrow> encoder_key" where
  "encoder_key_of c =
     (bc_codec c, bc_audio_mode c, normalize_encoder_sample_rate (bc_preferred_sample_rate c))"

definition group_of :: "encoder_key \<Rightarrow> 'wr broadcast_client list \<Rightarrow> 'wr broadcast_client list" where
  "group_of key clients = filter (\<lambda>c. encoder_key_of c = key) clients"

section \<open>Processing a job\<close>

text \<open>A change of tier is applied to every encoder of the pool, each with the mode of its key.\<close>

definition apply_tier ::
  "'o opus_api \<Rightarrow> degradation_tier \<Rightarrow> ('o, 'r) encode_worker \<Rightarrow> ('o, 'r) encode_worker" where
  "apply_tier oa tier w =
     (if tier = ew_last_applied_tier w then w
      else w\<lparr>ew_encoders := (\<lambda>(codec, mode, rate).
               map_option (apply_tier_profile oa (tier_profile tier mode) mode)
                 (ew_encoders w (codec, mode, rate))),
             ew_last_applied_tier := tier\<rparr>)"

definition encoder_for ::
  "'o opus_api \<Rightarrow> degradation_tier \<Rightarrow> encoder_key \<Rightarrow> ('o, 'r) encode_worker
   \<Rightarrow> ('o, 'r) audio_frame_encoder" where
  "encoder_for oa tier key w =
     (case ew_encoders w key of
        Some e \<Rightarrow> e
      | None \<Rightarrow> (case key of (codec, mode, rate) \<Rightarrow>
          apply_tier_profile oa (tier_profile tier mode) mode (frame_encoder_new oa codec mode rate)))"

definition packet_of :: "encoded_frame \<Rightarrow> u32 \<Rightarrow> udp_audio_packet" where
  "packet_of encoded seq =
     \<lparr>p_version = 1, p_flags = legacy_flags_for_frame encoded, p_sequence = seq,
      p_timestamp_ms = ef_pts_ms encoded, p_sample_rate = ef_sample_rate encoded,
      p_channels = ef_channels encoded, p_frames_per_packet = ef_frames_per_packet encoded,
      p_payload = ef_payload encoded\<rparr>"

definition frag_packet :: "udp_audio_packet \<Rightarrow> nat \<Rightarrow> udp_audio_packet" where
  "frag_packet packet i =
     (if i = 0 then packet
      else packet\<lparr>p_sequence := p_sequence packet + of_nat i, p_payload := []\<rparr>)"

definition wires_for_client ::
  "udp_audio_packet \<Rightarrow> encoded_frame \<Rightarrow> 'wr broadcast_client \<Rightarrow> 'wr wire_frame_out list" where
  "wires_for_client packet encoded c =
     (let flags = v2_flags_for_frame packet (bc_mode_changed c) (bc_first_packet c);
          wire_packets = fst (encode_packets_by_data_plane packet (bc_data_plane c) flags
                            (ef_codec encoded) (p_sequence packet))
      in map (\<lambda>(i, bytes).
           \<lparr>wf_client = c, wf_packet = frag_packet packet i, wf_wire_bytes = bytes,
            wf_v2_flags = flags, wf_mode_changed = bc_mode_changed c, wf_codec = ef_codec encoded,
            wf_source_peak = ef_source_peak encoded, wf_source_rms = ef_source_rms encoded,
            wf_detected_wire_kind = detect_data_plane_packet_kind bytes\<rparr>)
         (List.enumerate 0 wire_packets))"

text \<open>For every recipient: its wire frames, and the counter goes up by the extra ones.\<close>

fun recipients_loop ::
  "udp_audio_packet \<Rightarrow> encoded_frame \<Rightarrow> 'wr broadcast_client list \<Rightarrow> u32
   \<Rightarrow> 'wr wire_frame_out list \<times> u32" where
  "recipients_loop packet encoded [] sequence = ([], sequence)"
| "recipients_loop packet encoded (c # cs) sequence =
     (let wires = wires_for_client packet encoded c;
          extras = length wires - 1;
          sequence = (if 0 < extras then sequence + of_nat extras else sequence);
          (rest, sequence) = recipients_loop packet encoded cs sequence
      in (wires @ rest, sequence))"

fun encoded_loop ::
  "encoded_frame list \<Rightarrow> 'wr broadcast_client list \<Rightarrow> u32 \<Rightarrow> 'wr wire_frame_out list \<times> u32" where
  "encoded_loop [] recipients sequence = ([], sequence)"
| "encoded_loop (encoded # rest) recipients sequence =
     (let packet = packet_of encoded sequence;
          (wires, sequence) = recipients_loop packet encoded recipients (sequence + 1);
          (more, sequence) = encoded_loop rest recipients sequence
      in (wires @ more, sequence))"

definition encode_group ::
  "'o opus_api \<Rightarrow> 'r resampler_api \<Rightarrow> 'wr encode_job \<Rightarrow> encoder_key \<Rightarrow> ('o, 'r) encode_worker
   \<Rightarrow> 'wr wire_frame_out list \<times> ('o, 'r) encode_worker" where
  "encode_group oa rs job key w =
     (let (frames, e) = encode_frame oa rs (job_frame job) (fst (snd key))
                          (encoder_for oa (job_active_tier job) key w);
          (wires, sequence) = encoded_loop frames (group_of key (job_clients job)) (ew_sequence w)
      in (wires, w\<lparr>ew_encoders := (ew_encoders w)(key \<mapsto> e), ew_sequence := sequence\<rparr>))"

fun groups_loop ::
  "'o opus_api \<Rightarrow> 'r resampler_api \<Rightarrow> 'wr encode_job \<Rightarrow> encoder_key list \<Rightarrow> ('o, 'r) encode_worker
   \<Rightarrow> 'wr wire_frame_out list \<times> ('o, 'r) encode_worker" where
  "groups_loop oa rs job [] w = ([], w)"
| "groups_loop oa rs job (key # keys) w =
     (let (wires, w) = encode_group oa rs job key w;
          (rest, w) = groups_loop oa rs job keys w
      in (wires @ rest, w))"

text \<open>One job; \<open>keys\<close> is the order in which the grouping's hash map is visited.\<close>

definition valid_order :: "encoder_key list \<Rightarrow> 'wr encode_job \<Rightarrow> bool" where
  "valid_order keys job \<longleftrightarrow> distinct keys \<and> set keys = encoder_key_of ` set (job_clients job)"

definition process_job ::
  "'o opus_api \<Rightarrow> 'r resampler_api \<Rightarrow> 'wr encode_job \<Rightarrow> encoder_key list \<Rightarrow> ('o, 'r) encode_worker
   \<Rightarrow> 'wr wire_frame_out list \<times> ('o, 'r) encode_worker" where
  "process_job oa rs job keys w = groups_loop oa rs job keys (apply_tier oa (job_active_tier job) w)"

text \<open>A sequence of jobs, each with the order its groups were visited in.\<close>

fun run_jobs ::
  "'o opus_api \<Rightarrow> 'r resampler_api \<Rightarrow> ('wr encode_job \<times> encoder_key list) list
   \<Rightarrow> ('o, 'r) encode_worker \<Rightarrow> 'wr wire_frame_out list \<times> ('o, 'r) encode_worker" where
  "run_jobs oa rs [] w = ([], w)"
| "run_jobs oa rs ((job, keys) # jobs) w =
     (let (wires, w) = process_job oa rs job keys w; (rest, w) = run_jobs oa rs jobs w
      in (wires @ rest, w))"

section \<open>Lemmas on the wire frames of one packet\<close>

definition wire_id :: "'wr wire_frame_out \<Rightarrow> uuid" where
  "wire_id w = bc_id (wf_client w)"

definition wire_seq :: "'wr wire_frame_out \<Rightarrow> u32" where
  "wire_seq w = p_sequence (wf_packet w)"

lemma wires_for_client_ids: "w \<in> set (wires_for_client p ef c) \<Longrightarrow> wf_client w = c"
  by (auto simp: wires_for_client_def Let_def)

lemma wires_for_client_seqs:
  "map wire_seq (wires_for_client p ef c)
    = map (\<lambda>i. p_sequence p + of_nat i) [0 ..< length (wires_for_client p ef c)]"
  by (rule nth_equalityI)
    (auto simp: wires_for_client_def Let_def nth_enumerate_eq wire_seq_def frag_packet_def)

lemma recipients_loop_eq:
  "recipients_loop p ef cs s = (concat (map (wires_for_client p ef) cs),
     s + of_nat (sum_list (map (\<lambda>c. length (wires_for_client p ef c) - 1) cs)))"
  by (induction cs arbitrary: s) (simp_all add: Let_def split_beta)

lemma filter_wires_one:
  "filter (\<lambda>w. wire_id w = i) (wires_for_client p ef c)
    = (if bc_id c = i then wires_for_client p ef c else [])"
  by (auto simp: wire_id_def filter_id_conv filter_empty_conv dest: wires_for_client_ids)

lemma filter_wires_none:
  "i \<notin> bc_id ` set cs \<Longrightarrow> filter (\<lambda>w. wire_id w = i) (concat (map (wires_for_client p ef) cs)) = []"
  by (induction cs) (auto simp: filter_wires_one)

lemma filter_wires:
  "distinct (map bc_id cs) \<Longrightarrow> c \<in> set cs \<Longrightarrow>
    filter (\<lambda>w. wire_id w = bc_id c) (concat (map (wires_for_client p ef) cs)) = wires_for_client p ef c"
proof (induction cs)
  case (Cons d cs)
  show ?case
  proof (cases "c = d")
    case True
    then show ?thesis
      using Cons.prems filter_wires_none [of "bc_id c" cs] by (simp add: filter_wires_one)
  next
    case False
    then have "c \<in> set cs" using Cons.prems by simp
    moreover have "bc_id d \<noteq> bc_id c" using Cons.prems calculation by auto
    ultimately show ?thesis using Cons by (simp add: filter_wires_one)
  qed
qed simp

section \<open>Numbering\<close>

text \<open>
  How many wire frames a client gets for an encoded packet: one, except for PCM24, which is cut into
  fragments, and which the legacy plane and a packet of more than 255 fragments do not carry at all.
\<close>

definition wire_count :: "encoded_frame \<Rightarrow> 'wr broadcast_client \<Rightarrow> nat" where
  "wire_count ef c =
     (if ef_codec ef \<noteq> Udp_Pcm24 then 1
      else if bc_data_plane c = LegacyLas1 then 0
      else let t = pcm24_total_frags (length (ef_payload ef)) in if t > 255 then 0 else t)"

text \<open>The numbers an encoded packet takes from the counter: its own and the extra ones of every recipient.\<close>

definition frame_numbers :: "encoded_frame \<Rightarrow> 'wr broadcast_client list \<Rightarrow> nat" where
  "frame_numbers ef cs = Suc (sum_list (map (\<lambda>c. wire_count ef c - 1) cs))"

definition group_numbers :: "encoded_frame list \<Rightarrow> 'wr broadcast_client list \<Rightarrow> nat" where
  "group_numbers efs cs = sum_list (map (\<lambda>ef. frame_numbers ef cs) efs)"

text \<open>The numbers of the frames of one client, in the order of the list.\<close>

definition numbers_of :: "uuid \<Rightarrow> 'wr wire_frame_out list \<Rightarrow> u32 list" where
  "numbers_of i ws = map wire_seq (filter (\<lambda>x. wire_id x = i) ws)"

text \<open>
  The frames \<open>ws\<close> carry numbers out of the \<open>n\<close> that follow \<open>s\<close>, and those of each client strictly
  increase, counted from \<open>s\<close>. The counter has 32 bits, so this can only hold of up to \<open>2 ^ 32\<close> numbers.
\<close>

definition numbered :: "u32 \<Rightarrow> nat \<Rightarrow> 'wr wire_frame_out list \<Rightarrow> bool" where
  "numbered s n ws \<longleftrightarrow> (n \<le> 2 ^ 32 \<longrightarrow> (\<forall>x \<in> set ws. unat (wire_seq x - s) < n)
     \<and> (\<forall>i. sorted_wrt (<) (map (\<lambda>q. unat (q - s)) (numbers_of i ws))))"

lemma numbered_Nil: "numbered s n []"
  by (simp add: numbered_def numbers_of_def)

lemma numbers_of_append [simp]: "numbers_of i (ws @ vs) = numbers_of i ws @ numbers_of i vs"
  by (simp add: numbers_of_def)

lemma offset_shift:
  fixes x s :: u32
  assumes "unat (x - (s + of_nat n)) < m" and "n + m \<le> 2 ^ 32"
  shows "unat (x - s) = n + unat (x - (s + of_nat n))"
proof -
  have n: "unat (of_nat n :: u32) = n" using assms by (simp add: unsigned_of_nat take_bit_nat_eq_self)
  have "x - s = (x - (s + of_nat n)) + of_nat n" by simp
  moreover have "unat (x - (s + of_nat n)) + unat (of_nat n :: u32) < 2 ^ LENGTH(32)"
    using assms by (simp add: n)
  ultimately show ?thesis by (metis n unat_add_lem add.commute)
qed

lemma numbered_append:
  assumes "numbered s n ws" and "numbered (s + of_nat n) m vs"
  shows "numbered s (n + m) (ws @ vs)"
  unfolding numbered_def
proof (intro impI conjI)
  assume nm: "n + m \<le> 2 ^ 32"
  have w: "\<forall>x \<in> set ws. unat (wire_seq x - s) < n"
      "sorted_wrt (<) (map (\<lambda>q. unat (q - s)) (numbers_of i ws))"
    and v: "\<forall>x \<in> set vs. unat (wire_seq x - (s + of_nat n)) < m"
      "sorted_wrt (<) (map (\<lambda>q. unat (q - (s + of_nat n))) (numbers_of i vs))" for i
    using assms nm by (simp_all add: numbered_def)
  have sh: "\<forall>x \<in> set vs. unat (wire_seq x - s) = n + unat (wire_seq x - (s + of_nat n))"
    using v(1) nm by (blast intro: offset_shift)
  show "\<forall>x \<in> set (ws @ vs). unat (wire_seq x - s) < n + m" using w(1) v(1) sh by auto
  show "\<forall>i. sorted_wrt (<) (map (\<lambda>q. unat (q - s)) (numbers_of i (ws @ vs)))"
  proof
    fix i
    have "map (\<lambda>q. unat (q - s)) (numbers_of i vs)
        = map ((+) n) (map (\<lambda>q. unat (q - (s + of_nat n))) (numbers_of i vs))"
      using sh by (simp add: numbers_of_def)
    then have "sorted_wrt (<) (map (\<lambda>q. unat (q - s)) (numbers_of i vs))"
      using v(2) [of i] by (simp add: sorted_wrt_map del: map_map)
    moreover have "\<forall>x \<in> set (map (\<lambda>q. unat (q - s)) (numbers_of i ws)). x < n"
      using w(1) by (auto simp: numbers_of_def)
    moreover have "\<forall>y \<in> set (map (\<lambda>q. unat (q - s)) (numbers_of i vs)). n \<le> y"
      using sh by (auto simp: numbers_of_def)
    ultimately show "sorted_wrt (<) (map (\<lambda>q. unat (q - s)) (numbers_of i (ws @ vs)))"
      using w(2) [of i] by (auto simp: sorted_wrt_append dest: order.strict_trans2)
  qed
qed

lemma wires_for_client_length:
  "p_payload p = ef_payload ef \<Longrightarrow> length (wires_for_client p ef c) = wire_count ef c"
  by (simp add: wires_for_client_def Let_def encode_packets_by_data_plane_def wire_count_def
      pcm24_frag_loop_map)

lemma frame_numbers_eq: "p_payload p = ef_payload ef \<Longrightarrow>
    Suc (sum_list (map (\<lambda>c. length (wires_for_client p ef c) - 1) cs)) = frame_numbers ef cs"
  by (simp add: frame_numbers_def wires_for_client_length)

lemma numbered_client:
  assumes "length (wires_for_client p ef c) \<le> n"
  shows "numbered (p_sequence p) n (wires_for_client p ef c)"
  unfolding numbered_def
proof (intro impI conjI allI)
  assume n: "n \<le> 2 ^ 32"
  let ?l = "length (wires_for_client p ef c)"
  have m: "map (\<lambda>q. unat (q - p_sequence p)) (map wire_seq (wires_for_client p ef c)) = [0 ..< ?l]"
    unfolding wires_for_client_seqs map_map
    by (rule map_idI) (use assms n in \<open>simp add: unsigned_of_nat take_bit_nat_eq_self\<close>)
  show "\<forall>x \<in> set (wires_for_client p ef c). unat (wire_seq x - p_sequence p) < n"
  proof
    fix x assume "x \<in> set (wires_for_client p ef c)"
    then have "unat (wire_seq x - p_sequence p) \<in> set (map (\<lambda>q. unat (q - p_sequence p))
        (map wire_seq (wires_for_client p ef c)))" by simp
    then show "unat (wire_seq x - p_sequence p) < n" unfolding m using assms by simp
  qed
  fix i show "sorted_wrt (<) (map (\<lambda>q. unat (q - p_sequence p)) (numbers_of i (wires_for_client p ef c)))"
    using m by (simp add: numbers_of_def filter_wires_one sorted_wrt_upt del: map_map)
qed

lemma numbered_recipients:
  assumes "distinct (map bc_id cs)" and "p_payload p = ef_payload ef"
  shows "numbered (p_sequence p) (frame_numbers ef cs) (concat (map (wires_for_client p ef) cs))"
proof -
  have len: "length (wires_for_client p ef c) \<le> frame_numbers ef cs" if "c \<in> set cs" for c
  proof -
    have "wire_count ef c - 1 \<le> sum_list (map (\<lambda>c. wire_count ef c - 1) cs)"
      using that by (intro member_le_sum_list) auto
    then show ?thesis by (simp add: wires_for_client_length [OF assms(2)] frame_numbers_def)
  qed
  have one: "numbered (p_sequence p) (frame_numbers ef cs) (wires_for_client p ef c)" if "c \<in> set cs" for c
    by (rule numbered_client) (rule len [OF that])
  show ?thesis
    unfolding numbered_def
  proof (intro impI conjI allI)
    assume n: "frame_numbers ef cs \<le> 2 ^ 32"
    show "\<forall>x \<in> set (concat (map (wires_for_client p ef) cs)). unat (wire_seq x - p_sequence p) < frame_numbers ef cs"
      using one n by (auto simp: numbered_def)
    fix i
    show "sorted_wrt (<) (map (\<lambda>q. unat (q - p_sequence p))
        (numbers_of i (concat (map (wires_for_client p ef) cs))))"
    proof (cases "i \<in> bc_id ` set cs")
      case True
      then obtain c where c: "c \<in> set cs" "bc_id c = i" by blast
      then have "numbers_of i (concat (map (wires_for_client p ef) cs)) = numbers_of i (wires_for_client p ef c)"
        using filter_wires [OF assms(1) c(1), of p ef] by (simp add: numbers_of_def filter_wires_one)
      then show ?thesis using one [OF c(1)] n by (simp add: numbered_def)
    next
      case False
      then show ?thesis by (simp add: numbers_of_def filter_wires_none)
    qed
  qed
qed

lemma encoded_loop_numbered:
  assumes "distinct (map bc_id cs)"
  shows "snd (encoded_loop efs cs s) = s + of_nat (group_numbers efs cs)
    \<and> numbered s (group_numbers efs cs) (fst (encoded_loop efs cs s))"
proof (induction efs arbitrary: s)
  case Nil
  show ?case by (simp add: numbered_Nil group_numbers_def)
next
  case (Cons ef efs)
  let ?p = "packet_of ef s" and ?k = "frame_numbers ef cs"
  have p: "p_payload ?p = ef_payload ef" "p_sequence ?p = s" by (simp_all add: packet_of_def)
  have "recipients_loop ?p ef cs (s + 1) = (concat (map (wires_for_client ?p ef) cs), s + of_nat ?k)"
    unfolding frame_numbers_eq [OF p(1), of cs, symmetric] by (simp add: recipients_loop_eq add.assoc)
  then show ?case
    using Cons.IH [of "s + of_nat ?k"] numbered_recipients [OF assms p(1)] 
    by (auto simp: Let_def split_beta p(2) group_numbers_def add.assoc intro: numbered_append)
qed

lemma apply_tier_sequence [simp]: "ew_sequence (apply_tier oa t w) = ew_sequence w"
  by (simp add: apply_tier_def)

section \<open>What one client gets\<close>

text \<open>The wire frames of one client for the packets of its encoder, with the numbers they got.\<close>

definition client_wires ::
  "encoded_frame list \<Rightarrow> u32 list \<Rightarrow> 'wr broadcast_client \<Rightarrow> 'wr wire_frame_out list" where
  "client_wires efs seqs c =
     concat (map (\<lambda>(ef, q). wires_for_client (packet_of ef q) ef c) (zip efs seqs))"

lemma encoded_loop_client:
  assumes "distinct (map bc_id cs)" and "c \<in> set cs"
  shows "\<exists>seqs. length seqs = length efs
    \<and> filter (\<lambda>w. wire_id w = bc_id c) (fst (encoded_loop efs cs s)) = client_wires efs seqs c"
proof (induction efs arbitrary: s)
  case (Cons ef efs)
  let ?s = "s + 1 + of_nat (sum_list (map (\<lambda>c. length (wires_for_client (packet_of ef s) ef c) - 1) cs))"
  obtain seqs where "length seqs = length efs"
    "filter (\<lambda>w. wire_id w = bc_id c) (fst (encoded_loop efs cs ?s)) = client_wires efs seqs c"
    using Cons.IH [of ?s] by blast
  then show ?case
    using filter_wires [OF assms, of "packet_of ef s" ef]
    by (intro exI [of _ "s # seqs"])
      (simp add: Let_def recipients_loop_eq split_beta client_wires_def)
qed (simp add: client_wires_def)

lemma encoded_loop_other:
  "i \<notin> bc_id ` set cs \<Longrightarrow> filter (\<lambda>w. wire_id w = i) (fst (encoded_loop efs cs s)) = []"
  by (induction efs arbitrary: s)
    (simp_all add: Let_def recipients_loop_eq split_beta filter_wires_none)

definition solo_encode ::
  "'o opus_api \<Rightarrow> 'r resampler_api \<Rightarrow> 'wr encode_job \<Rightarrow> encoder_key \<Rightarrow> ('o, 'r) encode_worker
   \<Rightarrow> encoded_frame list \<times> ('o, 'r) audio_frame_encoder" where
  "solo_encode oa rs job key w =
     encode_frame oa rs (job_frame job) (fst (snd key)) (encoder_for oa (job_active_tier job) key w)"

lemma encode_group_solo:
  "fst (encode_group oa rs job key w)
    = fst (encoded_loop (fst (solo_encode oa rs job key w)) (group_of key (job_clients job)) (ew_sequence w))"
  "ew_encoders (snd (encode_group oa rs job key w))
    = (ew_encoders w)(key \<mapsto> snd (solo_encode oa rs job key w))"
  by (simp_all add: encode_group_def solo_encode_def Let_def split_beta)

lemma solo_after_other:
  "k \<noteq> key \<Longrightarrow> solo_encode oa rs job k (snd (encode_group oa rs job key w)) = solo_encode oa rs job k w"
  by (simp add: solo_encode_def encoder_for_def encode_group_solo(2))

lemma groups_loop_encoders:
  "distinct keys \<Longrightarrow> ew_encoders (snd (groups_loop oa rs job keys w)) k
    = (if k \<in> set keys then Some (snd (solo_encode oa rs job k w)) else ew_encoders w k)"
proof (induction keys arbitrary: w)
  case (Cons key keys)
  then show ?case
    by (cases "k = key") (auto simp: Let_def split_beta encode_group_solo(2) solo_after_other)
qed simp

lemma group_ids: "distinct (map bc_id cs) \<Longrightarrow> c \<in> set cs \<Longrightarrow>
    bc_id c \<in> bc_id ` set (group_of key cs) \<longleftrightarrow> encoder_key_of c = key"
  by (auto simp: group_of_def distinct_map inj_on_def)

lemma groups_loop_other:
  assumes "distinct (map bc_id (job_clients job))" and "c \<in> set (job_clients job)"
  shows "encoder_key_of c \<notin> set keys \<Longrightarrow>
    filter (\<lambda>w. wire_id w = bc_id c) (fst (groups_loop oa rs job keys w)) = []"
  using group_ids [OF assms]
  by (induction keys arbitrary: w)
    (simp_all add: Let_def split_beta encode_group_solo(1) encoded_loop_other)

lemma groups_loop_client:
  assumes "distinct (map bc_id (job_clients job))" and "c \<in> set (job_clients job)"
    and "distinct keys" and "encoder_key_of c \<in> set keys"
  shows "\<exists>seqs. length seqs = length (fst (solo_encode oa rs job (encoder_key_of c) w))
    \<and> filter (\<lambda>w. wire_id w = bc_id c) (fst (groups_loop oa rs job keys w))
      = client_wires (fst (solo_encode oa rs job (encoder_key_of c) w)) seqs c"
  using assms(3,4)
proof (induction keys arbitrary: w)
  case (Cons key keys)
  let ?k = "encoder_key_of c"
  show ?case
  proof (cases "key = ?k")
    case True
    have g: "distinct (map bc_id (group_of ?k (job_clients job)))" "c \<in> set (group_of ?k (job_clients job))"
      using assms(1,2) by (simp_all add: group_of_def distinct_map_filter)
    obtain seqs where "length seqs = length (fst (solo_encode oa rs job ?k w))"
      "filter (\<lambda>w. wire_id w = bc_id c) (fst (encode_group oa rs job ?k w))
        = client_wires (fst (solo_encode oa rs job ?k w)) seqs c"
      using encoded_loop_client [OF g] unfolding encode_group_solo(1) by blast
    then show ?thesis
      using Cons.prems True groups_loop_other [OF assms(1,2), of keys]
      by (auto simp: Let_def split_beta)
  next
    case False
    then have "?k \<in> set keys" "distinct keys" using Cons.prems by auto
    moreover have "filter (\<lambda>w. wire_id w = bc_id c) (fst (encode_group oa rs job key w)) = []"
      unfolding encode_group_solo(1) using group_ids [OF assms(1,2), of key] False
      by (intro encoded_loop_other) auto
    ultimately show ?thesis
      using Cons.IH [of "snd (encode_group oa rs job key w)"] False
      by (simp add: Let_def split_beta solo_after_other)
  qed
qed simp

lemma encoded_loop_clients: "x \<in> set (fst (encoded_loop efs cs s)) \<Longrightarrow> wf_client x \<in> set cs"
  by (induction efs arbitrary: s)
    (auto simp: Let_def recipients_loop_eq split_beta dest: wires_for_client_ids)

lemma encode_group_clients:
  "x \<in> set (fst (encode_group oa rs job key w)) \<Longrightarrow> wf_client x \<in> set (job_clients job)"
  by (auto simp: encode_group_solo(1) group_of_def dest!: encoded_loop_clients)

lemma groups_loop_clients:
  "x \<in> set (fst (groups_loop oa rs job keys w)) \<Longrightarrow> wf_client x \<in> set (job_clients job)"
  by (induction keys arbitrary: w) (auto simp: Let_def split_beta dest: encode_group_clients)

section \<open>The numbers a job takes\<close>

definition job_numbers ::
  "'o opus_api \<Rightarrow> 'r resampler_api \<Rightarrow> 'wr encode_job \<Rightarrow> encoder_key list \<Rightarrow> ('o, 'r) encode_worker \<Rightarrow> nat" where
  "job_numbers oa rs job keys w =
     sum_list (map (\<lambda>key. group_numbers
       (fst (solo_encode oa rs job key (apply_tier oa (job_active_tier job) w)))
       (group_of key (job_clients job))) keys)"

fun jobs_numbers ::
  "'o opus_api \<Rightarrow> 'r resampler_api \<Rightarrow> ('wr encode_job \<times> encoder_key list) list
   \<Rightarrow> ('o, 'r) encode_worker \<Rightarrow> nat" where
  "jobs_numbers oa rs [] w = 0"
| "jobs_numbers oa rs ((job, keys) # jobs) w =
     job_numbers oa rs job keys w + jobs_numbers oa rs jobs (snd (process_job oa rs job keys w))"

lemma encode_group_numbered:
  assumes "distinct (map bc_id (job_clients job))"
  shows "ew_sequence (snd (encode_group oa rs job key w)) = ew_sequence w
      + of_nat (group_numbers (fst (solo_encode oa rs job key w)) (group_of key (job_clients job)))"
    and "numbered (ew_sequence w)
      (group_numbers (fst (solo_encode oa rs job key w)) (group_of key (job_clients job)))
      (fst (encode_group oa rs job key w))"
proof -
  have "distinct (map bc_id (group_of key (job_clients job)))"
    using assms by (simp add: group_of_def distinct_map_filter)
  note e = encoded_loop_numbered [OF this]
  show "ew_sequence (snd (encode_group oa rs job key w)) = ew_sequence w
      + of_nat (group_numbers (fst (solo_encode oa rs job key w)) (group_of key (job_clients job)))"
    using e by (simp add: encode_group_def solo_encode_def Let_def split_beta)
  show "numbered (ew_sequence w)
      (group_numbers (fst (solo_encode oa rs job key w)) (group_of key (job_clients job)))
      (fst (encode_group oa rs job key w))"
    using e by (simp add: encode_group_solo(1))
qed

lemma groups_loop_numbered:
  assumes "distinct (map bc_id (job_clients job))"
  shows "distinct keys \<Longrightarrow> n = sum_list (map (\<lambda>key. group_numbers (fst (solo_encode oa rs job key w))
      (group_of key (job_clients job))) keys) \<Longrightarrow>
    ew_sequence (snd (groups_loop oa rs job keys w)) = ew_sequence w + of_nat n
    \<and> numbered (ew_sequence w) n (fst (groups_loop oa rs job keys w))"
proof (induction keys arbitrary: w n)
  case Nil
  then show ?case by (simp add: numbered_Nil)
next
  case (Cons key keys)
  let ?u = "snd (encode_group oa rs job key w)"
  let ?k = "group_numbers (fst (solo_encode oa rs job key w)) (group_of key (job_clients job))"
  let ?m = "sum_list (map (\<lambda>key. group_numbers (fst (solo_encode oa rs job key w))
      (group_of key (job_clients job))) keys)"
  note g = encode_group_numbered [OF assms, where oa = oa and rs = rs and key = key and w = w]
  have "\<forall>k \<in> set keys. solo_encode oa rs job k ?u = solo_encode oa rs job k w"
    using Cons.prems(1) by (auto intro!: solo_after_other)
  then have m: "?m = sum_list (map (\<lambda>key. group_numbers (fst (solo_encode oa rs job key ?u))
      (group_of key (job_clients job))) keys)"
    by (intro arg_cong [where f = sum_list] map_cong) auto
  have "distinct keys" using Cons.prems(1) by simp
  from Cons.IH [OF this m] g(1) numbered_append [OF g(2), of ?m "fst (groups_loop oa rs job keys ?u)"]
  show ?case using Cons.prems(2) by (simp add: Let_def split_beta add.assoc)
qed

lemma process_job_numbered:
  assumes "distinct (map bc_id (job_clients job))" and "valid_order keys job"
    and "process_job oa rs job keys w = (ws, w')"
  shows "ew_sequence w' = ew_sequence w + of_nat (job_numbers oa rs job keys w)"
    and "numbered (ew_sequence w) (job_numbers oa rs job keys w) ws"
  using groups_loop_numbered [OF assms(1) _ refl, where keys = keys and oa = oa and rs = rs and w = "apply_tier oa (job_active_tier job) w"] assms(2,3)
  by (simp_all add: valid_order_def process_job_def job_numbers_def)

section \<open>Groups of one packet\<close>

definition single_packet :: "encoded_frame list \<Rightarrow> bool" where
  "single_packet efs \<longleftrightarrow> (\<exists>ef. efs = [ef] \<and> ef_codec ef \<noteq> Udp_Pcm24)"

lemma one_wire: "ef_codec ef \<noteq> Udp_Pcm24 \<Longrightarrow>
    \<exists>x. wires_for_client p ef c = [x] \<and> wire_seq x = p_sequence p"
  by (simp add: wires_for_client_def encode_packets_by_data_plane_def Let_def wire_seq_def frag_packet_def)

lemma one_wire_length [simp]: "ef_codec ef \<noteq> Udp_Pcm24 \<Longrightarrow> length (wires_for_client p ef c) = Suc 0"
  using one_wire [of ef p c] by auto

lemma encode_group_single:
  assumes "single_packet (fst (solo_encode oa rs job k u))"
    and "distinct (map bc_id (job_clients job))"
  shows "ew_sequence (snd (encode_group oa rs job k u)) = ew_sequence u + 1"
    and "c \<in> set (group_of k (job_clients job)) \<Longrightarrow>
      map wire_seq (filter (\<lambda>x. wire_id x = bc_id c) (fst (encode_group oa rs job k u))) = [ew_sequence u]"
proof -
  obtain ef where ef: "fst (solo_encode oa rs job k u) = [ef]" "ef_codec ef \<noteq> Udp_Pcm24"
    using assms(1) by (auto simp: single_packet_def)
  let ?p = "packet_of ef (ew_sequence u)" and ?cs = "group_of k (job_clients job)"
  have d: "distinct (map bc_id ?cs)" using assms(2) by (simp add: group_of_def distinct_map_filter)
  have "encoded_loop [ef] ?cs (ew_sequence u)
      = (concat (map (wires_for_client ?p ef) ?cs), ew_sequence u + 1)"
    using ef(2) by (simp add: recipients_loop_eq Let_def)
  then have *: "fst (encode_group oa rs job k u) = concat (map (wires_for_client ?p ef) ?cs)"
    "ew_sequence (snd (encode_group oa rs job k u)) = ew_sequence u + 1"
    using ef(1) by (simp_all add: encode_group_def solo_encode_def Let_def split_beta)
  show "ew_sequence (snd (encode_group oa rs job k u)) = ew_sequence u + 1" by (rule *)
  show "map wire_seq (filter (\<lambda>x. wire_id x = bc_id c) (fst (encode_group oa rs job k u))) = [ew_sequence u]"
    if "c \<in> set ?cs"
    using filter_wires [OF d that, of ?p ef] one_wire [OF ef(2), of ?p c]
    by (auto simp: * packet_of_def)
qed

lemma groups_loop_single:
  assumes "distinct (map bc_id (job_clients job))"
  shows "\<forall>k \<in> set ks. single_packet (fst (solo_encode oa rs job k u)) \<Longrightarrow> distinct ks \<Longrightarrow>
    ew_sequence (snd (groups_loop oa rs job ks u)) = ew_sequence u + of_nat (length ks)
    \<and> (\<forall>i < length ks. \<forall>c \<in> set (group_of (ks ! i) (job_clients job)).
        map wire_seq (filter (\<lambda>x. wire_id x = bc_id c) (fst (groups_loop oa rs job ks u)))
          = [ew_sequence u + of_nat i])"
proof (induction ks arbitrary: u)
  case (Cons k ks)
  let ?u = "snd (encode_group oa rs job k u)"
  have k: "single_packet (fst (solo_encode oa rs job k u))" using Cons.prems by simp
  note one = encode_group_single [OF k assms]
  have "\<forall>k' \<in> set ks. single_packet (fst (solo_encode oa rs job k' ?u))"
    using Cons.prems by (metis distinct.simps(2) list.set_intros(2) solo_after_other)
  note ih = Cons.IH [OF this] 
  have "map wire_seq (filter (\<lambda>x. wire_id x = bc_id c) (fst (groups_loop oa rs job (k # ks) u)))
      = [ew_sequence u + of_nat i]"
    if i: "i < length (k # ks)" "c \<in> set (group_of ((k # ks) ! i) (job_clients job))" for i c
  proof (cases i)
    case 0
    then have c: "c \<in> set (job_clients job)" "encoder_key_of c = k" "c \<in> set (group_of k (job_clients job))"
      using i by (auto simp: group_of_def)
    then have "encoder_key_of c \<notin> set ks" using Cons.prems by simp
    then show ?thesis
      using one(2) [OF c(3)] groups_loop_other [OF assms c(1), of ks] 0
      by (simp add: Let_def split_beta)
  next
    case (Suc j)
    then have c: "c \<in> set (job_clients job)" "encoder_key_of c = ks ! j"
      "c \<in> set (group_of (ks ! j) (job_clients job))" "j < length ks"
      using i by (auto simp: group_of_def)
    then have "encoder_key_of c \<noteq> k" using Cons.prems by auto
    then have "filter (\<lambda>x. wire_id x = bc_id c) (fst (encode_group oa rs job k u)) = []"
      unfolding encode_group_solo(1) using group_ids [OF assms c(1), of k]
      by (intro encoded_loop_other) auto
    then show ?thesis
      using ih c(3,4) Cons.prems one(1) Suc by (simp add: Let_def split_beta)
  qed
  then show ?case using ih Cons.prems one(1) by (simp add: Let_def split_beta)
qed simp

section \<open>Properties\<close>

text \<open>
  C5: grouping is invisible to the clients. Whatever order the groups are visited in, the wire
  frames a job sends to a client are those of the packets that the encoder of the client's own key
  makes of the captured frame, built with the client's own plane and flags; that encoder advances
  by exactly one frame however many clients share it, encoders of other keys do not move, and no
  wire frame goes to anybody who is not a recipient of the job.
\<close>
theorem worker_refines_solo_encoders:
  assumes "valid_order keys job" and "distinct (map bc_id (job_clients job))"
    and "process_job oa rs job keys w = (ws, w')" and "v = apply_tier oa (job_active_tier job) w"
  shows "(\<forall>c \<in> set (job_clients job). \<exists>seqs.
        length seqs = length (fst (solo_encode oa rs job (encoder_key_of c) v))
        \<and> filter (\<lambda>x. wire_id x = bc_id c) ws
            = client_wires (fst (solo_encode oa rs job (encoder_key_of c) v)) seqs c
        \<and> ew_encoders w' (encoder_key_of c) = Some (snd (solo_encode oa rs job (encoder_key_of c) v)))
    \<and> (\<forall>k. k \<notin> encoder_key_of ` set (job_clients job) \<longrightarrow> ew_encoders w' k = ew_encoders v k)
    \<and> wf_client ` set ws \<subseteq> set (job_clients job)"
proof -
  have g: "groups_loop oa rs job keys v = (ws, w')"
    using assms(3,4) by (simp add: process_job_def)
  have o: "distinct keys" "set keys = encoder_key_of ` set (job_clients job)"
    using assms(1) by (auto simp: valid_order_def)
  note e = groups_loop_encoders [OF o(1), of oa rs job v, unfolded g snd_conv]
  have "\<exists>seqs. length seqs = length (fst (solo_encode oa rs job (encoder_key_of c) v))
        \<and> filter (\<lambda>x. wire_id x = bc_id c) ws
            = client_wires (fst (solo_encode oa rs job (encoder_key_of c) v)) seqs c
        \<and> ew_encoders w' (encoder_key_of c) = Some (snd (solo_encode oa rs job (encoder_key_of c) v))"
    if c: "c \<in> set (job_clients job)" for c
    using groups_loop_client [OF assms(2) c o(1), of oa rs v] c o(2) e g by auto
  moreover have "wf_client ` set ws \<subseteq> set (job_clients job)"
    using groups_loop_clients [of _ oa rs job keys v] g by auto
  ultimately show ?thesis using e o(2) by auto
qed

text \<open>
  C23: sequence numbers. A run of jobs, each with distinct recipients and its groups visited once each in
  some order, advances the shared counter by exactly as many numbers as its
  packets need: for every group of every job and every packet its encoder makes, one, and for each
  recipient one more per extra fragment. As long as those are at most \<open>2 ^ 32\<close>, so that the
  counter does not come round, every wire frame carries one of the numbers taken and the numbers of
  the frames one client gets strictly increase, counted from where the counter stood: no number is
  used twice for a client.
\<close>
theorem worker_sequence_increases:
  assumes "\<forall>(job, keys) \<in> set jobs. distinct (map bc_id (job_clients job)) \<and> valid_order keys job"
    and "run_jobs oa rs jobs w = (ws, w')" and "n = jobs_numbers oa rs jobs w"
  shows "ew_sequence w' = ew_sequence w + of_nat n
    \<and> (n \<le> 2 ^ 32 \<longrightarrow> (\<forall>x \<in> set ws. unat (wire_seq x - ew_sequence w) < n)
        \<and> (\<forall>i. sorted_wrt (<) (map (\<lambda>q. unat (q - ew_sequence w)) (numbers_of i ws))))"
  unfolding numbered_def [symmetric] using assms
proof (induction jobs arbitrary: w ws n)
  case Nil
  then show ?case by (simp add: numbered_Nil)
next
  case (Cons jk jobs)
  obtain job keys where jk: "jk = (job, keys)" by fastforce
  obtain us w1 where j: "process_job oa rs job keys w = (us, w1)" by fastforce
  obtain vs w2 where r: "run_jobs oa rs jobs w1 = (vs, w2)" by fastforce
  have o: "ws = us @ vs" "w' = w2" using Cons.prems(2) by (auto simp: jk j r)
  let ?k = "job_numbers oa rs job keys w" and ?m = "jobs_numbers oa rs jobs w1"
  have k: "ew_sequence w1 = ew_sequence w + of_nat ?k" "numbered (ew_sequence w) ?k us"
    using process_job_numbered [OF _ _ j] Cons.prems(1) by (simp_all add: jk)
  have "ew_sequence w2 = ew_sequence w1 + of_nat ?m \<and> numbered (ew_sequence w1) ?m vs"
    using Cons.IH [of w1 vs ?m] Cons.prems(1) r o(2) by simp
  then show ?case
    using numbered_append [OF k(2), of ?m vs] k(1) o Cons.prems(3) by (simp add: jk j add.assoc)
qed

text \<open>
  But they are not consecutive. When a job has several groups and each encodes the frame into
  one unfragmented packet, the groups take consecutive numbers from the shared counter: a client of
  the i-th group gets just the i-th of them. So a client that shares the server with another group
  misses as many numbers per frame as there are other groups, which a receiver that watches for
  gaps takes for packet loss.
\<close>
theorem worker_sequence_gaps:
  assumes "valid_order keys job" and "distinct (map bc_id (job_clients job))"
    and "process_job oa rs job keys w = (ws, w')" and "v = apply_tier oa (job_active_tier job) w"
    and "\<forall>k \<in> set keys. single_packet (fst (solo_encode oa rs job k v))"
  shows "ew_sequence w' = ew_sequence w + of_nat (length keys)
    \<and> (\<forall>i < length keys. \<forall>c \<in> set (group_of (keys ! i) (job_clients job)).
        map wire_seq (filter (\<lambda>x. wire_id x = bc_id c) ws) = [ew_sequence w + of_nat i])"
proof -
  have o: "distinct keys" using assms(1) by (simp add: valid_order_def)
  have g: "groups_loop oa rs job keys v = (ws, w')" "ew_sequence v = ew_sequence w"
    using assms(3,4) by (simp_all add: process_job_def)
  show ?thesis using groups_loop_single [OF assms(2,5) o] unfolding g by simp
qed

section \<open>Concrete runs\<close>

definition sample_client :: "uuid \<Rightarrow> audio_mode \<Rightarrow> nat broadcast_client" where
  "sample_client i mode = \<lparr>bc_id = i, bc_name = ''phone'', bc_data_plane = V2Header,
     bc_codec = Sel_Pcm16, bc_audio_mode = mode, bc_preferred_sample_rate = 48000,
     bc_transport = Transport_Usb 0, bc_first_packet = True, bc_mode_changed = False\<rparr>"

definition sample_job :: "nat encode_job" where
  "sample_job = \<lparr>job_frame = sample_frame,
     job_clients = [sample_client 1 Balanced, sample_client 2 LowLatency], job_active_tier = Green\<rparr>"

definition sample_keys :: "encoder_key list" where
  "sample_keys = [(Sel_Pcm16, Balanced, 48000), (Sel_Pcm16, LowLatency, 48000)]"

definition sample_worker :: "(unit, unit) encode_worker" where
  "sample_worker = worker_new 5"

lemma sample_keys_of:
  "encoder_key_of (sample_client i mode) = (Sel_Pcm16, mode, 48000)"
  by (simp add: encoder_key_of_def sample_client_def normalize_encoder_sample_rate_def)

lemma sample_job_valid: "valid_order sample_keys sample_job"
  by (simp add: valid_order_def sample_keys_def sample_job_def sample_keys_of)

lemma sample_job_distinct: "distinct (map bc_id (job_clients sample_job))"
  by (simp add: sample_job_def sample_client_def)

lemma pcm16_encoder_single: "fe_codec e = Sel_Pcm16 \<Longrightarrow> single_packet (fst (encode_frame oa rs f mode e))"
  by (auto simp: encode_frame_def single_packet_def encode_pcm16_from_samples_def
      dest: resample_keeps split: prod.splits)

theorem worker_refines_solo_encoders_witness:
  "wf_client ` set (fst (process_job sample_opus sample_resampler sample_job sample_keys sample_worker))
    \<subseteq> {sample_client 1 Balanced, sample_client 2 LowLatency}"
proof -
  obtain ws w' where r: "process_job sample_opus sample_resampler sample_job sample_keys sample_worker = (ws, w')"
    by fastforce
  have c: "set (job_clients sample_job) = {sample_client 1 Balanced, sample_client 2 LowLatency}"
    by (simp add: sample_job_def)
  show ?thesis
    using worker_refines_solo_encoders [OF sample_job_valid sample_job_distinct r refl]
    unfolding r fst_conv c by blast
qed

definition pcm16_pool :: "('o, 'r) encode_worker \<Rightarrow> bool" where
  "pcm16_pool w \<longleftrightarrow> (\<forall>k e. ew_encoders w k = Some e \<longrightarrow> fe_codec e = Sel_Pcm16)"

lemma pcm16_solo:
  assumes "pcm16_pool w" and "fst k = Sel_Pcm16"
  shows "single_packet (fst (solo_encode oa rs job k w))"
    and "fe_codec (snd (solo_encode oa rs job k w)) = Sel_Pcm16"
proof -
  have e: "fe_codec (encoder_for oa (job_active_tier job) k w) = Sel_Pcm16"
    using assms by (cases k) (auto simp: encoder_for_def pcm16_pool_def apply_tier_profile_def
        frame_encoder_new_def Let_def split: option.split)
  show "single_packet (fst (solo_encode oa rs job k w))"
    unfolding solo_encode_def by (rule pcm16_encoder_single [OF e])
  show "fe_codec (snd (solo_encode oa rs job k w)) = Sel_Pcm16"
    using e by (auto simp: solo_encode_def encode_frame_def dest: resample_keeps split: prod.splits)
qed

lemma pcm16_apply_tier: "pcm16_pool w \<Longrightarrow> pcm16_pool (apply_tier oa t w)"
  by (auto simp: pcm16_pool_def apply_tier_def apply_tier_profile_def Let_def split: option.splits)

lemma pcm16_process_job:
  assumes "pcm16_pool w" and "fst ` set keys \<subseteq> {Sel_Pcm16}" and "distinct keys"
  shows "job_numbers oa rs job keys w = length keys"
    and "pcm16_pool (snd (process_job oa rs job keys w))"
proof -
  let ?v = "apply_tier oa (job_active_tier job) w"
  have k: "\<forall>k \<in> set keys. fst k = Sel_Pcm16" using assms(2) by blast
  have v: "pcm16_pool ?v" by (rule pcm16_apply_tier [OF assms(1)])
  have one: "group_numbers (fst (solo_encode oa rs job k ?v)) cs = 1" if "k \<in> set keys" for k cs
  proof -
    have "fst k = Sel_Pcm16" using k that by blast
    then obtain ef where "fst (solo_encode oa rs job k ?v) = [ef]" "ef_codec ef \<noteq> Udp_Pcm24"
      using pcm16_solo(1) [OF pcm16_apply_tier [OF assms(1)]] unfolding single_packet_def by blast
    then show ?thesis by (simp add: group_numbers_def frame_numbers_def wire_count_def)
  qed
  show "job_numbers oa rs job keys w = length keys"
    unfolding job_numbers_def by (subst map_cong [OF refl one]) (simp_all add: sum_list_triv)
  show "pcm16_pool (snd (process_job oa rs job keys w))"
    unfolding pcm16_pool_def process_job_def groups_loop_encoders [OF assms(3)]
  proof (intro allI impI)
    fix key e
    assume "(if key \<in> set keys then Some (snd (solo_encode oa rs job key ?v)) else ew_encoders ?v key) = Some e"
    then show "fe_codec e = Sel_Pcm16"
      using pcm16_solo(2) [OF v, of key oa rs job] v k
      by (cases "key \<in> set keys") (auto simp: pcm16_pool_def simp del: split_paired_All)
  qed
qed

lemma sample_numbers:
  "jobs_numbers sample_opus sample_resampler [(sample_job, sample_keys), (sample_job, rev sample_keys)]
    sample_worker = 4"
proof -
  have w: "pcm16_pool sample_worker" by (simp add: pcm16_pool_def sample_worker_def worker_new_def)
  have k: "fst ` set sample_keys \<subseteq> {Sel_Pcm16}" "distinct sample_keys" "length sample_keys = 2"
    by (simp_all add: sample_keys_def)
  show ?thesis
    using pcm16_process_job(1) [OF w k(1,2), of sample_opus sample_resampler sample_job]
      pcm16_process_job(1) [OF pcm16_process_job(2) [OF w k(1,2)], of "rev sample_keys"
        sample_opus sample_resampler sample_job sample_opus sample_resampler sample_job] k
    by simp
qed

text \<open>
  Two jobs for two clients of different modes, the groups visited in both orders: four numbers are
  taken, and each client gets two of them, the later one for the later job.
\<close>

theorem worker_sequence_increases_witness:
  "ew_sequence (snd (run_jobs sample_opus sample_resampler
      [(sample_job, sample_keys), (sample_job, rev sample_keys)] sample_worker)) = 9
    \<and> sorted_wrt (<) (map (\<lambda>q. unat (q - 5)) (numbers_of 2 (fst (run_jobs sample_opus sample_resampler
      [(sample_job, sample_keys), (sample_job, rev sample_keys)] sample_worker))))"
proof -
  let ?js = "[(sample_job, sample_keys), (sample_job, rev sample_keys)]"
  obtain ws w' where r: "run_jobs sample_opus sample_resampler ?js sample_worker = (ws, w')" by fastforce
  have v: "\<forall>(job, keys) \<in> set ?js. distinct (map bc_id (job_clients job)) \<and> valid_order keys job"
    using sample_job_valid by (simp add: sample_job_distinct valid_order_def)
  show ?thesis
    using worker_sequence_increases [OF v r sample_numbers [symmetric]] unfolding r by (simp add: sample_worker_def worker_new_def)
qed

theorem worker_sequence_gaps_witness:
  "ew_sequence (snd (process_job sample_opus sample_resampler sample_job sample_keys sample_worker)) = 7
    \<and> map wire_seq (filter (\<lambda>x. wire_id x = 2)
        (fst (process_job sample_opus sample_resampler sample_job sample_keys sample_worker))) = [6]"
proof -
  obtain ws w' where r: "process_job sample_opus sample_resampler sample_job sample_keys sample_worker = (ws, w')"
    by fastforce
  have "\<forall>k \<in> set sample_keys. single_packet (fst (solo_encode sample_opus sample_resampler sample_job k
      (apply_tier sample_opus (job_active_tier sample_job) sample_worker)))"
    by (auto simp: sample_keys_def solo_encode_def encoder_for_def apply_tier_def sample_job_def
        sample_worker_def worker_new_def apply_tier_profile_def frame_encoder_new_def Let_def
        intro!: pcm16_encoder_single)
  note th = worker_sequence_gaps [OF sample_job_valid sample_job_distinct r refl this]
  have "sample_client 2 LowLatency \<in> set (group_of (sample_keys ! 1) (job_clients sample_job))"
    by (simp add: group_of_def sample_keys_def sample_job_def sample_keys_of)
  moreover have "1 < length sample_keys" by (simp add: sample_keys_def)
  ultimately have "map wire_seq (filter (\<lambda>x. wire_id x = bc_id (sample_client 2 LowLatency)) ws)
      = [ew_sequence sample_worker + of_nat 1]"
    using th by blast
  then show ?thesis
    using th unfolding r by (simp add: sample_worker_def worker_new_def sample_keys_def sample_client_def)
qed

end
