(* ===== verification/Broadcast_Transport.thy ===== *)
theory Broadcast_Transport
  imports Encode_Worker
begin

text \<open>
  The broadcast transport of \<open>crates/lan_audio_server/src/transport.rs\<close>: the capture task and its
  metrics, the transmit statistics, the choice of a data plane for a client, the dispatch of wire
  frames with its clean-up of failed clients, the watchdog task, and the loop that joins them
  (\<open>BroadcastTransport::run\<close>). Sockets and streams are the functions \<open>udp_send\<close> and \<open>stream_write\<close>
  over a world state; instants are milliseconds. The metrics are those of the registry, which the
  service shares with the transport.
\<close>

section \<open>Capture\<close>

definition frame_kind_metrics :: "audio_frame \<Rightarrow> metrics \<Rightarrow> metrics" where
  "frame_kind_metrics frame m =
     (case fr_packet_kind frame of
        NoPacket \<Rightarrow> inc_capture_no_packet_count m
      | SilentPacket \<Rightarrow> inc_capture_silent_frames m
      | _ \<Rightarrow> if fr_is_silence frame then inc_capture_silent_frames m
             else inc_capture_non_silent_frames m)"

definition note_frame :: "audio_frame \<Rightarrow> metrics \<Rightarrow> metrics" where
  "note_frame frame m =
     (let m = inc_capture_frames_produced m;
          m = set_last_capture_pts_ms (fr_pts_ms frame) m;
          m = set_capture_format (sample_rate_hz (fr_format frame)) (af_channels (fr_format frame)) m;
          m = set_capture_level (fr_peak frame) (fr_rms frame) m;
          m = frame_kind_metrics frame m
      in (case fr_source_buffer_frames frame of None \<Rightarrow> m
          | Some buffer_frames \<Rightarrow> set_capture_buffer_frames buffer_frames m))"

text \<open>
  One turn of the capture task: the source's state and device name are those after the read. A
  frame is handed over; an error is counted and the task goes on.
\<close>

definition device_or_na :: "string option \<Rightarrow> string" where
  "device_or_na d = (case d of None \<Rightarrow> ''n/a'' | Some name \<Rightarrow> name)"

definition capture_turn ::
  "capture_error + audio_frame \<Rightarrow> capture_source_state \<Rightarrow> string option \<Rightarrow> metrics
   \<Rightarrow> audio_frame option \<times> metrics" where
  "capture_turn frame_result source_state device m =
     (let m = set_capture_source_state (capture_state_as_str source_state) m;
          m = set_capture_device_name (device_or_na device) m
      in case frame_result of
           Inr frame \<Rightarrow> (Some frame, note_frame frame m)
         | Inl _ \<Rightarrow> (None, set_capture_source_state (capture_state_as_str Cap_Failed)
                             (inc_capture_read_errors m)))"

text \<open>Starting the source: \<open>before\<close> and \<open>after\<close> are its state and device around \<open>start\<close>.\<close>

definition start_source ::
  "string \<Rightarrow> capture_source_state \<times> string option \<Rightarrow> capture_error + unit
   \<Rightarrow> capture_source_state \<times> string option \<times> audio_format \<Rightarrow> metrics
   \<Rightarrow> (capture_error + unit) \<times> metrics" where
  "start_source source_name before result after m =
     (let m = inc_capture_start_attempts m;
          m = set_current_audio_source source_name m;
          m = set_capture_source_state (capture_state_as_str (fst before)) m;
          m = set_capture_device_name (device_or_na (snd before)) m
      in case result of
           Inl err \<Rightarrow>
             (Inl err, set_capture_source_state (capture_state_as_str Cap_Failed)
                         (inc_capture_start_failures m))
         | Inr _ \<Rightarrow>
             (case after of (state, device, fmt) \<Rightarrow>
               let m = set_capture_format (sample_rate_hz fmt) (af_channels fmt) m;
                   m = set_capture_source_state (capture_state_as_str state) m
               in (Inr (), set_capture_device_name (device_or_na device) m)))"

text \<open>Which source a configuration builds; \<open>loopback\<close> is what the platform's capture gives.\<close>

definition capture_format_for :: "'f server_config \<Rightarrow> audio_format" where
  "capture_format_for cfg =
     audio_format_default\<lparr>sample_rate_hz := cfg_sample_rate cfg, af_channels := ucast (cfg_channels cfg),
       af_frame_duration_ms := (if cfg_current_audio_mode cfg = UltraLowLatency then 5 else 10)\<rparr>"

datatype 'l capture_choice = Use_Synthetic synthetic_source | Use_Loopback 'l

definition build_synthetic_source :: "real server_config \<Rightarrow> synthetic_source" where
  "build_synthetic_source cfg =
     (case synthetic_signal cfg of
        Signal_Silence \<Rightarrow> synthetic_silence (capture_format_for cfg)
      | Signal_Sine \<Rightarrow> synthetic_sine (capture_format_for cfg) (synthetic_frequency_hz cfg))"

definition build_capture_source ::
  "(audio_format \<Rightarrow> string + 'l) \<Rightarrow> real server_config \<Rightarrow> string + 'l capture_choice \<times> string" where
  "build_capture_source loopback cfg =
     (case audio_source cfg of
        Synthetic \<Rightarrow> Inr (Use_Synthetic (build_synthetic_source cfg), ''synthetic'')
      | WindowsLoopback \<Rightarrow>
          (case loopback (capture_format_for cfg) of
             Inr source \<Rightarrow> Inr (Use_Loopback source, ''windows_loopback'')
           | Inl err \<Rightarrow>
               if audio_source_fallback_to_synthetic cfg
               then Inr (Use_Synthetic (build_synthetic_source cfg), ''synthetic(fallback)'')
               else Inl err))"

section \<open>Hand-over statistics\<close>

text \<open>The one-second windows of the capture and the packet building; only the log reads them.\<close>

record handoff_stats =
  hs_started_at :: nat
  hs_frame_tx_block_samples :: u64
  hs_frame_tx_block_total_ms :: real
  hs_frame_tx_block_max_ms :: real

definition handoff_new :: "nat \<Rightarrow> handoff_stats" where
  "handoff_new now = \<lparr>hs_started_at = now, hs_frame_tx_block_samples = 0,
     hs_frame_tx_block_total_ms = 0, hs_frame_tx_block_max_ms = 0\<rparr>"

definition record_frame_tx_block :: "real \<Rightarrow> handoff_stats \<Rightarrow> handoff_stats" where
  "record_frame_tx_block block_ms h =
     h\<lparr>hs_frame_tx_block_samples := hs_frame_tx_block_samples h + 1,
       hs_frame_tx_block_total_ms := hs_frame_tx_block_total_ms h + block_ms,
       hs_frame_tx_block_max_ms := (if block_ms > hs_frame_tx_block_max_ms h then block_ms
                                    else hs_frame_tx_block_max_ms h)\<rparr>"

definition handoff_maybe_log :: "nat \<Rightarrow> handoff_stats \<Rightarrow> handoff_stats" where
  "handoff_maybe_log now h = (if now - hs_started_at h < 1000 then h else handoff_new now)"

definition FLUSH_REASON_IMMEDIATE_FRAME_READY :: string where
  "FLUSH_REASON_IMMEDIATE_FRAME_READY = ''immediate_frame_ready''"

record packet_build_stats =
  pb_started_at :: nat
  pb_packet_build_count :: u64
  pb_total_frames_per_packet :: u64
  pb_last_frames_per_packet :: u16
  pb_last_payload_bytes :: nat
  pb_total_frame_age_ms :: u64
  pb_max_frame_age_ms :: u64
  pb_encode_input_timeout_count :: u64
  pb_encoded_tx_block_samples :: u64
  pb_encoded_tx_block_total_ms :: real
  pb_encoded_tx_block_max_ms :: real
  pb_last_flush_reason :: string

definition packet_build_new :: "nat \<Rightarrow> packet_build_stats" where
  "packet_build_new now = \<lparr>pb_started_at = now, pb_packet_build_count = 0,
     pb_total_frames_per_packet = 0, pb_last_frames_per_packet = 0, pb_last_payload_bytes = 0,
     pb_total_frame_age_ms = 0, pb_max_frame_age_ms = 0, pb_encode_input_timeout_count = 0,
     pb_encoded_tx_block_samples = 0, pb_encoded_tx_block_total_ms = 0,
     pb_encoded_tx_block_max_ms = 0, pb_last_flush_reason = FLUSH_REASON_IMMEDIATE_FRAME_READY\<rparr>"

definition record_packet_built ::
  "u16 \<Rightarrow> nat \<Rightarrow> u64 \<Rightarrow> string \<Rightarrow> packet_build_stats \<Rightarrow> packet_build_stats" where
  "record_packet_built frames_per_packet payload_bytes frame_age_ms flush_reason s =
     s\<lparr>pb_packet_build_count := pb_packet_build_count s + 1,
       pb_total_frames_per_packet := pb_total_frames_per_packet s + ucast frames_per_packet,
       pb_last_frames_per_packet := frames_per_packet,
       pb_last_payload_bytes := payload_bytes,
       pb_total_frame_age_ms := pb_total_frame_age_ms s + frame_age_ms,
       pb_max_frame_age_ms := (if frame_age_ms > pb_max_frame_age_ms s then frame_age_ms
                               else pb_max_frame_age_ms s),
       pb_last_flush_reason := flush_reason\<rparr>"

definition record_encode_timeout :: "packet_build_stats \<Rightarrow> packet_build_stats" where
  "record_encode_timeout s =
     s\<lparr>pb_encode_input_timeout_count := pb_encode_input_timeout_count s + 1\<rparr>"

definition record_encoded_tx_block :: "real \<Rightarrow> packet_build_stats \<Rightarrow> packet_build_stats" where
  "record_encoded_tx_block block_ms s =
     s\<lparr>pb_encoded_tx_block_samples := pb_encoded_tx_block_samples s + 1,
       pb_encoded_tx_block_total_ms := pb_encoded_tx_block_total_ms s + block_ms,
       pb_encoded_tx_block_max_ms := (if block_ms > pb_encoded_tx_block_max_ms s then block_ms
                                      else pb_encoded_tx_block_max_ms s)\<rparr>"

definition packet_build_maybe_log :: "nat \<Rightarrow> packet_build_stats \<Rightarrow> packet_build_stats" where
  "packet_build_maybe_log now s = (if now - pb_started_at s < 1000 then s else packet_build_new now)"

section \<open>Transmit statistics\<close>

record tx_stats =
  ts_started_at :: nat
  ts_packets :: u64
  ts_bytes_sent :: u64
  ts_last_peak :: real
  ts_last_rms :: real
  ts_last_frame_bytes :: nat
  ts_last_wire_bytes :: nat
  ts_last_sample_rate :: u32
  ts_last_channels :: u8
  ts_last_frame_duration_ms :: u32
  ts_udp_send_await_samples :: u64
  ts_udp_send_await_total_ms :: real
  ts_udp_send_await_max_ms :: real
  ts_data_plane :: data_plane_format
  ts_last_detected_wire_kind :: data_plane_packet_kind
  ts_last_codec :: udp_audio_codec_v2
  ts_last_v2_flags :: u16
  ts_mode_changed_count :: u64

definition tx_stats_new :: "nat \<Rightarrow> tx_stats" where
  "tx_stats_new now =
     \<lparr>ts_started_at = now, ts_packets = 0, ts_bytes_sent = 0, ts_last_peak = 0, ts_last_rms = 0,
      ts_last_frame_bytes = 0, ts_last_wire_bytes = 0, ts_last_sample_rate = 48000,
      ts_last_channels = 2, ts_last_frame_duration_ms = 10, ts_udp_send_await_samples = 0,
      ts_udp_send_await_total_ms = 0, ts_udp_send_await_max_ms = 0, ts_data_plane = LegacyLas1,
      ts_last_detected_wire_kind = UnknownKind, ts_last_codec = Udp_Pcm16, ts_last_v2_flags = 0,
      ts_mode_changed_count = 0\<rparr>"

text \<open>Peak, sum of squares and number of the samples of a PCM16 payload, in whole pairs of bytes.\<close>

fun pcm16_levels :: "u8 list \<Rightarrow> real \<Rightarrow> real \<Rightarrow> nat \<Rightarrow> real \<times> real \<times> nat" where
  "pcm16_levels (a # b # bs) peak sum_sq n =
     (let sample = real_of_int (sint (le_word [a, b] :: 16 word)) / 32767
      in pcm16_levels bs (max peak \<bar>sample\<bar>) (sum_sq + sample * sample) (n + 1))"
| "pcm16_levels _ peak sum_sq n = (peak, sum_sq, n)"

definition tx_levels :: "udp_audio_packet \<Rightarrow> udp_audio_codec_v2 \<Rightarrow> real \<Rightarrow> real \<Rightarrow> real \<times> real" where
  "tx_levels p codec source_peak source_rms =
     (if codec = Udp_Pcm16
      then let (peak, sum_sq, n) = pcm16_levels (p_payload p) 0 0 0
           in (peak, if n = 0 then 0 else sqrt (sum_sq / real n))
      else (source_peak, source_rms))"

definition tx_observe ::
  "udp_audio_packet \<Rightarrow> nat \<Rightarrow> real \<Rightarrow> data_plane_format \<Rightarrow> data_plane_packet_kind \<Rightarrow> u16 \<Rightarrow> bool
   \<Rightarrow> udp_audio_codec_v2 \<Rightarrow> real \<Rightarrow> real \<Rightarrow> tx_stats \<Rightarrow> tx_stats" where
  "tx_observe p wire_bytes udp_send_await_ms plane kind vflags mode_changed codec source_peak source_rms t =
     (let (peak, rms) = tx_levels p codec source_peak source_rms in
      t\<lparr>ts_packets := ts_packets t + 1,
        ts_bytes_sent := ts_bytes_sent t + of_nat wire_bytes,
        ts_last_frame_bytes := length (p_payload p),
        ts_last_wire_bytes := wire_bytes,
        ts_last_sample_rate := p_sample_rate p, ts_last_channels := p_channels p,
        ts_last_frame_duration_ms :=
          (if p_sample_rate p = 0 then 0 else ucast (p_frames_per_packet p) * 1000 div p_sample_rate p),
        ts_data_plane := plane, ts_last_detected_wire_kind := kind,
        ts_last_codec := codec, ts_last_v2_flags := vflags,
        ts_mode_changed_count :=
          (if mode_changed then ts_mode_changed_count t + 1 else ts_mode_changed_count t),
        ts_udp_send_await_samples := ts_udp_send_await_samples t + 1,
        ts_udp_send_await_total_ms := ts_udp_send_await_total_ms t + udp_send_await_ms,
        ts_udp_send_await_max_ms := (if udp_send_await_ms > ts_udp_send_await_max_ms t
          then udp_send_await_ms else ts_udp_send_await_max_ms t),
        ts_last_peak := peak, ts_last_rms := rms\<rparr>)"

text \<open>What the dispatch observes of a wire frame.\<close>

definition observe_wire :: "'wr wire_frame_out \<Rightarrow> real \<Rightarrow> tx_stats \<Rightarrow> tx_stats" where
  "observe_wire wire udp_send_await_ms t =
     tx_observe (wf_packet wire) (length (wf_wire_bytes wire)) udp_send_await_ms
       (bc_data_plane (wf_client wire)) (wf_detected_wire_kind wire) (wf_v2_flags wire)
       (wf_mode_changed wire) (wf_codec wire) (wf_source_peak wire) (wf_source_rms wire) t"

text \<open>\<open>maybe_log\<close>: after a second the window starts anew, keeping what describes the last packet.\<close>

definition tx_maybe_log :: "nat \<Rightarrow> tx_stats \<Rightarrow> tx_stats" where
  "tx_maybe_log now t =
     (if now - ts_started_at t < 1000 then t
      else (tx_stats_new now)\<lparr>ts_data_plane := ts_data_plane t,
             ts_last_detected_wire_kind := ts_last_detected_wire_kind t,
             ts_last_codec := ts_last_codec t, ts_last_v2_flags := ts_last_v2_flags t\<rparr>)"

section \<open>Dispatch\<close>

fun sender_for_client :: "'sock \<Rightarrow> 'wr broadcast_client \<Rightarrow> ('sock, 'wr) data_plane" where
  "sender_for_client socket c =
     (case bc_transport c of
        Transport_Wifi addr \<Rightarrow>
          (case bc_data_plane c of
             LegacyLas1 \<Rightarrow> LegacyLas1DataPlane (Some socket) (Some addr)
           | V2Header \<Rightarrow> V2HeaderDataPlane (Some socket) (Some addr))
      | Transport_Usb writer \<Rightarrow> UsbDirectDataPlane (Some writer))"

record ('tx, 'wr, 'w) dispatch_state =
  ds_registry :: "('tx, 'wr) registry"
  ds_tx_stats :: tx_stats
  ds_world :: 'w
  ds_failed_wifi :: "uuid list"
  ds_failed_usb :: "uuid list"

definition dispatch_one ::
  "('sock \<Rightarrow> u8 list \<Rightarrow> socket_addr \<Rightarrow> 'w \<Rightarrow> (string + unit) \<times> 'w)
   \<Rightarrow> ('wr \<Rightarrow> u8 list \<Rightarrow> 'w \<Rightarrow> (string + unit) \<times> 'w) \<Rightarrow> 'sock \<Rightarrow> nat
   \<Rightarrow> 'wr wire_frame_out \<Rightarrow> ('tx, 'wr, 'w) dispatch_state \<Rightarrow> ('tx, 'wr, 'w) dispatch_state" where
  "dispatch_one udp_send stream_write socket now wire d =
     (let (result, world) = send_frame udp_send stream_write (sender_for_client socket (wf_client wire))
                              (wf_wire_bytes wire) (ds_world d);
          d = d\<lparr>ds_world := world\<rparr>;
          d = (case result of
             Inr _ \<Rightarrow>
               d\<lparr>ds_registry := (ds_registry d)\<lparr>reg_metrics :=
                    inc_packets (length (wf_wire_bytes wire)) (reg_metrics (ds_registry d))\<rparr>,
                 ds_tx_stats := observe_wire wire 0 (ds_tx_stats d)\<rparr>
           | Inl _ \<Rightarrow>
               (case bc_transport (wf_client wire) of
                  Transport_Wifi _ \<Rightarrow> d\<lparr>ds_failed_wifi := ds_failed_wifi d @ [bc_id (wf_client wire)]\<rparr>
                | Transport_Usb _ \<Rightarrow> d\<lparr>ds_failed_usb := ds_failed_usb d @ [bc_id (wf_client wire)]\<rparr>))
      in d\<lparr>ds_tx_stats := tx_maybe_log now (ds_tx_stats d)\<rparr>)"

text \<open>The failed clients, sorted and without duplicates, leave the registry or lose their stream.\<close>

definition dispatch_wire_frames ::
  "json_api \<Rightarrow> ('sock \<Rightarrow> u8 list \<Rightarrow> socket_addr \<Rightarrow> 'w \<Rightarrow> (string + unit) \<times> 'w)
   \<Rightarrow> ('wr \<Rightarrow> u8 list \<Rightarrow> 'w \<Rightarrow> (string + unit) \<times> 'w) \<Rightarrow> 'sock \<Rightarrow> nat
   \<Rightarrow> 'wr wire_frame_out list \<Rightarrow> tx_stats \<Rightarrow> ('tx, 'wr) registry \<Rightarrow> 'w
   \<Rightarrow> tx_stats \<times> ('tx, 'wr) registry \<times> 'w" where
  "dispatch_wire_frames js udp_send stream_write socket now wires t r w =
     (let d = fold (dispatch_one udp_send stream_write socket now) wires
                \<lparr>ds_registry = r, ds_tx_stats = t, ds_world = w, ds_failed_wifi = [], ds_failed_usb = []\<rparr>;
          r = fold (\<lambda>i r. snd (remove_client js i r)) (remdups_adj (sort (ds_failed_wifi d))) (ds_registry d);
          r = fold (\<lambda>i r. snd (mark_usb_transport_lost i now r)) (remdups_adj (sort (ds_failed_usb d))) r
      in (ds_tx_stats d, r, ds_world d))"

section \<open>Lemmas on dispatch\<close>

declare sender_for_client.simps [simp del]

text \<open>Which sends succeed: every frame is tried, in order, whatever happened to the ones before.\<close>

fun send_outcomes ::
  "('sock \<Rightarrow> u8 list \<Rightarrow> socket_addr \<Rightarrow> 'w \<Rightarrow> (string + unit) \<times> 'w)
   \<Rightarrow> ('wr \<Rightarrow> u8 list \<Rightarrow> 'w \<Rightarrow> (string + unit) \<times> 'w) \<Rightarrow> 'sock
   \<Rightarrow> 'wr wire_frame_out list \<Rightarrow> 'w \<Rightarrow> bool list \<times> 'w" where
  "send_outcomes us sw socket [] w = ([], w)"
| "send_outcomes us sw socket (x # xs) w =
     (let (result, w) = send_frame us sw (sender_for_client socket (wf_client x)) (wf_wire_bytes x) w;
          (oks, w) = send_outcomes us sw socket xs w
      in ((\<not> isl result) # oks, w))"

definition is_wifi :: "'wr wire_frame_out \<Rightarrow> bool" where
  "is_wifi x = (case bc_transport (wf_client x) of Transport_Wifi _ \<Rightarrow> True | Transport_Usb _ \<Rightarrow> False)"

definition failed_ids :: "('wr wire_frame_out \<Rightarrow> bool) \<Rightarrow> 'wr wire_frame_out list \<Rightarrow> bool list \<Rightarrow> uuid list" where
  "failed_ids P xs oks = map (\<lambda>p. wire_id (fst p)) (filter (\<lambda>(x, ok). \<not> ok \<and> P x) (zip xs oks))"

lemma dispatch_fold:
  assumes "fold (dispatch_one us sw socket now) xs d = d'" and "send_outcomes us sw socket xs (ds_world d) = (oks, w')"
  shows "ds_world d' = w' \<and> ds_failed_wifi d' = ds_failed_wifi d @ failed_ids is_wifi xs oks
    \<and> ds_failed_usb d' = ds_failed_usb d @ failed_ids (\<lambda>x. \<not> is_wifi x) xs oks
    \<and> length oks = length xs
    \<and> m_tx_packets (reg_metrics (ds_registry d'))
        = m_tx_packets (reg_metrics (ds_registry d)) + of_nat (length (filter id oks))
    \<and> m_active_sessions (reg_metrics (ds_registry d')) = m_active_sessions (reg_metrics (ds_registry d))
    \<and> (\<exists>m. ds_registry d' = (ds_registry d)\<lparr>reg_metrics := m\<rparr>)"
  using assms
proof (induction xs arbitrary: d oks)
  case Nil
  then show ?case by (auto simp: failed_ids_def intro: exI [of _ "reg_metrics (ds_registry d)"])
next
  case (Cons x xs)
  obtain r u where s: "send_frame us sw (sender_for_client socket (wf_client x)) (wf_wire_bytes x) (ds_world d) = (r, u)"
    by fastforce
  let ?d = "dispatch_one us sw socket now x d"
  have w: "ds_world ?d = u"
    by (simp add: dispatch_one_def s Let_def split: sum.split client_transport.split)
  obtain oks' where o: "send_outcomes us sw socket xs u = (oks', w')" "oks = (\<not> isl r) # oks'"
    using Cons.prems(2) s by (auto split: prod.splits)
  have step: "ds_failed_wifi ?d = ds_failed_wifi d @ (if isl r \<and> is_wifi x then [wire_id x] else [])"
    "ds_failed_usb ?d = ds_failed_usb d @ (if isl r \<and> \<not> is_wifi x then [wire_id x] else [])"
    "m_tx_packets (reg_metrics (ds_registry ?d))
      = m_tx_packets (reg_metrics (ds_registry d)) + (if \<not> isl r then 1 else 0)"
    "m_active_sessions (reg_metrics (ds_registry ?d)) = m_active_sessions (reg_metrics (ds_registry d))"
    "\<exists>m. ds_registry ?d = (ds_registry d)\<lparr>reg_metrics := m\<rparr>"
    by (cases r; cases "bc_transport (wf_client x)";
        auto simp: dispatch_one_def s Let_def is_wifi_def wire_id_def inc_packets_def
          intro: exI [of _ "reg_metrics (ds_registry d)"])+
  have "fold (dispatch_one us sw socket now) xs ?d = d'" using Cons.prems(1) by simp
  from Cons.IH [OF this, unfolded w, OF o(1)] step o(2) show ?case
    by (auto simp: failed_ids_def)
qed

lemma remove_clients_fold:
  "reg_clients (fold (\<lambda>i r. snd (remove_client js i r)) ids r) = filter (\<lambda>c. ch_id c \<notin> set ids) (reg_clients r)
   \<and> m_tx_packets (reg_metrics (fold (\<lambda>i r. snd (remove_client js i r)) ids r)) = m_tx_packets (reg_metrics r)
   \<and> reg_pending_usb_streams (fold (\<lambda>i r. snd (remove_client js i r)) ids r) = reg_pending_usb_streams r"
proof (induction ids arbitrary: r)
  case (Cons i ids)
  have "filter (\<lambda>c. ch_id c \<noteq> i) (reg_clients r) = reg_clients r" if "get_client i (reg_clients r) = None"
    using that by (auto simp: get_client_None filter_id_conv)
  then have "reg_clients (snd (remove_client js i r)) = filter (\<lambda>c. ch_id c \<noteq> i) (reg_clients r)"
    "m_tx_packets (reg_metrics (snd (remove_client js i r))) = m_tx_packets (reg_metrics r)"
    "reg_pending_usb_streams (snd (remove_client js i r)) = reg_pending_usb_streams r"
    by (auto simp: remove_client_def remove_client_locked_def dec_sessions_def split: option.split)
  with Cons.IH [of "snd (remove_client js i r)"] show ?case by (auto intro: filter_cong)
qed simp

definition drop_stream :: "uuid set \<Rightarrow> ('tx, 'wr) client_handle \<Rightarrow> ('tx, 'wr) client_handle" where
  "drop_stream I c = (if ch_id c \<in> I then c\<lparr>ch_transport := None\<rparr> else c)"

lemma get_client_drop: "get_client i (map (drop_stream I) cs) = map_option (drop_stream I) (get_client i cs)"
  by (induction cs) (auto simp: get_client_def drop_stream_def)

lemma lost_clients_fold:
  "reg_clients (fold (\<lambda>i r. snd (mark_usb_transport_lost i now r)) ids r) = map (drop_stream (set ids)) (reg_clients r)
   \<and> reg_metrics (fold (\<lambda>i r. snd (mark_usb_transport_lost i now r)) ids r) = reg_metrics r
   \<and> reg_pending_usb_streams (fold (\<lambda>i r. snd (mark_usb_transport_lost i now r)) ids r)
       = reg_pending_usb_streams r"
proof (induction ids arbitrary: r)
  case (Cons i ids)
  have "map (drop_stream {i}) (reg_clients r) = reg_clients r" if "get_client i (reg_clients r) = None"
    using that by (auto simp: get_client_None drop_stream_def intro!: map_idI)
  then have "reg_clients (snd (mark_usb_transport_lost i now r)) = map (drop_stream {i}) (reg_clients r)"
    "reg_metrics (snd (mark_usb_transport_lost i now r)) = reg_metrics r"
    "reg_pending_usb_streams (snd (mark_usb_transport_lost i now r)) = reg_pending_usb_streams r"
    by (auto simp: mark_usb_transport_lost_def Let_def update_client_def drop_stream_def split: option.split)
  with Cons.IH [of "snd (mark_usb_transport_lost i now r)"] show ?case
    by (auto simp: drop_stream_def)
qed (simp add: drop_stream_def map_idI)

lemma remove_clients_inv:
  "reg_inv r \<Longrightarrow> sessions_ok r \<Longrightarrow> reg_inv (fold (\<lambda>i r. snd (remove_client js i r)) ids r)
    \<and> sessions_ok (fold (\<lambda>i r. snd (remove_client js i r)) ids r)"
  by (induction ids arbitrary: r) (simp_all add: remove_inv remove_sessions)

lemma lost_clients_inv:
  "reg_inv r \<Longrightarrow> sessions_ok r \<Longrightarrow> reg_inv (fold (\<lambda>i r. snd (mark_usb_transport_lost i now r)) ids r)
    \<and> sessions_ok (fold (\<lambda>i r. snd (mark_usb_transport_lost i now r)) ids r)"
  by (induction ids arbitrary: r) (simp_all add: lost_inv other_ops_sessions)

text \<open>The registry's invariant alone, whatever the session count is.\<close>

lemma removes_keep_inv: "reg_inv r \<Longrightarrow> reg_inv (fold (\<lambda>i r. snd (remove_client js i r)) ids r)"
  by (induction ids arbitrary: r) (simp_all add: remove_inv)

lemma losses_keep_inv: "reg_inv r \<Longrightarrow> reg_inv (fold (\<lambda>i r. snd (mark_usb_transport_lost i now r)) ids r)"
  by (induction ids arbitrary: r) (simp_all add: lost_inv)

lemma dispatch_keeps_inv:
  assumes "reg_inv r" and "dispatch_wire_frames js us sw socket now xs t r w = (t', r', w')"
  shows "reg_inv r'"
proof -
  let ?d0 = "\<lparr>ds_registry = r, ds_tx_stats = t, ds_world = w, ds_failed_wifi = [], ds_failed_usb = []\<rparr>"
  obtain oks u where "send_outcomes us sw socket xs (ds_world ?d0) = (oks, u)" by fastforce
  from dispatch_fold [OF refl this, of now] obtain m
    where m: "ds_registry (fold (dispatch_one us sw socket now) xs ?d0) = r\<lparr>reg_metrics := m\<rparr>" by auto
  have "reg_inv (r\<lparr>reg_metrics := m\<rparr>)" using assms(1) reg_inv_cong [of "r\<lparr>reg_metrics := m\<rparr>" r] by simp
  then show ?thesis
    using assms(2) by (auto simp: dispatch_wire_frames_def Let_def m intro!: losses_keep_inv removes_keep_inv)
qed

section \<open>Properties\<close>

text \<open>
  C10: dispatch and its failures. Every wire frame is tried once, in order, whatever happened to
  the others. The packet counter grows by the number of successes; a client with a failed UDP send
  leaves the registry, one with a failed stream write keeps its place and loses its stream, all
  other clients are as they were and stay in order, the failed frames are not sent again, and the
  invariant of the registry and its session count hold afterwards.
\<close>
theorem dispatch_outcome:
  assumes "reg_inv r" and "sessions_ok r"
    and "dispatch_wire_frames js us sw socket now xs t r w = (t', r', w')"
    and "send_outcomes us sw socket xs w = (oks, u)"
  shows "w' = u \<and> length oks = length xs
    \<and> reg_clients r' = map (drop_stream (set (failed_ids (\<lambda>x. \<not> is_wifi x) xs oks)))
        (filter (\<lambda>c. ch_id c \<notin> set (failed_ids is_wifi xs oks)) (reg_clients r))
    \<and> m_tx_packets (reg_metrics r') = m_tx_packets (reg_metrics r) + of_nat (length (filter id oks))
    \<and> reg_inv r' \<and> sessions_ok r'"
proof -
  let ?d0 = "\<lparr>ds_registry = r, ds_tx_stats = t, ds_world = w, ds_failed_wifi = [], ds_failed_usb = []\<rparr>"
  obtain d where d: "fold (dispatch_one us sw socket now) xs ?d0 = d" by blast
  have f: "ds_world d = u" "ds_failed_wifi d = failed_ids is_wifi xs oks"
    "ds_failed_usb d = failed_ids (\<lambda>x. \<not> is_wifi x) xs oks" "length oks = length xs"
    "m_tx_packets (reg_metrics (ds_registry d)) = m_tx_packets (reg_metrics r) + of_nat (length (filter id oks))"
    "m_active_sessions (reg_metrics (ds_registry d)) = m_active_sessions (reg_metrics r)"
    "\<exists>m. ds_registry d = r\<lparr>reg_metrics := m\<rparr>"
    using dispatch_fold [OF d] assms(4) by simp_all
  have c: "reg_clients (ds_registry d) = reg_clients r"
    "reg_pending_usb_clients (ds_registry d) = reg_pending_usb_clients r"
    using f(7) by auto
  have i: "reg_inv (ds_registry d)" "sessions_ok (ds_registry d)"
    using assms(1,2) c f(6) reg_inv_cong [OF c] by (simp_all add: sessions_ok_def)
  let ?W = "remdups_adj (sort (ds_failed_wifi d))" and ?U = "remdups_adj (sort (ds_failed_usb d))"
  let ?r = "fold (\<lambda>i r. snd (remove_client js i r)) ?W (ds_registry d)"
  have r': "t' = ds_tx_stats d" "w' = ds_world d"
    "r' = fold (\<lambda>i r. snd (mark_usb_transport_lost i now r)) ?U ?r"
    using assms(3) by (simp_all add: dispatch_wire_frames_def d)
  have "reg_inv ?r" "sessions_ok ?r" using remove_clients_inv [OF i] by blast+
  from lost_clients_inv [OF this] show ?thesis
    using remove_clients_fold [of js ?W "ds_registry d"] lost_clients_fold [of now ?U ?r] f c
    unfolding r' by simp
qed

text \<open>
  A failure on an old stream drops the new one. A wire frame carries the stream its client had
  when the frame was captured. When that stream breaks and the client has been given a new one in
  the meantime, the failed write marks the client as lost: it gives up the new stream, over which
  nothing was written, waits for yet another connection, and the new stream is not queued either.
\<close>
theorem usb_stale_failure_drops_new_stream:
  assumes "reg_inv r" and "get_client i (reg_clients r) = Some c"
    and "ch_transport c = Some (Transport_Usb new_stream)"
    and "wire_id x = i" and "bc_transport (wf_client x) = Transport_Usb old_stream"
    and "send_frame us sw (UsbDirectDataPlane (Some old_stream)) (wf_wire_bytes x) w = (Inl e, u)"
    and "dispatch_wire_frames js us sw socket now [x] t r w = (t', r', w')"
  shows "w' = u \<and> get_client i (reg_clients r') = Some (c\<lparr>ch_transport := None\<rparr>)
    \<and> i \<in> fst ` set (reg_pending_usb_clients r')
    \<and> reg_pending_usb_streams r' = reg_pending_usb_streams r"
proof -
  have s: "sender_for_client socket (wf_client x) = UsbDirectDataPlane (Some old_stream)"
    using assms(5) by (simp add: sender_for_client.simps)
  have r': "w' = u" "r' = snd (mark_usb_transport_lost i now r)"
    using assms(7) by (simp_all add: dispatch_wire_frames_def dispatch_one_def s assms(5)
        assms(6) [unfolded send_frame.simps] assms(4) [unfolded wire_id_def] Let_def)
  have "reg_inv r'" unfolding r'(2) using assms(1) by (rule lost_inv)
  have p: "ch_prefers_usb_transport c"
    using assms(1-3) get_client_SomeD [OF assms(2)] by (auto simp: reg_inv_def clients_ok_def client_ok_def)
  have g: "get_client i (reg_clients r') = Some (c\<lparr>ch_transport := None\<rparr>)"
    using lost_clients_fold [of now "[i]" r] assms(2) get_client_SomeD [OF assms(2)]
    by (simp add: r'(2) get_client_drop) (simp add: drop_stream_def)
  moreover have "i \<in> fst ` set (reg_pending_usb_clients r')"
    using \<open>reg_inv r'\<close> get_client_SomeD [OF g] p
    unfolding reg_inv_def waiting_ids_def waits_for_stream_def
    by (auto simp: image_iff intro!: bexI [of _ "c\<lparr>ch_transport := None\<rparr>"])
  moreover have "reg_pending_usb_streams r' = reg_pending_usb_streams r"
    using lost_clients_fold [of now "[i]" r] by (simp add: r'(2))
  ultimately show ?thesis using r'(1) by blast
qed

section \<open>Concrete runs\<close>

definition stale_wire :: "nat wire_frame_out" where
  "stale_wire = \<lparr>wf_client = sample_client 1 Balanced,
     wf_packet = packet_of \<lparr>ef_pts_ms = 0, ef_sample_rate = 48000, ef_channels = 2,
        ef_frames_per_packet = 480, ef_codec = Udp_Pcm16, ef_is_silence = False, ef_source_peak = 0,
        ef_source_rms = 0, ef_payload = []\<rparr> 0,
     wf_wire_bytes = [1, 2], wf_v2_flags = 0, wf_mode_changed = False, wf_codec = Udp_Pcm16,
     wf_source_peak = 0, wf_source_rms = 0, wf_detected_wire_kind = UnknownKind\<rparr>"

text \<open>Stream 0 is broken, every other stream takes what it is given.\<close>

definition sample_stream_write :: "nat \<Rightarrow> u8 list \<Rightarrow> nat \<Rightarrow> (string + unit) \<times> nat" where
  "sample_stream_write wr bytes w = (if wr = 0 then Inl ''broken pipe'' else Inr (), w + 1)"

definition sample_udp_send :: "unit \<Rightarrow> u8 list \<Rightarrow> socket_addr \<Rightarrow> nat \<Rightarrow> (string + unit) \<times> nat" where
  "sample_udp_send socket bytes target w = (Inr (), w + 1)"

definition streaming_registry :: "(nat, nat) registry" where
  "streaming_registry = attach_usb_stream 5 10 sample_registry"

lemma streaming_registry_inv: "reg_inv streaming_registry"
  unfolding streaming_registry_def
  by (intro attach_inv reg_reachable_inv) (rule sample_registry_reachable)

lemma streaming_registry_client:
  "\<exists>c. reg_clients streaming_registry = [c] \<and> ch_id c = 1 \<and> ch_transport c = Some (Transport_Usb 5)"
  by (simp add: streaming_registry_def attach_usb_stream_def drop_expired_def expired_pending_def
      register_eval USB_PENDING_TIMEOUT_SECS_def update_client_def set_usb_stream_def)

lemma streaming_registry_sessions: "sessions_ok streaming_registry"
  by (simp add: sessions_ok_def streaming_registry_def attach_usb_stream_def drop_expired_def
      expired_pending_def register_eval USB_PENDING_TIMEOUT_SECS_def update_client_def
      set_usb_stream_def metrics_default_def)

lemma stale_send:
  "send_frame sample_udp_send sample_stream_write (UsbDirectDataPlane (Some 0)) [1, 2] w
    = (Inl (SendFailed ''broken pipe''), w + 1)"
  by (simp add: send_usb_def write_length_prefixed_frame_def sample_stream_write_def)

theorem dispatch_outcome_witness:
  "map ch_transport (reg_clients (fst (snd (dispatch_wire_frames sample_json sample_udp_send
     sample_stream_write () 20 [stale_wire] (tx_stats_new 0) streaming_registry 0)))) = [None]"
proof -
  obtain t' r' w' where d: "dispatch_wire_frames sample_json sample_udp_send sample_stream_write () 20
      [stale_wire] (tx_stats_new 0) streaming_registry 0 = (t', r', w')" by (metis prod_cases3)
  have s: "send_outcomes sample_udp_send sample_stream_write () [stale_wire] 0 = ([False], 1)"
    using stale_send [of 0] by (simp add: stale_wire_def sample_client_def sender_for_client.simps)
  show ?thesis
    using dispatch_outcome [OF streaming_registry_inv streaming_registry_sessions d s]
      streaming_registry_client unfolding d
    by (auto simp: failed_ids_def is_wifi_def wire_id_def stale_wire_def sample_client_def drop_stream_def)
qed

theorem usb_stale_failure_drops_new_stream_witness:
  "1 \<in> fst ` set (reg_pending_usb_clients (fst (snd (dispatch_wire_frames sample_json sample_udp_send
     sample_stream_write () 20 [stale_wire] (tx_stats_new 0) streaming_registry 0))))"
proof -
  obtain t' r' w' where d: "dispatch_wire_frames sample_json sample_udp_send sample_stream_write () 20
      [stale_wire] (tx_stats_new 0) streaming_registry 0 = (t', r', w')" by (metis prod_cases3)
  obtain c where c: "get_client 1 (reg_clients streaming_registry) = Some c"
    "ch_transport c = Some (Transport_Usb 5)"
    using streaming_registry_client by (auto simp: get_client_def)
  have x: "wire_id stale_wire = 1" "bc_transport (wf_client stale_wire) = Transport_Usb 0"
    "wf_wire_bytes stale_wire = [1, 2]"
    by (simp_all add: wire_id_def stale_wire_def sample_client_def)
  show ?thesis
    using usb_stale_failure_drops_new_stream [OF streaming_registry_inv c x(1,2) _ d]
      stale_send [of 0] unfolding d x(3) by auto
qed

end
