(* ===== verification/Broadcast_Pipeline.thy ===== *)
theory Broadcast_Pipeline
  imports Broadcast_Transport
begin

text \<open>
  The loop of the broadcast transport (\<open>BroadcastTransport::run\<close> of
  \<open>crates/lan_audio_server/src/transport.rs\<close>): the capture task, the watchdog task, the encode worker
  and the dispatch, with what they share. The tasks interleave freely: an event is one turn of one
  of them, or an operation of the session server on the shared registry.
\<close>

section \<open>The state and the turns of the tasks\<close>

text \<open>
  The registry with the metrics, the tier the watchdog publishes, the bounded channel of captured
  frames, the unbounded channels of jobs and of results. \<open>bp_history\<close> records every wire frame the
  worker ever produced, \<open>bp_dispatched\<close> those handed to the sockets and \<open>bp_numbers\<close> counts, without
  the wrap-around of the 32-bit counter, the numbers that the packets of the jobs needed; the code
  has none of the three, and no operation reads them.
\<close>

record ('tx, 'wr, 'w, 'o, 'r) broadcast_state =
  bp_registry :: "('tx, 'wr) registry"
  bp_world :: 'w
  bp_handoff :: handoff_stats
  bp_frames :: "audio_frame list"
  bp_runtime :: "adaptive_runtime option"
  bp_current_tier :: degradation_tier
  bp_jobs :: "'wr encode_job list"
  bp_worker :: "('o, 'r) encode_worker"
  bp_results :: "'wr wire_frame_out list list"
  bp_tx_stats :: tx_stats
  bp_history :: "'wr wire_frame_out list"
  bp_dispatched :: "'wr wire_frame_out list"
  bp_numbers :: nat

definition FRAME_CHANNEL_CAPACITY :: nat where "FRAME_CHANNEL_CAPACITY = 64"

definition transport_start ::
  "bool \<Rightarrow> ('tx, 'wr) registry \<Rightarrow> 'w \<Rightarrow> nat \<Rightarrow> ('tx, 'wr, 'w, 'o, 'r) broadcast_state" where
  "transport_start adaptive_enabled r w now =
     \<lparr>bp_registry = r, bp_world = w, bp_handoff = handoff_new now, bp_frames = [],
      bp_runtime = (if adaptive_enabled
        then Some (runtime_new watchdog_config_default 3 100 100 500) else None),
      bp_current_tier = Green, bp_jobs = [], bp_worker = worker_new 0, bp_results = [],
      bp_tx_stats = tx_stats_new now, bp_history = [], bp_dispatched = [],
      bp_numbers = 0\<rparr>"

text \<open>
  A read of the capture task. A frame waits \<open>block_ms\<close> for room in the channel; the turn is one
  step because nobody else touches the task's own state meanwhile.
\<close>

definition on_capture ::
  "capture_error + audio_frame \<Rightarrow> capture_source_state \<Rightarrow> string option \<Rightarrow> real \<Rightarrow> nat
   \<Rightarrow> ('tx, 'wr, 'w, 'o, 'r) broadcast_state \<Rightarrow> ('tx, 'wr, 'w, 'o, 'r) broadcast_state" where
  "on_capture frame_result source_state device block_ms now b =
     (let (frame, m) = capture_turn frame_result source_state device (reg_metrics (bp_registry b));
          b = b\<lparr>bp_registry := (bp_registry b)\<lparr>reg_metrics := m\<rparr>\<rparr>
      in case frame of None \<Rightarrow> b
         | Some f \<Rightarrow> b\<lparr>bp_frames := bp_frames b @ [f],
             bp_handoff := handoff_maybe_log now (record_frame_tx_block block_ms (bp_handoff b))\<rparr>)"

text \<open>A captured frame: the recipients of the moment get it, in a job with the tier of the moment.\<close>

definition on_frame ::
  "audio_frame \<Rightarrow> ('tx, 'wr, 'w, 'o, 'r) broadcast_state \<Rightarrow> ('tx, 'wr, 'w, 'o, 'r) broadcast_state" where
  "on_frame frame b =
     (let (clients, r) = take_broadcast_clients (bp_registry b);
          b = b\<lparr>bp_registry := r\<rparr>
      in if clients = [] then b
         else b\<lparr>bp_jobs := bp_jobs b @ [\<lparr>job_frame = frame, job_clients = clients,
                  job_active_tier = (case bp_runtime b of None \<Rightarrow> Green
                                     | Some _ \<Rightarrow> bp_current_tier b)\<rparr>]\<rparr>)"

text \<open>A tick of the watchdog task: the queue signals are constants on this path.\<close>

definition observation_of :: "watermark_report \<Rightarrow> watermark_observation" where
  "observation_of w =
     \<lparr>wo_jitter_buf_ms = wr_jitter_buf_ms w, wo_ring_buf_ms = wr_ring_buf_ms w,
      wo_silence_fill_delta = wr_silence_fill_delta w, wo_underrun_delta = wr_underrun_delta w,
      wo_jitter_p95_us = wr_jitter_p95_us w\<rparr>"

definition publish_decision :: "adaptive_decision \<Rightarrow> real \<Rightarrow> metrics \<Rightarrow> metrics" where
  "publish_decision decision queue_ratio m =
     set_adaptive_queue_ratio queue_ratio
       (set_adaptive_predicted_cpu_percent (ad_predicted_cpu decision)
         (set_adaptive_tier (tier_label (ad_tier decision)) m))"

definition on_watchdog_tick ::
  "real option \<Rightarrow> ('tx, 'wr, 'w, 'o, 'r) broadcast_state \<Rightarrow> ('tx, 'wr, 'w, 'o, 'r) broadcast_state" where
  "on_watchdog_tick cpu b =
     (case bp_runtime b of None \<Rightarrow> b
      | Some a \<Rightarrow>
          let (report, r) = take_latest_watermark (bp_registry b);
              (decision, a) = runtime_tick cpu 0 64 0 (map_option observation_of report) a
          in b\<lparr>bp_registry := r\<lparr>reg_metrics := publish_decision decision 0 (reg_metrics r)\<rparr>,
               bp_runtime := Some a, bp_current_tier := ad_tier decision\<rparr>)"

text \<open>A turn of the worker on the oldest job, and the dispatch of the oldest result.\<close>

definition worker_turn ::
  "'o opus_api \<Rightarrow> 'r resampler_api \<Rightarrow> 'wr encode_job \<Rightarrow> encoder_key list
   \<Rightarrow> ('tx, 'wr, 'w, 'o, 'r) broadcast_state \<Rightarrow> ('tx, 'wr, 'w, 'o, 'r) broadcast_state" where
  "worker_turn oa rs job keys b =
     (let (wires, w) = process_job oa rs job keys (bp_worker b)
      in b\<lparr>bp_worker := w, bp_results := bp_results b @ [wires],
           bp_history := bp_history b @ wires,
           bp_numbers := bp_numbers b + job_numbers oa rs job keys (bp_worker b)\<rparr>)"

definition on_result ::
  "json_api \<Rightarrow> ('sock \<Rightarrow> u8 list \<Rightarrow> socket_addr \<Rightarrow> 'w \<Rightarrow> (string + unit) \<times> 'w)
   \<Rightarrow> ('wr \<Rightarrow> u8 list \<Rightarrow> 'w \<Rightarrow> (string + unit) \<times> 'w) \<Rightarrow> 'sock \<Rightarrow> nat \<Rightarrow> 'wr wire_frame_out list
   \<Rightarrow> ('tx, 'wr, 'w, 'o, 'r) broadcast_state \<Rightarrow> ('tx, 'wr, 'w, 'o, 'r) broadcast_state" where
  "on_result js us sw socket now wires b =
     (let (t, r, w) = dispatch_wire_frames js us sw socket now wires (bp_tx_stats b)
                        (bp_registry b) (bp_world b)
      in b\<lparr>bp_tx_stats := t, bp_registry := r, bp_world := w,
           bp_dispatched := bp_dispatched b @ wires\<rparr>)"

section \<open>The machine\<close>

datatype ('tx, 'wr) broadcast_event =
    Ev_Capture "capture_error + audio_frame" capture_source_state "string option" real nat
  | Ev_Frame
  | Ev_Watchdog "real option"
  | Ev_Worker "encoder_key list"
  | Ev_Result nat
  | Ev_Attach 'wr nat
  | Ev_Session "('tx, 'wr) reg_op"

text \<open>
  An event that cannot happen is refused: a frame when the channel is full, a turn on an empty
  queue, an order of groups that is not one of the job's, an operation on the registry that the
  session server does not make. \<open>Ev_Attach\<close> is a connection to the listener for USB streams.
\<close>

fun broadcast_step ::
  "json_api \<Rightarrow> 'o opus_api \<Rightarrow> 'r resampler_api
   \<Rightarrow> ('sock \<Rightarrow> u8 list \<Rightarrow> socket_addr \<Rightarrow> 'w \<Rightarrow> (string + unit) \<times> 'w)
   \<Rightarrow> ('wr \<Rightarrow> u8 list \<Rightarrow> 'w \<Rightarrow> (string + unit) \<times> 'w) \<Rightarrow> 'sock \<Rightarrow> ('tx, 'wr) broadcast_event
   \<Rightarrow> ('tx, 'wr, 'w, 'o, 'r) broadcast_state \<Rightarrow> unit + ('tx, 'wr, 'w, 'o, 'r) broadcast_state" where
  "broadcast_step js oa rs us sw socket (Ev_Capture res st device block_ms now) b =
     (if length (bp_frames b) < FRAME_CHANNEL_CAPACITY
      then Inr (on_capture res st device block_ms now b) else Inl ())"
| "broadcast_step js oa rs us sw socket Ev_Frame b =
     (case bp_frames b of [] \<Rightarrow> Inl ()
      | f # fs \<Rightarrow> Inr (on_frame f (b\<lparr>bp_frames := fs\<rparr>)))"
| "broadcast_step js oa rs us sw socket (Ev_Watchdog cpu) b = Inr (on_watchdog_tick cpu b)"
| "broadcast_step js oa rs us sw socket (Ev_Worker keys) b =
     (case bp_jobs b of [] \<Rightarrow> Inl ()
      | job # jobs \<Rightarrow>
          if valid_order keys job then Inr (worker_turn oa rs job keys (b\<lparr>bp_jobs := jobs\<rparr>))
          else Inl ())"
| "broadcast_step js oa rs us sw socket (Ev_Result now) b =
     (case bp_results b of [] \<Rightarrow> Inl ()
      | wires # results \<Rightarrow> Inr (on_result js us sw socket now wires (b\<lparr>bp_results := results\<rparr>)))"
| "broadcast_step js oa rs us sw socket (Ev_Attach stream now) b =
     Inr (b\<lparr>bp_registry := attach_usb_stream stream now (bp_registry b)\<rparr>)"
| "broadcast_step js oa rs us sw socket (Ev_Session x) b =
     (case reg_step js x (bp_registry b) of Inl _ \<Rightarrow> Inl ()
      | Inr r \<Rightarrow> Inr (b\<lparr>bp_registry := r\<rparr>))"

section \<open>The invariant of the pipeline\<close>

definition job_ok :: "adaptive_runtime option \<Rightarrow> 'wr encode_job \<Rightarrow> bool" where
  "job_ok runtime job \<longleftrightarrow> distinct (map bc_id (job_clients job)) \<and> job_clients job \<noteq> []
     \<and> (runtime = None \<longrightarrow> job_active_tier job = Green)"

definition pipeline_inv :: "('tx, 'wr, 'w, 'o, 'r) broadcast_state \<Rightarrow> bool" where
  "pipeline_inv b \<longleftrightarrow> reg_inv (bp_registry b)
     \<and> length (bp_frames b) \<le> FRAME_CHANNEL_CAPACITY
     \<and> (\<forall>job \<in> set (bp_jobs b). job_ok (bp_runtime b) job)
     \<and> ew_sequence (bp_worker b) = of_nat (bp_numbers b)
     \<and> numbered 0 (bp_numbers b) (bp_history b)
     \<and> bp_history b = bp_dispatched b @ concat (bp_results b)"

lemma pipeline_start_inv: "reg_inv r \<Longrightarrow> pipeline_inv (transport_start adaptive_enabled r w now)"
  by (auto simp: pipeline_inv_def transport_start_def worker_new_def numbered_Nil)

lemma snapshot_ids: "map bc_id (fst (take_broadcast_clients r))
    = map ch_id (filter (\<lambda>c. ch_transport c \<noteq> None) (reg_clients r))"
proof -
  have "map bc_id (List.map_filter broadcast_view cs) = map ch_id (filter (\<lambda>c. ch_transport c \<noteq> None) cs)"
    for cs :: "('b, 'a) client_handle list"
    by (induction cs) (auto simp: map_filter_simps broadcast_view_def split: option.splits)
  from this [of "reg_clients r"] show ?thesis by (simp only: take_broadcast_clients_def fst_conv)
qed

lemma snapshot_distinct: "reg_inv r \<Longrightarrow> distinct (map bc_id (fst (take_broadcast_clients r)))"
  by (simp add: snapshot_ids distinct_map_filter reg_inv_def clients_ok_def)

lemma numbered_from_0: "numbered 0 n ws \<longleftrightarrow> (n \<le> 2 ^ 32 \<longrightarrow> (\<forall>x \<in> set ws. unat (wire_seq x) < n)
    \<and> (\<forall>i. sorted_wrt (<) (numbers_of i ws)))"
  by (simp add: numbered_def sorted_wrt_map word_less_nat_alt [symmetric])

lemma reg_inv_metrics [simp]: "reg_inv (r\<lparr>reg_metrics := m\<rparr>) = reg_inv r"
  by (rule reg_inv_cong) simp_all

lemma capture_step_inv:
  "pipeline_inv b \<Longrightarrow> length (bp_frames b) < FRAME_CHANNEL_CAPACITY \<Longrightarrow>
    pipeline_inv (on_capture res st device block_ms now b)"
  by (auto simp: on_capture_def Let_def pipeline_inv_def split: prod.split option.split)

lemma frame_step_inv:
  assumes "pipeline_inv b" and "bp_frames b = f # fs"
  shows "pipeline_inv (on_frame f (b\<lparr>bp_frames := fs\<rparr>))"
proof -
  obtain cs r where t: "take_broadcast_clients (bp_registry b) = (cs, r)" by fastforce
  have "reg_inv (bp_registry b)" using assms(1) by (simp add: pipeline_inv_def)
  then have "reg_inv r" "distinct (map bc_id cs)"
    using take_inv [of "bp_registry b"] snapshot_distinct [of "bp_registry b"] t by simp_all
  then show ?thesis
    using assms by (auto simp: on_frame_def Let_def t pipeline_inv_def job_ok_def split: option.split)
qed

lemma watchdog_step_pinv: "pipeline_inv b \<Longrightarrow> pipeline_inv (on_watchdog_tick cpu b)"
  using reg_inv_cong [of "(bp_registry b)\<lparr>reg_latest_watermark := None\<rparr>" "bp_registry b"]
  by (auto simp: on_watchdog_tick_def pipeline_inv_def job_ok_def take_latest_watermark_def
      split: option.split prod.split)

lemma worker_step_inv:
  assumes "pipeline_inv b" and "bp_jobs b = job # jobs" and "valid_order keys job"
  shows "pipeline_inv (worker_turn oa rs job keys (b\<lparr>bp_jobs := jobs\<rparr>))"
proof -
  obtain ws w where p: "process_job oa rs job keys (bp_worker b) = (ws, w)" by fastforce
  let ?n = "bp_numbers b" and ?m = "job_numbers oa rs job keys (bp_worker b)"
  have n: "ew_sequence (bp_worker b) = of_nat ?n" "numbered 0 ?n (bp_history b)"
    using assms(1) unfolding pipeline_inv_def by blast+
  have d: "distinct (map bc_id (job_clients job))"
    using assms by (simp add: pipeline_inv_def job_ok_def)
  note m = process_job_numbered [OF d assms(3) p]
  have "numbered 0 (?n + ?m) (bp_history b @ ws)"
    using numbered_append [OF n(2), of ?m ws] m(2) by (simp add: n(1))
  then show ?thesis
    using assms m(1) by (auto simp: worker_turn_def p pipeline_inv_def n(1))
qed

lemma result_step_inv:
  assumes "pipeline_inv b" and "bp_results b = ws # rest"
  shows "pipeline_inv (on_result js us sw socket now ws (b\<lparr>bp_results := rest\<rparr>))"
proof -
  obtain t r w where d: "dispatch_wire_frames js us sw socket now ws (bp_tx_stats b)
      (bp_registry b) (bp_world b) = (t, r, w)" by (metis prod_cases3)
  have "reg_inv (bp_registry b)" using assms(1) by (simp add: pipeline_inv_def)
  then have "reg_inv r" using dispatch_keeps_inv [OF _ d] by blast
  then show ?thesis using assms by (auto simp: on_result_def d pipeline_inv_def)
qed

lemma broadcast_step_inv:
  assumes "pipeline_inv b" and "broadcast_step js oa rs us sw socket x b = Inr b'"
  shows "pipeline_inv b'"
proof (cases x)
  case (Ev_Session y)
  then show ?thesis using assms reg_step_inv [of "bp_registry b" js y]
    by (auto simp: pipeline_inv_def split: sum.splits)
next
  case (Ev_Attach s now)
  then show ?thesis using assms attach_inv [of "bp_registry b" s now]
    by (auto simp: pipeline_inv_def)
qed (use assms in \<open>auto intro: capture_step_inv frame_step_inv watchdog_step_pinv worker_step_inv
      result_step_inv split: if_splits list.splits\<close>)

interpretation pipeline: guarded_machine "broadcast_step js oa rs us sw socket" pipeline_inv
  for js oa rs us sw socket
  by unfold_locales (rule broadcast_step_inv)

section \<open>Properties\<close>

text \<open>
  C8: however the tasks interleave. From the start of the transport on a registry that satisfies
  its invariant, any sequence of captured frames, watchdog ticks, turns of the worker, dispatches,
  stream connections and session operations keeps that invariant; at most 64 frames wait, every
  waiting job has distinct recipients; wire frames are dispatched in the order the worker made
  them, none lost and none twice. The shared counter stands, modulo \<open>2 ^ 32\<close>, at the count of the
  numbers that the packets of all jobs so far needed, and until that count passes \<open>2 ^ 32\<close> every
  frame carries a number below it and the numbers of the frames made for a client strictly increase,
  over the whole life of the transport and whatever became of the client in between.
\<close>
theorem pipeline_invariant:
  assumes "reg_inv r"
    and "run_ops (broadcast_step js oa rs us sw socket) evs (transport_start adaptive_enabled r w now) = Inr b"
  shows "reg_inv (bp_registry b) \<and> length (bp_frames b) \<le> 64
    \<and> (\<forall>job \<in> set (bp_jobs b). distinct (map bc_id (job_clients job)) \<and> job_clients job \<noteq> [])
    \<and> bp_history b = bp_dispatched b @ concat (bp_results b)
    \<and> ew_sequence (bp_worker b) = of_nat (bp_numbers b)
    \<and> (bp_numbers b \<le> 2 ^ 32 \<longrightarrow> (\<forall>x \<in> set (bp_history b). unat (wire_seq x) < bp_numbers b)
        \<and> (\<forall>i. sorted_wrt (<) (numbers_of i (bp_history b))))"
proof -
  have "pipeline_inv b" by (rule pipeline.run_ops_inv [OF pipeline_start_inv [OF assms(1)] assms(2)])
  then show ?thesis
    by (auto simp: pipeline_inv_def job_ok_def numbered_from_0 FRAME_CHANNEL_CAPACITY_def)
qed

lemma marks_cleared: "\<forall>c' \<in> set (fst (take_broadcast_clients (snd (take_broadcast_clients r)))).
    \<not> bc_first_packet c' \<and> \<not> bc_mode_changed c'"
proof -
  have "\<forall>c' \<in> set (List.map_filter broadcast_view (map (\<lambda>c. case ch_transport c of None \<Rightarrow> c
      | Some _ \<Rightarrow> c\<lparr>ch_pending_first_packet := False, ch_pending_mode_sync := False\<rparr>) cs)).
    \<not> bc_first_packet c' \<and> \<not> bc_mode_changed c'" for cs :: "('b, 'a) client_handle list"
    by (induction cs) (auto simp: map_filter_simps broadcast_view_def split: option.splits)
  from this [of "reg_clients r"] show ?thesis by (simp add: take_broadcast_clients_def del: set_map)
qed

lemma fresh_opus_ready:
  assumes "opus_encoder_new oa mode (normalize_encoder_sample_rate rate) = Inr oe" and "tier \<noteq> Red"
  shows "opus_ready (apply_tier_profile oa (tier_profile tier mode) mode
    (frame_encoder_new oa Sel_Opus mode rate))"
proof -
  have "\<not> tp_force_pcm16_fallback (tier_profile tier mode)"
    using assms(2) by (cases tier; cases mode) auto
  then show ?thesis
    using frame_encoder_new_ready [OF assms(1)]
    by (auto simp: opus_ready_def encoder_rates_ok_def apply_tier_profile_def split: option.splits)
qed

lemma fresh_opus_silent:
  assumes "encoder_key_of c = (Sel_Opus, mode, rate)" and "ew_encoders w (encoder_key_of c) = None"
    and "opus_encoder_new oa mode (normalize_encoder_sample_rate rate) = Inr oe"
    and "job_active_tier job \<noteq> Red"
  shows "fst (solo_encode oa rs job (encoder_key_of c) (apply_tier oa (job_active_tier job) w)) = []"
proof -
  have "ew_encoders (apply_tier oa (job_active_tier job) w) (encoder_key_of c) = None"
    using assms(1,2) by (simp add: apply_tier_def)
  then show ?thesis
    using encode_first_block [OF fresh_opus_ready [OF assms(3,4)], of oa rs "job_frame job" mode] assms(1)
    by (auto simp: solo_encode_def encoder_for_def)
qed

text \<open>
  C22: the marks of an Opus client are lost. The first frame for a key without an encoder only fills
  the half of the new encoder's buffer, so no wire frame goes to the client, but the snapshot for
  that frame has already cleared the first-packet and mode-changed marks: no later wire frame to
  the client carries them. This is what happens at the start of every Opus stream and, because the
  mode is part of the encoder's key, at every change of mode to one not used before.
\<close>
theorem opus_marks_lost:
  assumes "take_broadcast_clients (bp_registry b) = (cs, r)" and "c \<in> set cs" and "distinct (map bc_id cs)"
    and "bp_frames b = [f]" and "bp_jobs b = []" and "bp_current_tier b \<noteq> Red"
    and "bc_codec c = Sel_Opus" and "ew_encoders (bp_worker b) (encoder_key_of c) = None"
    and "opus_encoder_new oa (bc_audio_mode c)
           (normalize_encoder_sample_rate (bc_preferred_sample_rate c)) = Inr oe"
    and "run_ops (broadcast_step js oa rs us sw socket) [Ev_Frame, Ev_Worker keys] b = Inr b'"
  shows "\<exists>ws. bp_results b' = bp_results b @ [ws] \<and> (\<forall>x \<in> set ws. wire_id x \<noteq> bc_id c)
    \<and> (\<forall>c' \<in> set (fst (take_broadcast_clients (bp_registry b'))).
          \<not> bc_first_packet c' \<and> \<not> bc_mode_changed c')"
proof -
  define job where "job = \<lparr>job_frame = f, job_clients = cs,
    job_active_tier = (case bp_runtime b of None \<Rightarrow> Green | Some _ \<Rightarrow> bp_current_tier b)\<rparr>"
  have ne: "cs \<noteq> []" using assms(2) by auto
  obtain ws w' where p: "process_job oa rs job keys (bp_worker b) = (ws, w')" by fastforce
  have "on_frame f (b\<lparr>bp_frames := []\<rparr>) = b\<lparr>bp_frames := [], bp_registry := r, bp_jobs := [job]\<rparr>"
    using ne by (simp add: on_frame_def assms(1,5) Let_def job_def split: option.split)
  then have o: "valid_order keys job" and b': "bp_results b' = bp_results b @ [ws]" "bp_registry b' = r"
    using assms(10) by (auto simp: assms(4) worker_turn_def p split: if_splits)
  have t: "job_active_tier job \<noteq> Red" using assms(6) by (simp add: job_def split: option.split)
  have j: "distinct (map bc_id (job_clients job))" "c \<in> set (job_clients job)"
    using assms(2,3) by (simp_all add: job_def)
  have k: "encoder_key_of c = (Sel_Opus, bc_audio_mode c,
      normalize_encoder_sample_rate (bc_preferred_sample_rate c))"
    using assms(7) by (simp add: encoder_key_of_def)
  have "fst (solo_encode oa rs job (encoder_key_of c) (apply_tier oa (job_active_tier job) (bp_worker b))) = []"
    using assms(9) by (intro fresh_opus_silent [OF k assms(8) _ t]) simp
  then have "filter (\<lambda>x. wire_id x = bc_id c) ws = []"
    using groups_loop_client [OF j, of keys oa rs "apply_tier oa (job_active_tier job) (bp_worker b)"] o p j(2)
    by (auto simp: valid_order_def process_job_def client_wires_def)
  then have "\<forall>x \<in> set ws. wire_id x \<noteq> bc_id c" by (simp add: filter_empty_conv)
  moreover have "\<forall>c' \<in> set (fst (take_broadcast_clients r)). \<not> bc_first_packet c' \<and> \<not> bc_mode_changed c'"
    using marks_cleared [of "bp_registry b"] by (simp add: assms(1))
  ultimately show ?thesis using b' by auto
qed

section \<open>Concrete runs\<close>

definition opus_transport :: "(nat, nat, nat, unit, unit) broadcast_state" where
  "opus_transport = (transport_start False streaming_registry 0 0)\<lparr>bp_frames := [sample_frame]\<rparr>"

abbreviation sample_broadcast_step ::
  "(nat, nat) broadcast_event \<Rightarrow> (nat, nat, nat, unit, unit) broadcast_state
   \<Rightarrow> unit + (nat, nat, nat, unit, unit) broadcast_state" where
  "sample_broadcast_step \<equiv> broadcast_step sample_json sample_opus sample_resampler sample_udp_send
     sample_stream_write ()"

text \<open>
  A PCM16 client on WiFi, and two captured frames that go through the capture task, the snapshot and
  the worker: two numbers are taken, and the client's frames carry them in order.
\<close>

definition pcm_registry :: "(nat, nat) registry" where
  "pcm_registry = snd (register_client sample_json
     ((sample_request 1 ''k1'' (Kind_Wifi \<lparr>sa_ip = V4 10 0 0 2, sa_port = 9\<rparr>))\<lparr>rq_codec := Sel_Pcm16\<rparr>) 0
     (registry_new metrics_default))"

definition one_round :: "(nat, nat) broadcast_event list" where
  "one_round = [Ev_Capture (Inr sample_frame) Cap_Started None 0 0, Ev_Frame,
     Ev_Worker [(Sel_Pcm16, Balanced, 48000)]]"

lemma pcm_registry_inv: "reg_inv pcm_registry"
proof -
  let ?x = "Op_Register ((sample_request 1 ''k1'' (Kind_Wifi \<lparr>sa_ip = V4 10 0 0 2, sa_port = 9\<rparr>))\<lparr>rq_codec := Sel_Pcm16\<rparr>) 0"
  have "reg_step sample_json ?x (registry_new metrics_default) = Inr pcm_registry"
    by (simp add: reg_step_def pcm_registry_def registry_new_def sample_request_def)
  from reg_reachable_inv [OF reg_more [OF reg_init this]] show ?thesis .
qed

definition one_pcm_client :: "(nat, nat, nat, unit, unit) broadcast_state \<Rightarrow> bool" where
  "one_pcm_client b \<longleftrightarrow> bp_frames b = [] \<and> bp_jobs b = [] \<and> pcm16_pool (bp_worker b)
     \<and> (\<exists>c t. reg_clients (bp_registry b) = [c] \<and> ch_transport c = Some t \<and> ch_codec c = Sel_Pcm16
          \<and> ch_audio_mode c = Balanced \<and> ch_preferred_sample_rate c = 48000)"

lemma one_round_run:
  assumes "one_pcm_client b"
  shows "\<exists>b'. run_ops sample_broadcast_step one_round b = Inr b' \<and> one_pcm_client b'
    \<and> bp_numbers b' = bp_numbers b + 1"
proof -
  let ?k = "(Sel_Pcm16, Balanced, 48000) :: encoder_key"
  obtain c t where c: "reg_clients (bp_registry b) = [c]" "ch_transport c = Some t" "ch_codec c = Sel_Pcm16"
      "ch_audio_mode c = Balanced" "ch_preferred_sample_rate c = 48000"
    using assms unfolding one_pcm_client_def by blast
  have f: "bp_frames b = []" "bp_jobs b = []" and w: "pcm16_pool (bp_worker b)"
    using assms by (simp_all add: one_pcm_client_def)
  define b1 where "b1 = on_capture (Inr sample_frame) Cap_Started None 0 0 b"
  have b1: "bp_frames b1 = [sample_frame]" "bp_jobs b1 = []" "bp_worker b1 = bp_worker b"
      "bp_numbers b1 = bp_numbers b" "reg_clients (bp_registry b1) = [c]"
    by (simp_all add: b1_def on_capture_def capture_turn_def Let_def f c)
  obtain d where d: "broadcast_view c = Some d" "encoder_key_of d = ?k"
    using c by (simp add: broadcast_view_def encoder_key_of_def normalize_encoder_sample_rate_def)
  define b2 where "b2 = on_frame sample_frame (b1\<lparr>bp_frames := []\<rparr>)"
  obtain job e where b2: "bp_jobs b2 = [job]" "job_clients job = [d]" "bp_worker b2 = bp_worker b" "bp_frames b2 = []"
      "bp_numbers b2 = bp_numbers b" "reg_clients (bp_registry b2) = [e]" "ch_transport e = Some t" "ch_codec e = Sel_Pcm16"
      "ch_audio_mode e = Balanced" "ch_preferred_sample_rate e = 48000"
    using d(1) c by (simp add: b2_def on_frame_def take_broadcast_clients_def map_filter_simps b1 Let_def)
  have v: "valid_order [?k] job" by (simp add: valid_order_def b2 d(2))
  define b3 where "b3 = worker_turn sample_opus sample_resampler job [?k] (b2\<lparr>bp_jobs := []\<rparr>)"
  have "run_ops sample_broadcast_step one_round b = Inr b3"
    by (simp add: one_round_def f FRAME_CHANNEL_CAPACITY_def b1_def [symmetric] b1(1) b2_def [symmetric] b2(1) v b3_def)
  moreover have "one_pcm_client b3 \<and> bp_numbers b3 = bp_numbers b + 1"
    using pcm16_process_job [OF w, of "[?k]" sample_opus sample_resampler job]
    by (auto simp: b3_def worker_turn_def split_beta one_pcm_client_def b2)
  ultimately show ?thesis by blast
qed

lemma two_rounds:
  "\<exists>b. run_ops sample_broadcast_step (one_round @ one_round) (transport_start False pcm_registry 0 0) = Inr b
    \<and> bp_numbers b = 2"
proof -
  let ?s = "transport_start False pcm_registry 0 0 :: (nat, nat, nat, unit, unit) broadcast_state"
  have "one_pcm_client ?s"
    by (simp add: one_pcm_client_def transport_start_def pcm16_pool_def worker_new_def pcm_registry_def
        register_eval same_wifi_device_def)
  from one_round_run [OF this] obtain b1 where b1: "run_ops sample_broadcast_step one_round ?s = Inr b1"
      "one_pcm_client b1" "bp_numbers b1 = 1" by (auto simp: transport_start_def)
  from one_round_run [OF b1(2)] show ?thesis using b1 by (auto simp: run_ops_append)
qed

theorem pipeline_invariant_witness:
  "\<exists>b. run_ops sample_broadcast_step (one_round @ one_round) (transport_start False pcm_registry 0 0) = Inr b
    \<and> ew_sequence (bp_worker b) = 2 \<and> (\<forall>i. sorted_wrt (<) (numbers_of i (bp_history b)))"
proof -
  obtain b where b: "run_ops sample_broadcast_step (one_round @ one_round) (transport_start False pcm_registry 0 0) = Inr b"
      "bp_numbers b = 2"
    using two_rounds by blast
  note th = pipeline_invariant [OF pcm_registry_inv b(1), unfolded b(2)]
  have "ew_sequence (bp_worker b) = of_nat 2" "(2 :: nat) \<le> 2 ^ 32" using th by blast simp
  then show ?thesis using th b(1) by (intro exI [of _ b] conjI) (blast, simp, blast)
qed

theorem opus_marks_lost_witness:
  "\<exists>b'. run_ops sample_broadcast_step [Ev_Frame, Ev_Worker [(Sel_Opus, Balanced, 48000)]] opus_transport = Inr b'
    \<and> (\<forall>ws \<in> set (bp_results b'). \<forall>x \<in> set ws. wire_id x \<noteq> 1)"
proof -
  obtain c where c: "reg_clients streaming_registry = [c]" "ch_id c = 1"
    "ch_transport c = Some (Transport_Usb 5)" "ch_codec c = Sel_Opus" "ch_audio_mode c = Balanced"
    "ch_preferred_sample_rate c = 48000"
    by (simp add: streaming_registry_def attach_usb_stream_def drop_expired_def expired_pending_def
        register_eval USB_PENDING_TIMEOUT_SECS_def update_client_def set_usb_stream_def)
  obtain cs r where t: "take_broadcast_clients (bp_registry opus_transport) = (cs, r)" by fastforce
  obtain d where d: "cs = [d]" "bc_id d = 1" "bc_codec d = Sel_Opus" "bc_audio_mode d = Balanced"
    "bc_preferred_sample_rate d = 48000"
    using t c by (auto simp: opus_transport_def transport_start_def take_broadcast_clients_def
        map_filter_simps broadcast_view_def)
  have k: "encoder_key_of d = (Sel_Opus, Balanced, 48000)"
    by (simp add: encoder_key_of_def d normalize_encoder_sample_rate_def)
  obtain b' where b': "run_ops sample_broadcast_step [Ev_Frame, Ev_Worker [(Sel_Opus, Balanced, 48000)]]
      opus_transport = Inr b'"
    using t by (auto simp: opus_transport_def transport_start_def on_frame_def d Let_def valid_order_def k)
  have "\<exists>oe. opus_encoder_new sample_opus (bc_audio_mode d)
      (normalize_encoder_sample_rate (bc_preferred_sample_rate d)) = Inr oe"
    by (simp add: opus_encoder_new_def sample_opus_def)
  then obtain oe where oe: "opus_encoder_new sample_opus (bc_audio_mode d)
      (normalize_encoder_sample_rate (bc_preferred_sample_rate d)) = Inr oe" by blast
  have s: "bp_frames opus_transport = [sample_frame]" "bp_jobs opus_transport = []"
    "bp_current_tier opus_transport \<noteq> Red" "bp_results opus_transport = []"
    "ew_encoders (bp_worker opus_transport) (encoder_key_of d) = None"
    by (simp_all add: opus_transport_def transport_start_def worker_new_def)
  from opus_marks_lost [OF t _ _ s(1-3) d(3) s(5) oe b'] show ?thesis
    using b' by (auto simp: d s(4))
qed

end
