(* ===== verification/Text_Format.thy ===== *)
theory Text_Format
  imports Audio_Prelude
begin

text \<open>
  What the components use of Rust's text formatting: decimal and upper-case hexadecimal numbers
  (\<open>{}\<close>, \<open>{:02X}\<close>), debug lists, joining and splitting, ASCII classes, and \<open>str::replace\<close> of a
  two-character pattern. Strings are lists of ASCII characters.
\<close>

section \<open>Numbers\<close>

definition digit_char :: "nat \<Rightarrow> char" where
  "digit_char d = char_of (48 + d)"

fun show_nat :: "nat \<Rightarrow> string" where
  "show_nat n = (if n < 10 then [digit_char n] else show_nat (n div 10) @ [digit_char (n mod 10)])"

declare show_nat.simps [simp del]

definition hex_digit :: "nat \<Rightarrow> char" where
  "hex_digit d = (if d < 10 then char_of (48 + d) else char_of (55 + d))"

definition show_hex02 :: "u8 \<Rightarrow> string" where
  "show_hex02 b = [hex_digit (unat b div 16), hex_digit (unat b mod 16)]"

fun join_with :: "string \<Rightarrow> string list \<Rightarrow> string" where
  "join_with sep [] = ''''"
| "join_with sep [s] = s"
| "join_with sep (s # t # ts) = s @ sep @ join_with sep (t # ts)"

definition debug_list :: "string list \<Rightarrow> string" where
  "debug_list xs = ''['' @ join_with '', '' xs @ '']''"

lemma digit_char_value: "d < 10 \<Longrightarrow> of_char (digit_char d) = 48 + d" for d :: nat
  by (simp add: digit_char_def)

definition is_digit :: "char \<Rightarrow> bool" where
  "is_digit c \<longleftrightarrow> 48 \<le> (of_char c :: nat) \<and> (of_char c :: nat) \<le> 57"

lemma digit_char_digit: "d < 10 \<Longrightarrow> is_digit (digit_char d)"
  by (simp add: is_digit_def digit_char_value)

lemma show_nat_digits: "\<forall>c \<in> set (show_nat n). is_digit c"
proof (induction n rule: show_nat.induct)
  case (1 n)
  then show ?case by (subst show_nat.simps) (auto simp: digit_char_digit)
qed

lemma show_nat_nonempty [simp]: "show_nat n \<noteq> []"
  by (subst show_nat.simps) simp

text \<open>The decimal text determines the number: its value in base ten is the number.\<close>

definition decimal_value :: "string \<Rightarrow> nat" where
  "decimal_value s = fold (\<lambda>c v. 10 * v + (of_char c - 48)) s 0"

lemma decimal_show_nat: "decimal_value (show_nat n) = n"
proof (induction n rule: show_nat.induct)
  case (1 n)
  show ?case
  proof (cases "n < 10")
    case True
    then show ?thesis by (subst show_nat.simps) (simp add: decimal_value_def digit_char_value)
  next
    case False
    then have "decimal_value (show_nat (n div 10)) = n div 10" by (rule "1.IH")
    then show ?thesis using False
      by (subst show_nat.simps) (simp add: decimal_value_def digit_char_value)
  qed
qed

lemma show_nat_inject [simp]: "show_nat m = show_nat n \<longleftrightarrow> m = n"
  by (metis decimal_show_nat)

section \<open>Characters and pieces\<close>

definition is_lower :: "char \<Rightarrow> bool" where
  "is_lower c \<longleftrightarrow> 97 \<le> (of_char c :: nat) \<and> (of_char c :: nat) \<le> 122"

definition is_upper :: "char \<Rightarrow> bool" where
  "is_upper c \<longleftrightarrow> 65 \<le> (of_char c :: nat) \<and> (of_char c :: nat) \<le> 90"

definition is_alphanumeric :: "char \<Rightarrow> bool" where
  "is_alphanumeric c \<longleftrightarrow> is_digit c \<or> is_lower c \<or> is_upper c"

definition to_ascii_lowercase :: "char \<Rightarrow> char" where
  "to_ascii_lowercase c = (if is_upper c then char_of (of_char c + 32 :: nat) else c)"

text \<open>\<open>str::split\<close> on one character, and \<open>split_whitespace\<close>.\<close>

fun split_on :: "char \<Rightarrow> string \<Rightarrow> string list" where
  "split_on d [] = [[]]"
| "split_on d (c # cs) =
     (if c = d then [] # split_on d cs
      else case split_on d cs of [] \<Rightarrow> [[c]] | p # ps \<Rightarrow> (c # p) # ps)"

definition is_whitespace :: "char \<Rightarrow> bool" where
  "is_whitespace c \<longleftrightarrow> (of_char c :: nat) \<in> {9, 10, 11, 12, 13, 32}"

definition split_whitespace :: "string \<Rightarrow> string list" where
  "split_whitespace s =
     filter (\<lambda>p. p \<noteq> []) (split_on (CHR '' '') (map (\<lambda>c. if is_whitespace c then CHR '' '' else c) s))"

definition trim_end_matches :: "(char \<Rightarrow> bool) \<Rightarrow> string \<Rightarrow> string" where
  "trim_end_matches P s = rev (dropWhile P (rev s))"

definition trim_matches :: "(char \<Rightarrow> bool) \<Rightarrow> string \<Rightarrow> string" where
  "trim_matches P s = trim_end_matches P (dropWhile P s)"

definition trim :: "string \<Rightarrow> string" where
  "trim s = trim_matches is_whitespace s"

text \<open>\<open>str::lines\<close>: pieces between newlines without a trailing empty one; a final \<open>\\r\<close> is dropped.\<close>

definition strip_cr :: "string \<Rightarrow> string" where
  "strip_cr l = (if l \<noteq> [] \<and> last l = CHR 0x0D then butlast l else l)"

definition str_lines :: "string \<Rightarrow> string list" where
  "str_lines s =
     (let ps = split_on (CHR 0x0A) s in map strip_cr (if last ps = [] then butlast ps else ps))"

definition starts_with :: "string \<Rightarrow> string \<Rightarrow> bool" where
  "starts_with p s \<longleftrightarrow> take (length p) s = p"

definition strip_prefix :: "string \<Rightarrow> string \<Rightarrow> string option" where
  "strip_prefix p s = (if starts_with p s then Some (drop (length p) s) else None)"

definition eq_ignore_ascii_case :: "string \<Rightarrow> string \<Rightarrow> bool" where
  "eq_ignore_ascii_case s t \<longleftrightarrow> map to_ascii_lowercase s = map to_ascii_lowercase t"

lemma split_on_nonempty [simp]: "split_on d s \<noteq> []"
  by (induction s) (auto split: list.split)

lemma split_on_pieces: "\<forall>p \<in> set (split_on d s). d \<notin> set p"
  by (induction s) (auto split: list.split)

lemma split_whitespace_pieces:
  "\<forall>p \<in> set (split_whitespace s). p \<noteq> [] \<and> CHR '' '' \<notin> set p"
  using split_on_pieces by (auto simp: split_whitespace_def)

lemma split_on_append: "split_on d (xs @ d # ys) = split_on d xs @ split_on d ys"
  by (induction xs) (auto split: list.split)

lemma split_on_single: "d \<notin> set xs \<Longrightarrow> split_on d xs = [xs]"
  by (induction xs) auto

text \<open>A word: nonempty, without white space.\<close>

definition is_word :: "string \<Rightarrow> bool" where
  "is_word w \<longleftrightarrow> w \<noteq> [] \<and> list_all (\<lambda>c. \<not> is_whitespace c) w"

lemma blank_is_whitespace [simp]: "is_whitespace (CHR '' '')"
  by (simp add: is_whitespace_def)

lemma word_unchanged: "is_word w \<Longrightarrow> map (\<lambda>c. if is_whitespace c then CHR '' '' else c) w = w"
  by (auto simp: is_word_def list_all_iff intro: map_idI)

lemma word_no_blank: "is_word w \<Longrightarrow> CHR '' '' \<notin> set w"
  by (auto simp: is_word_def list_all_iff)

lemma split_whitespace_blank [simp]: "split_whitespace (CHR '' '' # s) = split_whitespace s"
  by (simp add: split_whitespace_def)

lemma split_whitespace_Cons: "is_word w \<Longrightarrow> split_whitespace (w @ CHR '' '' # s) = w # split_whitespace s"
  using word_unchanged [of w] split_on_single [OF word_no_blank, of w]
  by (simp add: split_whitespace_def split_on_append) (simp add: is_word_def)

lemma split_whitespace_word: "is_word w \<Longrightarrow> split_whitespace w = [w]"
  using word_unchanged [of w] split_on_single [OF word_no_blank, of w]
  by (simp add: split_whitespace_def) (simp add: is_word_def)

lemma split_whitespace_blanks [simp]:
  "split_whitespace (replicate k (CHR '' '') @ s) = split_whitespace s"
  by (induction k) simp_all

lemma split_whitespace_join:
  "ws \<noteq> [] \<Longrightarrow> list_all is_word ws \<Longrightarrow> split_whitespace (join_with '' '' ws) = ws"
  by (induction ws rule: induct_list012) (simp_all add: split_whitespace_word split_whitespace_Cons)

lemma trim_id: "s \<noteq> [] \<Longrightarrow> \<not> is_whitespace (hd s) \<Longrightarrow> \<not> is_whitespace (last s) \<Longrightarrow> trim s = s"
proof -
  have d: "dropWhile P xs = xs" if "xs \<noteq> []" "\<not> P (hd xs)" for P and xs :: string
    using that by (cases xs) simp_all
  assume "s \<noteq> []" "\<not> is_whitespace (hd s)" "\<not> is_whitespace (last s)"
  then show ?thesis
    using d [of s is_whitespace] d [of "rev s" is_whitespace]
    by (simp add: trim_def trim_matches_def trim_end_matches_def hd_rev)
qed

lemma word_hd_last: "is_word w \<Longrightarrow> \<not> is_whitespace (hd w) \<and> \<not> is_whitespace (last w)"
  by (auto simp: is_word_def list_all_iff)

text \<open>Lines ended by a newline, or by a carriage return and a newline.\<close>

definition line_end :: "bool \<Rightarrow> string" where
  "line_end crlf = (if crlf then [CHR 0x0D, CHR 0x0A] else [CHR 0x0A])"

lemma split_lines:
  "list_all (\<lambda>l. CHR 0x0A \<notin> set l) ls \<Longrightarrow>
    split_on (CHR 0x0A) (concat (map (\<lambda>l. l @ line_end crlf) ls))
      = map (\<lambda>l. if crlf then l @ [CHR 0x0D] else l) ls @ [[]]"
proof (induction ls)
  case (Cons l ls)
  have "split_on (CHR 0x0A) ((if crlf then l @ [CHR 0x0D] else l) @ CHR 0x0A # x)
      = (if crlf then l @ [CHR 0x0D] else l) # split_on (CHR 0x0A) x" for x
    using Cons.prems split_on_single [of "CHR 0x0A" "if crlf then l @ [CHR 0x0D] else l"]
    by (simp only: split_on_append) (auto split: if_splits)
  from this [of "concat (map (\<lambda>l. l @ line_end crlf) ls)"] Cons show ?case
    by (auto simp: line_end_def split: if_splits)
qed simp

lemma lines_of_printed:
  assumes "list_all (\<lambda>l. CHR 0x0A \<notin> set l \<and> CHR 0x0D \<notin> set l) ls"
  shows "str_lines (concat (map (\<lambda>l. l @ line_end crlf) ls)) = ls"
proof -
  have "list_all (\<lambda>l. CHR 0x0A \<notin> set l) ls" using assms by (auto simp: list_all_iff)
  note sp = split_lines [OF this, of crlf]
  have "strip_cr (if crlf then l @ [CHR 0x0D] else l) = l" if "l \<in> set ls" for l
    using assms that by (auto simp: strip_cr_def list_all_iff dest: last_in_set)
  then show ?thesis
    unfolding str_lines_def sp by (simp add: Let_def o_def map_idI)
qed

end
