(* ===== verification/Windows_Loopback.thy ===== *)
theory Windows_Loopback
  imports Audio_Capture Frame_Encoder Text_Format
begin

text \<open>
  The loopback capture of \<open>crates/lan_audio_server/src/audio_capture/windows_loopback_windows.rs\<close>
  and its stand-in on other systems. WASAPI is the record \<open>wasapi\<close> of calls over a world state: it
  is not under the repository. Memory a packet points at is read sample by sample, as the code's
  \<open>from_raw_parts\<close> does. Files of the debug recorder are byte lists with a position and a capacity.
\<close>

section \<open>Debug recorder\<close>

record disk_file =
  df_bytes :: "u8 list"
  df_pos :: nat
  df_room :: nat

text \<open>\<open>write_all\<close>: everything, or as much as there is room for and an error.\<close>

definition file_write_all :: "u8 list \<Rightarrow> disk_file \<Rightarrow> (string + unit) \<times> disk_file" where
  "file_write_all bs f =
     (let fits = take (df_room f - df_pos f) bs;
          f' = f\<lparr>df_bytes := take (df_pos f) (df_bytes f) @ fits
                   @ drop (df_pos f + length fits) (df_bytes f),
                 df_pos := df_pos f + length fits\<rparr>
      in (if length fits = length bs then Inr () else Inl ''no space left'', f'))"

definition file_seek_start :: "disk_file \<Rightarrow> disk_file" where
  "file_seek_start f = f\<lparr>df_pos := 0\<rparr>"

record pcm_debug_wav_writer =
  ww_file :: disk_file
  ww_channels :: u16
  ww_sample_rate :: u32
  ww_max_seconds :: u32
  ww_max_samples :: nat
  ww_written_samples :: nat
  ww_finalized :: bool
  ww_path :: string

text \<open>\<open>dir_result\<close> and \<open>create_result\<close> are what creating the directory and the file gave.\<close>

definition wav_writer_new ::
  "string + unit \<Rightarrow> string + disk_file \<Rightarrow> u64 \<Rightarrow> u32 \<Rightarrow> u16 \<Rightarrow> u32 \<Rightarrow> string
   \<Rightarrow> capture_error + pcm_debug_wav_writer" where
  "wav_writer_new dir_result create_result now sample_rate channels seconds output_dir =
     (case dir_result of Inl e \<Rightarrow> Inl (Cap_StartFailed (''create dump dir failed: '' @ e))
      | Inr _ \<Rightarrow>
          (case create_result of Inl e \<Rightarrow> Inl (Cap_StartFailed (''create dump wav failed: '' @ e))
           | Inr file \<Rightarrow>
               (case file_write_all (replicate 44 0) file of
                  (Inl e, _) \<Rightarrow> Inl (Cap_StartFailed (''init wav header failed: '' @ e))
                | (Inr _, file) \<Rightarrow> Inr
                    \<lparr>ww_file = file, ww_channels = channels, ww_sample_rate = sample_rate,
                     ww_max_seconds = seconds,
                     ww_max_samples = unat sample_rate * unat seconds * unat channels,
                     ww_written_samples = 0, ww_finalized = False,
                     ww_path = output_dir @ ''/wasapi_loopback_'' @ show_nat (unat now) @ ''.wav''\<rparr>)))"

definition wav_set_format :: "u32 \<Rightarrow> u16 \<Rightarrow> pcm_debug_wav_writer \<Rightarrow> pcm_debug_wav_writer" where
  "wav_set_format sample_rate channels ww =
     ww\<lparr>ww_sample_rate := sample_rate, ww_channels := channels,
        ww_max_samples := unat sample_rate * unat channels * unat (ww_max_seconds ww)\<rparr>"

definition ascii :: "string \<Rightarrow> u8 list" where
  "ascii s = map (\<lambda>c. of_nat (of_char c)) s"

definition wav_header :: "pcm_debug_wav_writer \<Rightarrow> u8 list" where
  "wav_header ww =
     (let data_bytes = (of_nat (ww_written_samples ww * 2) :: u32);
          riff_size = 36 + data_bytes;
          byte_rate = ww_sample_rate ww * ucast (ww_channels ww) * 2;
          block_align = ww_channels ww * 2
      in ascii ''RIFF'' @ le_bytes 4 riff_size @ ascii ''WAVE'' @ ascii ''fmt ''
         @ le_bytes 4 (16 :: u32) @ le_bytes 2 (1 :: u16) @ le_bytes 2 (ww_channels ww)
         @ le_bytes 4 (ww_sample_rate ww) @ le_bytes 4 byte_rate @ le_bytes 2 block_align
         @ le_bytes 2 (16 :: u16) @ ascii ''data'' @ le_bytes 4 data_bytes)"

definition wav_finalize ::
  "pcm_debug_wav_writer \<Rightarrow> (capture_error + unit) \<times> pcm_debug_wav_writer" where
  "wav_finalize ww =
     (if ww_finalized ww then (Inr (), ww)
      else case file_write_all (wav_header ww) (file_seek_start (ww_file ww)) of
        (Inl e, f) \<Rightarrow> (Inl (Cap_ReadBufferFailed (''write wav header failed: '' @ e)), ww\<lparr>ww_file := f\<rparr>)
      | (Inr _, f) \<Rightarrow> (Inr (), ww\<lparr>ww_file := f, ww_finalized := True\<rparr>))"

fun write_sample_loop :: "real list \<Rightarrow> disk_file \<Rightarrow> (string + unit) \<times> disk_file" where
  "write_sample_loop [] f = (Inr (), f)"
| "write_sample_loop (sample # rest) f =
     (case file_write_all (le_bytes 2 (word_of_int (quantize 32767 sample) :: 16 word)) f of
        (Inl e, f) \<Rightarrow> (Inl e, f)
      | (Inr _, f) \<Rightarrow> write_sample_loop rest f)"

definition wav_write_samples ::
  "real list \<Rightarrow> pcm_debug_wav_writer \<Rightarrow> (capture_error + unit) \<times> pcm_debug_wav_writer" where
  "wav_write_samples samples ww =
     (if ww_max_samples ww \<le> ww_written_samples ww then (Inr (), ww)
      else
        let remain = ww_max_samples ww - ww_written_samples ww;
            n = min remain (length samples)
        in case write_sample_loop (take n samples) (ww_file ww) of
             (Inl e, f) \<Rightarrow> (Inl (Cap_ReadBufferFailed (''write dump wav failed: '' @ e)), ww\<lparr>ww_file := f\<rparr>)
           | (Inr _, f) \<Rightarrow>
               let ww = ww\<lparr>ww_file := f, ww_written_samples := ww_written_samples ww + n\<rparr>
               in if ww_max_samples ww \<le> ww_written_samples ww then wav_finalize ww else (Inr (), ww))"

section \<open>Statistics\<close>

record capture_stats_window =
  cs_started_at :: nat
  cs_last_callback_at :: "nat option"
  cs_callbacks :: u64
  cs_silent_callbacks :: u64
  cs_non_silent_callbacks :: u64
  cs_total_callback_frames :: u64
  cs_emitted_frames :: u64
  cs_no_packet_polls :: u64
  cs_total_samples :: u64
  cs_non_zero_samples :: u64
  cs_sum_sq :: real
  cs_peak :: real
  cs_interval_count :: u64
  cs_interval_total_ms :: real
  cs_interval_max_ms :: real
  cs_last_buffered :: nat

definition capture_stats_new :: "nat \<Rightarrow> capture_stats_window" where
  "capture_stats_new now = \<lparr>cs_started_at = now, cs_last_callback_at = None, cs_callbacks = 0,
     cs_silent_callbacks = 0, cs_non_silent_callbacks = 0, cs_total_callback_frames = 0,
     cs_emitted_frames = 0, cs_no_packet_polls = 0, cs_total_samples = 0, cs_non_zero_samples = 0,
     cs_sum_sq = 0, cs_peak = 0, cs_interval_count = 0, cs_interval_total_ms = 0,
     cs_interval_max_ms = 0, cs_last_buffered = 0\<rparr>"

definition record_callback ::
  "nat \<Rightarrow> u32 \<Rightarrow> nat \<Rightarrow> u64 \<Rightarrow> real \<Rightarrow> real \<Rightarrow> bool \<Rightarrow> nat \<Rightarrow> capture_stats_window \<Rightarrow> capture_stats_window" where
  "record_callback now frames sample_count non_zero peak sum_sq is_silence buffered s =
     (let s = (case cs_last_callback_at s of None \<Rightarrow> s
          | Some prev \<Rightarrow>
              let interval_ms = real (now - prev) in
              s\<lparr>cs_interval_count := cs_interval_count s + 1,
                cs_interval_total_ms := cs_interval_total_ms s + interval_ms,
                cs_interval_max_ms := (if interval_ms > cs_interval_max_ms s then interval_ms
                                       else cs_interval_max_ms s)\<rparr>)
      in s\<lparr>cs_last_callback_at := Some now, cs_callbacks := cs_callbacks s + 1,
           cs_silent_callbacks := (if is_silence then cs_silent_callbacks s + 1 else cs_silent_callbacks s),
           cs_non_silent_callbacks :=
             (if is_silence then cs_non_silent_callbacks s else cs_non_silent_callbacks s + 1),
           cs_total_callback_frames := cs_total_callback_frames s + ucast frames,
           cs_total_samples := cs_total_samples s + of_nat sample_count,
           cs_non_zero_samples := cs_non_zero_samples s + non_zero,
           cs_sum_sq := cs_sum_sq s + sum_sq,
           cs_peak := (if peak > cs_peak s then peak else cs_peak s),
           cs_last_buffered := buffered\<rparr>)"

definition record_silent_callback ::
  "nat \<Rightarrow> u32 \<Rightarrow> nat \<Rightarrow> nat \<Rightarrow> capture_stats_window \<Rightarrow> capture_stats_window" where
  "record_silent_callback now frames sample_count buffered =
     record_callback now frames sample_count 0 0 0 True buffered"

fun pcm_callback_loop :: "real list \<Rightarrow> real \<Rightarrow> real \<Rightarrow> u64 \<Rightarrow> real \<times> real \<times> u64" where
  "pcm_callback_loop [] peak sum_sq non_zero = (peak, sum_sq, non_zero)"
| "pcm_callback_loop (s # ss) peak sum_sq non_zero =
     pcm_callback_loop ss (if \<bar>s\<bar> > peak then \<bar>s\<bar> else peak) (sum_sq + s * s)
       (if \<bar>s\<bar> > 1 / 1000000 then non_zero + 1 else non_zero)"

definition record_pcm_callback ::
  "nat \<Rightarrow> u32 \<Rightarrow> real list \<Rightarrow> nat \<Rightarrow> capture_stats_window \<Rightarrow> capture_stats_window" where
  "record_pcm_callback now frames samples buffered s =
     (let (peak, sum_sq, non_zero) = pcm_callback_loop samples 0 0 0
      in record_callback now frames (length samples) non_zero peak sum_sq False buffered s)"

definition record_no_packet_poll :: "nat \<Rightarrow> capture_stats_window \<Rightarrow> capture_stats_window" where
  "record_no_packet_poll buffered s =
     s\<lparr>cs_no_packet_polls := cs_no_packet_polls s + 1, cs_last_buffered := buffered\<rparr>"

definition record_emitted_frame :: "nat \<Rightarrow> capture_stats_window \<Rightarrow> capture_stats_window" where
  "record_emitted_frame buffered s =
     s\<lparr>cs_emitted_frames := cs_emitted_frames s + 1, cs_last_buffered := buffered\<rparr>"

definition reset_window :: "nat \<Rightarrow> capture_stats_window \<Rightarrow> capture_stats_window" where
  "reset_window now s = (capture_stats_new now)\<lparr>cs_last_callback_at := cs_last_callback_at s,
     cs_last_buffered := cs_last_buffered s\<rparr>"

definition capture_stats_maybe_log :: "nat \<Rightarrow> capture_stats_window \<Rightarrow> capture_stats_window" where
  "capture_stats_maybe_log now s = (if now - cs_started_at s < 1000 then s else reset_window now s)"

section \<open>WASAPI\<close>

record mix_format =
  mf_samples_per_sec :: u32
  mf_channels :: u16
  mf_bits_per_sample :: u16
  mf_format_tag :: u16
  mf_cb_size :: u16
  mf_sub_guid :: "u8 list"

text \<open>A packet: its frames, the silent flag, and the memory at the data pointer unless it is null.\<close>

record pcm_packet =
  pk_frames :: u32
  pk_silent :: bool
  pk_f32 :: "(nat \<Rightarrow> real) option"
  pk_i16 :: "(nat \<Rightarrow> 16 word) option"

record ('d, 'w) wasapi =
  wa_co_initialize :: "'w \<Rightarrow> (string + unit) \<times> 'w"
  wa_create_enumerator :: "'w \<Rightarrow> (string + unit) \<times> 'w"
  wa_default_endpoint :: "'w \<Rightarrow> (string + 'd) \<times> 'w"
  wa_device_id :: "'d \<Rightarrow> 'w \<Rightarrow> (string + string) \<times> 'w"
  wa_activate :: "'d \<Rightarrow> 'w \<Rightarrow> (string + unit) \<times> 'w"
  wa_get_mix_format :: "'w \<Rightarrow> (string + mix_format option) \<times> 'w"
  wa_initialize :: "nat \<Rightarrow> mix_format \<Rightarrow> 'w \<Rightarrow> (string + unit) \<times> 'w"
  wa_get_buffer_size :: "'w \<Rightarrow> (string + u32) \<times> 'w"
  wa_get_service :: "'w \<Rightarrow> (string + unit) \<times> 'w"
  wa_start :: "'w \<Rightarrow> (string + unit) \<times> 'w"
  wa_stop :: "'w \<Rightarrow> (string + unit) \<times> 'w"
  wa_next_packet_size :: "'w \<Rightarrow> (string + u32) \<times> 'w"
  wa_get_buffer :: "'w \<Rightarrow> (string + pcm_packet) \<times> 'w"
  wa_release_buffer :: "u32 \<Rightarrow> 'w \<Rightarrow> (string + unit) \<times> 'w"
  wa_yield :: "'w \<Rightarrow> 'w"
  wa_now :: "'w \<Rightarrow> nat"
  wa_unix_ms :: "'w \<Rightarrow> u64"

section \<open>The capture's state\<close>

datatype device_sample_kind = Device_F32 | Device_I16

record device_format_info =
  di_sample_rate_hz :: u32
  di_channels :: u16
  di_sample_kind :: device_sample_kind
  di_bits_per_sample :: u16
  di_format_tag :: u16
  di_sub_format :: "string option"

record loopback_capture =
  lc_target_format :: audio_format
  lc_state :: capture_source_state
  lc_device_name :: "string option"
  lc_device_format :: "device_format_info option"
  lc_frame_duration_ms :: u16
  lc_accumulator :: pcm_frame_accumulator
  lc_recent_error :: "capture_error option"
  lc_audio_client :: bool
  lc_capture_client :: bool
  lc_mix_format_ptr :: "mix_format option"
  lc_source_buffer_frames :: u32
  lc_debug_wav :: "pcm_debug_wav_writer option"
  lc_capture_stats :: capture_stats_window

text \<open>\<open>recorder\<close> is the result of creating the debug recorder, when it is enabled.\<close>

definition new_default_output ::
  "nat \<Rightarrow> audio_format \<Rightarrow> (capture_error + pcm_debug_wav_writer) option
   \<Rightarrow> capture_error + loopback_capture" where
  "new_default_output now format recorder =
     (let build = (\<lambda>wav. Inr \<lparr>lc_target_format = format, lc_state = Cap_Created,
            lc_device_name = None, lc_device_format = None,
            lc_frame_duration_ms = af_frame_duration_ms format,
            lc_accumulator = accumulator_new format, lc_recent_error = None, lc_audio_client = False,
            lc_capture_client = False, lc_mix_format_ptr = None, lc_source_buffer_frames = 0,
            lc_debug_wav = wav, lc_capture_stats = capture_stats_new now\<rparr>)
      in case recorder of None \<Rightarrow> build None
         | Some (Inr ww) \<Rightarrow> build (Some ww)
         | Some (Inl e) \<Rightarrow> Inl e)"

definition set_failed :: "capture_error \<Rightarrow> loopback_capture \<Rightarrow> loopback_capture" where
  "set_failed err c = c\<lparr>lc_state := Cap_Failed, lc_recent_error := Some err\<rparr>"

text \<open>\<open>.map_err(|e| self.set_failed(wrap(e)))?\<close> on the result of a call.\<close>

definition or_fail ::
  "(string \<Rightarrow> capture_error) \<Rightarrow> (string + 'a) \<times> 'w \<Rightarrow> loopback_capture
   \<Rightarrow> ('a \<Rightarrow> 'w \<Rightarrow> (capture_error + 'b) \<times> loopback_capture \<times> 'w)
   \<Rightarrow> (capture_error + 'b) \<times> loopback_capture \<times> 'w" where
  "or_fail wrap rw c k =
     (case rw of (Inl e, w) \<Rightarrow> (Inl (wrap e), set_failed (wrap e) c, w) | (Inr x, w) \<Rightarrow> k x w)"

definition resolve_default_output_device ::
  "('d, 'w) wasapi \<Rightarrow> loopback_capture \<Rightarrow> 'w \<Rightarrow> (capture_error + 'd) \<times> loopback_capture \<times> 'w" where
  "resolve_default_output_device api c w =
     or_fail Cap_DeviceActivationFailed (wa_co_initialize api w) c (\<lambda>_ w.
     or_fail Cap_DeviceActivationFailed (wa_create_enumerator api w) c (\<lambda>_ w.
     or_fail (\<lambda>_. Cap_DefaultDeviceNotFound) (wa_default_endpoint api w) c (\<lambda>device w.
     or_fail Cap_DeviceActivationFailed (wa_device_id api device w) c (\<lambda>id_text w.
       (Inr device, c\<lparr>lc_device_name := Some id_text, lc_state := Cap_DeviceResolved\<rparr>, w)))))"

definition extensible_kind ::
  "u16 \<Rightarrow> u8 list \<Rightarrow> string \<Rightarrow> capture_error + device_sample_kind" where
  "extensible_kind bits sub_guid sub_format =
     (let data1 = (le_word (take 4 sub_guid) :: u32) in
      if data1 = 3 then
        (if bits \<noteq> 32 then Inl (Cap_UnsupportedMixFormat (''extensible float bits_per_sample=''
           @ show_nat (unat bits) @ '' unsupported; expected 32'')) else Inr Device_F32)
      else if data1 = 1 then
        (if bits \<noteq> 16 then Inl (Cap_UnsupportedMixFormat (''extensible PCM bits_per_sample=''
           @ show_nat (unat bits) @ '' unsupported; expected 16'')) else Inr Device_I16)
      else Inl (Cap_UnsupportedMixFormat (''unsupported WAVE_FORMAT_EXTENSIBLE SubFormat.Data1=''
             @ show_nat (unat data1) @ ''; subformat='' @ sub_format)))"

definition classify_mix_format ::
  "mix_format \<Rightarrow> capture_error + device_sample_kind \<times> string option" where
  "classify_mix_format mix =
     (let bits = mf_bits_per_sample mix; tag = mf_format_tag mix in
      if tag = 3 then
        (if bits \<noteq> 32 then Inl (Cap_UnsupportedMixFormat (''unsupported float bits_per_sample=''
           @ show_nat (unat bits) @ ''; expected 32'')) else Inr (Device_F32, None))
      else if tag = 1 then
        (if bits \<noteq> 16 then Inl (Cap_UnsupportedMixFormat (''unsupported PCM bits_per_sample=''
           @ show_nat (unat bits) @ ''; expected 16 for wFormatTag=1'')) else Inr (Device_I16, None))
      else if tag = 65534 then
        (if mf_cb_size mix < 22 then Inl (Cap_UnsupportedMixFormat
            (''WAVE_FORMAT_EXTENSIBLE cbSize too small: '' @ show_nat (unat (mf_cb_size mix))))
         else let sub_format = debug_list (map show_hex02 (mf_sub_guid mix)) in
           (case extensible_kind bits (mf_sub_guid mix) sub_format of
              Inl e \<Rightarrow> Inl e | Inr kind \<Rightarrow> Inr (kind, Some sub_format)))
      else Inl (Cap_UnsupportedMixFormat
             (''unsupported wFormatTag='' @ show_nat (unat tag) @ ''; subformat=n/a'')))"

definition adopt_format ::
  "mix_format \<Rightarrow> device_sample_kind \<times> string option \<Rightarrow> u32 \<Rightarrow> loopback_capture \<Rightarrow> loopback_capture" where
  "adopt_format mix kind_sub buffer_frames c =
     (let target = \<lparr>sample_rate_hz = mf_samples_per_sec mix, af_channels = mf_channels mix,
            af_sample_format = SampleF32, af_frame_duration_ms = lc_frame_duration_ms c\<rparr>
      in c\<lparr>lc_source_buffer_frames := buffer_frames,
           lc_device_format := Some \<lparr>di_sample_rate_hz = mf_samples_per_sec mix,
             di_channels = mf_channels mix, di_sample_kind = fst kind_sub,
             di_bits_per_sample = mf_bits_per_sample mix, di_format_tag = mf_format_tag mix,
             di_sub_format = snd kind_sub\<rparr>,
           lc_target_format := target,
           lc_accumulator := accumulator_new target,
           lc_debug_wav := map_option (wav_set_format (mf_samples_per_sec mix) (mf_channels mix))
             (lc_debug_wav c),
           lc_audio_client := True, lc_capture_client := True,
           lc_mix_format_ptr := Some mix, lc_state := Cap_ClientInitialized\<rparr>)"

definition init_audio_clients ::
  "('d, 'w) wasapi \<Rightarrow> 'd \<Rightarrow> loopback_capture \<Rightarrow> 'w \<Rightarrow> (capture_error + unit) \<times> loopback_capture \<times> 'w" where
  "init_audio_clients api device c w =
     or_fail Cap_DeviceActivationFailed (wa_activate api device w) c (\<lambda>_ w.
     or_fail Cap_AudioClientInitFailed (wa_get_mix_format api w) c (\<lambda>mix_ptr w.
       case mix_ptr of
         None \<Rightarrow> (let e = Cap_AudioClientInitFailed ''GetMixFormat returned null''
                  in (Inl e, set_failed e c, w))
       | Some mix \<Rightarrow>
           (case classify_mix_format mix of
              Inl e \<Rightarrow> (Inl e, set_failed e c, w)
            | Inr kind_sub \<Rightarrow>
                or_fail Cap_AudioClientInitFailed
                  (wa_initialize api (unat (lc_frame_duration_ms c) * 10000) mix w) c (\<lambda>_ w.
                or_fail Cap_AudioClientInitFailed (wa_get_buffer_size api w) c (\<lambda>buffer_frames w.
                let c = c\<lparr>lc_source_buffer_frames := buffer_frames\<rparr> in
                or_fail Cap_CaptureClientInitFailed (wa_get_service api w) c (\<lambda>_ w.
                  (Inr (), adopt_format mix kind_sub buffer_frames c, w)))))))"

definition do_start ::
  "('d, 'w) wasapi \<Rightarrow> loopback_capture \<Rightarrow> 'w \<Rightarrow> (capture_error + unit) \<times> loopback_capture \<times> 'w" where
  "do_start api c w =
     (if \<not> lc_audio_client c
      then (let e = Cap_StartFailed ''audio client missing'' in (Inl e, set_failed e c, w))
      else or_fail Cap_StartFailed (wa_start api w) c (\<lambda>_ w. (Inr (), c\<lparr>lc_state := Cap_Started\<rparr>, w)))"

definition loopback_start ::
  "('d, 'w) wasapi \<Rightarrow> loopback_capture \<Rightarrow> 'w \<Rightarrow> (capture_error + unit) \<times> loopback_capture \<times> 'w" where
  "loopback_start api c w =
     (case resolve_default_output_device api c w of
        (Inl e, c, w) \<Rightarrow> (Inl e, c, w)
      | (Inr device, c, w) \<Rightarrow>
          (case init_audio_clients api device c w of
             (Inl e, c, w) \<Rightarrow> (Inl e, c, w)
           | (Inr _, c, w) \<Rightarrow> do_start api c w))"

section \<open>Reading packets\<close>

datatype packet_read_status = No_Packet | Packet_But_Not_Enough | Got_Frame audio_frame

datatype packet_turn = Turn_Empty | Turn_More bool bool | Turn_Frame audio_frame

definition i16_sample :: "16 word \<Rightarrow> real" where
  "i16_sample v = real_of_int (sint v) / 32767"

text \<open>The samples of a packet that is not silent; \<open>None\<close> when the data pointer is null.\<close>

definition packet_samples :: "device_format_info \<Rightarrow> pcm_packet \<Rightarrow> real list option" where
  "packet_samples fmt p =
     (let sample_count = unat (pk_frames p) * unat (di_channels fmt) in
      case di_sample_kind fmt of
        Device_F32 \<Rightarrow> map_option (\<lambda>m. map m [0 ..< sample_count]) (pk_f32 p)
      | Device_I16 \<Rightarrow> map_option (\<lambda>m. map (\<lambda>i. i16_sample (m i)) [0 ..< sample_count]) (pk_i16 p))"

definition take_packet ::
  "nat \<Rightarrow> device_format_info \<Rightarrow> pcm_packet \<Rightarrow> loopback_capture \<Rightarrow> loopback_capture option" where
  "take_packet now fmt p c =
     (let sample_count = unat (pk_frames p) * unat (di_channels fmt) in
      if pk_silent p then
        (let acc = push_silence_samples sample_count (lc_accumulator c)
         in Some (c\<lparr>lc_accumulator := acc, lc_capture_stats :=
              record_silent_callback now (pk_frames p) sample_count (length (acc_samples acc))
                (lc_capture_stats c)\<rparr>))
      else case packet_samples fmt p of None \<Rightarrow> None
        | Some samples \<Rightarrow>
            (let acc = push_samples samples False (lc_accumulator c)
             in Some (c\<lparr>lc_accumulator := acc, lc_capture_stats :=
                  record_pcm_callback now (pk_frames p) samples (length (acc_samples acc))
                    (lc_capture_stats c)\<rparr>)))"

definition kind_of_packets :: "bool \<Rightarrow> bool \<Rightarrow> packet_kind" where
  "kind_of_packets saw_silent saw_non_silent =
     (if saw_non_silent \<and> saw_silent then MixedPacket
      else if saw_non_silent then AudioPacket else SilentPacket)"

text \<open>A frame when the accumulator has one; a failed write of the recorder is only logged.\<close>

definition emit_frame ::
  "u64 \<Rightarrow> bool \<Rightarrow> bool \<Rightarrow> loopback_capture \<Rightarrow> (capture_error + packet_turn) \<times> loopback_capture" where
  "emit_frame unix_ms saw_silent saw_non_silent c =
     (case pop_frame (lc_accumulator c) of
        (None, acc) \<Rightarrow> (Inr (Turn_More saw_silent saw_non_silent), c\<lparr>lc_accumulator := acc\<rparr>)
      | (Some acc_frame, acc) \<Rightarrow>
          let c = c\<lparr>lc_accumulator := acc\<rparr> in
          (case into_audio_frame unix_ms acc_frame (Some (lc_source_buffer_frames c)) acc of
             Inl e \<Rightarrow> (Inl e, set_failed e c)
           | Inr frame \<Rightarrow>
               let frame = frame\<lparr>fr_packet_kind := kind_of_packets saw_silent saw_non_silent\<rparr>
               in (Inr (Turn_Frame frame),
                   c\<lparr>lc_debug_wav := map_option (\<lambda>ww. snd (wav_write_samples (fr_samples frame) ww))
                       (lc_debug_wav c),
                     lc_capture_stats := record_emitted_frame (length (acc_samples acc))
                       (lc_capture_stats c)\<rparr>)))"

text \<open>One turn of the packet loop.\<close>

definition packet_step ::
  "('d, 'w) wasapi \<Rightarrow> device_format_info \<Rightarrow> bool \<Rightarrow> bool \<Rightarrow> loopback_capture \<Rightarrow> 'w
   \<Rightarrow> (capture_error + packet_turn) \<times> loopback_capture \<times> 'w" where
  "packet_step api fmt saw_silent saw_non_silent c w =
     or_fail Cap_ReadBufferFailed (wa_next_packet_size api w) c (\<lambda>packet_frames w.
       if packet_frames = 0 then (Inr Turn_Empty, c, w)
       else or_fail Cap_ReadBufferFailed (wa_get_buffer api w) c (\<lambda>p w.
         let saw_silent = (saw_silent \<or> pk_silent p);
             saw_non_silent = (saw_non_silent \<or> \<not> pk_silent p)
         in case take_packet (wa_now api w) fmt p c of
              None \<Rightarrow>
                (let e = Cap_ReadBufferFailed ''GetBuffer data pointer is null''
                 in (Inl e, set_failed e c, snd (wa_release_buffer api (pk_frames p) w)))
            | Some c \<Rightarrow>
                or_fail Cap_ReadBufferFailed (wa_release_buffer api (pk_frames p) w) c (\<lambda>_ w.
                  case emit_frame (wa_unix_ms api w) saw_silent saw_non_silent c of
                    (r, c) \<Rightarrow> (r, c, w))))"

text \<open>
  The loop; \<open>saw\<close> says whether a packet was seen. The fuel bounds the packets that fit below one
  frame: \<open>packet_loop_terminates\<close> shows that one more than the samples of a frame never runs out.
\<close>

fun packet_loop ::
  "nat \<Rightarrow> ('d, 'w) wasapi \<Rightarrow> device_format_info \<Rightarrow> bool \<Rightarrow> bool \<Rightarrow> bool \<Rightarrow> loopback_capture \<Rightarrow> 'w
   \<Rightarrow> (capture_error + packet_read_status) \<times> loopback_capture \<times> 'w" where
  "packet_loop 0 api fmt saw ss sn c w = (Inr Packet_But_Not_Enough, c, w)"
| "packet_loop (Suc n) api fmt saw ss sn c w =
     (case packet_step api fmt ss sn c w of
        (Inl e, c, w) \<Rightarrow> (Inl e, c, w)
      | (Inr (Turn_Frame frame), c, w) \<Rightarrow> (Inr (Got_Frame frame), c, w)
      | (Inr (Turn_More ss sn), c, w) \<Rightarrow> packet_loop n api fmt True ss sn c w
      | (Inr Turn_Empty, c, w) \<Rightarrow>
          if \<not> saw then (Inr No_Packet, c\<lparr>lc_capture_stats := record_no_packet_poll
               (length (acc_samples (lc_accumulator c))) (lc_capture_stats c)\<rparr>, w)
          else (Inr Packet_But_Not_Enough, c, w))"

definition packet_fuel :: "loopback_capture \<Rightarrow> nat" where
  "packet_fuel c = Suc (total_samples_per_frame (acc_format (lc_accumulator c)))"

definition fill_accumulator_from_packets ::
  "('d, 'w) wasapi \<Rightarrow> loopback_capture \<Rightarrow> 'w
   \<Rightarrow> (capture_error + packet_read_status) \<times> loopback_capture \<times> 'w" where
  "fill_accumulator_from_packets api c w =
     (if \<not> lc_capture_client c
      then (let e = Cap_ReadBufferFailed ''capture client missing'' in (Inl e, set_failed e c, w))
      else case lc_device_format c of
        None \<Rightarrow> (let e = Cap_UnsupportedMixFormat ''device format missing'' in (Inl e, set_failed e c, w))
      | Some fmt \<Rightarrow> packet_loop (packet_fuel c) api fmt False False False c w)"

section \<open>Reading a frame\<close>

text \<open>
  The polls of \<open>read_frame\<close>: \<open>polls\<close> is the number of polls that end before the deadline, which is
  the clock's doing. After the last one a frame of silence is returned.
\<close>

fun read_loop ::
  "nat \<Rightarrow> ('d, 'w) wasapi \<Rightarrow> bool \<Rightarrow> loopback_capture \<Rightarrow> 'w
   \<Rightarrow> (capture_error + audio_frame option \<times> bool) \<times> loopback_capture \<times> 'w" where
  "read_loop polls api no_packet c w =
     (case fill_accumulator_from_packets api c w of
        (Inl e, c, w) \<Rightarrow> (Inl e, c, w)
      | (Inr (Got_Frame frame), c, w) \<Rightarrow>
          (Inr (Some frame, no_packet),
           c\<lparr>lc_capture_stats := capture_stats_maybe_log (wa_now api w) (lc_capture_stats c)\<rparr>, w)
      | (Inr No_Packet, c, w) \<Rightarrow>
          (case polls of 0 \<Rightarrow> (Inr (None, True), c, w)
           | Suc n \<Rightarrow> read_loop n api True c (wa_yield api w))
      | (Inr Packet_But_Not_Enough, c, w) \<Rightarrow>
          (case polls of 0 \<Rightarrow> (Inr (None, no_packet), c, w)
           | Suc n \<Rightarrow> read_loop n api no_packet c (wa_yield api w)))"

definition loopback_read_frame ::
  "nat \<Rightarrow> ('d, 'w) wasapi \<Rightarrow> loopback_capture \<Rightarrow> 'w
   \<Rightarrow> (capture_error + audio_frame) \<times> loopback_capture \<times> 'w" where
  "loopback_read_frame polls api c w =
     (if lc_state c \<noteq> Cap_Started then (Inl Cap_NotStarted, c, w)
      else case read_loop polls api False c w of
        (Inl e, c, w) \<Rightarrow> (Inl e, c, w)
      | (Inr (Some frame, _), c, w) \<Rightarrow> (Inr frame, c, w)
      | (Inr (None, no_packet), c, w) \<Rightarrow>
          (Inr ((audio_frame_silence (wa_unix_ms api w) (lc_target_format c))
                  \<lparr>fr_packet_kind := (if no_packet then NoPacket else SilentPacket)\<rparr>),
           c\<lparr>lc_capture_stats := capture_stats_maybe_log (wa_now api w) (lc_capture_stats c)\<rparr>, w))"

text \<open>Stopping, which dropping the capture does too; failures are only logged.\<close>

definition do_stop ::
  "('d, 'w) wasapi \<Rightarrow> loopback_capture \<Rightarrow> 'w \<Rightarrow> loopback_capture \<times> 'w" where
  "do_stop api c w =
     (let w = (if lc_audio_client c then snd (wa_stop api w) else w)
      in (c\<lparr>lc_mix_format_ptr := None,
            lc_debug_wav := map_option (\<lambda>ww. snd (wav_finalize ww)) (lc_debug_wav c),
            lc_audio_client := False, lc_capture_client := False, lc_state := Cap_Stopped\<rparr>, w))"

definition loopback_stop ::
  "('d, 'w) wasapi \<Rightarrow> loopback_capture \<Rightarrow> 'w \<Rightarrow> (capture_error + unit) \<times> loopback_capture \<times> 'w" where
  "loopback_stop api c w = (case do_stop api c w of (c, w) \<Rightarrow> (Inr (), c, w))"

definition loopback_format :: "loopback_capture \<Rightarrow> audio_format" where
  "loopback_format c =
     (case lc_device_format c of
        Some df \<Rightarrow> \<lparr>sample_rate_hz = di_sample_rate_hz df, af_channels = di_channels df,
          af_sample_format = SampleF32, af_frame_duration_ms = lc_frame_duration_ms c\<rparr>
      | None \<Rightarrow> lc_target_format c)"

section \<open>Other systems\<close>

definition no_loopback :: capture_error where
  "no_loopback = Cap_UnsupportedPlatform ''windows_loopback requires Windows''"

definition other_new_default_output :: "audio_format \<Rightarrow> capture_error + capture_source_state" where
  "other_new_default_output format = Inl no_loopback"

definition other_start :: "capture_source_state \<Rightarrow> (capture_error + unit) \<times> capture_source_state" where
  "other_start st = (Inl no_loopback, Cap_Failed)"

definition other_read_frame ::
  "capture_source_state \<Rightarrow> (capture_error + audio_frame) \<times> capture_source_state" where
  "other_read_frame st = (Inl no_loopback, st)"

definition other_stop :: "capture_source_state \<Rightarrow> (capture_error + unit) \<times> capture_source_state" where
  "other_stop st = (Inr (), Cap_Stopped)"

end
