(* ===== verification/Loopback_Proofs.thy ===== *)
theory Loopback_Proofs
  imports Windows_Loopback
begin

text \<open>
  What the loopback capture guarantees: it is a capture source, its packet loop ends, no captured
  sample is lost or reordered while packets are delivered, the backlog it can build up, its errors,
  the formats it accepts, and the file of the debug recorder.
\<close>

section \<open>The loop over packets\<close>

lemma or_fail_Inr:
  "or_fail wrap rw c k = (Inr x, c', w') \<longleftrightarrow> (\<exists>y v. rw = (Inr y, v) \<and> k y v = (Inr x, c', w'))"
  by (auto simp: or_fail_def split: prod.splits sum.splits)

lemma or_fail_Inl:
  "or_fail wrap rw c k = (Inl e, c', w') \<longleftrightarrow>
    (\<exists>m v. rw = (Inl m, v) \<and> e = wrap m \<and> c' = set_failed e c \<and> w' = v)
    \<or> (\<exists>y v. rw = (Inr y, v) \<and> k y v = (Inl e, c', w'))"
  by (auto simp: or_fail_def split: prod.splits sum.splits)

lemma or_fail_simps [simp]:
  "or_fail wrap (Inr y, v) c k = k y v" "or_fail wrap (Inl m, v) c k = (Inl (wrap m), set_failed (wrap m) c, v)"
  by (simp_all add: or_fail_def)

lemma set_failed_simps [simp]: "lc_state (set_failed e c) = Cap_Failed"
  "lc_recent_error (set_failed e c) = Some e"
  by (simp_all add: set_failed_def)

abbreviation frame_len :: "loopback_capture \<Rightarrow> nat" where
  "frame_len c \<equiv> total_samples_per_frame (acc_format (lc_accumulator c))"

abbreviation buffered :: "loopback_capture \<Rightarrow> real list" where
  "buffered c \<equiv> acc_samples (lc_accumulator c)"

text \<open>The samples a packet stands for.\<close>

definition packet_stream :: "device_format_info \<Rightarrow> pcm_packet \<Rightarrow> real list" where
  "packet_stream fmt p =
     (if pk_silent p then replicate (unat (pk_frames p) * unat (di_channels fmt)) 0
      else case packet_samples fmt p of None \<Rightarrow> [] | Some xs \<Rightarrow> xs)"

lemma packet_stream_length:
  "pk_silent p \<or> packet_samples fmt p \<noteq> None \<Longrightarrow>
    length (packet_stream fmt p) = unat (pk_frames p) * unat (di_channels fmt)"
  by (auto simp: packet_stream_def packet_samples_def Let_def split: device_sample_kind.splits option.splits)

text \<open>What the capture's fields are, beside the accumulator, the recorder and the statistics.\<close>

definition same_setup :: "loopback_capture \<Rightarrow> loopback_capture \<Rightarrow> bool" where
  "same_setup c c' \<longleftrightarrow> lc_state c' = lc_state c \<and> lc_device_format c' = lc_device_format c
     \<and> lc_capture_client c' = lc_capture_client c \<and> lc_target_format c' = lc_target_format c
     \<and> lc_source_buffer_frames c' = lc_source_buffer_frames c
     \<and> lc_frame_duration_ms c' = lc_frame_duration_ms c
     \<and> acc_format (lc_accumulator c') = acc_format (lc_accumulator c)"

lemma same_setup_refl [simp]: "same_setup c c" by (simp add: same_setup_def)

lemma same_setup_trans: "same_setup a b \<Longrightarrow> same_setup b c \<Longrightarrow> same_setup a c"
  by (simp add: same_setup_def)

lemma take_packet_Some:
  assumes "take_packet now fmt p c = Some c'"
  shows "buffered c' = buffered c @ packet_stream fmt p" and "same_setup c c'"
    and "pk_silent p \<or> packet_samples fmt p \<noteq> None"
  using assms
  by (auto simp: take_packet_def Let_def packet_stream_def same_setup_def push_silence_samples_def
      push_samples_def split: if_splits option.splits)

lemma emit_frame_cases:
  "emit_frame t ss sn c = (r, c') \<Longrightarrow> same_setup c c' \<and>
    (if length (buffered c) < frame_len c then r = Inr (Turn_More ss sn) \<and> buffered c' = buffered c
     else \<exists>f. r = Inr (Turn_Frame f) \<and> fr_samples f = take (frame_len c) (buffered c)
       \<and> buffered c' = drop (frame_len c) (buffered c)
       \<and> fr_source_buffer_frames f = Some (lc_source_buffer_frames c)
       \<and> fr_packet_kind f = kind_of_packets ss sn \<and> fr_format f = acc_format (lc_accumulator c))"
  by (auto simp: emit_frame_def pop_frame_def Let_def into_audio_frame_def new_with_meta_def
      same_setup_def split: prod.splits if_splits)

lemma emit_frame_no_error: "emit_frame t ss sn c \<noteq> (Inl e, c')"
  using emit_frame_cases [of t ss sn c "Inl e" c'] by (auto split: if_splits)

text \<open>One turn, when it succeeds: nothing is left, or a packet is taken.\<close>

lemma packet_step_Inr:
  assumes "packet_step api fmt ss sn c w = (Inr r, c', w')"
  shows "same_setup c c' \<and>
    ((r = Turn_Empty \<and> c' = c \<and> (\<exists>w1. wa_next_packet_size api w = (Inr 0, w1)))
     \<or> (\<exists>s w1 p w2 w3. wa_next_packet_size api w = (Inr s, w1) \<and> s \<noteq> 0
          \<and> wa_get_buffer api w1 = (Inr p, w2) \<and> wa_release_buffer api (pk_frames p) w2 = (Inr (), w')
          \<and> (pk_silent p \<or> packet_samples fmt p \<noteq> None)
          \<and> (let b = buffered c @ packet_stream fmt p; ss' = (ss \<or> pk_silent p); sn' = (sn \<or> \<not> pk_silent p) in
             if length b < frame_len c then r = Turn_More ss' sn' \<and> buffered c' = b
             else \<exists>f. r = Turn_Frame f \<and> fr_samples f = take (frame_len c) b
               \<and> buffered c' = drop (frame_len c) b
               \<and> fr_source_buffer_frames f = Some (lc_source_buffer_frames c)
               \<and> fr_packet_kind f = kind_of_packets ss' sn' \<and> fr_format f = acc_format (lc_accumulator c))))"
proof -
  obtain s w1 where s: "wa_next_packet_size api w = (Inr s, w1)"
    using assms by (auto simp: packet_step_def or_fail_Inr)
  show ?thesis
  proof (cases "s = 0")
    case True
    then show ?thesis using assms s by (simp add: packet_step_def)
  next
    case False
    obtain p w2 where p: "wa_get_buffer api w1 = (Inr p, w2)"
      using assms s False by (auto simp: packet_step_def or_fail_Inr)
    obtain c1 where t: "take_packet (wa_now api w2) fmt p c = Some c1"
      using assms s False p by (auto simp: packet_step_def Let_def split: option.splits)
    obtain w3 where rel: "wa_release_buffer api (pk_frames p) w2 = (Inr (), w3)"
      and em: "emit_frame (wa_unix_ms api w3) (ss \<or> pk_silent p) (sn \<or> \<not> pk_silent p) c1 = (Inr r, c')"
      and w3: "w' = w3"
      using assms s False p t
      by (cases "wa_release_buffer api (pk_frames p) w2"; cases "fst (wa_release_buffer api (pk_frames p) w2)")
        (auto simp: packet_step_def Let_def split: prod.splits)
    note tp = take_packet_Some [OF t]
    have "frame_len c1 = frame_len c" "lc_source_buffer_frames c1 = lc_source_buffer_frames c"
      "acc_format (lc_accumulator c1) = acc_format (lc_accumulator c)"
      using tp(2) by (simp_all add: same_setup_def)
    then show ?thesis
      using s False p rel w3 tp emit_frame_cases [OF em] same_setup_trans
      by (auto simp: Let_def split: if_splits)
  qed
qed

lemma packet_step_Inl:
  assumes "packet_step api fmt ss sn c w = (Inl e, c', w')"
  shows "lc_state c' = Cap_Failed \<and> lc_recent_error c' = Some e"
proof -
  obtain x w1 where x: "wa_next_packet_size api w = (x, w1)" by fastforce
  obtain y w2 where y: "wa_get_buffer api w1 = (y, w2)" by fastforce
  show ?thesis
  proof (cases x)
    case (Inr s)
    show ?thesis
    proof (cases "s = 0")
      case False
      show ?thesis
      proof (cases y)
        case (Inr p)
        obtain z w3 where z: "wa_release_buffer api (pk_frames p) w2 = (z, w3)" by fastforce
        show ?thesis
        proof (cases "take_packet (wa_now api w2) fmt p c")
          case (Some c1)
          show ?thesis
          proof (cases z)
            case (Inr u)
            obtain r c2 where em: "emit_frame (wa_unix_ms api w3) (ss \<or> pk_silent p) (sn \<or> \<not> pk_silent p) c1 = (r, c2)"
              by fastforce
            then have "r = Inl e"
              using assms x y z Some Inr \<open>y = Inr p\<close> \<open>x = Inr s\<close> False
              by (simp add: packet_step_def Let_def)
            then show ?thesis using em emit_frame_no_error by simp
          next
            case (Inl m)
            then show ?thesis
              using assms x y z Some \<open>y = Inr p\<close> \<open>x = Inr s\<close> False
              by (auto simp: packet_step_def Let_def)
          qed
        next
          case None
          then show ?thesis
            using assms x y Inr \<open>x = Inr s\<close> False by (auto simp: packet_step_def Let_def)
        qed
      qed (use assms x y Inr False in \<open>auto simp: packet_step_def\<close>)
    qed (use assms x Inr in \<open>simp add: packet_step_def\<close>)
  qed (use assms x in \<open>auto simp: packet_step_def\<close>)
qed

declare packet_loop.simps [simp del] read_loop.simps [simp del]

lemmas packet_loop_Suc = packet_loop.simps(2)

lemma packet_loop_setup:
  "packet_loop n api fmt saw ss sn c w = (Inr r, c', w') \<Longrightarrow> same_setup c c'"
proof (induction n arbitrary: saw ss sn c w)
  case (Suc n)
  obtain x c1 w1 where s: "packet_step api fmt ss sn c w = (x, c1, w1)" by (metis prod_cases3)
  show ?case
  proof (cases x)
    case (Inr t)
    have c1: "same_setup c c1" using packet_step_Inr [of api fmt ss sn c w t c1 w1] s Inr by simp
    show ?thesis
    proof (cases t)
      case (Turn_More a b)
      then show ?thesis using Suc s Inr c1 same_setup_trans by (auto simp: packet_loop_Suc)
    qed (use Suc.prems s Inr c1 in \<open>auto simp: packet_loop_Suc same_setup_def split: if_splits\<close>)
  qed (use Suc.prems s in \<open>simp add: packet_loop_Suc\<close>)
qed (simp add: packet_loop.simps)

lemma packet_loop_Inl:
  "packet_loop n api fmt saw ss sn c w = (Inl e, c', w') \<Longrightarrow>
    lc_state c' = Cap_Failed \<and> lc_recent_error c' = Some e"
proof (induction n arbitrary: saw ss sn c w)
  case (Suc n)
  obtain x c1 w1 where s: "packet_step api fmt ss sn c w = (x, c1, w1)" by (metis prod_cases3)
  show ?case
    using Suc s packet_step_Inl [of api fmt ss sn c w _ c1 w1]
    by (auto simp: packet_loop_Suc split: sum.splits packet_turn.splits if_splits)
qed (simp add: packet_loop.simps)

lemma packet_loop_frame:
  "packet_loop n api fmt saw ss sn c w = (Inr (Got_Frame f), c', w') \<Longrightarrow>
    length (fr_samples f) = frame_len c \<and> fr_format f = acc_format (lc_accumulator c)
    \<and> fr_source_buffer_frames f = Some (lc_source_buffer_frames c)"
proof (induction n arbitrary: saw ss sn c w)
  case (Suc n)
  obtain x c1 w1 where s: "packet_step api fmt ss sn c w = (x, c1, w1)" by (metis prod_cases3)
  obtain t where x: "x = Inr t" using Suc.prems s by (cases x) (auto simp: packet_loop_Suc)
  note st = packet_step_Inr [of api fmt ss sn c w t c1 w1, unfolded s x, OF refl]
  have eq: "frame_len c1 = frame_len c" "lc_source_buffer_frames c1 = lc_source_buffer_frames c"
    "acc_format (lc_accumulator c1) = acc_format (lc_accumulator c)"
    using st by (simp_all add: same_setup_def)
  show ?case
  proof (cases t)
    case (Turn_More a b)
    then show ?thesis using Suc.prems s x Suc.IH [of True a b c1 w1] eq by (simp add: packet_loop_Suc)
  next
    case (Turn_Frame g)
    then have "f = g" using Suc.prems s x by (simp add: packet_loop_Suc)
    then show ?thesis using st Turn_Frame by (auto simp: Let_def split: if_splits)
  qed (use Suc.prems s x in \<open>auto simp: packet_loop_Suc split: if_splits\<close>)
qed (simp add: packet_loop.simps)

text \<open>
  The packet loop ends. As long as the device has channels and no packet is empty, every turn
  that does not return adds at least one sample below the length of a frame: with fuel for one turn
  more than a frame has samples the outcome does not depend on the fuel, so the loop of the code,
  which has none, returns.
\<close>
theorem packet_loop_terminates:
  assumes "di_channels fmt \<noteq> 0" and "\<forall>w p w'. wa_get_buffer api w = (Inr p, w') \<longrightarrow> pk_frames p \<noteq> 0"
    and "packet_fuel c \<le> n" and "packet_fuel c \<le> m"
  shows "packet_loop n api fmt saw ss sn c w = packet_loop m api fmt saw ss sn c w"
proof -
  have "packet_loop n api fmt saw ss sn c w = packet_loop m api fmt saw ss sn c w"
    if "0 < n" "0 < m" "frame_len c < n + length (buffered c)" "frame_len c < m + length (buffered c)"
    using that
  proof (induction n arbitrary: m saw ss sn c w)
    case (Suc n)
    then obtain k where k: "m = Suc k" by (cases m) auto
    obtain x c1 w1 where s: "packet_step api fmt ss sn c w = (x, c1, w1)" by (metis prod_cases3)
    show ?case
    proof (cases "\<exists>a b. x = Inr (Turn_More a b)")
      case True
      then obtain a b where x: "x = Inr (Turn_More a b)" by blast
      obtain p v v' where p: "wa_get_buffer api v = (Inr p, v')"
        "pk_silent p \<or> packet_samples fmt p \<noteq> None"
        "buffered c1 = buffered c @ packet_stream fmt p" "length (buffered c1) < frame_len c"
        using packet_step_Inr [of api fmt ss sn c w "Turn_More a b" c1 w1] s x
        by (auto simp: Let_def split: if_splits)
      have "0 < unat (pk_frames p)" "0 < unat (di_channels fmt)"
        using assms(1,2) p(1) by (auto simp: unat_gt_0)
      then have l: "length (buffered c) < length (buffered c1)"
        using p(2,3) packet_stream_length [of p fmt] by auto
      have f: "frame_len c1 = frame_len c"
        using packet_step_Inr [of api fmt ss sn c w "Turn_More a b" c1 w1] s x by (simp add: same_setup_def)
      have "packet_loop n api fmt True a b c1 w1 = packet_loop k api fmt True a b c1 w1"
        using Suc.prems l p(4) f k by (intro Suc.IH) auto
      then show ?thesis by (simp add: packet_loop_Suc k s x)
    next
      case False
      then show ?thesis
        by (auto simp: packet_loop_Suc k s split: sum.split packet_turn.split)
    qed
  qed simp
  then show ?thesis using assms(3,4) by (simp add: packet_fuel_def)
qed

section \<open>The capture as a source\<close>

lemma fill_Inl:
  "fill_accumulator_from_packets api c w = (Inl e, c', w') \<Longrightarrow>
    lc_state c' = Cap_Failed \<and> lc_recent_error c' = Some e"
  by (auto simp: fill_accumulator_from_packets_def Let_def set_failed_def dest: packet_loop_Inl
      split: if_splits option.splits)

lemma read_loop_Inl:
  "read_loop polls api np c w = (Inl e, c', w') \<Longrightarrow> lc_state c' = Cap_Failed \<and> lc_recent_error c' = Some e"
proof (induction polls arbitrary: np c w)
  case 0
  then show ?case
    by (subst (asm) read_loop.simps)
      (auto dest: fill_Inl split: prod.splits sum.splits packet_read_status.splits)
next
  case (Suc n)
  show ?case
    using Suc.prems
    by (subst (asm) read_loop.simps)
      (auto dest: fill_Inl Suc.IH split: prod.splits sum.splits packet_read_status.splits)
qed

lemma fill_frame:
  "fill_accumulator_from_packets api c w = (Inr (Got_Frame f), c', w') \<Longrightarrow>
    length (fr_samples f) = total_samples_per_frame (fr_format f)"
  by (auto simp: fill_accumulator_from_packets_def Let_def dest: packet_loop_frame split: if_splits option.splits)

lemma read_loop_frame:
  "read_loop polls api np c w = (Inr (Some f, b), c', w') \<Longrightarrow>
    length (fr_samples f) = total_samples_per_frame (fr_format f)"
proof (induction polls arbitrary: np c w)
  case 0
  then show ?case
    by (subst (asm) read_loop.simps)
      (auto dest: fill_frame split: prod.splits sum.splits packet_read_status.splits)
next
  case (Suc n)
  show ?case
    using Suc.prems
    by (subst (asm) read_loop.simps)
      (auto dest: fill_frame Suc.IH split: prod.splits sum.splits packet_read_status.splits)
qed

text \<open>As a source, the capture and the world it calls are one state; a call is told its polls.\<close>

definition src_start :: "('d, 'w) wasapi \<Rightarrow> nat \<Rightarrow> loopback_capture \<times> 'w
    \<Rightarrow> (capture_error + unit) \<times> loopback_capture \<times> 'w" where
  "src_start api polls s = loopback_start api (fst s) (snd s)"

definition src_read :: "('d, 'w) wasapi \<Rightarrow> nat \<Rightarrow> loopback_capture \<times> 'w
    \<Rightarrow> (capture_error + audio_frame) \<times> loopback_capture \<times> 'w" where
  "src_read api polls s = loopback_read_frame polls api (fst s) (snd s)"

definition src_stop :: "('d, 'w) wasapi \<Rightarrow> nat \<Rightarrow> loopback_capture \<times> 'w
    \<Rightarrow> (capture_error + unit) \<times> loopback_capture \<times> 'w" where
  "src_stop api polls s = loopback_stop api (fst s) (snd s)"

lemma do_start_Inr: "do_start api c w = (Inr (), c', w') \<Longrightarrow> lc_state c' = Cap_Started"
  by (auto simp: do_start_def or_fail_Inr Let_def split: if_splits)

interpretation loopback: capture_source "src_start api" "src_read api" "src_stop api" "\<lambda>s. lc_state (fst s)"
  for api :: "('d, 'w) wasapi"
proof
  fix e and s t :: "loopback_capture \<times> 'w" and f
  show "src_start api e s = (Inr (), t) \<Longrightarrow> lc_state (fst t) = Cap_Started"
    by (cases t) (auto simp: src_start_def loopback_start_def dest: do_start_Inr split: prod.splits sum.splits)
  show "lc_state (fst s) \<noteq> Cap_Started \<Longrightarrow> src_read api e s = (Inl Cap_NotStarted, s)"
    by (simp add: src_read_def loopback_read_frame_def)
  show "src_read api e s = (Inr f, t) \<Longrightarrow> length (fr_samples f) = total_samples_per_frame (fr_format f)"
    by (cases t) (auto simp: src_read_def loopback_read_frame_def audio_frame_silence_def
        dest: read_loop_frame split: prod.splits sum.splits if_splits option.splits)
  show "src_stop api e s = (Inr (), t) \<Longrightarrow> lc_state (fst t) = Cap_Stopped"
    by (auto simp: src_stop_def loopback_stop_def do_stop_def Let_def)
qed

section \<open>Conservation\<close>

text \<open>
  What WASAPI documents of a healthy client: the next packet's size is that of the oldest packet
  pending (0 if none), \<open>GetBuffer\<close> gives that packet, with frames and with data unless it is
  silent, and \<open>ReleaseBuffer\<close> consumes it; meanwhile and while the caller yields new packets may
  arrive at the end.
\<close>

definition delivers ::
  "('d, 'w) wasapi \<Rightarrow> device_format_info \<Rightarrow> ('w \<Rightarrow> pcm_packet list) \<Rightarrow> ('w \<Rightarrow> pcm_packet list) \<Rightarrow> bool" where
  "delivers api fmt consumed pending \<longleftrightarrow>
     (\<forall>w. \<exists>w' new. wa_next_packet_size api w =
          (Inr (case pending w of [] \<Rightarrow> 0 | p # _ \<Rightarrow> pk_frames p), w')
        \<and> consumed w' = consumed w \<and> pending w' = pending w @ new)
   \<and> (\<forall>w p ps. pending w = p # ps \<longrightarrow> (\<exists>w' new. wa_get_buffer api w = (Inr p, w')
        \<and> consumed w' = consumed w \<and> pending w' = pending w @ new))
   \<and> (\<forall>w p ps. pending w = p # ps \<longrightarrow> (\<exists>w' new. wa_release_buffer api (pk_frames p) w = (Inr (), w')
        \<and> consumed w' = consumed w @ [p] \<and> pending w' = ps @ new))
   \<and> (\<forall>w. \<exists>new. consumed (wa_yield api w) = consumed w \<and> pending (wa_yield api w) = pending w @ new)
   \<and> (\<forall>w. \<forall>p \<in> set (pending w). pk_frames p \<noteq> 0 \<and> (pk_silent p \<or> packet_samples fmt p \<noteq> None))"

lemma delivers_nonempty: "delivers api fmt consumed pending \<Longrightarrow> pending w = p # ps \<Longrightarrow>
    pk_frames p \<noteq> 0 \<and> (pk_silent p \<or> packet_samples fmt p \<noteq> None)"
  unfolding delivers_def by (metis list.set_intros(1))

lemma delivers_next:
  assumes "delivers api fmt consumed pending" and "wa_next_packet_size api w = (x, w')"
  shows "x = Inr (case pending w of [] \<Rightarrow> 0 | p # _ \<Rightarrow> pk_frames p)" and "consumed w' = consumed w"
    and "\<exists>new. pending w' = pending w @ new"
proof -
  have "\<exists>w' new. wa_next_packet_size api w = (Inr (case pending w of [] \<Rightarrow> 0 | p # _ \<Rightarrow> pk_frames p), w')
      \<and> consumed w' = consumed w \<and> pending w' = pending w @ new"
    using assms(1) unfolding delivers_def by blast
  then show "x = Inr (case pending w of [] \<Rightarrow> 0 | p # _ \<Rightarrow> pk_frames p)" "consumed w' = consumed w"
    "\<exists>new. pending w' = pending w @ new" using assms(2) by auto
qed

lemma delivers_get:
  assumes "delivers api fmt consumed pending" and "pending w = p # ps" and "wa_get_buffer api w = (x, w')"
  shows "x = Inr p" and "consumed w' = consumed w" and "\<exists>new. pending w' = p # ps @ new"
proof -
  have "\<exists>w' new. wa_get_buffer api w = (Inr p, w') \<and> consumed w' = consumed w \<and> pending w' = pending w @ new"
    using assms(1,2) unfolding delivers_def by blast
  then show "x = Inr p" "consumed w' = consumed w" "\<exists>new. pending w' = p # ps @ new"
    using assms(2,3) by auto
qed

lemma delivers_release:
  assumes "delivers api fmt consumed pending" and "pending w = p # ps"
    and "wa_release_buffer api (pk_frames p) w = (x, w')"
  shows "x = Inr ()" and "consumed w' = consumed w @ [p]" and "\<exists>new. pending w' = ps @ new"
proof -
  have "\<exists>w' new. wa_release_buffer api (pk_frames p) w = (Inr (), w') \<and> consumed w' = consumed w @ [p]
      \<and> pending w' = ps @ new"
    using assms(1,2) unfolding delivers_def by blast
  then show "x = Inr ()" "consumed w' = consumed w @ [p]" "\<exists>new. pending w' = ps @ new"
    using assms(3) by auto
qed

lemma delivers_yield:
  assumes "delivers api fmt consumed pending"
  shows "consumed (wa_yield api w) = consumed w"
  using assms unfolding delivers_def by blast

text \<open>A turn never fails then, and takes the oldest packet when there is one.\<close>

lemma packet_step_delivers:
  assumes d: "delivers api fmt consumed pending" and s: "packet_step api fmt ss sn c w = (x, c', w')"
  shows "\<exists>r. x = Inr r \<and> same_setup c c' \<and>
    (case r of
       Turn_Empty \<Rightarrow> c' = c \<and> pending w = [] \<and> consumed w' = consumed w
     | Turn_More a b \<Rightarrow> (\<exists>p ps. pending w = p # ps \<and> consumed w' = consumed w @ [p]
         \<and> buffered c' = buffered c @ packet_stream fmt p
         \<and> length (buffered c @ packet_stream fmt p) < frame_len c)
     | Turn_Frame f \<Rightarrow> (\<exists>p ps. pending w = p # ps \<and> consumed w' = consumed w @ [p]
         \<and> fr_samples f = take (frame_len c) (buffered c @ packet_stream fmt p)
         \<and> buffered c' = drop (frame_len c) (buffered c @ packet_stream fmt p)
         \<and> frame_len c \<le> length (buffered c @ packet_stream fmt p)
         \<and> (\<exists>new. pending w' = ps @ new)
         \<and> fr_source_buffer_frames f = Some (lc_source_buffer_frames c)))"
proof -
  obtain y w1 where y: "wa_next_packet_size api w = (y, w1)" by fastforce
  note n = delivers_next [OF d y]
  show ?thesis
  proof (cases "pending w")
    case Nil
    then show ?thesis using s y n by (auto simp: packet_step_def)
  next
    case (Cons p ps)
    note ne = delivers_nonempty [OF d Cons]
    obtain new where p1: "pending w1 = p # ps @ new" using n(3) Cons by auto
    obtain z w2 where z: "wa_get_buffer api w1 = (z, w2)" by fastforce
    note g = delivers_get [OF d p1 z]
    then obtain new' where p2: "pending w2 = p # ps @ new'" by auto
    obtain u w3 where u: "wa_release_buffer api (pk_frames p) w2 = (u, w3)" by fastforce
    note rl = delivers_release [OF d p2 u]
    have "take_packet (wa_now api w2) fmt p c \<noteq> None"
      using ne by (auto simp: take_packet_def Let_def split: option.split)
    then obtain c1 where t: "take_packet (wa_now api w2) fmt p c = Some c1" by blast
    obtain r c2 where em: "emit_frame (wa_unix_ms api w3) (ss \<or> pk_silent p) (sn \<or> \<not> pk_silent p) c1 = (r, c2)"
      by fastforce
    have x: "x = r" "c' = c2" "w' = w3"
      using s y n(1) Cons ne z g(1) u rl(1) t em by (auto simp: packet_step_def Let_def)
    obtain r' where r': "r = Inr r'" using em emit_frame_no_error by (cases r) auto
    have "packet_step api fmt ss sn c w = (Inr r', c', w')" using s x r' by simp
    note st = packet_step_Inr [OF this]
    have "wa_get_buffer api w1 = (Inr p, w2)" "consumed w' = consumed w @ [p]"
      "\<exists>new. pending w' = ps @ new"
      using z g(1,2) rl(2,3) n(2) x(3) by auto
    then show ?thesis
      using st y n(1) Cons ne x(1) r' by (auto simp: Let_def split: if_splits packet_turn.split)
  qed
qed

text \<open>The samples that went out and those still buffered are the old buffer and the new packets.\<close>

definition moved ::
  "device_format_info \<Rightarrow> ('w \<Rightarrow> pcm_packet list) \<Rightarrow> loopback_capture \<Rightarrow> 'w \<Rightarrow> real list
   \<Rightarrow> loopback_capture \<Rightarrow> 'w \<Rightarrow> bool" where
  "moved fmt consumed c w out c' w' \<longleftrightarrow> same_setup c c'
     \<and> (\<exists>new. consumed w' = consumed w @ new
          \<and> out @ buffered c' = buffered c @ concat (map (packet_stream fmt) new))"

lemma moved_refl: "same_setup c c' \<Longrightarrow> buffered c' = buffered c \<Longrightarrow> consumed w' = consumed w \<Longrightarrow>
    moved fmt consumed c w [] c' w'"
  by (simp add: moved_def)

lemma moved_trans:
  assumes "moved fmt consumed c w out c1 w1" and "moved fmt consumed c1 w1 out' c' w'"
  shows "moved fmt consumed c w (out @ out') c' w'"
proof -
  obtain n1 where 1: "consumed w1 = consumed w @ n1"
    "out @ buffered c1 = buffered c @ concat (map (packet_stream fmt) n1)" "same_setup c c1"
    using assms(1) by (auto simp: moved_def)
  obtain n2 where 2: "consumed w' = consumed w1 @ n2"
    "out' @ buffered c' = buffered c1 @ concat (map (packet_stream fmt) n2)" "same_setup c1 c'"
    using assms(2) by (auto simp: moved_def)
  have "(out @ out') @ buffered c' = buffered c @ concat (map (packet_stream fmt) (n1 @ n2))"
    using 1(2) 2(2) by (metis append.assoc concat_append map_append)
  then show ?thesis using 1 2 same_setup_trans by (auto simp: moved_def)
qed

definition status_samples :: "packet_read_status \<Rightarrow> real list" where
  "status_samples s = (case s of Got_Frame f \<Rightarrow> fr_samples f | _ \<Rightarrow> [])"

lemma packet_loop_moved:
  assumes d: "delivers api fmt consumed pending"
  shows "packet_loop n api fmt saw ss sn c w = (x, c', w') \<Longrightarrow>
    \<exists>s. x = Inr s \<and> moved fmt consumed c w (status_samples s) c' w'"
proof (induction n arbitrary: saw ss sn c w)
  case 0
  then show ?case by (auto simp: packet_loop.simps status_samples_def moved_refl)
next
  case (Suc n)
  obtain y c1 w1 where s: "packet_step api fmt ss sn c w = (y, c1, w1)" by (metis prod_cases3)
  obtain r where r: "y = Inr r" and st: "same_setup c c1" using packet_step_delivers [OF d s] by blast
  note st = packet_step_delivers [OF d s, unfolded r]
  show ?case
  proof (cases r)
    case (Turn_More a b)
    then have m: "moved fmt consumed c w [] c1 w1" using st by (auto simp: moved_def)
    have "packet_loop n api fmt True a b c1 w1 = (x, c', w')"
      using Suc.prems s r Turn_More by (simp add: packet_loop_Suc)
    from Suc.IH [OF this] moved_trans [OF m] show ?thesis by fastforce
  next
    case (Turn_Frame f)
    then obtain p where p: "consumed w1 = consumed w @ [p]"
      "fr_samples f = take (frame_len c) (buffered c @ packet_stream fmt p)"
      "buffered c1 = drop (frame_len c) (buffered c @ packet_stream fmt p)" "same_setup c c1"
      using st by auto
    have "fr_samples f @ buffered c1 = buffered c @ packet_stream fmt p"
      unfolding p(2,3) by (rule append_take_drop_id)
    then have "moved fmt consumed c w (fr_samples f) c1 w1"
      using p(1,4) by (auto simp: moved_def)
    then show ?thesis
      using Suc.prems s r Turn_Frame by (auto simp: packet_loop_Suc status_samples_def)
  next
    case Turn_Empty
    then show ?thesis
      using Suc.prems s r st
      by (auto simp: packet_loop_Suc status_samples_def moved_def same_setup_def split: if_splits)
  qed
qed

lemma fill_moved:
  assumes "delivers api fmt consumed pending" and "lc_capture_client c" and "lc_device_format c = Some fmt"
    and "fill_accumulator_from_packets api c w = (x, c', w')"
  shows "\<exists>s. x = Inr s \<and> moved fmt consumed c w (status_samples s) c' w'"
  using assms(2-4) by (auto simp: fill_accumulator_from_packets_def dest!: packet_loop_moved [OF assms(1)])

lemma fill_source:
  "fill_accumulator_from_packets api c w = (Inr (Got_Frame f), c', w') \<Longrightarrow>
    fr_source_buffer_frames f \<noteq> None"
  by (auto simp: fill_accumulator_from_packets_def Let_def dest: packet_loop_frame split: if_splits option.splits)

definition option_samples :: "audio_frame option \<Rightarrow> real list" where
  "option_samples x = (case x of None \<Rightarrow> [] | Some f \<Rightarrow> fr_samples f)"

lemma read_loop_moved:
  assumes d: "delivers api fmt consumed pending"
  shows "lc_capture_client c \<Longrightarrow> lc_device_format c = Some fmt \<Longrightarrow>
    read_loop polls api np c w = (x, c', w') \<Longrightarrow>
    \<exists>f b. x = Inr (f, b) \<and> moved fmt consumed c w (option_samples f) c' w'
      \<and> (\<forall>g. f = Some g \<longrightarrow> fr_source_buffer_frames g \<noteq> None)"
proof (induction polls arbitrary: np c w)
  case 0
  obtain y c1 w1 where y: "fill_accumulator_from_packets api c w = (y, c1, w1)" by (metis prod_cases3)
  obtain s where s: "y = Inr s" "moved fmt consumed c w (status_samples s) c1 w1"
    using fill_moved [OF d 0(1,2) y] by blast
  show ?case
    using 0(3) y s fill_source [of api c w _ c1 w1]
    by (subst (asm) read_loop.simps)
      (auto simp: status_samples_def option_samples_def moved_def same_setup_def split: packet_read_status.splits)
next
  case (Suc n)
  obtain y c1 w1 where y: "fill_accumulator_from_packets api c w = (y, c1, w1)" by (metis prod_cases3)
  obtain s where s: "y = Inr s" "moved fmt consumed c w (status_samples s) c1 w1"
    using fill_moved [OF d Suc.prems(1,2) y] by blast
  have c1: "lc_capture_client c1" "lc_device_format c1 = Some fmt"
    using s(2) Suc.prems(1,2) by (simp_all add: moved_def same_setup_def)
  have again: ?case if "status_samples s = []" and "read_loop n api np' c1 (wa_yield api w1) = (x, c', w')" for np'
  proof -
    have "moved fmt consumed c w [] c1 (wa_yield api w1)"
      using s(2) that(1) delivers_yield [OF d, of w1] by (auto simp: moved_def)
    from moved_trans [OF this] show ?thesis using Suc.IH [OF c1 that(2)] by fastforce
  qed
  show ?case
  proof (cases s)
    case (Got_Frame f)
    then show ?thesis
      using Suc.prems(3) y s fill_source [of api c w _ c1 w1]
      by (subst (asm) read_loop.simps) (auto simp: status_samples_def option_samples_def moved_def same_setup_def)
  qed (use Suc.prems(3) y s again in \<open>subst (asm) read_loop.simps; auto simp: status_samples_def\<close>)+
qed

text \<open>Reads in turn, each with its number of polls; frames that fill a gap come with no buffer size.\<close>

fun read_run ::
  "('d, 'w) wasapi \<Rightarrow> nat list \<Rightarrow> loopback_capture \<Rightarrow> 'w
   \<Rightarrow> (capture_error + audio_frame) list \<times> loopback_capture \<times> 'w" where
  "read_run api [] c w = ([], c, w)"
| "read_run api (n # ns) c w =
     (let (r, c, w) = loopback_read_frame n api c w; (rs, c, w) = read_run api ns c w in (r # rs, c, w))"

definition captured :: "(capture_error + audio_frame) list \<Rightarrow> real list" where
  "captured rs = concat (map (\<lambda>r. case r of Inl _ \<Rightarrow> []
     | Inr f \<Rightarrow> if fr_source_buffer_frames f = None then [] else fr_samples f) rs)"

lemma read_frame_moved:
  assumes d: "delivers api fmt consumed pending" and c: "lc_capture_client c" "lc_device_format c = Some fmt"
    and st: "lc_state c = Cap_Started" and r: "loopback_read_frame n api c w = (x, c', w')"
  shows "\<exists>f. x = Inr f \<and> moved fmt consumed c w (captured [x]) c' w'"
proof -
  obtain y c1 w1 where y: "read_loop n api False c w = (y, c1, w1)" by (metis prod_cases3)
  obtain f b where f: "y = Inr (f, b)" "moved fmt consumed c w (option_samples f) c1 w1"
    "\<forall>g. f = Some g \<longrightarrow> fr_source_buffer_frames g \<noteq> None"
    using read_loop_moved [OF d c y] by blast
  show ?thesis
  proof (cases f)
    case (Some g)
    then show ?thesis using r y f st by (auto simp: loopback_read_frame_def captured_def option_samples_def)
  next
    case None
    then show ?thesis
      using r y f st
      by (auto simp: loopback_read_frame_def captured_def option_samples_def audio_frame_silence_def
          moved_def same_setup_def)
  qed
qed

text \<open>
  C17: no captured sample is lost, repeated or reordered. As long as WASAPI delivers, reading never
  fails, and the samples of the frames handed over, followed by what the accumulator still holds,
  are exactly those of the packets consumed, in their order; a frame of silence that bridges a gap
  takes nothing out.
\<close>
theorem loopback_conserves_samples:
  assumes "delivers api fmt consumed pending" and "lc_capture_client c" and "lc_device_format c = Some fmt"
    and "lc_state c = Cap_Started" and "read_run api ns c w = (rs, c', w')"
  shows "(\<forall>r \<in> set rs. \<not> isl r) \<and> length rs = length ns
    \<and> (\<exists>new. consumed w' = consumed w @ new
        \<and> captured rs @ buffered c' = buffered c @ concat (map (packet_stream fmt) new))"
proof -
  have "(\<forall>r \<in> set rs. \<not> isl r) \<and> length rs = length ns \<and> moved fmt consumed c w (captured rs) c' w'"
    using assms(2-5)
  proof (induction ns arbitrary: c w rs)
    case Nil
    then show ?case by (simp add: captured_def moved_refl)
  next
    case (Cons n ns)
    obtain x c1 w1 where x: "loopback_read_frame n api c w = (x, c1, w1)" by (metis prod_cases3)
    obtain us c2 w2 where u: "read_run api ns c1 w1 = (us, c2, w2)" by (metis prod_cases3)
    have o: "rs = x # us" "c' = c2" "w' = w2" using Cons.prems(4) x u by auto
    note m = read_frame_moved [OF assms(1) Cons.prems(1,2,3) x]
    have c1: "lc_capture_client c1" "lc_device_format c1 = Some fmt" "lc_state c1 = Cap_Started"
      using m Cons.prems(1-3) by (auto simp: moved_def same_setup_def)
    have cap: "captured (x # us) = captured [x] @ captured us" by (simp add: captured_def)
    show ?case
      using Cons.IH [OF c1, of w1 us] u o m moved_trans [of fmt consumed c w "captured [x]" c1 w1 "captured us" c' w']
      by (auto simp: cap)
  qed
  then show ?thesis by (simp add: moved_def)
qed

section \<open>Backlog\<close>

lemma read_whole_packet:
  assumes d: "delivers api fmt consumed pending" and c: "lc_capture_client c" "lc_device_format c = Some fmt"
    and st: "lc_state c = Cap_Started" and p: "pending w = p # ps"
    and len: "frame_len c \<le> length (buffered c @ packet_stream fmt p)"
    and r: "loopback_read_frame n api c w = (x, c', w')"
  shows "length (buffered c') = length (buffered c) + length (packet_stream fmt p) - frame_len c
    \<and> same_setup c c' \<and> (\<exists>new. pending w' = ps @ new)"
proof -
  obtain y c1 w1 where s: "packet_step api fmt False False c w = (y, c1, w1)" by (metis prod_cases3)
  obtain t where t: "y = Inr t" using packet_step_delivers [OF d s] by blast
  note sd = packet_step_delivers [OF d s, unfolded t]
  obtain f where f: "t = Turn_Frame f" using sd p len by (cases t) auto
  have fill: "fill_accumulator_from_packets api c w = (Inr (Got_Frame f), c1, w1)"
    using c s t f by (simp add: fill_accumulator_from_packets_def packet_fuel_def packet_loop_Suc)
  have "read_loop n api False c w = (Inr (Some f, False),
      c1\<lparr>lc_capture_stats := capture_stats_maybe_log (wa_now api w1) (lc_capture_stats c1)\<rparr>, w1)"
    by (subst read_loop.simps) (simp add: fill)
  then have c': "c' = c1\<lparr>lc_capture_stats := capture_stats_maybe_log (wa_now api w1) (lc_capture_stats c1)\<rparr>"
    "w' = w1" using r st by (auto simp: loopback_read_frame_def)
  have "buffered c1 = drop (frame_len c) (buffered c @ packet_stream fmt p)"
    "same_setup c c1" "\<exists>new. pending w1 = ps @ new"
    using sd f p by auto
  then show ?thesis by (simp add: c' same_setup_def del: drop_append)
qed

lemma quiet_read:
  assumes q: "wa_next_packet_size api w = (Inr 0, w)" "wa_yield api w = w"
    and c: "lc_capture_client c" "lc_device_format c = Some fmt" "lc_state c = Cap_Started"
  shows "\<exists>f c'. loopback_read_frame n api c w = (Inr f, c', w) \<and> fr_packet_kind f = NoPacket
    \<and> fr_samples f = replicate (total_samples_per_frame (lc_target_format c)) 0
    \<and> lc_accumulator c' = lc_accumulator c"
proof -
  have fill: "fill_accumulator_from_packets api c w = (Inr No_Packet, c\<lparr>lc_capture_stats :=
      record_no_packet_poll (length (buffered c)) (lc_capture_stats c)\<rparr>, w)"
    if "lc_capture_client c" "lc_device_format c = Some fmt" for c
    using that q by (simp add: fill_accumulator_from_packets_def packet_fuel_def packet_loop_Suc packet_step_def)
  have "\<exists>c'. read_loop n api np c w = (Inr (None, True), c', w) \<and> lc_accumulator c' = lc_accumulator c
      \<and> lc_target_format c' = lc_target_format c"
    if "lc_capture_client c" "lc_device_format c = Some fmt" for c np
    using that
  proof (induction n arbitrary: c np)
    case 0
    then show ?case by (subst read_loop.simps) (simp add: fill)
  next
    case (Suc n)
    let ?c = "c\<lparr>lc_capture_stats := record_no_packet_poll (length (buffered c)) (lc_capture_stats c)\<rparr>"
    show ?case
      using Suc.IH [of ?c True] Suc.prems q(2) by (subst read_loop.simps) (simp add: fill)
  qed
  from this [OF c(1,2), of False] obtain c' where
    "read_loop n api False c w = (Inr (None, True), c', w)" "lc_accumulator c' = lc_accumulator c"
    "lc_target_format c' = lc_target_format c" by blast
  then show ?thesis
    using c(3) by (auto simp: loopback_read_frame_def audio_frame_silence_def)
qed

text \<open>
  C30: the capture falls behind. A read hands over one frame for each packet it takes, however much
  is buffered: with packets of \<open>m\<close> samples, \<open>m\<close> more than a frame's, every read leaves \<open>m\<close> less a
  frame more in the accumulator, without bound. And when no packet arrives before the deadline, a
  read returns silence although the accumulator may hold any number of whole frames.
\<close>
theorem loopback_backlog:
  assumes "delivers api fmt consumed pending" and "lc_capture_client c" and "lc_device_format c = Some fmt"
    and "lc_state c = Cap_Started" and "pending w = qs @ rest" and "length qs = length ns"
    and "\<forall>q \<in> set qs. length (packet_stream fmt q) = frame_len c + extra"
    and "read_run api ns c w = (rs, c', w')"
  shows "length (buffered c') = length (buffered c) + length ns * extra
    \<and> (wa_next_packet_size api w' = (Inr 0, w') \<longrightarrow> wa_yield api w' = w' \<longrightarrow>
        (\<exists>f c''. loopback_read_frame n api c' w' = (Inr f, c'', w')
          \<and> fr_samples f = replicate (total_samples_per_frame (lc_target_format c)) 0
          \<and> buffered c'' = buffered c'))"
proof -
  have m: "length (buffered c') = length (buffered c) + length ns * extra \<and> same_setup c c'"
    using assms(2-8)
  proof (induction ns arbitrary: c w rs qs rest)
    case (Cons k ns)
    obtain q qs' where qs: "qs = q # qs'" using Cons.prems(5) by (cases qs) auto
    obtain x c1 w1 where x: "loopback_read_frame k api c w = (x, c1, w1)" by (metis prod_cases3)
    obtain us c2 w2 where u: "read_run api ns c1 w1 = (us, c2, w2)" by (metis prod_cases3)
    have o: "c' = c2" "w' = w2" using Cons.prems(7) x u by auto
    have q: "pending w = q # (qs' @ rest)" "frame_len c \<le> length (buffered c @ packet_stream fmt q)"
      using Cons.prems(4,6) qs by auto
    note rw = read_whole_packet [OF assms(1) Cons.prems(1-3) q x]
    then obtain new where p1: "pending w1 = qs' @ (rest @ new)" by auto
    have c1: "lc_capture_client c1" "lc_device_format c1 = Some fmt" "lc_state c1 = Cap_Started"
      "frame_len c1 = frame_len c" using rw Cons.prems(1-3) by (auto simp: same_setup_def)
    have "length (buffered c2) = length (buffered c1) + length ns * extra \<and> same_setup c1 c2"
      using Cons.IH [OF c1(1-3) p1 _ _ u [folded o]] Cons.prems(5,6) qs c1(4) o by auto
    then show ?case using rw Cons.prems(6) qs o same_setup_trans by fastforce
  qed simp
  then have "lc_capture_client c'" "lc_device_format c' = Some fmt" "lc_state c' = Cap_Started"
    "lc_target_format c' = lc_target_format c"
    using assms(2-4) by (auto simp: same_setup_def)
  then show ?thesis using m quiet_read [of api w' c' fmt n] by auto
qed

section \<open>Errors and formats\<close>

text \<open>
  A read error is final. It leaves the capture failed, with the error recorded, and from then on
  every read is refused and changes nothing, whatever the device does: the capture task, which goes
  on reading, gets no audio until the service is restarted.
\<close>
theorem loopback_failure_sticks:
  assumes "lc_state c = Cap_Started" and "loopback_read_frame n api c w = (Inl e, c', w')"
  shows "lc_state c' = Cap_Failed \<and> lc_recent_error c' = Some e
    \<and> (\<forall>m u. loopback_read_frame m api c' u = (Inl Cap_NotStarted, c', u))"
proof -
  have "lc_state c' = Cap_Failed \<and> lc_recent_error c' = Some e"
    using assms by (auto simp: loopback_read_frame_def dest: read_loop_Inl
        split: prod.splits sum.splits option.splits)
  then show ?thesis by (simp add: loopback_read_frame_def)
qed

definition supported_format :: "mix_format \<Rightarrow> bool" where
  "supported_format mix \<longleftrightarrow>
     (let bits = mf_bits_per_sample mix; tag = mf_format_tag mix;
          data1 = (le_word (take 4 (mf_sub_guid mix)) :: u32) in
      (tag = 3 \<and> bits = 32) \<or> (tag = 1 \<and> bits = 16)
      \<or> (tag = 65534 \<and> 22 \<le> mf_cb_size mix \<and> ((data1 = 3 \<and> bits = 32) \<or> (data1 = 1 \<and> bits = 16))))"

lemma classify_supported:
  "(\<exists>k. classify_mix_format mix = Inr k) \<longleftrightarrow> supported_format mix"
  by (auto simp: classify_mix_format_def extensible_kind_def supported_format_def Let_def not_less
      split: if_splits sum.splits)

lemma classify_kind:
  "classify_mix_format mix = Inr (k, s) \<Longrightarrow>
    (k = Device_F32 \<longleftrightarrow> mf_bits_per_sample mix = 32) \<and> (k = Device_I16 \<longleftrightarrow> mf_bits_per_sample mix = 16)"
  by (auto simp: classify_mix_format_def extensible_kind_def Let_def split: if_splits sum.splits)

lemma resolve_frame:
  "resolve_default_output_device api c w = (r, c', w') \<Longrightarrow>
    (case r of Inl e \<Rightarrow> lc_state c' = Cap_Failed \<and> lc_recent_error c' = Some e | Inr d \<Rightarrow> True)
    \<and> lc_frame_duration_ms c' = lc_frame_duration_ms c"
  by (auto simp: resolve_default_output_device_def or_fail_def set_failed_def
      split: prod.splits sum.splits)

lemma init_frame:
  "init_audio_clients api d c w = (r, c', w') \<Longrightarrow>
    (case r of Inl e \<Rightarrow> lc_state c' = Cap_Failed \<and> lc_recent_error c' = Some e
     | Inr _ \<Rightarrow> \<exists>mix k n. supported_format mix \<and> classify_mix_format mix = Inr k
         \<and> c' = adopt_format mix k n (c\<lparr>lc_source_buffer_frames := n\<rparr>))"
  using classify_supported
  by (fastforce simp: init_audio_clients_def or_fail_def set_failed_def Let_def
      split: prod.splits sum.splits option.splits)

lemma do_start_cases:
  "do_start api c w = (r, c', w') \<Longrightarrow>
    (case r of Inl e \<Rightarrow> lc_state c' = Cap_Failed \<and> lc_recent_error c' = Some e
     | Inr _ \<Rightarrow> c' = c\<lparr>lc_state := Cap_Started\<rparr>)"
  by (auto simp: do_start_def or_fail_def set_failed_def Let_def split: prod.splits sum.splits if_splits)

text \<open>
  Starting. It either fails with the capture in the failed state and the error recorded, or
  the capture is started on a mix format of 32-bit float or 16-bit PCM, plain or extensible, with
  an empty accumulator that cuts frames of the device's own rate and channels and the configured
  duration; the format it reports is the accumulator's.
\<close>
theorem loopback_start_outcome:
  assumes "loopback_start api c w = (r, c', w')"
  shows "case r of
      Inl e \<Rightarrow> lc_state c' = Cap_Failed \<and> lc_recent_error c' = Some e
    | Inr _ \<Rightarrow> lc_state c' = Cap_Started \<and> lc_capture_client c'
        \<and> (\<exists>mix k. supported_format mix \<and> classify_mix_format mix = Inr k
            \<and> lc_target_format c' = \<lparr>sample_rate_hz = mf_samples_per_sec mix, af_channels = mf_channels mix,
                af_sample_format = SampleF32, af_frame_duration_ms = lc_frame_duration_ms c\<rparr>)
        \<and> buffered c' = [] \<and> acc_format (lc_accumulator c') = lc_target_format c'
        \<and> loopback_format c' = lc_target_format c'"
proof -
  obtain x c1 w1 where x: "resolve_default_output_device api c w = (x, c1, w1)" by (metis prod_cases3)
  note rs = resolve_frame [OF x]
  show ?thesis
  proof (cases x)
    case (Inr d)
    obtain y c2 w2 where y: "init_audio_clients api d c1 w1 = (y, c2, w2)" by (metis prod_cases3)
    note i = init_frame [OF y]
    show ?thesis
    proof (cases y)
      case (Inr u)
      have "do_start api c2 w2 = (r, c', w')" using assms x y \<open>x = Inr d\<close> Inr by (simp add: loopback_start_def)
      from do_start_cases [OF this] i Inr rs show ?thesis
        by (auto simp: adopt_format_def Let_def accumulator_new_def loopback_format_def split: sum.splits)
    qed (use assms x y Inr i in \<open>auto simp: loopback_start_def\<close>)
  qed (use assms x rs in \<open>auto simp: loopback_start_def\<close>)
qed

end
