(* ===== verification/Wav_Recorder.thy ===== *)
theory Wav_Recorder
  imports Loopback_Proofs
begin

text \<open>
  The file the debug recorder of the loopback capture writes, and concrete runs of the capture on a
  queue of packets.
\<close>

section \<open>The recorder's file\<close>

definition pcm16 :: "real list \<Rightarrow> u8 list" where
  "pcm16 xs = concat (map (\<lambda>s. le_bytes 2 (word_of_int (quantize 32767 s) :: 16 word)) xs)"

lemma pcm16_Cons: "pcm16 (x # xs) = le_bytes 2 (word_of_int (quantize 32767 x) :: 16 word) @ pcm16 xs"
  by (simp add: pcm16_def)

lemma pcm16_append [simp]: "pcm16 (xs @ ys) = pcm16 xs @ pcm16 ys"
  by (simp add: pcm16_def)

lemma length_pcm16 [simp]: "length (pcm16 xs) = 2 * length xs"
  by (induction xs) (simp_all add: pcm16_def)

lemma length_wav_header [simp]: "length (wav_header ww) = 44"
  by (simp add: wav_header_def Let_def ascii_def)

lemma append_write:
  "df_pos f = length (df_bytes f) \<Longrightarrow> df_pos f + length bs \<le> df_room f \<Longrightarrow>
    file_write_all bs f = (Inr (), f\<lparr>df_bytes := df_bytes f @ bs, df_pos := df_pos f + length bs\<rparr>)"
  by (simp add: file_write_all_def)

lemma sample_loop_writes:
  "df_pos f = length (df_bytes f) \<Longrightarrow> df_pos f + 2 * length xs \<le> df_room f \<Longrightarrow>
    write_sample_loop xs f = (Inr (), f\<lparr>df_bytes := df_bytes f @ pcm16 xs, df_pos := df_pos f + 2 * length xs\<rparr>)"
proof (induction xs arbitrary: f)
  case (Cons x xs)
  have "file_write_all (le_bytes 2 (word_of_int (quantize 32767 x) :: 16 word)) f
      = (Inr (), f\<lparr>df_bytes := df_bytes f @ le_bytes 2 (word_of_int (quantize 32767 x) :: 16 word),
           df_pos := df_pos f + 2\<rparr>)"
    using Cons.prems by (subst append_write) auto
  then show ?case using Cons by (simp add: pcm16_Cons)
qed (simp add: pcm16_def)

definition blank_header :: "u8 list" where
  "blank_header = replicate 44 0"

lemma length_blank_header [simp]: "length blank_header = 44"
  by (simp add: blank_header_def)

text \<open>The recorder after the samples \<open>xs\<close>: still open, or closed because it is full.\<close>

definition recorder_holds :: "real list \<Rightarrow> pcm_debug_wav_writer \<Rightarrow> bool" where
  "recorder_holds xs ww \<longleftrightarrow> ww_written_samples ww = length xs \<and> length xs \<le> ww_max_samples ww
     \<and> 44 + 2 * ww_max_samples ww \<le> df_room (ww_file ww)
     \<and> (if ww_finalized ww
        then df_bytes (ww_file ww) = wav_header ww @ pcm16 xs \<and> length xs = ww_max_samples ww
        else df_bytes (ww_file ww) = blank_header @ pcm16 xs \<and> df_pos (ww_file ww) = 44 + 2 * length xs)"

lemma finalize_holds:
  assumes "recorder_holds xs ww"
  shows "\<exists>ww'. wav_finalize ww = (Inr (), ww') \<and> ww_finalized ww'
    \<and> df_bytes (ww_file ww') = wav_header ww' @ pcm16 xs \<and> ww_written_samples ww' = length xs
    \<and> ww_max_samples ww' = ww_max_samples ww \<and> df_room (ww_file ww') = df_room (ww_file ww)
    \<and> ww_sample_rate ww' = ww_sample_rate ww \<and> ww_channels ww' = ww_channels ww"
proof (cases "ww_finalized ww")
  case True
  then show ?thesis using assms by (auto simp: wav_finalize_def recorder_holds_def)
next
  case False
  have h: "wav_header (ww\<lparr>ww_file := f, ww_finalized := b\<rparr>) = wav_header ww" for f b
    by (simp add: wav_header_def)
  have "file_write_all (wav_header ww) (file_seek_start (ww_file ww)) = (Inr (),
      (ww_file ww)\<lparr>df_bytes := wav_header ww @ pcm16 xs, df_pos := 44\<rparr>)"
    using assms False by (simp add: file_write_all_def file_seek_start_def recorder_holds_def)
  then show ?thesis
    using False assms by (simp add: wav_finalize_def h recorder_holds_def)
qed

text \<open>The samples that still fit are written; then a full recorder is closed.\<close>

lemma write_part:
  assumes "recorder_holds xs ww" and "\<not> ww_max_samples ww \<le> ww_written_samples ww"
  shows "\<exists>ww1. wav_write_samples ys ww =
      (if ww_max_samples ww1 \<le> ww_written_samples ww1 then wav_finalize ww1 else (Inr (), ww1))
    \<and> recorder_holds (xs @ take (ww_max_samples ww - length xs) ys) ww1 \<and> \<not> ww_finalized ww1
    \<and> ww_max_samples ww1 = ww_max_samples ww \<and> ww_sample_rate ww1 = ww_sample_rate ww
    \<and> ww_channels ww1 = ww_channels ww"
proof -
  have open_: "\<not> ww_finalized ww" using assms by (auto simp: recorder_holds_def)
  let ?n = "min (ww_max_samples ww - ww_written_samples ww) (length ys)"
  let ?ys = "take ?n ys"
  have n: "?ys = take (ww_max_samples ww - length xs) ys" and l: "length ?ys = ?n"
    using assms(1) by (auto simp: recorder_holds_def min_def)
  define f where "f = (ww_file ww)\<lparr>df_bytes := df_bytes (ww_file ww) @ pcm16 ?ys,
    df_pos := df_pos (ww_file ww) + 2 * ?n\<rparr>"
  define ww1 where "ww1 = ww\<lparr>ww_file := f, ww_written_samples := ww_written_samples ww + ?n\<rparr>"
  have o: "ww_written_samples ww = length xs" "length xs \<le> ww_max_samples ww"
    "44 + 2 * ww_max_samples ww \<le> df_room (ww_file ww)"
    "df_bytes (ww_file ww) = blank_header @ pcm16 xs" "df_pos (ww_file ww) = 44 + 2 * length xs"
    using assms(1) open_ by (simp_all add: recorder_holds_def)
  have "44 + 2 * length xs + 2 * ?n \<le> df_room (ww_file ww)" using o by (auto simp: min_def)
  then have "write_sample_loop ?ys (ww_file ww) = (Inr (), f)"
    using sample_loop_writes [of "ww_file ww" ?ys] assms(1) open_ by (simp add: recorder_holds_def f_def l)
  then have w: "wav_write_samples ys ww =
      (if ww_max_samples ww1 \<le> ww_written_samples ww1 then wav_finalize ww1 else (Inr (), ww1))"
    using assms(2) by (simp add: wav_write_samples_def ww1_def Let_def)
  have keep: "ww_max_samples ww1 = ww_max_samples ww" "ww_sample_rate ww1 = ww_sample_rate ww"
    "ww_channels ww1 = ww_channels ww" "ww_finalized ww1 = ww_finalized ww"
    "ww_written_samples ww1 = ww_written_samples ww + ?n" "ww_file ww1 = f"
    by (simp_all add: ww1_def)
  have ff: "df_bytes f = df_bytes (ww_file ww) @ pcm16 ?ys" "df_pos f = df_pos (ww_file ww) + 2 * ?n"
    "df_room f = df_room (ww_file ww)" by (simp_all add: f_def)
  have "recorder_holds (xs @ ?ys) ww1"
    unfolding recorder_holds_def keep ff o using open_ o(2,3) by simp
  then show ?thesis using w keep(1-4) open_ unfolding n by (intro exI [of _ ww1]) (simp only: simp_thms)
qed

lemma write_holds:
  assumes "recorder_holds xs ww"
  shows "\<exists>ww'. wav_write_samples ys ww = (Inr (), ww')
    \<and> recorder_holds (xs @ take (ww_max_samples ww - length xs) ys) ww' \<and> ww_max_samples ww' = ww_max_samples ww
    \<and> ww_sample_rate ww' = ww_sample_rate ww \<and> ww_channels ww' = ww_channels ww"
proof (cases "ww_max_samples ww \<le> ww_written_samples ww")
  case True
  then show ?thesis using assms by (auto simp: wav_write_samples_def recorder_holds_def)
next
  case False
  let ?xs = "xs @ take (ww_max_samples ww - length xs) ys"
  from write_part [OF assms False, of ys] obtain ww1 where w: "wav_write_samples ys ww =
      (if ww_max_samples ww1 \<le> ww_written_samples ww1 then wav_finalize ww1 else (Inr (), ww1))"
    and h: "recorder_holds ?xs ww1" "\<not> ww_finalized ww1"
    and keep: "ww_max_samples ww1 = ww_max_samples ww" "ww_sample_rate ww1 = ww_sample_rate ww"
      "ww_channels ww1 = ww_channels ww" by blast
  show ?thesis
  proof (cases "ww_max_samples ww1 \<le> ww_written_samples ww1")
    case True
    obtain ww' where ww': "wav_finalize ww1 = (Inr (), ww')" "ww_finalized ww'"
      "df_bytes (ww_file ww') = wav_header ww' @ pcm16 ?xs" "ww_written_samples ww' = length ?xs"
      "ww_max_samples ww' = ww_max_samples ww1" "df_room (ww_file ww') = df_room (ww_file ww1)"
      "ww_sample_rate ww' = ww_sample_rate ww1" "ww_channels ww' = ww_channels ww1"
      using finalize_holds [OF h(1)] by blast
    have "length ?xs = ww_max_samples ww" "44 + 2 * ww_max_samples ww1 \<le> df_room (ww_file ww1)"
      using True h keep(1) unfolding recorder_holds_def by linarith+
    then have "recorder_holds ?xs ww'"
      unfolding recorder_holds_def ww' keep using ww'(2) by (simp add: keep)
    then show ?thesis using w True ww' keep by (intro exI [of _ ww']) simp
  next
    case False
    then have "wav_write_samples ys ww = (Inr (), ww1)" using w by (simp only: if_False)
    then show ?thesis using h(1) keep by (intro exI [of _ ww1]) (simp only: simp_thms)
  qed
qed

fun record_chunks :: "real list list \<Rightarrow> pcm_debug_wav_writer \<Rightarrow> (capture_error + unit) list \<times> pcm_debug_wav_writer" where
  "record_chunks [] ww = ([], ww)"
| "record_chunks (c # cs) ww =
     (let (r, ww) = wav_write_samples c ww; (rs, ww) = record_chunks cs ww in (r # rs, ww))"

lemma record_holds:
  "recorder_holds xs ww \<Longrightarrow> record_chunks cs ww = (rs, ww') \<Longrightarrow>
    (\<forall>r \<in> set rs. r = Inr ()) \<and> recorder_holds (take (ww_max_samples ww) (xs @ concat cs)) ww'
    \<and> ww_max_samples ww' = ww_max_samples ww \<and> ww_sample_rate ww' = ww_sample_rate ww
    \<and> ww_channels ww' = ww_channels ww"
proof (induction cs arbitrary: xs ww rs)
  case Nil
  then show ?case by (auto simp: recorder_holds_def)
next
  case (Cons c cs)
  obtain ww1 where w: "wav_write_samples c ww = (Inr (), ww1)"
    "recorder_holds (xs @ take (ww_max_samples ww - length xs) c) ww1" "ww_max_samples ww1 = ww_max_samples ww"
    "ww_sample_rate ww1 = ww_sample_rate ww" "ww_channels ww1 = ww_channels ww"
    using write_holds [OF Cons.prems(1), of c] by blast
  obtain us where u: "record_chunks cs ww1 = (us, ww')" "rs = Inr () # us"
    using Cons.prems(2) w(1) by (auto split: prod.splits)
  have "take m ((xs @ take (m - length xs) c) @ concat cs) = take m (xs @ c @ concat cs)"
    if "length xs \<le> m" for m
    using that by (cases "length c \<le> m - length xs") auto
  moreover have "length xs \<le> ww_max_samples ww" using Cons.prems(1) by (simp add: recorder_holds_def)
  ultimately show ?case using Cons.IH [OF w(2) u(1)] w u(2) by auto
qed

text \<open>
  The recorded file. On a disk with room, whatever chunks are recorded and wherever the limit
  cuts them, every write succeeds and the closed file is a 44-byte header followed by the 16-bit
  little-endian samples of the longest prefix of the recording within the limit; the header's size
  fields are those of that data (as long as they fit 32 bits).
\<close>
theorem wav_file_contents:
  assumes "wav_writer_new (Inr ()) (Inr \<lparr>df_bytes = [], df_pos = 0, df_room = room\<rparr>) now rate channels secs dir = Inr ww0"
    and "44 + 2 * (unat rate * unat secs * unat channels) \<le> room"
    and "record_chunks cs ww0 = (rs, ww)" and "wav_finalize ww = (r, ww')"
    and "xs = take (unat rate * unat secs * unat channels) (concat cs)"
  shows "r = Inr () \<and> (\<forall>x \<in> set rs. x = Inr ()) \<and> length (wav_header ww') = 44
    \<and> df_bytes (ww_file ww') = wav_header ww' @ pcm16 xs
    \<and> (2 * length xs < 2 ^ 32 - 36 \<longrightarrow>
        unat (le_word (slice (df_bytes (ww_file ww')) 40 44) :: u32) = length (pcm16 xs)
        \<and> unat (le_word (slice (df_bytes (ww_file ww')) 4 8) :: u32) = length (df_bytes (ww_file ww')) - 8)"
proof -
  have h0: "recorder_holds [] ww0" "ww_max_samples ww0 = unat rate * unat secs * unat channels"
    using assms(1,2) by (auto simp: wav_writer_new_def file_write_all_def recorder_holds_def
        blank_header_def pcm16_def)
  note rec = record_holds [OF h0(1) assms(3), unfolded h0(2) append_Nil, folded assms(5)]
  obtain ww1 where f: "wav_finalize ww = (Inr (), ww1)" "df_bytes (ww_file ww1) = wav_header ww1 @ pcm16 xs"
    "ww_written_samples ww1 = length xs"
    using finalize_holds [of xs ww] rec by blast
  have ww': "ww' = ww1" "r = Inr ()" using f(1) assms(4) by auto
  have s: "slice (wav_header ww1 @ pcm16 xs) 40 44 = le_bytes 4 (of_nat (length xs * 2) :: u32)"
    "slice (wav_header ww1 @ pcm16 xs) 4 8 = le_bytes 4 (36 + of_nat (length xs * 2) :: u32)"
    by (simp_all add: wav_header_def Let_def ascii_def slice_def f(3))
  have "unat (of_nat (length xs * 2) :: u32) = 2 * length xs"
    "unat (36 + of_nat (length xs * 2) :: u32) = 36 + 2 * length xs" if "2 * length xs < 2 ^ 32 - 36"
    using that by (simp_all add: unat_of_nat unat_word_ariths)
  then show ?thesis
    using rec ww' f(2) s by (auto simp: le_word_le_bytes)
qed

section \<open>Concrete runs\<close>

text \<open>
  A device that has delivered \<open>fst w\<close> packets and has \<open>snd w\<close> more, all alike: 10 ms of 48 kHz
  stereo. The capture cuts frames of 5 ms, as in the ultra-low-latency mode.
\<close>

definition sample_packet :: pcm_packet where
  "sample_packet = \<lparr>pk_frames = 480, pk_silent = False, pk_f32 = Some (\<lambda>i. 1 / 2), pk_i16 = None\<rparr>"

definition sample_mix :: mix_format where
  "sample_mix = \<lparr>mf_samples_per_sec = 48000, mf_channels = 2, mf_bits_per_sample = 32,
     mf_format_tag = 3, mf_cb_size = 0, mf_sub_guid = []\<rparr>"

definition sample_wasapi :: "(unit, nat \<times> nat) wasapi" where
  "sample_wasapi = \<lparr>wa_co_initialize = (\<lambda>w. (Inr (), w)), wa_create_enumerator = (\<lambda>w. (Inr (), w)),
     wa_default_endpoint = (\<lambda>w. (Inr (), w)), wa_device_id = (\<lambda>_ w. (Inr ''speakers'', w)),
     wa_activate = (\<lambda>_ w. (Inr (), w)), wa_get_mix_format = (\<lambda>w. (Inr (Some sample_mix), w)),
     wa_initialize = (\<lambda>_ _ w. (Inr (), w)), wa_get_buffer_size = (\<lambda>w. (Inr 960, w)),
     wa_get_service = (\<lambda>w. (Inr (), w)), wa_start = (\<lambda>w. (Inr (), w)), wa_stop = (\<lambda>w. (Inr (), w)),
     wa_next_packet_size = (\<lambda>w. (Inr (if snd w = 0 then 0 else 480), w)),
     wa_get_buffer = (\<lambda>w. (Inr sample_packet, w)),
     wa_release_buffer = (\<lambda>_ w. (Inr (), (fst w + 1, snd w - 1))),
     wa_yield = (\<lambda>w. w), wa_now = (\<lambda>w. 10 * fst w), wa_unix_ms = (\<lambda>w. of_nat (10 * fst w))\<rparr>"

definition sample_device :: device_format_info where
  "sample_device = \<lparr>di_sample_rate_hz = 48000, di_channels = 2, di_sample_kind = Device_F32,
     di_bits_per_sample = 32, di_format_tag = 3, di_sub_format = None\<rparr>"

definition five_ms :: audio_format where
  "five_ms = audio_format_default\<lparr>af_frame_duration_ms := 5\<rparr>"

definition sample_loopback :: loopback_capture where
  "sample_loopback = \<lparr>lc_target_format = five_ms, lc_state = Cap_Started, lc_device_name = Some ''speakers'',
     lc_device_format = Some sample_device, lc_frame_duration_ms = 5, lc_accumulator = accumulator_new five_ms,
     lc_recent_error = None, lc_audio_client = True, lc_capture_client = True,
     lc_mix_format_ptr = Some sample_mix, lc_source_buffer_frames = 960, lc_debug_wav = None,
     lc_capture_stats = capture_stats_new 0\<rparr>"

lemma sample_delivers:
  "delivers sample_wasapi sample_device (\<lambda>w. replicate (fst w) sample_packet) (\<lambda>w. replicate (snd w) sample_packet)"
proof -
  have r: "replicate n sample_packet = p # ps \<Longrightarrow> n \<noteq> 0 \<and> p = sample_packet \<and> ps = replicate (n - 1) sample_packet"
    for n p ps by (cases n) auto
  have n: "(case replicate n sample_packet of [] \<Rightarrow> 0 | p # x \<Rightarrow> pk_frames p) = (if n = 0 then 0 else 480)" for n
    by (cases n) (simp_all add: sample_packet_def)
  show ?thesis
    unfolding delivers_def n
    by (auto simp: sample_wasapi_def replicate_append_same dest!: r)
      (simp_all add: sample_packet_def packet_samples_def sample_device_def)
qed

lemma sample_lengths: "frame_len sample_loopback = 480"
  "length (packet_stream sample_device sample_packet) = 960"
  "buffered sample_loopback = []"
  by (simp_all add: sample_loopback_def accumulator_new_def total_samples_per_frame_def five_ms_def
      samples_per_channel_per_frame_def audio_format_default_def packet_stream_def packet_samples_def
      sample_device_def sample_packet_def)

lemma sample_fields: "lc_capture_client sample_loopback" "lc_device_format sample_loopback = Some sample_device"
  "lc_state sample_loopback = Cap_Started"
  by (simp_all add: sample_loopback_def)

theorem packet_loop_terminates_witness:
  "packet_loop (packet_fuel sample_loopback) sample_wasapi sample_device False False False sample_loopback (0, 3)
    = packet_loop (packet_fuel sample_loopback + 9) sample_wasapi sample_device False False False sample_loopback (0, 3)"
  by (rule packet_loop_terminates) (auto simp: sample_device_def sample_wasapi_def sample_packet_def)

theorem loopback_conserves_samples_witness:
  "\<exists>rs c w. read_run sample_wasapi [0, 4] sample_loopback (0, 3) = (rs, c, w) \<and> length rs = 2
    \<and> captured rs @ buffered c = concat (replicate (fst w) (packet_stream sample_device sample_packet))"
proof -
  obtain rs c w where r: "read_run sample_wasapi [0, 4] sample_loopback (0, 3) = (rs, c, w)" by (metis prod_cases3)
  show ?thesis
    using loopback_conserves_samples [OF sample_delivers sample_fields r] r
    by (auto simp: sample_lengths(3) simp del: read_run.simps)
qed

theorem loopback_backlog_witness:
  "\<exists>rs c w. read_run sample_wasapi [0, 4] sample_loopback (0, 2) = (rs, c, w) \<and> length (buffered c) = 960"
proof -
  obtain rs c w where r: "read_run sample_wasapi [0, 4] sample_loopback (0, 2) = (rs, c, w)" by (metis prod_cases3)
  have "replicate (snd (0 :: nat, 2 :: nat)) sample_packet = replicate 2 sample_packet @ []" by simp
  from loopback_backlog [OF sample_delivers sample_fields this _ _ r, of 480 0] show ?thesis
    using r by (simp add: sample_lengths)
qed

theorem loopback_failure_sticks_witness:
  "\<exists>e c w. loopback_read_frame 3 (sample_wasapi\<lparr>wa_next_packet_size := (\<lambda>w. (Inl ''invalidated'', w))\<rparr>)
      sample_loopback (0, 2) = (Inl e, c, w) \<and> lc_state c = Cap_Failed"
proof -
  let ?api = "sample_wasapi\<lparr>wa_next_packet_size := (\<lambda>w. (Inl ''invalidated'', w))\<rparr>"
  have "\<exists>e c w. loopback_read_frame 3 ?api sample_loopback (0, 2) = (Inl e, c, w)"
    using sample_fields
    by (auto simp: loopback_read_frame_def fill_accumulator_from_packets_def packet_fuel_def packet_loop_Suc
        packet_step_def read_loop.simps [of 3])
  then obtain e c w where r: "loopback_read_frame 3 ?api sample_loopback (0, 2) = (Inl e, c, w)" by blast
  from loopback_failure_sticks [OF sample_fields(3) r] r show ?thesis by blast
qed

theorem loopback_start_outcome_witness:
  "\<exists>c w. loopback_start sample_wasapi sample_loopback (0, 0) = (Inr (), c, w)
    \<and> total_samples_per_frame (loopback_format c) = 480"
proof -
  obtain r c w where r: "loopback_start sample_wasapi sample_loopback (0, 0) = (r, c, w)" by (metis prod_cases3)
  have i: "r = Inr ()"
    using r by (simp add: loopback_start_def resolve_default_output_device_def init_audio_clients_def
        sample_wasapi_def do_start_def classify_mix_format_def sample_mix_def adopt_format_def Let_def)
  have "lc_target_format c = \<lparr>sample_rate_hz = 48000, af_channels = 2, af_sample_format = SampleF32,
      af_frame_duration_ms = 5\<rparr>"
    using r by (simp add: loopback_start_def resolve_default_output_device_def init_audio_clients_def
        sample_wasapi_def do_start_def classify_mix_format_def sample_mix_def adopt_format_def Let_def
        sample_loopback_def) auto
  then show ?thesis
    using loopback_start_outcome [OF r] r
    by (auto simp: i total_samples_per_frame_def samples_per_channel_per_frame_def)
qed

theorem wav_file_contents_witness:
  "\<exists>ww. wav_writer_new (Inr ()) (Inr \<lparr>df_bytes = [], df_pos = 0, df_room = 100\<rparr>) 7 2 1 1 ''dump'' = Inr ww
    \<and> drop 44 (df_bytes (ww_file (snd (wav_finalize (snd (record_chunks [[1], [- 1, 0]] ww)))))) = pcm16 [1, - 1]"
proof -
  let ?f = "\<lparr>df_bytes = [], df_pos = 0, df_room = 100\<rparr>"
  have "\<exists>ww. wav_writer_new (Inr ()) (Inr ?f) 7 2 1 1 ''dump'' = Inr ww"
    by (simp add: wav_writer_new_def file_write_all_def)
  then obtain ww where ww: "wav_writer_new (Inr ()) (Inr ?f) 7 2 1 1 ''dump'' = Inr ww" by blast
  obtain rs ww1 where c: "record_chunks [[1], [- 1, 0]] ww = (rs, ww1)" by fastforce
  obtain r ww2 where f: "wav_finalize ww1 = (r, ww2)" by fastforce
  have "[1, - 1] = take (unat (2 :: u32) * unat (1 :: u32) * unat (1 :: u16)) (concat [[1], [- 1, 0 :: real]])" by simp
  from wav_file_contents [OF ww _ c f this] show ?thesis using ww c f by simp
qed

end
