(* ===== verification/Usb_Transport.thy ===== *)
theory Usb_Transport
  imports Text_Format
begin

text \<open>
  USB forwarding through adb, \<open>crates/lan_audio_server/src/usb_transport.rs\<close>: the list of devices that
  \<open>adb devices -l\<close> prints, and the reverse forwards with the manager that removes them when it is
  dropped. Running a process is the operating system's: a function from the command and a world \<open>'w\<close>
  to its output. An \<open>anyhow\<close> error is the list of its messages, the outermost context first; output
  that is not ASCII is not modelled (\<open>from_utf8_lossy\<close> is the identity on ASCII).
\<close>

section \<open>Running adb\<close>

type_synonym anyhow_error = "string list"

record os_command =
  cmd_program :: string
  cmd_args :: "string list"
  cmd_creation_flags :: "u32 option"

record process_output =
  po_success :: bool
  po_status :: string
  po_stdout :: string
  po_stderr :: string

record 'w adb_env =
  ae_windows :: bool
  ae_output :: "os_command \<Rightarrow> 'w \<Rightarrow> (string + process_output) \<times> 'w"

definition adb_command :: "bool \<Rightarrow> string list \<Rightarrow> os_command" where
  "adb_command windows args =
     \<lparr>cmd_program = ''adb'', cmd_args = args,
      cmd_creation_flags = (if windows then Some 0x08000000 else None)\<rparr>"

definition run_adb :: "'w adb_env \<Rightarrow> string list \<Rightarrow> 'w \<Rightarrow> (anyhow_error + string) \<times> 'w" where
  "run_adb env args w =
     (case ae_output env (adb_command (ae_windows env) args) w of
        (Inl e, w) \<Rightarrow> (Inl [''spawn adb '' @ join_with '' '' args, e], w)
      | (Inr out, w) \<Rightarrow>
          if \<not> po_success out
          then (Inl [''adb command failed (status='' @ po_status out @ ''): '' @ trim (po_stdout out)
                   @ '' '' @ trim (po_stderr out)], w)
          else (Inr (po_stdout out), w))"

section \<open>Devices\<close>

record adb_device =
  ad_serial :: string
  ad_model :: string
  ad_transport_id :: string

fun device_attributes :: "string list \<Rightarrow> string \<times> string \<Rightarrow> string \<times> string" where
  "device_attributes [] x = x"
| "device_attributes (part # parts) (model, transport_id) =
     device_attributes parts
       (case strip_prefix ''model:'' part of Some v \<Rightarrow> (v, transport_id)
        | None \<Rightarrow> (case strip_prefix ''transport_id:'' part of Some v \<Rightarrow> (model, v)
            | None \<Rightarrow> (model, transport_id)))"

definition parse_device_line :: "string \<Rightarrow> adb_device option" where
  "parse_device_line line =
     (let trimmed = trim line in
      if trimmed = [] then None
      else case split_whitespace trimmed of
        serial # state # parts \<Rightarrow>
          if eq_ignore_ascii_case state ''offline'' then None
          else (case device_attributes parts ([], []) of (model, transport_id) \<Rightarrow>
            Some \<lparr>ad_serial = serial, ad_model = model, ad_transport_id = transport_id\<rparr>)
      | _ \<Rightarrow> None)"

definition adb_devices :: "'w adb_env \<Rightarrow> 'w \<Rightarrow> (anyhow_error + adb_device list) \<times> 'w" where
  "adb_devices env w =
     (case run_adb env [''devices'', ''-l''] w of
        (Inl e, w) \<Rightarrow> (Inl e, w)
      | (Inr output, w) \<Rightarrow> (Inr (List.map_filter parse_device_line (drop 1 (str_lines output))), w))"

section \<open>Reverse forwards\<close>

definition show_port :: "u16 \<Rightarrow> string" where
  "show_port p = show_nat (unat p)"

definition setup_adb_reverse ::
  "'w adb_env \<Rightarrow> string \<Rightarrow> u16 \<Rightarrow> u16 \<Rightarrow> 'w \<Rightarrow> (anyhow_error + unit) \<times> 'w" where
  "setup_adb_reverse env serial device_port host_port w =
     (case run_adb env [''-s'', serial, ''reverse'', ''tcp:'' @ show_port device_port,
                        ''tcp:'' @ show_port host_port] w of
        (Inl e, w) \<Rightarrow> (Inl ((''setup adb reverse serial='' @ serial @ '' device_port=''
            @ show_port device_port @ '' host_port='' @ show_port host_port) # e), w)
      | (Inr _, w) \<Rightarrow> (Inr (), w))"

definition teardown_adb_reverse ::
  "'w adb_env \<Rightarrow> string \<Rightarrow> u16 \<Rightarrow> 'w \<Rightarrow> (anyhow_error + unit) \<times> 'w" where
  "teardown_adb_reverse env serial device_port w =
     (case run_adb env [''-s'', serial, ''reverse'', ''--remove'', ''tcp:'' @ show_port device_port] w of
        (Inl e, w) \<Rightarrow> (Inl ((''teardown adb reverse serial='' @ serial @ '' device_port=''
            @ show_port device_port) # e), w)
      | (Inr _, w) \<Rightarrow> (Inr (), w))"

text \<open>The manager: what it tracks, in the order it was added. Dropping it removes the last first.\<close>

type_synonym adb_reverse_manager = "(string \<times> u16) list"

definition track_reverse :: "string \<Rightarrow> u16 \<Rightarrow> adb_reverse_manager \<Rightarrow> adb_reverse_manager" where
  "track_reverse serial device_port m = m @ [(serial, device_port)]"

fun teardown_all :: "'w adb_env \<Rightarrow> (string \<times> u16) list \<Rightarrow> 'w \<Rightarrow> 'w" where
  "teardown_all env [] w = w"
| "teardown_all env ((serial, device_port) # rest) w =
     teardown_all env rest (snd (teardown_adb_reverse env serial device_port w))"

definition adb_manager_drop :: "'w adb_env \<Rightarrow> adb_reverse_manager \<Rightarrow> 'w \<Rightarrow> 'w" where
  "adb_manager_drop env m w = teardown_all env (rev m) w"

section \<open>What a listing says\<close>

text \<open>A row of the listing: the serial, blanks up to the column of the state, the attributes.\<close>

record listing_row =
  lr_serial :: string
  lr_blanks :: nat
  lr_state :: string
  lr_attributes :: "string list"

definition print_row :: "listing_row \<Rightarrow> string" where
  "print_row r = lr_serial r @ replicate (Suc (lr_blanks r)) (CHR '' '')
     @ join_with '' '' (lr_state r # lr_attributes r)"

definition row_ok :: "listing_row \<Rightarrow> bool" where
  "row_ok r \<longleftrightarrow> is_word (lr_serial r) \<and> is_word (lr_state r) \<and> list_all is_word (lr_attributes r)"

definition print_listing :: "bool \<Rightarrow> listing_row list \<Rightarrow> string" where
  "print_listing crlf rows =
     concat (map (\<lambda>l. l @ line_end crlf) (''List of devices attached'' # map print_row rows @ [[]]))"

text \<open>The value of the last attribute with a prefix.\<close>

definition last_value :: "string \<Rightarrow> string list \<Rightarrow> string \<Rightarrow> string" where
  "last_value p attrs d = last (d # List.map_filter (strip_prefix p) attrs)"

definition row_device :: "listing_row \<Rightarrow> adb_device" where
  "row_device r = \<lparr>ad_serial = lr_serial r, ad_model = last_value ''model:'' (lr_attributes r) [],
     ad_transport_id = last_value ''transport_id:'' (lr_attributes r) []\<rparr>"

lemma prefixes_disjoint:
  "strip_prefix ''model:'' s = Some v \<Longrightarrow> strip_prefix ''transport_id:'' s = None"
  by (cases s) (auto simp: strip_prefix_def starts_with_def split: if_splits)

lemma device_attributes_last:
  "device_attributes attrs (m, t) = (last_value ''model:'' attrs m, last_value ''transport_id:'' attrs t)"
  by (induction attrs arbitrary: m t)
    (auto simp: last_value_def map_filter_simps dest: prefixes_disjoint split: option.splits)

lemma join_last_char:
  "ws \<noteq> [] \<Longrightarrow> list_all is_word ws \<Longrightarrow> join_with sep ws \<noteq> [] \<and> last (join_with sep ws) = last (last ws)"
  by (induction sep ws rule: join_with.induct) (auto simp: is_word_def)

lemma parse_print_row:
  assumes "row_ok r"
  shows "parse_device_line (print_row r) =
    (if eq_ignore_ascii_case (lr_state r) ''offline'' then None else Some (row_device r))"
proof -
  have w: "is_word (lr_serial r)" "list_all is_word (lr_state r # lr_attributes r)"
    using assms by (simp_all add: row_ok_def)
  note j = join_last_char [OF _ w(2), of "'' ''"]
  have "trim (print_row r) = print_row r"
  proof (rule trim_id)
    show "print_row r \<noteq> []" by (simp add: print_row_def)
    show "\<not> is_whitespace (hd (print_row r))"
      using w(1) word_hd_last [OF w(1)] by (simp add: print_row_def is_word_def)
    have "is_word (last (lr_state r # lr_attributes r))"
      using w(2) by (auto simp: list_all_iff)
    then show "\<not> is_whitespace (last (print_row r))"
      using j word_hd_last by (simp add: print_row_def del: join_with.simps)
  qed
  moreover have "split_whitespace (print_row r) = lr_serial r # lr_state r # lr_attributes r"
    using split_whitespace_Cons [OF w(1)] split_whitespace_join [OF _ w(2)]
    by (simp add: print_row_def del: join_with.simps)
  moreover have "print_row r \<noteq> []" by (simp add: print_row_def)
  ultimately show ?thesis
    by (simp add: parse_device_line_def device_attributes_last row_device_def Let_def)
qed

lemma word_no_break: "is_word w \<Longrightarrow> CHR 0x0A \<notin> set w \<and> CHR 0x0D \<notin> set w"
  by (auto simp: is_word_def list_all_iff is_whitespace_def)

lemma join_no_break:
  "list_all is_word ws \<Longrightarrow> CHR 0x0A \<notin> set (join_with '' '' ws) \<and> CHR 0x0D \<notin> set (join_with '' '' ws)"
  by (induction "'' ''" ws rule: join_with.induct) (auto dest: word_no_break)

lemma row_no_break: "row_ok r \<Longrightarrow> CHR 0x0A \<notin> set (print_row r) \<and> CHR 0x0D \<notin> set (print_row r)"
  using word_no_break [of "lr_serial r"] join_no_break [of "lr_state r # lr_attributes r"]
  by (auto simp: row_ok_def print_row_def simp del: join_with.simps)

text \<open>
  The device list. Whatever words adb prints in its columns and whichever line ending it uses,
  the list holds exactly the devices of the listing that are not offline, in order, each with its
  serial and the last model and transport id of its row; a failing adb is an error.
\<close>
theorem adb_devices_listing:
  assumes "list_all row_ok rows"
    and "ae_output env (adb_command (ae_windows env) [''devices'', ''-l'']) w =
      (Inr \<lparr>po_success = ok, po_status = st, po_stdout = print_listing crlf rows, po_stderr = err\<rparr>, w')"
  shows "snd (adb_devices env w) = w'
    \<and> (ok \<longrightarrow> fst (adb_devices env w) =
          Inr (map row_device (filter (\<lambda>r. \<not> eq_ignore_ascii_case (lr_state r) ''offline'') rows)))
    \<and> (\<not> ok \<longrightarrow> isl (fst (adb_devices env w)))"
proof -
  have "list_all (\<lambda>l. CHR 0x0A \<notin> set l \<and> CHR 0x0D \<notin> set l)
      (''List of devices attached'' # map print_row rows @ [[]])"
    using assms(1) row_no_break by (auto simp: list_all_iff)
  then have lines: "str_lines (print_listing crlf rows) =
      ''List of devices attached'' # map print_row rows @ [[]]"
    unfolding print_listing_def by (rule lines_of_printed)
  have "List.map_filter parse_device_line (map print_row rows) =
      map row_device (filter (\<lambda>r. \<not> eq_ignore_ascii_case (lr_state r) ''offline'') rows)"
    using assms(1) by (induction rows) (auto simp: map_filter_simps parse_print_row)
  moreover have "parse_device_line [] = None"
    by (simp add: parse_device_line_def trim_def trim_matches_def trim_end_matches_def)
  ultimately have "List.map_filter parse_device_line (map print_row rows @ [[]]) =
      map row_device (filter (\<lambda>r. \<not> eq_ignore_ascii_case (lr_state r) ''offline'') rows)"
    by (simp add: List.map_filter_def)
  then show ?thesis using assms(2) by (simp add: adb_devices_def run_adb_def lines)
qed

text \<open>A desk with two phones, one of them offline.\<close>

definition two_phones :: "listing_row list" where
  "two_phones =
     [\<lparr>lr_serial = ''R58M'', lr_blanks = 17, lr_state = ''device'',
       lr_attributes = [''usb:1-1'', ''model:SM_G9'', ''transport_id:4'']\<rparr>,
      \<lparr>lr_serial = ''emu'', lr_blanks = 0, lr_state = ''Offline'', lr_attributes = []\<rparr>]"

theorem adb_devices_listing_witness:
  "fst (adb_devices \<lparr>ae_windows = True, ae_output = (\<lambda>c w. (Inr \<lparr>po_success = True, po_status = ''0'',
      po_stdout = print_listing True two_phones, po_stderr = []\<rparr>, Suc w))\<rparr> 7)
   = Inr [\<lparr>ad_serial = ''R58M'', ad_model = ''SM_G9'', ad_transport_id = ''4''\<rparr>]"
proof -
  let ?env = "\<lparr>ae_windows = True, ae_output = (\<lambda>c w. (Inr \<lparr>po_success = True, po_status = ''0'',
      po_stdout = print_listing True two_phones, po_stderr = []\<rparr>, Suc w))\<rparr>"
  have ok: "list_all row_ok two_phones"
    by (simp add: two_phones_def row_ok_def is_word_def is_whitespace_def)
  have out: "ae_output ?env (adb_command (ae_windows ?env) [''devices'', ''-l'']) 7 =
      (Inr \<lparr>po_success = True, po_status = ''0'', po_stdout = print_listing True two_phones, po_stderr = []\<rparr>, 8)"
    by simp
  have "map row_device (filter (\<lambda>r. \<not> eq_ignore_ascii_case (lr_state r) ''offline'') two_phones)
      = [\<lparr>ad_serial = ''R58M'', ad_model = ''SM_G9'', ad_transport_id = ''4''\<rparr>]"
    by (simp add: two_phones_def row_device_def last_value_def strip_prefix_def starts_with_def
        map_filter_simps eq_ignore_ascii_case_def to_ascii_lowercase_def is_upper_def char_of_def bit_0)
  with adb_devices_listing [OF ok out] show ?thesis by simp
qed

end
