(* ===== verification/Reverse_Channel.thy ===== *)
theory Reverse_Channel
  imports Audio_Prelude Text_Format
begin

text \<open>
  The reverse channel, \<open>crates/lan_audio_server/src/reverse_channel.rs\<close>: microphone audio and control
  messages from the phone. A connection is the bytes or lines it delivers before it ends; the Opus
  decoder, the named pipe and the JSON parser are parameters. Levels in decibels are real numbers.
\<close>

section \<open>State\<close>

record reverse_channel_state =
  rv_mic_active :: bool
  rv_mic_peak_db :: real
  rv_mic_rms_db :: real
  rv_mic_device_name :: string
  rv_android_volume_pct :: u8
  rv_pending_volume_command :: "u8 option"
  rv_virtual_device_detected :: bool
  rv_virtual_device_warning :: "string option"

definition reverse_state_default :: reverse_channel_state where
  "reverse_state_default = \<lparr>rv_mic_active = False, rv_mic_peak_db = 0, rv_mic_rms_db = 0,
     rv_mic_device_name = [], rv_android_volume_pct = 0, rv_pending_volume_command = None,
     rv_virtual_device_detected = False, rv_virtual_device_warning = None\<rparr>"

text \<open>The dash in the source's text, a character outside ASCII, is written as a hyphen.\<close>

definition VIRTUAL_DEVICE_WARNING :: string where
  "VIRTUAL_DEVICE_WARNING =
     ''Mic input requires a virtual audio device (e.g. VB-Cable). Named pipe fallback is active - check your audio settings.''"

definition check_virtual_audio_device :: "bool \<Rightarrow> reverse_channel_state \<Rightarrow> reverse_channel_state" where
  "check_virtual_audio_device windows s =
     (if windows
      then s\<lparr>rv_virtual_device_detected := False, rv_virtual_device_warning := Some VIRTUAL_DEVICE_WARNING\<rparr>
      else s\<lparr>rv_virtual_device_detected := True, rv_virtual_device_warning := None\<rparr>)"

text \<open>The server: which tasks run, and the senders of their shutdown signals.\<close>

record reverse_channel_server =
  rs_reverse_port :: u16
  rs_control_port :: u16
  rs_audio_shutdown_tx :: bool
  rs_control_shutdown_tx :: bool
  rs_audio_task :: bool
  rs_control_task :: bool
  rs_state :: reverse_channel_state

definition reverse_server_new :: reverse_channel_server where
  "reverse_server_new = \<lparr>rs_reverse_port = 7878, rs_control_port = 7879, rs_audio_shutdown_tx = False,
     rs_control_shutdown_tx = False, rs_audio_task = False, rs_control_task = False,
     rs_state = reverse_state_default\<rparr>"

text \<open>\<open>bind\<close> says whether a port can be listened on: starting is best effort and always succeeds.\<close>

definition reverse_server_start ::
  "bool \<Rightarrow> (u16 \<Rightarrow> bool) \<Rightarrow> reverse_channel_server \<Rightarrow> (string + unit) \<times> reverse_channel_server" where
  "reverse_server_start windows bind s =
     (let s = s\<lparr>rs_state := check_virtual_audio_device windows (rs_state s),
                rs_audio_shutdown_tx := True, rs_control_shutdown_tx := True\<rparr>;
          s = (if bind (rs_reverse_port s) then s\<lparr>rs_audio_task := True\<rparr> else s);
          s = (if bind (rs_control_port s) then s\<lparr>rs_control_task := True\<rparr> else s)
      in (Inr (), s))"

definition reverse_server_stop :: "reverse_channel_server \<Rightarrow> reverse_channel_server" where
  "reverse_server_stop s =
     s\<lparr>rs_audio_shutdown_tx := False, rs_control_shutdown_tx := False, rs_audio_task := False,
       rs_control_task := False, rs_state := (rs_state s)\<lparr>rv_mic_active := False\<rparr>\<rparr>"

section \<open>Audio connections\<close>

definition REVERSE_FRAME_MAX :: nat where "REVERSE_FRAME_MAX = 4096"

text \<open>\<open>peak\<close> and the sum of squares of decoded samples, each divided by 32768.\<close>

fun mic_levels :: "16 word list \<Rightarrow> real \<Rightarrow> real \<Rightarrow> real \<times> real" where
  "mic_levels [] peak sum_sq = (peak, sum_sq)"
| "mic_levels (s # ss) peak sum_sq =
     (let f = real_of_int (sint s) / 32768
      in mic_levels ss (if \<bar>f\<bar> > peak then \<bar>f\<bar> else peak) (sum_sq + f * f))"

definition to_db :: "real \<Rightarrow> real" where
  "to_db x = (if x > 0 then 20 * log 10 x else - 96)"

definition note_mic_frame :: "16 word list \<Rightarrow> reverse_channel_state \<Rightarrow> reverse_channel_state" where
  "note_mic_frame pcm s =
     (let (peak, sum_sq) = mic_levels pcm 0 0;
          rms = (if 0 < length pcm then sqrt (sum_sq / real (length pcm)) else 0)
      in s\<lparr>rv_mic_peak_db := to_db peak, rv_mic_rms_db := to_db rms\<rparr>)"

text \<open>The first successful write to the pipe clears the warning.\<close>

definition note_pipe_write :: "bool \<Rightarrow> reverse_channel_state \<Rightarrow> reverse_channel_state" where
  "note_pipe_write ok s =
     (if ok \<and> rv_virtual_device_warning s \<noteq> None
      then s\<lparr>rv_virtual_device_detected := True, rv_virtual_device_warning := None\<rparr> else s)"

definition note_pipe_open :: "bool \<Rightarrow> reverse_channel_state \<Rightarrow> reverse_channel_state" where
  "note_pipe_open ok s =
     (if ok then s\<lparr>rv_virtual_device_detected := True\<rparr>
      else s\<lparr>rv_virtual_device_detected := False, rv_virtual_device_warning := Some VIRTUAL_DEVICE_WARNING\<rparr>)"

text \<open>
  The decoder (\<open>None\<close> for its errors), and writing to the open pipe. \<open>pipe\<close> is absent when the pipe
  could not be opened, or on other systems than Windows.
\<close>

record ('d, 'p) mic_env =
  me_decode :: "u8 list \<Rightarrow> 'd \<Rightarrow> 16 word list option \<times> 'd"
  me_pipe_write :: "u8 list \<Rightarrow> 'p \<Rightarrow> bool \<times> 'p"

definition pcm_bytes :: "16 word list \<Rightarrow> u8 list" where
  "pcm_bytes pcm = concat (map (le_bytes 2) pcm)"

definition handle_mic_payload ::
  "('d, 'p) mic_env \<Rightarrow> u8 list \<Rightarrow> 'd \<times> 'p option \<times> reverse_channel_state
   \<Rightarrow> 'd \<times> 'p option \<times> reverse_channel_state" where
  "handle_mic_payload env payload x =
     (case x of (decoder, pipe, s) \<Rightarrow>
        (case me_decode env payload decoder of
           (None, decoder) \<Rightarrow> (decoder, pipe, s)
         | (Some pcm, decoder) \<Rightarrow>
             let s = note_mic_frame pcm s in
             (case pipe of None \<Rightarrow> (decoder, None, s)
              | Some p \<Rightarrow> let (ok, p) = me_pipe_write env (pcm_bytes pcm) p
                          in (decoder, Some p, note_pipe_write ok s))))"

text \<open>The loop over the bytes of a connection, until they run out.\<close>

function handle_audio_loop ::
  "('d, 'p) mic_env \<Rightarrow> u8 list \<Rightarrow> 'd \<times> 'p option \<times> reverse_channel_state
   \<Rightarrow> 'd \<times> 'p option \<times> reverse_channel_state" where
  "handle_audio_loop env bytes x =
     (if length bytes < 4 then x
      else
        let payload_len = unat (le_word (take 4 bytes) :: u32); rest = drop 4 bytes
        in if payload_len = 0 \<or> payload_len > REVERSE_FRAME_MAX then handle_audio_loop env rest x
           else if length rest < payload_len then x
           else handle_audio_loop env (drop payload_len rest)
                  (handle_mic_payload env (take payload_len rest) x))"
  by pat_completeness auto

termination handle_audio_loop
  by (relation "measure (\<lambda>(env, bytes, x). length bytes)") auto

declare handle_audio_loop.simps [simp del]

text \<open>
  A whole connection: \<open>decoder_new\<close> may fail, \<open>pipe_open\<close> is the pipe, if it opens; on other
  systems than Windows it is not tried.
\<close>

definition handle_audio_client ::
  "('d, 'p) mic_env \<Rightarrow> bool \<Rightarrow> string + 'd \<Rightarrow> 'p option \<Rightarrow> u8 list \<Rightarrow> reverse_channel_state
   \<Rightarrow> (string + unit) \<times> reverse_channel_state" where
  "handle_audio_client env windows decoder_new pipe_open bytes s =
     (case decoder_new of Inl e \<Rightarrow> (Inl e, s)
      | Inr d \<Rightarrow>
          let (pipe, s) = (if windows then (pipe_open, note_pipe_open (pipe_open \<noteq> None) s) else (None, s))
          in (Inr (), snd (snd (handle_audio_loop env bytes (d, pipe, s)))))"

section \<open>Control connections\<close>

datatype json_value =
    J_Null | J_Bool bool | J_Int int | J_Float real | J_Str string
  | J_Arr "json_value list" | J_Obj "(string \<times> json_value) list"

fun json_index :: "json_value \<Rightarrow> string \<Rightarrow> json_value" where
  "json_index (J_Obj kvs) k = (case map_of kvs k of None \<Rightarrow> J_Null | Some v \<Rightarrow> v)"
| "json_index _ k = J_Null"

fun as_str :: "json_value \<Rightarrow> string option" where
  "as_str (J_Str s) = Some s"
| "as_str _ = None"

fun as_f64 :: "json_value \<Rightarrow> real option" where
  "as_f64 (J_Int i) = Some (of_int i)"
| "as_f64 (J_Float x) = Some x"
| "as_f64 _ = None"

fun as_bool :: "json_value \<Rightarrow> bool option" where
  "as_bool (J_Bool b) = Some b"
| "as_bool _ = None"

fun as_u64 :: "json_value \<Rightarrow> u64 option" where
  "as_u64 (J_Int i) = (if 0 \<le> i \<and> i < 2 ^ 64 then Some (of_int i) else None)"
| "as_u64 _ = None"

text \<open>\<open>(vol.clamp(0.0, 1.0) * 100.0).round() as u8\<close>\<close>

definition percent_of :: "real \<Rightarrow> u8" where
  "percent_of vol = of_int \<lfloor>max 0 (min vol 1) * 100 + 1 / 2\<rfloor>"

definition handle_control_message :: "json_value \<Rightarrow> reverse_channel_state \<Rightarrow> reverse_channel_state" where
  "handle_control_message msg s =
     (let msg_type = (case as_str (json_index msg ''type'') of None \<Rightarrow> [] | Some t \<Rightarrow> t) in
      if msg_type = ''mic_gain'' then s
      else if msg_type = ''volume'' then
        (case as_f64 (json_index msg ''value'') of None \<Rightarrow> s
         | Some vol \<Rightarrow> s\<lparr>rv_android_volume_pct := percent_of vol\<rparr>)
      else if msg_type = ''mic_device'' then
        (case as_str (json_index msg ''name'') of None \<Rightarrow> s
         | Some name \<Rightarrow> s\<lparr>rv_mic_device_name := name\<rparr>)
      else if msg_type = ''mic_level'' then
        s\<lparr>rv_mic_peak_db := (case as_f64 (json_index msg ''peak_db'') of None \<Rightarrow> - 96 | Some v \<Rightarrow> v),
          rv_mic_rms_db := (case as_f64 (json_index msg ''rms_db'') of None \<Rightarrow> - 96 | Some v \<Rightarrow> v)\<rparr>
      else if msg_type = ''mic_active'' then
        s\<lparr>rv_mic_active := (case as_bool (json_index msg ''active'') of None \<Rightarrow> False | Some b \<Rightarrow> b)\<rparr>
      else if msg_type = ''volume_changed'' then
        (case as_u64 (json_index msg ''volume_pct'') of None \<Rightarrow> s
         | Some pct \<Rightarrow> s\<lparr>rv_android_volume_pct := ucast pct\<rparr>)
      else s)"

definition handle_control_line ::
  "(string \<Rightarrow> string + json_value) \<Rightarrow> string \<Rightarrow> reverse_channel_state \<Rightarrow> reverse_channel_state" where
  "handle_control_line parse line s =
     (let trimmed = trim line in
      if trimmed = [] then s
      else case parse trimmed of Inl _ \<Rightarrow> s | Inr msg \<Rightarrow> handle_control_message msg s)"

text \<open>The start of a connection: a pending volume command is sent; \<open>write_ok\<close> is the write's fate.\<close>

definition set_volume_command :: "u8 \<Rightarrow> json_value" where
  "set_volume_command pct = J_Obj [(''type'', J_Str ''set_volume''), (''volume_pct'', J_Int (uint pct))]"

definition flush_pending ::
  "(json_value \<Rightarrow> string option) \<Rightarrow> bool \<Rightarrow> reverse_channel_state \<Rightarrow> string list \<times> reverse_channel_state" where
  "flush_pending print write_ok s =
     (let pending = rv_pending_volume_command s; s = s\<lparr>rv_pending_volume_command := None\<rparr> in
      case pending of None \<Rightarrow> ([], s)
      | Some pct \<Rightarrow>
          (case print (set_volume_command pct) of None \<Rightarrow> ([], s)
           | Some json \<Rightarrow>
               if write_ok then ([json @ [CHR 0x0A]], s\<lparr>rv_android_volume_pct := pct\<rparr>) else ([], s)))"

definition handle_control_stream ::
  "(json_value \<Rightarrow> string option) \<Rightarrow> (string \<Rightarrow> string + json_value) \<Rightarrow> bool \<Rightarrow> string list
   \<Rightarrow> reverse_channel_state \<Rightarrow> string list \<times> reverse_channel_state" where
  "handle_control_stream print parse write_ok lines s =
     (let (sent, s) = flush_pending print write_ok s
      in (sent, fold (handle_control_line parse) lines s))"

text \<open>What the desktop asks for, \<open>LanAudioService::send_android_volume\<close>.\<close>

definition queue_volume :: "u8 \<Rightarrow> reverse_channel_state \<Rightarrow> reverse_channel_state" where
  "queue_volume pct s = s\<lparr>rv_android_volume_pct := pct, rv_pending_volume_command := Some pct\<rparr>"

section \<open>The listeners and their connections\<close>

text \<open>
  The audio listener marks the microphone active when a connection is accepted and inactive when a
  connection's task ends; the tasks of several connections interleave. \<open>rr_open\<close> is the set of
  connections whose task runs.
\<close>

record reverse_run =
  rr_state :: reverse_channel_state
  rr_open :: "nat set"

datatype reverse_event =
    Audio_Accept nat
  | Audio_Payload nat "16 word list" "bool option"
  | Audio_End nat
  | Control_Open bool
  | Control_Line string
  | Queue_Volume u8

fun reverse_step ::
  "(json_value \<Rightarrow> string option) \<Rightarrow> (string \<Rightarrow> string + json_value) \<Rightarrow> reverse_event \<Rightarrow> reverse_run
   \<Rightarrow> unit + reverse_run" where
  "reverse_step print parse (Audio_Accept i) r =
     (if i \<in> rr_open r then Inl ()
      else Inr (r\<lparr>rr_open := insert i (rr_open r), rr_state := (rr_state r)\<lparr>rv_mic_active := True\<rparr>\<rparr>))"
| "reverse_step print parse (Audio_Payload i pcm wrote) r =
     (if i \<notin> rr_open r then Inl ()
      else let s = note_mic_frame pcm (rr_state r)
           in Inr (r\<lparr>rr_state := (case wrote of None \<Rightarrow> s | Some ok \<Rightarrow> note_pipe_write ok s)\<rparr>))"
| "reverse_step print parse (Audio_End i) r =
     (if i \<notin> rr_open r then Inl ()
      else Inr (r\<lparr>rr_open := rr_open r - {i}, rr_state := (rr_state r)\<lparr>rv_mic_active := False\<rparr>\<rparr>))"
| "reverse_step print parse (Control_Open write_ok) r =
     Inr (r\<lparr>rr_state := snd (flush_pending print write_ok (rr_state r))\<rparr>)"
| "reverse_step print parse (Control_Line line) r =
     Inr (r\<lparr>rr_state := handle_control_line parse line (rr_state r)\<rparr>)"
| "reverse_step print parse (Queue_Volume pct) r = Inr (r\<lparr>rr_state := queue_volume pct (rr_state r)\<rparr>)"

section \<open>Framing\<close>

text \<open>The payloads a connection's bytes contain, as the loop sees them.\<close>

function audio_payloads :: "u8 list \<Rightarrow> u8 list list" where
  "audio_payloads bytes =
     (if length bytes < 4 then []
      else
        let payload_len = unat (le_word (take 4 bytes) :: u32); rest = drop 4 bytes
        in if payload_len = 0 \<or> payload_len > REVERSE_FRAME_MAX then audio_payloads rest
           else if length rest < payload_len then []
           else take payload_len rest # audio_payloads (drop payload_len rest))"
  by pat_completeness auto

termination audio_payloads
  by (relation "measure length") auto

declare audio_payloads.simps [simp del]

lemma audio_loop_payloads:
  "handle_audio_loop env bytes x = fold (handle_mic_payload env) (audio_payloads bytes) x"
proof (induction bytes arbitrary: x rule: audio_payloads.induct)
  case (1 bytes)
  show ?case
    using 1 by (subst handle_audio_loop.simps, subst audio_payloads.simps) (simp add: Let_def)
qed

definition audio_frame_bytes :: "u8 list \<Rightarrow> u8 list" where
  "audio_frame_bytes p = le_bytes 4 (of_nat (length p) :: u32) @ p"

lemma payloads_frame:
  assumes "p \<noteq> []" and "length p \<le> REVERSE_FRAME_MAX"
  shows "audio_payloads (audio_frame_bytes p @ rest) = p # audio_payloads rest"
proof -
  have "unat (of_nat (length p) :: u32) = length p"
    using assms(2) by (simp add: unat_of_nat REVERSE_FRAME_MAX_def)
  then show ?thesis
    using assms by (subst audio_payloads.simps) (simp add: audio_frame_bytes_def le_word_le_bytes Let_def)
qed

lemma payloads_bad_header:
  assumes "length p = 0 \<or> length p > REVERSE_FRAME_MAX" and "length p < 2 ^ 32"
  shows "audio_payloads (audio_frame_bytes p @ rest) = audio_payloads (p @ rest)"
proof -
  have "unat (of_nat (length p) :: u32) = length p"
    using assms(2) by (simp add: unat_of_nat)
  then show ?thesis
    using assms by (subst audio_payloads.simps) (simp add: audio_frame_bytes_def le_word_le_bytes Let_def)
qed

text \<open>
  C38: the framing of microphone audio. The bytes of any sequence of frames of 1 to 4096 bytes are
  cut into exactly those frames, whose effect is that of decoding them in turn; but behind a frame
  that is longer (or after an empty one, harmlessly) reading goes on right after the header, so the
  payload that was announced is itself taken for headers and frames.
\<close>
theorem mic_framing:
  assumes "\<forall>p \<in> set ps. p \<noteq> [] \<and> length p \<le> 4096"
  shows "handle_audio_loop env (concat (map audio_frame_bytes ps)) x = fold (handle_mic_payload env) ps x
    \<and> (\<forall>p rest. 4096 < length p \<longrightarrow> length p < 2 ^ 32 \<longrightarrow>
          handle_audio_loop env (concat (map audio_frame_bytes ps) @ audio_frame_bytes p @ rest) x
          = handle_audio_loop env (p @ rest) (fold (handle_mic_payload env) ps x))"
proof -
  have pay: "audio_payloads (concat (map audio_frame_bytes ps) @ rest) = ps @ audio_payloads rest" for rest
    using assms
  proof (induction ps)
    case (Cons p ps)
    then show ?case using payloads_frame [of p] by (simp add: REVERSE_FRAME_MAX_def)
  qed simp
  have nil: "audio_payloads [] = []" by (simp add: audio_payloads.simps)
  show ?thesis
    using pay [of "[]"] nil pay payloads_bad_header
    by (simp add: audio_loop_payloads REVERSE_FRAME_MAX_def)
qed

text \<open>
  One microphone's end silences all. The flag says whether the connection events since the last
  message were a start, not whether a connection is open: after the end of one of two connections
  the state says the microphone is off while the other still streams.
\<close>
theorem mic_active_not_counted:
  assumes "i \<noteq> j" and "i \<notin> rr_open r" and "j \<notin> rr_open r"
    and "run_ops (reverse_step print parse) [Audio_Accept i, Audio_Accept j, Audio_Payload j pcm wrote, Audio_End i] r = Inr t"
  shows "j \<in> rr_open t \<and> \<not> rv_mic_active (rr_state t)"
proof -
  have m: "rv_mic_active (note_mic_frame pcm s) = rv_mic_active s"
    "rv_mic_active (note_pipe_write ok s) = rv_mic_active s" for s ok
    by (simp_all add: note_mic_frame_def note_pipe_write_def Let_def split: prod.split)
  show ?thesis using assms by (auto simp: m Let_def split: option.splits)
qed

lemma percent_of_bound: "percent_of vol \<le> 100"
proof -
  let ?n = "\<lfloor>max 0 (min vol 1) * 100 + 1 / 2\<rfloor>"
  have "0 \<le> ?n" "?n \<le> 100" by (auto simp: le_floor_iff floor_le_iff)
  then have "uint (of_int ?n :: u8) = ?n" by (simp add: uint_word_of_int)
  then have "uint (percent_of vol) \<le> 100" using \<open>?n \<le> 100\<close> by (simp add: percent_of_def)
  then show ?thesis by (simp add: word_le_def)
qed

text \<open>
  The volume. A volume reported as a fraction is stored as a percentage between 0 and 100; one
  reported as a percentage is stored modulo 256 without a check, so it may exceed 100 or wrap. A
  volume the desktop asks for is sent by the next control connection and forgotten then, sent or not.
\<close>
theorem android_volume_outcome:
  assumes "as_str (json_index msg ''type'') = Some t"
  shows "(t = ''volume'' \<longrightarrow> as_f64 (json_index msg ''value'') = Some v \<longrightarrow>
            rv_android_volume_pct (handle_control_message msg s) = percent_of v \<and> percent_of v \<le> 100)
    \<and> (t = ''volume_changed'' \<longrightarrow> as_u64 (json_index msg ''volume_pct'') = Some n \<longrightarrow>
            unat (rv_android_volume_pct (handle_control_message msg s)) = unat n mod 256)
    \<and> flush_pending print write_ok (queue_volume pct s) =
        (case print (set_volume_command pct) of None \<Rightarrow> ([], s\<lparr>rv_android_volume_pct := pct, rv_pending_volume_command := None\<rparr>)
         | Some json \<Rightarrow> (if write_ok then [json @ [CHR 0x0A]] else [],
             s\<lparr>rv_android_volume_pct := pct, rv_pending_volume_command := None\<rparr>))"
  using assms
  by (auto simp: handle_control_message_def percent_of_bound flush_pending_def queue_volume_def
      unsigned_ucast_eq take_bit_eq_mod Let_def split: option.split)

section \<open>Concrete runs\<close>

definition silent_mic :: "(unit, unit) mic_env" where
  "silent_mic = \<lparr>me_decode = (\<lambda>p d. (Some (map ucast p), d)), me_pipe_write = (\<lambda>bs p. (True, p))\<rparr>"

theorem mic_framing_witness:
  "handle_audio_loop silent_mic (audio_frame_bytes [1, 2] @ audio_frame_bytes [3]) ((), None, reverse_state_default)
    = fold (handle_mic_payload silent_mic) [[1, 2], [3]] ((), None, reverse_state_default)"
  using mic_framing [of "[[1, 2], [3]]" silent_mic "((), None, reverse_state_default)"] by simp

theorem mic_active_not_counted_witness:
  "\<exists>t. run_ops (reverse_step (\<lambda>_. None) (\<lambda>_. Inl ''''))
      [Audio_Accept 1, Audio_Accept 2, Audio_Payload 2 [5] None, Audio_End 1]
      \<lparr>rr_state = reverse_state_default, rr_open = {}\<rparr> = Inr t
    \<and> 2 \<in> rr_open t \<and> \<not> rv_mic_active (rr_state t)"
proof -
  obtain t where t: "run_ops (reverse_step (\<lambda>_. None) (\<lambda>_. Inl ''''))
      [Audio_Accept 1, Audio_Accept 2, Audio_Payload 2 [5] None, Audio_End 1]
      \<lparr>rr_state = reverse_state_default, rr_open = {}\<rparr> = Inr t"
    by (simp add: Let_def)
  from mic_active_not_counted [OF _ _ _ t] t show ?thesis by (auto simp del: run_ops.simps)
qed

theorem android_volume_outcome_witness:
  "unat (rv_android_volume_pct (handle_control_message
     (J_Obj [(''type'', J_Str ''volume_changed''), (''volume_pct'', J_Int 300)]) reverse_state_default)) = 44"
proof -
  let ?m = "J_Obj [(''type'', J_Str ''volume_changed''), (''volume_pct'', J_Int 300)]"
  have t: "as_str (json_index ?m ''type'') = Some ''volume_changed''" by simp
  have n: "as_u64 (json_index ?m ''volume_pct'') = Some 300" by simp
  from android_volume_outcome [OF t, of 0 reverse_state_default 300 "\<lambda>_. None" True 0] n show ?thesis by simp
qed

end
