(* ===== verification/Discovery.thy ===== *)
theory Discovery
  imports Server_Config Protocol_Messages Text_Format "HOL-Library.Product_Lexorder"
begin

text \<open>
  Discovery, \<open>crates/lan_audio_server/src/discovery.rs\<close>: the addresses a beacon goes to, the round
  of beacons, and the names registered with mDNS. The interfaces of the machine, the sockets, the
  JSON text and the mDNS daemon are parameters.
\<close>

section \<open>Addresses\<close>

definition ip_key :: "ip_addr \<Rightarrow> nat" where
  "ip_key ip = (case ip of
     V4 a b c d \<Rightarrow> ((unat a * 256 + unat b) * 256 + unat c) * 256 + unat d
   | V6 w \<Rightarrow> 2 ^ 32 + unat w)"

lemma u8_bound: "unat (w :: u8) < 256"
  using unsigned_less [of w, where ?'a = nat] by simp

lemma horner_256: "m * 256 + r = m' * 256 + r' \<Longrightarrow> r < 256 \<Longrightarrow> r' < 256 \<Longrightarrow> m = m' \<and> r = r'" for m :: nat
proof -
  assume e: "m * 256 + r = m' * 256 + r'" and r: "r < 256" "r' < 256"
  have "(m * 256 + r) div 256 = m" "(m' * 256 + r') div 256 = m'" using r by simp_all
  then have "m = m'" using e by simp
  then show ?thesis using e by simp
qed

lemma ip_key_inject: "ip_key x = ip_key y \<longleftrightarrow> x = y"
proof
  assume k: "ip_key x = ip_key y"
  have lt: "ip_key (V4 a b c d) < 2 ^ 32" for a b c d
    using u8_bound [of a] u8_bound [of b] u8_bound [of c] u8_bound [of d] by (simp add: ip_key_def)
  show "x = y"
  proof (cases x; cases y)
    fix a b c d a' b' c' d' assume e: "x = V4 a b c d" "y = V4 a' b' c' d'"
    have "unat a = unat a' \<and> unat b = unat b' \<and> unat c = unat c' \<and> unat d = unat d'"
    proof -
      have 1: "((unat a * 256 + unat b) * 256 + unat c) * 256 + unat d
          = ((unat a' * 256 + unat b') * 256 + unat c') * 256 + unat d'"
        using k unfolding e ip_key_def ip_addr.case .
      note 2 = horner_256 [OF 1 u8_bound u8_bound]
      note 3 = horner_256 [OF conjunct1 [OF 2] u8_bound u8_bound]
      note 4 = horner_256 [OF conjunct1 [OF 3] u8_bound u8_bound]
      show ?thesis using 2 3 4 by blast
    qed
    then show ?thesis by (simp add: e word_unat_eq_iff)
  next
    fix v v' assume "x = V6 v" "y = V6 v'"
    then show ?thesis using k by (simp add: ip_key_def word_unat_eq_iff)
  next
    fix a b c d v assume e: "x = V4 a b c d" "y = V6 v"
    then show ?thesis using k lt [of a b c d] by (simp add: ip_key_def)
  next
    fix a b c d v assume e: "x = V6 v" "y = V4 a b c d"
    then show ?thesis using k lt [of a b c d] by (simp add: ip_key_def)
  qed
qed simp

text \<open>The order of \<open>IpAddr\<close>: version 4 before version 6, each by value.\<close>

instantiation ip_addr :: linorder
begin

definition less_eq_ip_addr :: "ip_addr \<Rightarrow> ip_addr \<Rightarrow> bool" where
  "x \<le> y \<longleftrightarrow> ip_key x \<le> ip_key y"

definition less_ip_addr :: "ip_addr \<Rightarrow> ip_addr \<Rightarrow> bool" where
  "x < y \<longleftrightarrow> ip_key x < ip_key y"

instance
  by standard (auto simp: less_eq_ip_addr_def less_ip_addr_def ip_key_inject)

end

definition addr_key :: "socket_addr \<Rightarrow> ip_addr \<times> u16" where
  "addr_key a = (sa_ip a, sa_port a)"

text \<open>Inserting into a \<open>BTreeSet\<close>, as the ascending list of its elements.\<close>

definition btree_insert :: "socket_addr \<Rightarrow> socket_addr list \<Rightarrow> socket_addr list" where
  "btree_insert x xs = (if x \<in> set xs then xs else insort_key addr_key x xs)"

definition v4_addr :: "u32 \<Rightarrow> ip_addr" where
  "v4_addr w = V4 (ucast (drop_bit 24 w)) (ucast (drop_bit 16 w)) (ucast (drop_bit 8 w)) (ucast w)"

record v4_interface =
  if_ip :: u32
  if_netmask :: u32
  if_broadcast :: "u32 option"

datatype if_addr = If_V4 v4_interface | If_V6 "128 word"

definition is_loopback :: "u32 \<Rightarrow> bool" where
  "is_loopback ip \<longleftrightarrow> drop_bit 24 ip = 127"

definition directed_broadcast :: "u32 \<Rightarrow> u32 \<Rightarrow> u32" where
  "directed_broadcast ip netmask = ip OR NOT netmask"

definition local_ipv4_addrs :: "string + if_addr list \<Rightarrow> ip_addr list" where
  "local_ipv4_addrs interfaces =
     (case interfaces of Inl _ \<Rightarrow> []
      | Inr ifs \<Rightarrow> List.map_filter (\<lambda>i. case i of
            If_V4 v4 \<Rightarrow> if is_loopback (if_ip v4) then None else Some (v4_addr (if_ip v4))
          | If_V6 _ \<Rightarrow> None) ifs)"

definition interface_target :: "u16 \<Rightarrow> if_addr \<Rightarrow> socket_addr option" where
  "interface_target port i =
     (case i of If_V6 _ \<Rightarrow> None
      | If_V4 v4 \<Rightarrow>
          if is_loopback (if_ip v4) then None
          else Some \<lparr>sa_ip = v4_addr (case if_broadcast v4 of Some b \<Rightarrow> b
                       | None \<Rightarrow> directed_broadcast (if_ip v4) (if_netmask v4)),
                     sa_port = port\<rparr>)"

definition discovery_targets :: "socket_addr \<Rightarrow> string + if_addr list \<Rightarrow> socket_addr list" where
  "discovery_targets default_target interfaces =
     (let targets = btree_insert default_target [] in
      case interfaces of Inl _ \<Rightarrow> targets
      | Inr ifs \<Rightarrow> fold (\<lambda>i ts. case interface_target (sa_port default_target) i of
            None \<Rightarrow> ts | Some t \<Rightarrow> btree_insert t ts) ifs targets)"

section \<open>Beacons\<close>

record discovery_config =
  dc_server_id :: uuid
  dc_server_name :: string
  dc_bind_addr :: socket_addr
  dc_broadcast_addr :: socket_addr
  dc_ws_port :: u16
  dc_udp_port :: u16

definition beacon_of :: "discovery_config \<Rightarrow> u64 \<Rightarrow> discovery_beacon" where
  "beacon_of cfg now =
     \<lparr>db_kind = ''lan_audio_discovery_v1'', db_server_id = dc_server_id cfg,
      db_server_name = dc_server_name cfg, db_ws_port = dc_ws_port cfg, db_udp_port = dc_udp_port cfg,
      db_reverse_channel_port = REVERSE_TCP_PORT, db_control_channel_port = REVERSE_CONTROL_PORT,
      db_ts_unix_ms = now\<rparr>"

text \<open>One round, every second: failed sends are only logged.\<close>

fun send_to_targets ::
  "(u8 list \<Rightarrow> socket_addr \<Rightarrow> 'w \<Rightarrow> (string + unit) \<times> 'w) \<Rightarrow> u8 list \<Rightarrow> socket_addr list \<Rightarrow> 'w \<Rightarrow> 'w" where
  "send_to_targets send payload [] w = w"
| "send_to_targets send payload (t # ts) w = send_to_targets send payload ts (snd (send payload t w))"

definition discovery_round ::
  "(discovery_beacon \<Rightarrow> u8 list option) \<Rightarrow> (u8 list \<Rightarrow> socket_addr \<Rightarrow> 'w \<Rightarrow> (string + unit) \<times> 'w)
   \<Rightarrow> discovery_config \<Rightarrow> socket_addr list \<Rightarrow> u64 \<Rightarrow> 'w \<Rightarrow> 'w" where
  "discovery_round to_vec send cfg targets now w =
     (case to_vec (beacon_of cfg now) of None \<Rightarrow> w
      | Some payload \<Rightarrow> send_to_targets send payload targets w)"

text \<open>The broadcaster until the shutdown: \<open>nows\<close> are the clock's readings, one a round.\<close>

fun discovery_rounds ::
  "(discovery_beacon \<Rightarrow> u8 list option) \<Rightarrow> (u8 list \<Rightarrow> socket_addr \<Rightarrow> 'w \<Rightarrow> (string + unit) \<times> 'w)
   \<Rightarrow> discovery_config \<Rightarrow> socket_addr list \<Rightarrow> u64 list \<Rightarrow> 'w \<Rightarrow> 'w" where
  "discovery_rounds to_vec send cfg targets [] w = w"
| "discovery_rounds to_vec send cfg targets (now # nows) w =
     discovery_rounds to_vec send cfg targets nows (discovery_round to_vec send cfg targets now w)"

definition run_discovery_broadcast ::
  "(discovery_beacon \<Rightarrow> u8 list option) \<Rightarrow> (u8 list \<Rightarrow> socket_addr \<Rightarrow> 'w \<Rightarrow> (string + unit) \<times> 'w)
   \<Rightarrow> string + unit \<Rightarrow> string + unit \<Rightarrow> string + if_addr list \<Rightarrow> u64 list \<Rightarrow> discovery_config \<Rightarrow> 'w
   \<Rightarrow> (string + unit) \<times> 'w" where
  "run_discovery_broadcast to_vec send bound broadcast_set interfaces nows cfg w =
     (case bound of Inl e \<Rightarrow> (Inl e, w)
      | Inr _ \<Rightarrow> (case broadcast_set of Inl e \<Rightarrow> (Inl e, w)
          | Inr _ \<Rightarrow> (Inr (), discovery_rounds to_vec send cfg
              (discovery_targets (dc_broadcast_addr cfg) interfaces) nows w)))"

section \<open>mDNS names\<close>

definition mdns_instance_name :: "string \<Rightarrow> string" where
  "mdns_instance_name name =
     (let clean = trim name in
      if clean = [] then ''LAN Audio''
      else if starts_with ''LAN Audio @'' clean then clean
      else ''LAN Audio @ '' @ clean)"

fun has_double_dash :: "string \<Rightarrow> bool" where
  "has_double_dash (a # b # cs) \<longleftrightarrow> (a = CHR ''-'' \<and> b = CHR ''-'') \<or> has_double_dash (b # cs)"
| "has_double_dash _ \<longleftrightarrow> False"

text \<open>\<open>host.replace("--", "-")\<close>: the matches from left to right, without overlap.\<close>

fun replace_double_dash :: "string \<Rightarrow> string" where
  "replace_double_dash (a # b # cs) =
     (if a = CHR ''-'' \<and> b = CHR ''-'' then CHR ''-'' # replace_double_dash cs
      else a # replace_double_dash (b # cs))"
| "replace_double_dash cs = cs"

lemma replace_length: "length (replace_double_dash s) \<le> length s"
  by (induction s rule: replace_double_dash.induct) auto

lemma replace_shorter: "has_double_dash s \<Longrightarrow> length (replace_double_dash s) < length s"
  using replace_length by (induction s rule: replace_double_dash.induct) (auto simp: less_Suc_eq_le le_SucI)

text \<open>\<open>while host.contains("--")\<close>: every round is shorter.\<close>

function collapse_dashes :: "string \<Rightarrow> string" where
  "collapse_dashes host =
     (if has_double_dash host then collapse_dashes (replace_double_dash host) else host)"
  by auto

termination collapse_dashes
  by (relation "measure length") (auto intro: replace_shorter)

declare collapse_dashes.simps [simp del]

definition host_char :: "char \<Rightarrow> char" where
  "host_char ch = (if is_alphanumeric ch \<or> ch = CHR ''-'' then to_ascii_lowercase ch else CHR ''-'')"

definition mdns_host_name :: "string \<Rightarrow> string" where
  "mdns_host_name name =
     (let host = collapse_dashes (map host_char name);
          host = trim_matches (\<lambda>c. c = CHR ''-'') host;
          host = (if host = [] then ''lan-audio'' else host)
      in host @ ''.local.'')"

record mdns_service_config =
  ms_server_name :: string
  ms_ws_port :: u16
  ms_version :: string
  ms_mode :: string

record service_info =
  si_service_type :: string
  si_instance :: string
  si_host :: string
  si_ips :: "ip_addr list"
  si_port :: u16
  si_txt :: "(string \<times> string) list"

definition service_info_of :: "mdns_service_config \<Rightarrow> ip_addr list \<Rightarrow> service_info" where
  "service_info_of cfg host_ips =
     \<lparr>si_service_type = ''_lan-audio._tcp.local.'', si_instance = mdns_instance_name (ms_server_name cfg),
      si_host = mdns_host_name (ms_server_name cfg), si_ips = host_ips, si_port = ms_ws_port cfg,
      si_txt = [(''version'', ms_version cfg), (''mode'', ms_mode cfg)]\<rparr>"

text \<open>
  Registration until the shutdown: \<open>new_service\<close> builds the service, \<open>daemon\<close> is the started daemon,
  \<open>register\<close> and \<open>stop\<close> its operations. The result is what was registered, if anything.
\<close>

definition run_mdns_registration ::
  "(service_info \<Rightarrow> string + 's) \<Rightarrow> string + 'd \<Rightarrow> ('s \<Rightarrow> 'd \<Rightarrow> string + unit) \<Rightarrow> ('d \<Rightarrow> string + unit)
   \<Rightarrow> string + if_addr list \<Rightarrow> mdns_service_config \<Rightarrow> string + service_info option" where
  "run_mdns_registration new_service daemon register stop interfaces cfg =
     (let host_ips = local_ipv4_addrs interfaces; info = service_info_of cfg host_ips in
      if host_ips = [] then Inr None
      else case new_service info of Inl e \<Rightarrow> Inl e
      | Inr service \<Rightarrow> (case daemon of Inl e \<Rightarrow> Inl e
          | Inr d \<Rightarrow> (case register service d of Inl e \<Rightarrow> Inl e
              | Inr _ \<Rightarrow> (case stop d of Inl e \<Rightarrow> Inl e | Inr _ \<Rightarrow> Inr (Some info)))))"

section \<open>Properties of the names\<close>

text \<open>The reference: one pass that drops every dash followed by another.\<close>

fun squeeze_dashes :: "string \<Rightarrow> string" where
  "squeeze_dashes (a # b # cs) =
     (if a = CHR ''-'' \<and> b = CHR ''-'' then squeeze_dashes (b # cs) else a # squeeze_dashes (b # cs))"
| "squeeze_dashes cs = cs"

lemma squeeze_id: "\<not> has_double_dash s \<Longrightarrow> squeeze_dashes s = s"
  by (induction s rule: squeeze_dashes.induct) auto

lemma squeeze_dash_Cons: "squeeze_dashes (CHR ''-'' # CHR ''-'' # cs) = squeeze_dashes (CHR ''-'' # cs)"
  by simp

lemma squeeze_Cons_cong: "squeeze_dashes s = squeeze_dashes t \<Longrightarrow> squeeze_dashes (a # s) = squeeze_dashes (a # t)"
proof -
  have hd_eq: "squeeze_dashes u \<noteq> [] \<and> hd (squeeze_dashes u) = hd u" if "u \<noteq> []" for u
    using that by (induction u rule: squeeze_dashes.induct) auto
  have Cons: "squeeze_dashes (a # u) =
      (if u \<noteq> [] \<and> a = CHR ''-'' \<and> hd u = CHR ''-'' then squeeze_dashes u else a # squeeze_dashes u)" for u
    by (cases u) auto
  assume "squeeze_dashes s = squeeze_dashes t"
  then show ?thesis using hd_eq [of s] hd_eq [of t] by (cases s; cases t) (auto simp: Cons)
qed

lemma squeeze_replace: "squeeze_dashes (replace_double_dash s) = squeeze_dashes s"
proof (induction s rule: replace_double_dash.induct)
  case (1 a b cs)
  show ?case
  proof (cases "a = CHR ''-'' \<and> b = CHR ''-''")
    case True
    have "replace_double_dash (a # b # cs) = CHR ''-'' # replace_double_dash cs" using True by simp
    moreover have "squeeze_dashes (a # b # cs) = squeeze_dashes (CHR ''-'' # cs)" using True by simp
    ultimately show ?thesis
      using squeeze_Cons_cong [OF "1.IH"(1) [OF True], of "CHR ''-''"] by (simp only:)
  next
    case False
    have "replace_double_dash (a # b # cs) = a # replace_double_dash (b # cs)" using False by auto
    then show ?thesis
      using squeeze_Cons_cong [OF "1.IH"(2) [OF False], of a] by (simp only:)
  qed
qed simp_all

lemma collapse_squeeze: "collapse_dashes s = squeeze_dashes s"
proof (induction s rule: collapse_dashes.induct)
  case (1 s)
  then show ?case
    by (subst collapse_dashes.simps) (auto simp: squeeze_replace squeeze_id)
qed

lemma squeeze_no_double: "\<not> has_double_dash (squeeze_dashes s)"
proof -
  have "\<not> has_double_dash (collapse_dashes s)"
  proof (induction s rule: collapse_dashes.induct)
    case (1 s)
    then show ?case by (cases "has_double_dash s") (auto simp: collapse_dashes.simps [of s])
  qed
  then show ?thesis by (simp add: collapse_squeeze)
qed

lemma squeeze_subset: "set (squeeze_dashes s) \<subseteq> set s"
  by (induction s rule: squeeze_dashes.induct) auto

lemma double_dash_append: "has_double_dash s \<Longrightarrow> has_double_dash (u @ s @ v)"
proof (induction u)
  case Nil
  then show ?case
    by (induction s rule: has_double_dash.induct) (auto simp: neq_Nil_conv)
next
  case (Cons a u)
  then show ?case by (cases "u @ s @ v") auto
qed

definition label_char :: "char \<Rightarrow> bool" where
  "label_char c \<longleftrightarrow> is_lower c \<or> is_digit c \<or> c = CHR ''-''"

lemma host_char_label: "label_char (host_char c)"
proof (cases "is_upper c")
  case True
  then have "is_lower (to_ascii_lowercase c)"
    by (simp add: is_upper_def is_lower_def to_ascii_lowercase_def)
  then show ?thesis using True by (simp add: host_char_def label_char_def is_alphanumeric_def)
qed (auto simp: host_char_def label_char_def is_alphanumeric_def to_ascii_lowercase_def)

text \<open>A label as DNS wants it.\<close>

definition valid_label :: "string \<Rightarrow> bool" where
  "valid_label l \<longleftrightarrow> l \<noteq> [] \<and> list_all label_char l \<and> hd l \<noteq> CHR ''-'' \<and> last l \<noteq> CHR ''-''
     \<and> \<not> has_double_dash l"

lemma trim_matches_parts: "\<exists>u v. s = u @ trim_matches P s @ v"
proof -
  have "s = takeWhile P s @ dropWhile P s" by simp
  moreover have "dropWhile P s = rev (dropWhile P (rev (dropWhile P s))) @ rev (takeWhile P (rev (dropWhile P s)))"
    by (metis rev_append rev_rev_ident takeWhile_dropWhile_id)
  ultimately show ?thesis unfolding trim_matches_def trim_end_matches_def by metis
qed

lemma trim_matches_ends:
  assumes "trim_matches P s \<noteq> []"
  shows "\<not> P (hd (trim_matches P s))" and "\<not> P (last (trim_matches P s))"
proof -
  let ?d = "dropWhile P s"
  have ne: "dropWhile P (rev ?d) \<noteq> []" using assms by (simp add: trim_matches_def trim_end_matches_def)
  then show "\<not> P (last (trim_matches P s))"
    using hd_dropWhile [OF ne] by (simp add: trim_matches_def trim_end_matches_def last_rev)
  have "?d \<noteq> []" using ne by (metis dropWhile.simps(1) rev.simps(1))
  then have h: "\<not> P (hd ?d)" by (rule hd_dropWhile)
  have "?d = rev (dropWhile P (rev ?d)) @ rev (takeWhile P (rev ?d))"
    by (metis rev_append rev_rev_ident takeWhile_dropWhile_id)
  then have "hd ?d = hd (rev (dropWhile P (rev ?d)))" using ne by (metis hd_append2 rev_is_Nil_conv)
  then show "\<not> P (hd (trim_matches P s))" using h by (simp add: trim_matches_def trim_end_matches_def)
qed

text \<open>
  The mDNS host name is a valid label. Whatever the server is called, the loop that removes
  double dashes ends, with what one pass over the text would give, and the host name is a nonempty
  label of lower-case letters, digits and single inner dashes, followed by \<open>.local.\<close>.
\<close>
theorem mdns_host_name_valid:
  "collapse_dashes (map host_char name) = squeeze_dashes (map host_char name)
   \<and> (\<exists>label. mdns_host_name name = label @ ''.local.'' \<and> valid_label label)"
proof -
  let ?P = "\<lambda>c. c = CHR ''-''"
  let ?s = "squeeze_dashes (map host_char name)"
  let ?t = "trim_matches ?P ?s"
  have "\<exists>label. mdns_host_name name = label @ ''.local.'' \<and> valid_label label"
  proof (cases "?t = []")
    case True
    then show ?thesis
      by (intro exI [of _ "''lan-audio''"])
        (simp add: mdns_host_name_def collapse_squeeze Let_def valid_label_def label_char_def is_lower_def is_digit_def)
  next
    case False
    obtain u v where uv: "?s = u @ ?t @ v" using trim_matches_parts by blast
    have "\<not> has_double_dash ?t" using squeeze_no_double [of "map host_char name"] uv double_dash_append by metis
    moreover have "set ?t \<subseteq> set ?s" using uv by (metis Un_iff set_append subsetI)
    then have "list_all label_char ?t"
      using squeeze_subset [of "map host_char name"] host_char_label by (fastforce simp: list_all_iff)
    ultimately have "valid_label ?t"
      using False trim_matches_ends [OF False] by (simp add: valid_label_def)
    then show ?thesis using False by (simp add: mdns_host_name_def collapse_squeeze Let_def)
  qed
  then show ?thesis by (simp add: collapse_squeeze)
qed

section \<open>Properties of the beacons\<close>

lemma addr_key_inject [simp]: "addr_key a = addr_key b \<longleftrightarrow> a = b"
  by (cases a; cases b) (simp add: addr_key_def)

definition btree_ok :: "socket_addr list \<Rightarrow> bool" where
  "btree_ok xs \<longleftrightarrow> sorted (map addr_key xs) \<and> distinct xs"

lemma btree_insert_ok:
  "btree_ok xs \<Longrightarrow> btree_ok (btree_insert x xs) \<and> set (btree_insert x xs) = insert x (set xs)"
  by (auto simp: btree_ok_def btree_insert_def sorted_insort_key distinct_insort set_insort_key)

lemma targets_fold:
  "btree_ok ts \<Longrightarrow>
    btree_ok (fold (\<lambda>i ts. case interface_target port i of None \<Rightarrow> ts | Some t \<Rightarrow> btree_insert t ts) ifs ts)
    \<and> set (fold (\<lambda>i ts. case interface_target port i of None \<Rightarrow> ts | Some t \<Rightarrow> btree_insert t ts) ifs ts)
      = set ts \<union> set (List.map_filter (interface_target port) ifs)"
proof (induction ifs arbitrary: ts)
  case (Cons i ifs)
  then show ?case
    using btree_insert_ok [OF Cons.prems] by (cases "interface_target port i") (auto simp: map_filter_simps)
qed (simp add: map_filter_simps)

text \<open>
  Who gets a beacon. The targets are in ascending order without repetition: the configured
  address and, on its port, the broadcast address of every interface that is IPv4 and not loopback.
  Where the system names none it is derived from the mask: the interface's network, all host bits set.
\<close>
theorem discovery_targets_outcome:
  "sorted (map addr_key (discovery_targets d ifs)) \<and> distinct (discovery_targets d ifs)
   \<and> set (discovery_targets d ifs) = insert d
        (case ifs of Inl _ \<Rightarrow> {} | Inr is \<Rightarrow> set (List.map_filter (interface_target (sa_port d)) is))
   \<and> directed_broadcast ip netmask AND netmask = ip AND netmask
   \<and> directed_broadcast ip netmask AND NOT netmask = NOT netmask"
proof -
  have "btree_ok (btree_insert d [])" "set (btree_insert d []) = {d}"
    by (simp_all add: btree_ok_def btree_insert_def)
  then have "btree_ok (discovery_targets d ifs) \<and> set (discovery_targets d ifs) = insert d
        (case ifs of Inl _ \<Rightarrow> {} | Inr is \<Rightarrow> set (List.map_filter (interface_target (sa_port d)) is))"
    using targets_fold [of "btree_insert d []" "sa_port d"]
    by (auto simp: discovery_targets_def Let_def split: sum.split)
  moreover have "directed_broadcast ip netmask AND netmask = ip AND netmask"
    "directed_broadcast ip netmask AND NOT netmask = NOT netmask"
    by (auto intro!: bit_word_eqI simp: directed_broadcast_def bit_simps)
  ultimately show ?thesis by (simp add: btree_ok_def)
qed

text \<open>A network on which the addresses \<open>up\<close> answer; the world is the log of what was sent.\<close>

definition logged_send ::
  "(socket_addr \<Rightarrow> bool) \<Rightarrow> u8 list \<Rightarrow> socket_addr \<Rightarrow> (u8 list \<times> socket_addr) list
   \<Rightarrow> (string + unit) \<times> (u8 list \<times> socket_addr) list" where
  "logged_send up payload t w = (if up t then Inr () else Inl ''unreachable'', w @ [(payload, t)])"

lemma send_to_targets_log:
  "send_to_targets (logged_send up) payload ts w = w @ map (Pair payload) ts"
  by (induction ts arbitrary: w) (simp_all add: logged_send_def)

text \<open>
  Nobody is starved. In every round whose beacon can be written, every target is sent that
  beacon once, with the time of the round, whichever targets cannot be reached.
\<close>
theorem discovery_reaches_every_target:
  "snd (run_discovery_broadcast to_vec (logged_send up) (Inr ()) (Inr ()) ifs nows cfg w) =
    w @ concat (map (\<lambda>payload. map (Pair payload) (discovery_targets (dc_broadcast_addr cfg) ifs))
          (List.map_filter (\<lambda>now. to_vec (beacon_of cfg now)) nows))"
proof -
  have "discovery_rounds to_vec (logged_send up) cfg ts nows w =
      w @ concat (map (\<lambda>payload. map (Pair payload) ts) (List.map_filter (\<lambda>now. to_vec (beacon_of cfg now)) nows))" for ts
    by (induction nows arbitrary: w)
      (auto simp: discovery_round_def send_to_targets_log map_filter_simps split: option.split)
  then show ?thesis by (simp add: run_discovery_broadcast_def)
qed

end
