(* ===== verification/Lan_Service.thy ===== *)
theory Lan_Service
  imports Usb_Transport Reverse_Channel Discovery Data_Plane Service_Metrics
begin

text \<open>
  The service that owns the server's parts, \<open>crates/lan_audio_server/src/service.rs\<close>: its creation
  (router, metrics, adb forwards, reverse channel), its operations, and \<open>run_until_shutdown\<close> as a
  machine: the transport is bound, each task subscribes to the shutdown channel and is spawned, the
  service listens itself, and ends when it is told to. A message of the shutdown channel reaches the
  receivers that exist when it is sent.
\<close>

section \<open>The service\<close>

record ('sock, 'wr) lan_audio_service =
  sv_cfg :: "real server_config"
  sv_metrics :: metrics
  sv_adb_reverse_manager :: adb_reverse_manager
  sv_active_audio_mode :: audio_mode
  sv_data_plane_router :: "('sock, 'wr) data_plane_router"
  sv_reverse_channel :: "reverse_channel_server option"

text \<open>The forwards of a USB service: the manager tracks each one when it is set up.\<close>

definition setup_forwards ::
  "'w adb_env \<Rightarrow> real server_config \<Rightarrow> 'w \<Rightarrow> (anyhow_error + unit) \<times> adb_reverse_manager \<times> 'w" where
  "setup_forwards env cfg w =
     (case transport_mode_adb_serial (cfg_transport_mode cfg) of
        None \<Rightarrow> (Inr (), [], w)
      | Some serial \<Rightarrow>
          let ws = sa_port (ws_bind cfg); udp = sa_port (udp_bind cfg) in
          (case setup_adb_reverse env serial ws ws w of
             (Inl e, w) \<Rightarrow> (Inl e, [], w)
           | (Inr _, w) \<Rightarrow>
               let m = track_reverse serial ws [] in
               (case setup_adb_reverse env serial udp udp w of
                  (Inl e, w) \<Rightarrow> (Inl e, m, w)
                | (Inr _, w) \<Rightarrow> (Inr (), track_reverse serial udp m, w))))"

text \<open>
  Creation. \<open>bind\<close> says whether a port of the reverse channel can be listened on. A failure drops the
  manager, which removes what it tracks.
\<close>

definition service_new ::
  "'w adb_env \<Rightarrow> (u16 \<Rightarrow> bool) \<Rightarrow> real server_config \<Rightarrow> 'w
   \<Rightarrow> (anyhow_error + ('sock, 'wr) lan_audio_service) \<times> 'w" where
  "service_new env bind cfg w =
     (let router = router_from_config cfg;
          metrics = set_current_audio_source (audio_source_as_str (audio_source cfg)) metrics_default;
          metrics = set_capture_source_state ''created'' metrics;
          metrics = set_capture_device_name ''n/a'' metrics;
          metrics = set_capture_format (cfg_sample_rate cfg) (ucast (cfg_channels cfg)) metrics
      in case setup_forwards env cfg w of
           (Inl e, manager, w) \<Rightarrow> (Inl e, adb_manager_drop env manager w)
         | (Inr _, manager, w) \<Rightarrow>
             (case reverse_server_start (ae_windows env) bind reverse_server_new of
                (Inl e, _) \<Rightarrow> (Inl [e], adb_manager_drop env manager w)
              | (Inr _, rc) \<Rightarrow>
                  (Inr \<lparr>sv_cfg = cfg, sv_metrics = metrics, sv_adb_reverse_manager = manager,
                     sv_active_audio_mode = cfg_current_audio_mode cfg, sv_data_plane_router = router,
                     sv_reverse_channel = Some rc\<rparr>, w)))"

text \<open>Dropping the service drops the manager it holds.\<close>

definition service_drop :: "'w adb_env \<Rightarrow> ('sock, 'wr) lan_audio_service \<Rightarrow> 'w \<Rightarrow> 'w" where
  "service_drop env sv w = adb_manager_drop env (sv_adb_reverse_manager sv) w"

definition service_metrics_snapshot_of :: "('sock, 'wr) lan_audio_service \<Rightarrow> metrics_snapshot" where
  "service_metrics_snapshot_of sv = snapshot (sv_metrics sv)"

definition current_audio_mode :: "('sock, 'wr) lan_audio_service \<Rightarrow> audio_mode" where
  "current_audio_mode sv = sv_active_audio_mode sv"

definition set_current_audio_mode ::
  "audio_mode \<Rightarrow> ('sock, 'wr) lan_audio_service \<Rightarrow> ('sock, 'wr) lan_audio_service" where
  "set_current_audio_mode mode sv =
     (if sv_active_audio_mode sv \<noteq> mode then sv\<lparr>sv_active_audio_mode := mode\<rparr> else sv)"

record data_plane_status =
  dps_active_path :: data_plane_path
  dps_active_codec :: codec_selection
  dps_rollback_available :: bool
  dps_is_on_main_path :: bool

definition data_plane_status_of :: "('sock, 'wr) lan_audio_service \<Rightarrow> data_plane_status" where
  "data_plane_status_of sv =
     (let router = sv_data_plane_router sv
      in \<lparr>dps_active_path = active_path router, dps_active_codec = active_codec router,
          dps_rollback_available = rollback_available router, dps_is_on_main_path = active_is_main router\<rparr>)"

definition service_reverse_channel_state :: "('sock, 'wr) lan_audio_service \<Rightarrow> reverse_channel_state" where
  "service_reverse_channel_state sv =
     (case sv_reverse_channel sv of None \<Rightarrow> reverse_state_default | Some rc \<Rightarrow> rs_state rc)"

definition send_android_volume ::
  "u8 \<Rightarrow> ('sock, 'wr) lan_audio_service \<Rightarrow> ('sock, 'wr) lan_audio_service" where
  "send_android_volume volume_pct sv =
     sv\<lparr>sv_reverse_channel :=
          map_option (\<lambda>rc. rc\<lparr>rs_state := queue_volume volume_pct (rs_state rc)\<rparr>) (sv_reverse_channel sv)\<rparr>"

text \<open>
  Stopping: the reverse channel is stopped and given up; the message to the tasks is the event
  \<open>Ev_Stop\<close> below. The manager is only looked at: the forwards stay until the service is dropped.
\<close>

definition stop_reverse_channel :: "('sock, 'wr) lan_audio_service \<Rightarrow> reverse_channel_server option" where
  "stop_reverse_channel sv = map_option reverse_server_stop (sv_reverse_channel sv)"

definition service_stop :: "('sock, 'wr) lan_audio_service \<Rightarrow> ('sock, 'wr) lan_audio_service" where
  "service_stop sv = sv\<lparr>sv_reverse_channel := None\<rparr>"

fun audio_mode_txt :: "audio_mode \<Rightarrow> string" where
  "audio_mode_txt UltraLowLatency = ''ultra_low_latency''"
| "audio_mode_txt LowLatency = ''low_latency''"
| "audio_mode_txt Balanced = ''balanced''"
| "audio_mode_txt HighQuality = ''high_quality''"

section \<open>Running\<close>

text \<open>The receivers of the shutdown channel, in the order in which they subscribe.\<close>

datatype service_task =
    Task_Discovery discovery_config | Task_Mdns mdns_service_config
  | Task_Transport | Task_Sessions | Task_Metrics | Task_Main

definition discovery_cfg_of :: "uuid \<Rightarrow> real server_config \<Rightarrow> discovery_config" where
  "discovery_cfg_of server_id cfg =
     \<lparr>dc_server_id = server_id, dc_server_name = server_name cfg, dc_bind_addr = discovery_bind cfg,
      dc_broadcast_addr = discovery_broadcast cfg, dc_ws_port = sa_port (ws_bind cfg),
      dc_udp_port = sa_port (udp_bind cfg)\<rparr>"

definition mdns_cfg_of :: "('sock, 'wr) lan_audio_service \<Rightarrow> mdns_service_config" where
  "mdns_cfg_of sv =
     \<lparr>ms_server_name = server_name (sv_cfg sv), ms_ws_port = sa_port (ws_bind (sv_cfg sv)),
      ms_version = ''1.7'', ms_mode = audio_mode_txt (current_audio_mode sv)\<rparr>"

definition service_tasks :: "uuid \<Rightarrow> ('sock, 'wr) lan_audio_service \<Rightarrow> service_task list" where
  "service_tasks server_id sv =
     (if transport_mode_as_str (cfg_transport_mode (sv_cfg sv)) = ''wifi''
      then [Task_Discovery (discovery_cfg_of server_id (sv_cfg sv)), Task_Mdns (mdns_cfg_of sv)] else [])
     @ [Task_Transport, Task_Sessions, Task_Metrics, Task_Main]"

datatype run_phase =
    Not_Run | Binding | Spawning "service_task list" | Serving | Joining_Tasks | Ended "string + unit"

record service_run =
  sr_phase :: run_phase
  sr_receivers :: "service_task set"
  sr_told :: "service_task set"

definition service_run_new :: service_run where
  "service_run_new = \<lparr>sr_phase = Not_Run, sr_receivers = {}, sr_told = {}\<rparr>"

definition shutdown_send :: "service_run \<Rightarrow> service_run" where
  "shutdown_send r = r\<lparr>sr_told := sr_told r \<union> sr_receivers r\<rparr>"

datatype service_event =
    Ev_Run | Ev_Bound "string + unit" | Ev_Subscribe | Ev_Stop | Ev_Ctrl_C | Ev_Heard
  | Ev_Task_End service_task | Ev_Joined

text \<open>
  \<open>Ev_Bound\<close> is the result of \<open>BroadcastTransport::new\<close>. A task may also end by itself, with an error
  that is only logged. \<open>Ev_Heard\<close> and \<open>Ev_Ctrl_C\<close> are the arms of the final \<open>select!\<close>.
\<close>

fun service_step :: "service_task list \<Rightarrow> service_event \<Rightarrow> service_run \<Rightarrow> unit + service_run" where
  "service_step tasks Ev_Run r =
     (if sr_phase r = Not_Run then Inr (r\<lparr>sr_phase := Binding\<rparr>) else Inl ())"
| "service_step tasks (Ev_Bound result) r =
     (if sr_phase r = Binding
      then Inr (r\<lparr>sr_phase := (case result of Inl e \<Rightarrow> Ended (Inl e) | Inr _ \<Rightarrow> Spawning tasks)\<rparr>)
      else Inl ())"
| "service_step tasks Ev_Subscribe r =
     (case sr_phase r of
        Spawning (t # ts) \<Rightarrow>
          Inr (r\<lparr>sr_receivers := insert t (sr_receivers r),
                sr_phase := (if ts = [] then Serving else Spawning ts)\<rparr>)
      | _ \<Rightarrow> Inl ())"
| "service_step tasks Ev_Stop r = Inr (shutdown_send r)"
| "service_step tasks Ev_Ctrl_C r =
     (if sr_phase r = Serving then Inr ((shutdown_send r)\<lparr>sr_phase := Joining_Tasks\<rparr>) else Inl ())"
| "service_step tasks Ev_Heard r =
     (if sr_phase r = Serving \<and> Task_Main \<in> sr_told r
      then Inr ((shutdown_send r)\<lparr>sr_phase := Joining_Tasks\<rparr>) else Inl ())"
| "service_step tasks (Ev_Task_End t) r =
     (if t \<in> sr_receivers r \<and> t \<noteq> Task_Main
      then Inr (r\<lparr>sr_receivers := sr_receivers r - {t}\<rparr>) else Inl ())"
| "service_step tasks Ev_Joined r =
     (if sr_phase r = Joining_Tasks \<and> sr_receivers r \<subseteq> {Task_Main}
      then Inr (r\<lparr>sr_phase := Ended (Inr ()), sr_receivers := {}\<rparr>) else Inl ())"

section \<open>The forwards\<close>

text \<open>An adb that logs the arguments of every command; \<open>ok\<close> says which commands succeed.\<close>

definition logged_adb :: "bool \<Rightarrow> (string list \<Rightarrow> bool) \<Rightarrow> string list list adb_env" where
  "logged_adb windows ok =
     \<lparr>ae_windows = windows, ae_output = (\<lambda>c w. (Inr \<lparr>po_success = ok (cmd_args c), po_status = ''1'',
        po_stdout = [], po_stderr = []\<rparr>, w @ [cmd_args c]))\<rparr>"

definition forward_args :: "string \<Rightarrow> u16 \<Rightarrow> string list" where
  "forward_args serial port = [''-s'', serial, ''reverse'', ''tcp:'' @ show_port port, ''tcp:'' @ show_port port]"

definition remove_args :: "string \<Rightarrow> u16 \<Rightarrow> string list" where
  "remove_args serial port = [''-s'', serial, ''reverse'', ''--remove'', ''tcp:'' @ show_port port]"

lemma logged_run:
  "run_adb (logged_adb windows ok) args w =
    (if ok args then Inr [] else Inl [''adb command failed (status=1): '' @ '' ''], w @ [args])"
  by (simp add: run_adb_def logged_adb_def adb_command_def trim_def trim_matches_def trim_end_matches_def)

lemma logged_setup:
  "(\<exists>e. setup_adb_reverse (logged_adb windows ok) s p p w = (Inl e, w @ [forward_args s p])) \<or> ok (forward_args s p)"
  "ok (forward_args s p) \<Longrightarrow> setup_adb_reverse (logged_adb windows ok) s p p w = (Inr (), w @ [forward_args s p])"
  by (simp_all add: setup_adb_reverse_def logged_run forward_args_def)

lemma logged_teardown: "snd (teardown_adb_reverse (logged_adb windows ok) s p w) = w @ [remove_args s p]"
  by (simp add: teardown_adb_reverse_def logged_run remove_args_def)

text \<open>What a service asks adb for: the forwards of its two ports, up to the first that fails.\<close>

definition wanted_forwards :: "real server_config \<Rightarrow> (string \<times> u16) list" where
  "wanted_forwards cfg = (case transport_mode_adb_serial (cfg_transport_mode cfg) of None \<Rightarrow> []
     | Some s \<Rightarrow> [(s, sa_port (ws_bind cfg)), (s, sa_port (udp_bind cfg))])"

definition granted_forwards :: "(string list \<Rightarrow> bool) \<Rightarrow> real server_config \<Rightarrow> (string \<times> u16) list" where
  "granted_forwards ok cfg = takeWhile (\<lambda>(s, p). ok (forward_args s p)) (wanted_forwards cfg)"

text \<open>
  C26: the forwards are balanced. Whichever commands fail, creating a service and dropping it, or
  failing to create it, runs: the setups in order up to the first that fails, and then the removal
  of exactly those that succeeded, the last one first. Stopping the service removes nothing.
\<close>
theorem adb_forwards_balanced:
  "(case service_new (logged_adb windows ok) bind cfg [] of
      (Inl e, issued) \<Rightarrow> issued = map (\<lambda>(s, p). forward_args s p) (take (Suc (length (granted_forwards ok cfg))) (wanted_forwards cfg))
          @ map (\<lambda>(s, p). remove_args s p) (rev (granted_forwards ok cfg)) \<and> granted_forwards ok cfg \<noteq> wanted_forwards cfg
    | (Inr (sv :: ('sock, 'wr) lan_audio_service), issued) \<Rightarrow>
        issued = map (\<lambda>(s, p). forward_args s p) (wanted_forwards cfg) \<and> granted_forwards ok cfg = wanted_forwards cfg
        \<and> sv_adb_reverse_manager (service_stop sv) = granted_forwards ok cfg
        \<and> service_drop (logged_adb windows ok) (service_stop sv) issued = issued @ map (\<lambda>(s, p). remove_args s p) (rev (granted_forwards ok cfg)))"
proof (cases "transport_mode_adb_serial (cfg_transport_mode cfg)")
  case None
  then show ?thesis
    by (simp add: service_new_def setup_forwards_def granted_forwards_def wanted_forwards_def reverse_server_start_def
        service_drop_def service_stop_def adb_manager_drop_def Let_def)
next
  case (Some s)
  let ?ws = "sa_port (ws_bind cfg)" and ?udp = "sa_port (udp_bind cfg)"
  note defs = service_new_def setup_forwards_def granted_forwards_def wanted_forwards_def reverse_server_start_def
    service_drop_def service_stop_def adb_manager_drop_def track_reverse_def logged_teardown Some
  show ?thesis
  proof (cases "ok (forward_args s ?ws)")
    case False
    then obtain e where "setup_adb_reverse (logged_adb windows ok) s ?ws ?ws [] = (Inl e, [forward_args s ?ws])"
      using logged_setup(1) [of windows ok s ?ws "[]"] by auto
    then show ?thesis using False by (simp add: defs Let_def)
  next
    case ws: True
    note one = logged_setup(2) [where ok = ok, OF ws, of windows "[]"]
    show ?thesis
    proof (cases "ok (forward_args s ?udp)")
      case False
      then obtain e where "setup_adb_reverse (logged_adb windows ok) s ?udp ?udp [forward_args s ?ws]
          = (Inl e, [forward_args s ?ws, forward_args s ?udp])"
        using logged_setup(1) [of windows ok s ?udp "[forward_args s ?ws]"] by auto
      then show ?thesis using False one ws by (simp add: defs Let_def)
    next
      case True
      then show ?thesis
        using one ws logged_setup(2) [where ok = ok, OF True, of windows "[forward_args s ?ws]"]
        by (simp add: defs Let_def)
    qed
  qed
qed

section \<open>Creation and its tasks\<close>

text \<open>
  What a created service is. The reverse channel runs whatever \<open>reverse_channel_enabled\<close> says,
  on every port that can be listened on; mode and router are the configuration's; the beacon and the
  mDNS record of a Wi-Fi service advertise the ports that the session server and the transport are
  configured with, and a USB service advertises nothing.
\<close>
theorem service_new_outcome:
  assumes "service_new env bind cfg w = (Inr (sv :: ('sock, 'wr) lan_audio_service), w')"
  shows "(\<exists>rc. sv_reverse_channel sv = Some rc \<and> rs_audio_task rc = bind 7878 \<and> rs_control_task rc = bind 7879)
    \<and> current_audio_mode sv = cfg_current_audio_mode cfg
    \<and> router_inv (sv_data_plane_router sv)
    \<and> dps_active_codec (data_plane_status_of sv) = active_codec (sv_data_plane_router sv)
    \<and> (\<forall>b. \<exists>sv' :: ('sock, 'wr) lan_audio_service. service_new env bind (cfg\<lparr>reverse_channel_enabled := b\<rparr>) w = (Inr sv', w')
          \<and> sv_reverse_channel sv' = sv_reverse_channel sv)
    \<and> {t \<in> set (service_tasks uid sv). \<exists>d m. t = Task_Discovery d \<or> t = Task_Mdns m} =
        (case cfg_transport_mode cfg of Mode_Usb _ \<Rightarrow> {}
         | Mode_WiFi \<Rightarrow> {Task_Discovery (discovery_cfg_of uid cfg), Task_Mdns (mdns_cfg_of sv)})
    \<and> db_ws_port (beacon_of (discovery_cfg_of uid cfg) now) = sa_port (ws_bind cfg)
    \<and> db_udp_port (beacon_of (discovery_cfg_of uid cfg) now) = sa_port (udp_bind cfg)
    \<and> si_port (service_info_of (mdns_cfg_of sv) ips) = sa_port (ws_bind cfg)"
proof -
  obtain rc where rc: "reverse_server_start (ae_windows env) bind reverse_server_new = (Inr (), rc)"
    and started: "rs_audio_task rc = bind 7878" "rs_control_task rc = bind 7879"
    by (simp add: reverse_server_start_def reverse_server_new_def Let_def)
  have fwd: "setup_forwards env (cfg\<lparr>reverse_channel_enabled := b\<rparr>) w = setup_forwards env cfg w" for b
    by (cases "transport_mode_adb_serial (cfg_transport_mode cfg)") (simp_all add: setup_forwards_def)
  obtain m where m: "setup_forwards env cfg w = (Inr (), m, w')"
    "sv_cfg sv = cfg" "sv_reverse_channel sv = Some rc" "sv_active_audio_mode sv = cfg_current_audio_mode cfg"
    "sv_data_plane_router sv = router_from_config cfg"
    using assms rc by (auto simp: service_new_def Let_def split: prod.splits sum.splits)
  have new: "\<exists>sv' :: ('sock, 'wr) lan_audio_service. service_new env bind (cfg\<lparr>reverse_channel_enabled := b\<rparr>) w = (Inr sv', w')
      \<and> sv_reverse_channel sv' = sv_reverse_channel sv" for b
    using rc m by (simp add: service_new_def fwd Let_def)
  have router: "router_inv (sv_data_plane_router sv)" unfolding m(5) by (rule router_from_config_inv)
  have tasks: "{t \<in> set (service_tasks uid sv). \<exists>d m. t = Task_Discovery d \<or> t = Task_Mdns m} =
      (case cfg_transport_mode cfg of Mode_Usb _ \<Rightarrow> {}
       | Mode_WiFi \<Rightarrow> {Task_Discovery (discovery_cfg_of uid cfg), Task_Mdns (mdns_cfg_of sv)})"
    using m(2) by (auto simp: service_tasks_def split: transport_mode.splits)
  show ?thesis
    using m started new tasks router
    by (simp add: current_audio_mode_def data_plane_status_of_def Let_def beacon_of_def
        discovery_cfg_of_def service_info_of_def mdns_cfg_of_def)
qed

section \<open>Shutting down\<close>

text \<open>A stop that came while the service was listening.\<close>

definition heard_stop :: "service_task list \<Rightarrow> service_event list \<Rightarrow> bool" where
  "heard_stop tasks evs \<longleftrightarrow>
     (\<exists>xs ys s. evs = xs @ Ev_Stop # ys \<and> run_ops (service_step tasks) xs service_run_new = Inr s
        \<and> Task_Main \<in> sr_receivers s)"

lemma heard_stop_append: "heard_stop tasks evs \<Longrightarrow> heard_stop tasks (evs @ rest)"
  by (force simp: heard_stop_def)

lemma service_run_history:
  "run_ops (service_step tasks) evs service_run_new = Inr r \<Longrightarrow> Ev_Ctrl_C \<notin> set evs \<Longrightarrow>
    (Task_Main \<in> sr_told r \<longrightarrow> heard_stop tasks evs)
    \<and> (sr_phase r \<in> {Joining_Tasks, Ended (Inr ())} \<longrightarrow> heard_stop tasks evs)"
proof (induction evs arbitrary: r rule: rev_induct)
  case (snoc ev evs)
  then obtain s where s: "run_ops (service_step tasks) evs service_run_new = Inr s"
    "service_step tasks ev s = Inr r" by (auto simp: run_ops_append split: sum.splits)
  note IH = snoc.IH [OF s(1)]
  have stop: "heard_stop tasks (evs @ [Ev_Stop])" if "Task_Main \<in> sr_receivers s"
    using that s(1) unfolding heard_stop_def by blast
  have ih: "Task_Main \<in> sr_told s \<or> sr_phase s \<in> {Joining_Tasks, Ended (Inr ())} \<longrightarrow> heard_stop tasks (evs @ [ev])"
    using IH snoc.prems(2) heard_stop_append by auto
  show ?case
  proof (cases ev)
    case Ev_Stop
    then show ?thesis using s(2) ih stop by (auto simp: shutdown_send_def)
  qed (use s(2) ih snoc.prems(2) in \<open>auto simp: shutdown_send_def split: if_splits sum.splits run_phase.splits list.splits\<close>)
qed (simp add: service_run_new_def)

text \<open>
  C27: only a stop that the service is there to hear ends it. Without Ctrl-C, a service that is told
  to finish or has finished well heard a stop that was sent after its last task was spawned; a stop
  sent before that, while the transport is being bound or the tasks are being spawned, is lost.
\<close>
theorem service_stop_heard:
  assumes "run_ops (service_step tasks) evs service_run_new = Inr r" and "Ev_Ctrl_C \<notin> set evs"
    and "\<forall>xs ys s. evs = xs @ Ev_Stop # ys \<longrightarrow> run_ops (service_step tasks) xs service_run_new = Inr s
          \<longrightarrow> Task_Main \<notin> sr_receivers s"
  shows "Task_Main \<notin> sr_told r \<and> sr_phase r \<notin> {Joining_Tasks, Ended (Inr ())}
    \<and> service_step tasks Ev_Heard r = Inl () \<and> service_step tasks Ev_Joined r = Inl ()"
proof -
  have "\<not> heard_stop tasks evs" using assms(3) unfolding heard_stop_def by blast
  then show ?thesis using service_run_history [OF assms(1,2)] by auto
qed

section \<open>Concrete runs\<close>

definition usb_config :: "real server_config" where
  "usb_config = sample_config\<lparr>cfg_transport_mode := Mode_Usb ''R58M''\<rparr>"

theorem service_new_outcome_witness:
  "\<exists>(sv :: (nat, nat) lan_audio_service) issued. service_new (logged_adb True (\<lambda>_. True)) (\<lambda>p. p = 7878) usb_config [] = (Inr sv, issued)
    \<and> (\<exists>rc. sv_reverse_channel sv = Some rc \<and> rs_audio_task rc \<and> \<not> rs_control_task rc)
    \<and> length issued = 2"
proof -
  obtain x issued where n: "service_new (logged_adb True (\<lambda>_. True)) (\<lambda>p. p = 7878) usb_config [] =
      (x :: anyhow_error + (nat, nat) lan_audio_service, issued)" by fastforce
  have "\<not> isl x \<and> length issued = 2"
    using n logged_setup(2) [of "\<lambda>_. True"]
    by (auto simp: service_new_def setup_forwards_def usb_config_def reverse_server_start_def Let_def)
  then obtain sv where sv: "x = Inr sv" "length issued = 2" by (cases x) auto
  show ?thesis using service_new_outcome [OF n [unfolded sv(1)]] n sv by auto
qed

theorem service_stop_heard_witness:
  "\<exists>r. run_ops (service_step [Task_Transport, Task_Main])
      [Ev_Run, Ev_Stop, Ev_Bound (Inr ()), Ev_Subscribe, Ev_Stop, Ev_Subscribe] service_run_new = Inr r
    \<and> sr_phase r = Serving \<and> Task_Transport \<in> sr_told r
    \<and> service_step [Task_Transport, Task_Main] Ev_Heard r = Inl ()"
proof -
  let ?tasks = "[Task_Transport, Task_Main]"
  let ?evs = "[Ev_Run, Ev_Stop, Ev_Bound (Inr ()), Ev_Subscribe, Ev_Stop, Ev_Subscribe]"
  obtain r where r: "run_ops (service_step ?tasks) ?evs service_run_new = Inr r"
    "sr_phase r = Serving" "Task_Transport \<in> sr_told r"
    by (simp add: service_run_new_def shutdown_send_def)
  have "Task_Main \<notin> sr_receivers s"
    if "?evs = xs @ Ev_Stop # ys" "run_ops (service_step ?tasks) xs service_run_new = Inr s" for xs ys s
    using that by (auto simp: Cons_eq_append_conv service_run_new_def shutdown_send_def)
  then show ?thesis using service_stop_heard [OF r(1)] r by auto
qed

end
