(* ===== verification/Desktop_Config.thy ===== *)
theory Desktop_Config
  imports Lan_Service Protocol_Messages
begin

text \<open>
  The desktop application's configuration and the snapshot it shows,
  \<open>apps/desktop/src-tauri/src/lib.rs\<close>: from the settings to the server's configuration, and from the
  state of application and service to the record the window displays. The operating system's answers
  (local address, clock) and the package version are arguments.
\<close>

section \<open>Records\<close>

datatype service_status = Svc_NotStarted | Svc_Starting | Svc_Running | Svc_Stopping | Svc_Error

record desktop_metrics =
  dm_tx_packets :: u64
  dm_tx_bytes :: u64
  dm_active_sessions :: u64
  dm_capture_frames_produced :: u64
  dm_capture_read_errors :: u64
  dm_capture_underruns :: u64
  dm_capture_start_attempts :: u64
  dm_capture_start_failures :: u64
  dm_capture_silent_frames :: u64
  dm_capture_non_silent_frames :: u64
  dm_capture_no_packet_count :: u64
  dm_current_audio_source :: string
  dm_capture_source_state :: string
  dm_capture_device_name :: string
  dm_negotiated_data_plane :: string
  dm_negotiated_codec :: string
  dm_capture_sample_rate :: u64
  dm_capture_channels :: u64
  dm_capture_buffer_frames :: u64
  dm_capture_last_peak :: real
  dm_capture_last_rms :: real
  dm_last_capture_pts_ms :: u64
  dm_recent_clients :: "string list"

definition desktop_metrics_from :: "metrics_snapshot \<Rightarrow> desktop_metrics" where
  "desktop_metrics_from v =
     \<lparr>dm_tx_packets = ms_tx_packets v, dm_tx_bytes = ms_tx_bytes v,
      dm_active_sessions = ms_active_sessions v,
      dm_capture_frames_produced = ms_capture_frames_produced v,
      dm_capture_read_errors = ms_capture_read_errors v, dm_capture_underruns = ms_capture_underruns v,
      dm_capture_start_attempts = ms_capture_start_attempts v,
      dm_capture_start_failures = ms_capture_start_failures v,
      dm_capture_silent_frames = ms_capture_silent_frames v,
      dm_capture_non_silent_frames = ms_capture_non_silent_frames v,
      dm_capture_no_packet_count = ms_capture_no_packet_count v,
      dm_current_audio_source = ms_current_audio_source v,
      dm_capture_source_state = ms_capture_source_state v,
      dm_capture_device_name = ms_capture_device_name v,
      dm_negotiated_data_plane = ms_negotiated_data_plane v,
      dm_negotiated_codec = ms_negotiated_codec v,
      dm_capture_sample_rate = ms_capture_sample_rate v, dm_capture_channels = ms_capture_channels v,
      dm_capture_buffer_frames = ms_capture_buffer_frames v,
      dm_capture_last_peak = ms_capture_last_peak v, dm_capture_last_rms = ms_capture_last_rms v,
      dm_last_capture_pts_ms = ms_last_capture_pts_ms v, dm_recent_clients = ms_recent_clients v\<rparr>"

definition empty_metrics :: "string \<Rightarrow> desktop_metrics" where
  "empty_metrics source =
     \<lparr>dm_tx_packets = 0, dm_tx_bytes = 0, dm_active_sessions = 0, dm_capture_frames_produced = 0,
      dm_capture_read_errors = 0, dm_capture_underruns = 0, dm_capture_start_attempts = 0,
      dm_capture_start_failures = 0, dm_capture_silent_frames = 0, dm_capture_non_silent_frames = 0,
      dm_capture_no_packet_count = 0, dm_current_audio_source = source,
      dm_capture_source_state = ''idle'', dm_capture_device_name = ''n/a'',
      dm_negotiated_data_plane = [], dm_negotiated_codec = [], dm_capture_sample_rate = 0,
      dm_capture_channels = 0, dm_capture_buffer_frames = 0, dm_capture_last_peak = 0,
      dm_capture_last_rms = 0, dm_last_capture_pts_ms = 0, dm_recent_clients = []\<rparr>"

record desktop_service_config =
  dsc_audio_source :: audio_source_kind
  dsc_data_plane_format :: data_plane_format
  dsc_codec_selection :: codec_selection
  dsc_allow_gray :: bool
  dsc_fallback_to_synthetic :: bool
  dsc_capture_dump_wav :: bool
  dsc_reverse_channel_enabled :: bool
  dsc_ws_port :: u16
  dsc_udp_port :: u16
  dsc_current_audio_mode :: audio_mode
  dsc_transport_mode :: transport_mode

text \<open>\<open>server_default\<close> is \<open>ServerConfig::default()\<close>, which reads the environment for the name.\<close>

definition desktop_config_default :: "real server_config \<Rightarrow> desktop_service_config" where
  "desktop_config_default server_default =
     \<lparr>dsc_audio_source = audio_source server_default,
      dsc_data_plane_format = cfg_data_plane_format server_default,
      dsc_codec_selection = cfg_codec_selection server_default,
      dsc_allow_gray = allow_loopback_v2_header_gray server_default,
      dsc_fallback_to_synthetic = audio_source_fallback_to_synthetic server_default,
      dsc_capture_dump_wav = capture_debug_dump_wav server_default,
      dsc_reverse_channel_enabled = True,
      dsc_ws_port = sa_port (ws_bind server_default), dsc_udp_port = sa_port (udp_bind server_default),
      dsc_current_audio_mode = cfg_current_audio_mode server_default,
      dsc_transport_mode = cfg_transport_mode server_default\<rparr>"

section \<open>Addresses\<close>

text \<open>
  \<open>str::parse::<SocketAddr>\<close> for IPv4 addresses, which are all that is parsed here: four octets of
  at most three digits without leading zeros, a colon and a port.
\<close>

definition parse_octet :: "string \<Rightarrow> u8 option" where
  "parse_octet s =
     (if s = [] \<or> 3 < length s \<or> (1 < length s \<and> hd s = CHR ''0'') then None
      else case digits_value 0 s of None \<Rightarrow> None
      | Some n \<Rightarrow> if n < 256 then Some (of_nat n) else None)"

definition parse_port :: "string \<Rightarrow> u16 option" where
  "parse_port s =
     (if s = [] then None
      else case digits_value 0 s of None \<Rightarrow> None
      | Some n \<Rightarrow> if n < 65536 then Some (of_nat n) else None)"

definition parse_socket_addr_v4 :: "string \<Rightarrow> socket_addr option" where
  "parse_socket_addr_v4 s =
     (case split_on (CHR '':'') s of
        [host, port] \<Rightarrow>
          (case map parse_octet (split_on (CHR ''.'') host) of
             [Some a, Some b, Some c, Some d] \<Rightarrow>
               map_option (\<lambda>p. \<lparr>sa_ip = V4 a b c d, sa_port = p\<rparr>) (parse_port port)
           | _ \<Rightarrow> None)
      | _ \<Rightarrow> None)"

definition parse_bind :: "string \<Rightarrow> u16 \<Rightarrow> string + socket_addr" where
  "parse_bind host port =
     (case parse_socket_addr_v4 (host @ '':'' @ show_port port) of
        None \<Rightarrow> Inl ''invalid socket address syntax'' | Some a \<Rightarrow> Inr a)"

definition show_ipv4 :: "u8 \<Rightarrow> u8 \<Rightarrow> u8 \<Rightarrow> u8 \<Rightarrow> string" where
  "show_ipv4 a b c d = join_with ''.'' (map (\<lambda>x. show_nat (unat x)) [a, b, c, d])"

text \<open>The address of a socket that is bound and connected outwards, if it is IPv4.\<close>

definition detect_local_ip :: "bool \<Rightarrow> bool \<Rightarrow> ip_addr option \<Rightarrow> string" where
  "detect_local_ip bound reached local_addr =
     (if bound \<and> reached then
        (case local_addr of Some (V4 a b c d) \<Rightarrow> show_ipv4 a b c d | _ \<Rightarrow> ''127.0.0.1'')
      else ''127.0.0.1'')"

section \<open>The server's configuration\<close>

definition build_server_config ::
  "real server_config \<Rightarrow> desktop_service_config \<Rightarrow> string + real server_config" where
  "build_server_config server_default cfg =
     (let server = server_default
            \<lparr>audio_source := dsc_audio_source cfg, cfg_data_plane_format := dsc_data_plane_format cfg,
             cfg_codec_selection := dsc_codec_selection cfg,
             allow_loopback_v2_header_gray := dsc_allow_gray cfg,
             audio_source_fallback_to_synthetic := dsc_fallback_to_synthetic cfg,
             capture_debug_dump_wav := dsc_capture_dump_wav cfg,
             reverse_channel_enabled := dsc_reverse_channel_enabled cfg,
             cfg_current_audio_mode := dsc_current_audio_mode cfg,
             cfg_transport_mode := dsc_transport_mode cfg\<rparr>;
          bind_host = (case dsc_transport_mode cfg of Mode_WiFi \<Rightarrow> ''0.0.0.0'' | Mode_Usb _ \<Rightarrow> ''127.0.0.1'')
      in case parse_bind bind_host (dsc_ws_port cfg) of Inl e \<Rightarrow> Inl e
      | Inr ws \<Rightarrow> (case parse_bind bind_host (dsc_udp_port cfg) of Inl e \<Rightarrow> Inl e
          | Inr udp \<Rightarrow> Inr (server\<lparr>ws_bind := ws, udp_bind := udp\<rparr>)))"

definition desktop_data_plane :: "desktop_service_config \<Rightarrow> data_plane_format" where
  "desktop_data_plane cfg =
     select_data_plane_format (dsc_data_plane_format cfg) (dsc_audio_source cfg) (dsc_allow_gray cfg)"

definition desktop_effective_codec :: "desktop_service_config \<Rightarrow> codec_selection" where
  "desktop_effective_codec cfg =
     (case (dsc_codec_selection cfg, desktop_data_plane cfg) of
        (Sel_Opus, V2Header) \<Rightarrow> Sel_Opus
      | (Sel_Pcm24, V2Header) \<Rightarrow> Sel_Pcm24
      | _ \<Rightarrow> Sel_Pcm16)"

definition recommended_connection :: "desktop_service_config \<Rightarrow> string" where
  "recommended_connection cfg =
     (case dsc_transport_mode cfg of Mode_Usb _ \<Rightarrow> ''USB localhost tunnel''
      | Mode_WiFi \<Rightarrow> if desktop_data_plane cfg = V2Header then ''USB tethering or 5GHz Wi-Fi''
          else ''Same Wi-Fi network'')"

definition desktop_capabilities :: protocol_capabilities where
  "desktop_capabilities =
     \<lparr>supports_pcm16 = True, supports_f32 = False, supports_modes = True, supports_metrics = True,
      supports_opus_future = True, supports_opus = True, supports_opus_experimental = True,
      supports_low_latency = True, supports_high_quality = True, supports_native_audio_track = True,
      supports_fast_path = True, supports_stable_audio_track = True, supports_usb_tethering = True,
      supports_usb_direct_future = False, supports_reverse_channel = True,
      supports_hires_pcm24 = True, supports_ultra_low_latency = True\<rparr>"

section \<open>The snapshot\<close>

definition build_service_snapshot ::
  "desktop_service_config \<Rightarrow> desktop_metrics \<Rightarrow> service_status \<Rightarrow> audio_mode \<Rightarrow> data_plane_format
   \<Rightarrow> data_plane_path \<Rightarrow> bool \<Rightarrow> string \<Rightarrow> 'json service_snapshot" where
  "build_service_snapshot cfg metrics status mode selected active rollback effective =
     (let transport = (case dsc_transport_mode cfg of Mode_WiFi \<Rightarrow> Wifi | Mode_Usb _ \<Rightarrow> Usb);
          data_plane = (case selected of LegacyLas1 \<Rightarrow> Path_LegacyLas1 | V2Header \<Rightarrow> Path_V2Header);
          requested = (case dsc_codec_selection cfg of Sel_Pcm16 \<Rightarrow> Pref_Pcm16 | Sel_Opus \<Rightarrow> Pref_Opus
                       | Sel_Pcm24 \<Rightarrow> Pref_Pcm24);
          effective_codec = (if effective = ''opus'' then Pref_Opus
                             else if effective = ''pcm24'' then Pref_Pcm24 else Pref_Pcm16);
          rollback_state = (if data_plane = Path_LegacyLas1 \<and> effective_codec = Pref_Pcm16
                            then ForcedLegacyLas1Pcm16 else MainPathActive);
          state = (case status of
                     Svc_Starting \<Rightarrow> Handshaking
                   | Svc_Running \<Rightarrow> if dm_active_sessions metrics > 0 then Streaming else Disconnected
                   | Svc_Stopping \<Rightarrow> Closed | Svc_Error \<Rightarrow> Closed
                   | Svc_NotStarted \<Rightarrow> Disconnected)
      in \<lparr>ss_transport = transport, ss_mode = mode, ss_data_plane = data_plane,
          ss_active_data_plane = active, ss_rollback_available = rollback, ss_codec = requested,
          ss_effective_codec = effective_codec, ss_state = state, ss_rollback_state = rollback_state,
          ss_metrics = service_metrics_default, ss_last_error = None\<rparr>)"

record update_info =
  ui_latest_version :: string
  ui_release_url :: string

text \<open>
  \<open>update_checker.rs\<close>: versions are those of the crate semver, a parameter: parsing, order, printing.
  \<open>release\<close> is the answer of the release server, if it could be had.
\<close>

record github_release =
  gr_tag_name :: string
  gr_html_url :: string
  gr_draft :: bool
  gr_prerelease :: bool

definition RELEASE_PAGE_FALLBACK :: string where
  "RELEASE_PAGE_FALLBACK = ''https://github.com/MengBad/lan-audio/releases''"

definition parse_version :: "(string \<Rightarrow> 'v option) \<Rightarrow> string \<Rightarrow> 'v option" where
  "parse_version semver_parse raw = semver_parse (dropWhile (\<lambda>c. c = CHR ''v'') (trim raw))"

definition check_update ::
  "(string \<Rightarrow> 'v option) \<Rightarrow> ('v \<Rightarrow> 'v \<Rightarrow> bool) \<Rightarrow> ('v \<Rightarrow> string) \<Rightarrow> github_release option \<Rightarrow> string
   \<Rightarrow> update_info option" where
  "check_update semver_parse semver_le semver_text release current_version =
     (case parse_version semver_parse current_version of None \<Rightarrow> None
      | Some current \<Rightarrow> (case release of None \<Rightarrow> None
      | Some release \<Rightarrow>
          if gr_draft release \<or> gr_prerelease release then None
          else (case parse_version semver_parse (gr_tag_name release) of None \<Rightarrow> None
          | Some latest \<Rightarrow>
              if semver_le latest current then None
              else Some \<lparr>ui_latest_version = semver_text latest,
                ui_release_url = (if trim (gr_html_url release) = [] then RELEASE_PAGE_FALLBACK
                                  else gr_html_url release)\<rparr>)))"

text \<open>A failed or refused check leaves what an earlier one found.\<close>

definition run_update_check :: "update_info option \<Rightarrow> update_info option \<Rightarrow> update_info option" where
  "run_update_check found available = (case found of Some info \<Rightarrow> Some info | None \<Rightarrow> available)"

record 'json desktop_snapshot =
  dk_service_status :: service_status
  dk_error_message :: "string option"
  dk_service_snapshot :: "'json service_snapshot"
  dk_audio_source :: string
  dk_data_plane_format :: string
  dk_protocol_path :: string
  dk_gray_mode :: bool
  dk_codec_selection :: string
  dk_effective_codec :: string
  dk_recommended_connection :: string
  dk_loopback_gray_enabled :: bool
  dk_fallback_to_synthetic :: bool
  dk_capture_dump_wav :: bool
  dk_local_ip :: string
  dk_ws_port :: u16
  dk_udp_port :: u16
  dk_connect_address :: string
  dk_connected_devices :: u64
  dk_recent_clients :: "string list"
  dk_connection_status :: string
  dk_session_status :: string
  dk_current_audio_mode :: string
  dk_mode_profile :: audio_mode_profile
  dk_protocol_version :: u8
  dk_capabilities :: protocol_capabilities
  dk_version :: string
  dk_transport_mode :: string
  dk_usb_serial :: "string option"
  dk_metrics :: desktop_metrics
  dk_mic_active :: bool
  dk_mic_peak_db :: real
  dk_mic_rms_db :: real
  dk_mic_device_name :: string
  dk_android_volume_pct :: u8
  dk_reverse_channel_enabled :: bool
  dk_virtual_device_detected :: bool
  dk_virtual_device_warning :: "string option"
  dk_logs :: "string list"
  dk_update_banner :: "update_info option"

text \<open>\<open>format!("{:?}", mode).to_lowercase()\<close>\<close>

fun mode_debug_lowercase :: "audio_mode \<Rightarrow> string" where
  "mode_debug_lowercase UltraLowLatency = ''ultralowlatency''"
| "mode_debug_lowercase LowLatency = ''lowlatency''"
| "mode_debug_lowercase Balanced = ''balanced''"
| "mode_debug_lowercase HighQuality = ''highquality''"

fun session_status_text :: "service_status \<Rightarrow> u64 \<Rightarrow> string" where
  "session_status_text Svc_Running devices = (if devices > 0 then ''streaming'' else ''waiting_for_device'')"
| "session_status_text Svc_Starting _ = ''starting''"
| "session_status_text Svc_Stopping _ = ''stopping''"
| "session_status_text Svc_Error _ = ''error''"
| "session_status_text Svc_NotStarted _ = ''stopped''"

text \<open>The parts of the environment the snapshot reads.\<close>

record desktop_env =
  de_server_default :: "real server_config"
  de_local_ip :: string
  de_version :: string

definition get_desktop_snapshot ::
  "desktop_env \<Rightarrow> service_status \<Rightarrow> string option \<Rightarrow> desktop_service_config
   \<Rightarrow> ('sock, 'wr) lan_audio_service option \<Rightarrow> string list \<Rightarrow> update_info option
   \<Rightarrow> 'json desktop_snapshot" where
  "get_desktop_snapshot env status last_error cfg service logs available =
     (let metrics = (case service of Some svc \<Rightarrow> desktop_metrics_from (service_metrics_snapshot_of svc)
                     | None \<Rightarrow> empty_metrics (audio_source_as_str (dsc_audio_source cfg)));
          rc = (case service of Some svc \<Rightarrow> service_reverse_channel_state svc | None \<Rightarrow> reverse_state_default);
          mode = (case service of Some svc \<Rightarrow> current_audio_mode svc | None \<Rightarrow> dsc_current_audio_mode cfg);
          selected = desktop_data_plane cfg;
          configured_router = (case build_server_config (de_server_default env) cfg of
             Inl _ \<Rightarrow> None | Inr server_cfg \<Rightarrow> Some (router_from_config server_cfg :: ('sock, 'wr) data_plane_router));
          configured_path = (case configured_router of Some r \<Rightarrow> active_path r
             | None \<Rightarrow> (case selected of LegacyLas1 \<Rightarrow> Path_LegacyLas1 | V2Header \<Rightarrow> Path_V2Header));
          configured_codec = (case configured_router of Some r \<Rightarrow> active_codec r
             | None \<Rightarrow> desktop_effective_codec cfg);
          rollback = (case service of Some svc \<Rightarrow> dps_rollback_available (data_plane_status_of svc)
             | None \<Rightarrow> (case configured_router of Some r \<Rightarrow> rollback_available r | None \<Rightarrow> True));
          active = (case service of Some svc \<Rightarrow> dps_active_path (data_plane_status_of svc)
             | None \<Rightarrow> configured_path);
          devices = dm_active_sessions metrics;
          protocol_path = (if devices > 0 \<and> dm_negotiated_data_plane metrics \<noteq> []
             then dm_negotiated_data_plane metrics else data_plane_format_as_str selected);
          effective = (if devices > 0 \<and> dm_negotiated_codec metrics \<noteq> []
             then dm_negotiated_codec metrics else codec_selection_as_str configured_codec);
          connect_host = (case dsc_transport_mode cfg of Mode_WiFi \<Rightarrow> de_local_ip env
             | Mode_Usb _ \<Rightarrow> ''127.0.0.1'')
      in \<lparr>dk_service_status = status, dk_error_message = last_error,
          dk_service_snapshot = build_service_snapshot cfg metrics status mode selected active rollback effective,
          dk_audio_source = audio_source_as_str (dsc_audio_source cfg),
          dk_data_plane_format = data_plane_format_as_str (dsc_data_plane_format cfg),
          dk_protocol_path = protocol_path, dk_gray_mode = False,
          dk_codec_selection = codec_selection_as_str (dsc_codec_selection cfg),
          dk_effective_codec = effective, dk_recommended_connection = recommended_connection cfg,
          dk_loopback_gray_enabled = dsc_allow_gray cfg,
          dk_fallback_to_synthetic = dsc_fallback_to_synthetic cfg,
          dk_capture_dump_wav = dsc_capture_dump_wav cfg, dk_local_ip = de_local_ip env,
          dk_ws_port = dsc_ws_port cfg, dk_udp_port = dsc_udp_port cfg,
          dk_connect_address = ''ws://'' @ connect_host @ '':'' @ show_port (dsc_ws_port cfg),
          dk_connected_devices = devices, dk_recent_clients = dm_recent_clients metrics,
          dk_connection_status = (if devices > 0 then ''connected'' else ''idle''),
          dk_session_status = session_status_text status devices,
          dk_current_audio_mode = mode_debug_lowercase mode, dk_mode_profile = mode_profile mode,
          dk_protocol_version = PROTOCOL_VERSION_V2, dk_capabilities = desktop_capabilities,
          dk_version = de_version env,
          dk_transport_mode = transport_mode_as_str (dsc_transport_mode cfg),
          dk_usb_serial = transport_mode_adb_serial (dsc_transport_mode cfg), dk_metrics = metrics,
          dk_mic_active = rv_mic_active rc, dk_mic_peak_db = rv_mic_peak_db rc,
          dk_mic_rms_db = rv_mic_rms_db rc, dk_mic_device_name = rv_mic_device_name rc,
          dk_android_volume_pct = rv_android_volume_pct rc,
          dk_reverse_channel_enabled = dsc_reverse_channel_enabled cfg,
          dk_virtual_device_detected = rv_virtual_device_detected rc,
          dk_virtual_device_warning = rv_virtual_device_warning rc,
          dk_logs = logs, dk_update_banner = available\<rparr>)"

section \<open>The configuration round-trips\<close>

lemma digits_value_append:
  "digits_value acc (xs @ ys) = (case digits_value acc xs of None \<Rightarrow> None | Some v \<Rightarrow> digits_value v ys)"
  by (induction xs arbitrary: acc) (auto split: option.split)

lemma digit_of_digit_char: "d < 10 \<Longrightarrow> digit_of (digit_char d) = Some d"
  by (simp add: digit_of_def digit_char_value)

lemma digits_value_show_nat: "digits_value 0 (show_nat n) = Some n"
proof (induction n rule: show_nat.induct)
  case (1 n)
  show ?case
    using 1 by (subst show_nat.simps) (auto simp: digits_value_append digit_of_digit_char)
qed

lemma parse_show_port: "parse_port (show_port p) = Some p"
  using unat_u16_less [of p] by (simp add: parse_port_def show_port_def digits_value_show_nat)

lemma show_port_no_colon: "CHR '':'' \<notin> set (show_port p)"
  using show_nat_digits [of "unat p"] by (auto simp: show_port_def is_digit_def)

lemma parse_bind_host:
  assumes "CHR '':'' \<notin> set host" and "map parse_octet (split_on (CHR ''.'') host) = [Some a, Some b, Some c, Some d]"
  shows "parse_bind host port = Inr \<lparr>sa_ip = V4 a b c d, sa_port = port\<rparr>"
proof -
  have "split_on (CHR '':'') (host @ CHR '':'' # show_port port) = [host, show_port port]"
    using split_on_append [of "CHR '':''" host "show_port port"] split_on_single [OF assms(1)]
      split_on_single [OF show_port_no_colon [of port]] by simp
  then show ?thesis using assms(2) by (simp add: parse_bind_def parse_socket_addr_v4_def parse_show_port)
qed

lemma parse_bind_any: "parse_bind ''0.0.0.0'' port = Inr \<lparr>sa_ip = V4 0 0 0 0, sa_port = port\<rparr>"
  by (rule parse_bind_host) (simp_all add: parse_octet_def digit_of_def)

lemma parse_bind_local: "parse_bind ''127.0.0.1'' port = Inr \<lparr>sa_ip = V4 127 0 0 1, sa_port = port\<rparr>"
  by (rule parse_bind_host) (simp_all add: parse_octet_def digit_of_def)

text \<open>
  Every setting reaches the server. Building the server's configuration never fails, the result
  read back as a desktop configuration is the one it was built from (with the reverse channel on,
  which is all a desktop configuration is ever created with), it listens on the loopback address
  exactly for USB, and the codec the server will use is the one the desktop computes, except that
  PCM24, which the desktop calls effective on the v2 plane, becomes PCM16.
\<close>
theorem build_server_config_roundtrip:
  "\<exists>s. build_server_config d cfg = Inr s
    \<and> desktop_config_default s = cfg\<lparr>dsc_reverse_channel_enabled := True\<rparr>
    \<and> reverse_channel_enabled s = dsc_reverse_channel_enabled cfg
    \<and> (sa_ip (ws_bind s) = V4 127 0 0 1 \<longleftrightarrow> dsc_transport_mode cfg \<noteq> Mode_WiFi)
    \<and> sa_ip (udp_bind s) = sa_ip (ws_bind s)
    \<and> selected_data_plane_format s = desktop_data_plane cfg
    \<and> effective_codec_selection s =
        (if desktop_effective_codec cfg = Sel_Pcm24 then Sel_Pcm16 else desktop_effective_codec cfg)"
  by (cases "dsc_transport_mode cfg")
    (auto simp: build_server_config_def parse_bind_any parse_bind_local desktop_config_default_def
      desktop_data_plane_def selected_data_plane_format_def desktop_effective_codec_def
      effective_codec_selection_def split: codec_selection.splits data_plane_format.splits)

section \<open>What the window shows\<close>

lemma configured_router:
  "\<exists>s. build_server_config d cfg = Inr s \<and> selected_data_plane_format s = desktop_data_plane cfg
    \<and> cfg_force_rollback s = cfg_force_rollback d
    \<and> effective_codec_selection s \<noteq> Sel_Pcm24
    \<and> (desktop_data_plane cfg = LegacyLas1 \<longrightarrow> effective_codec_selection s = Sel_Pcm16)
    \<and> (effective_codec_selection s = Sel_Opus \<longleftrightarrow> dsc_codec_selection cfg = Sel_Opus \<and> desktop_data_plane cfg = V2Header)"
  by (cases "dsc_transport_mode cfg")
    (auto simp: build_server_config_def parse_bind_any parse_bind_local desktop_data_plane_def
      selected_data_plane_format_def effective_codec_selection_def
      split: codec_selection.splits data_plane_format.splits)

text \<open>
  The snapshot. It says \<open>streaming\<close> exactly while the service runs with a session. Without a
  session it shows the plane of the configuration and the codec of the router that a start would
  build: never PCM24, even when PCM24 is selected; and it reports a forced rollback exactly when the
  configured plane is the legacy one. With a session, path and codec are the negotiated ones, while
  the nested service snapshot goes on naming the configured plane: a client that negotiated the
  legacy plane on a v2 configuration is shown with both. Its metrics are always zero.
\<close>
theorem desktop_snapshot_outcome:
  fixes service :: "('sock, 'wr) lan_audio_service option"
  assumes "get_desktop_snapshot env status err cfg service logs upd = (s :: 'json desktop_snapshot)"
    and "\<not> cfg_force_rollback (de_server_default env)"
  shows "(dk_session_status s = ''streaming'' \<longleftrightarrow> status = Svc_Running \<and> dk_connected_devices s > 0)
    \<and> (ss_state (dk_service_snapshot s) = Streaming \<longleftrightarrow> dk_session_status s = ''streaming'')
    \<and> (dk_connected_devices s = 0 \<longrightarrow>
          dk_protocol_path s = data_plane_format_as_str (dsc_data_plane_format cfg)
        \<and> (dk_effective_codec s = ''opus'' \<longleftrightarrow> dsc_codec_selection cfg = Sel_Opus \<and> dsc_data_plane_format cfg = V2Header)
        \<and> dk_effective_codec s \<noteq> ''pcm24''
        \<and> (ss_rollback_state (dk_service_snapshot s) = ForcedLegacyLas1Pcm16 \<longleftrightarrow> dsc_data_plane_format cfg = LegacyLas1))
    \<and> (\<forall>sv. service = Some sv \<longrightarrow> m_active_sessions (sv_metrics sv) > 0 \<longrightarrow>
          m_negotiated_data_plane (sv_metrics sv) = ''legacy_las1'' \<longrightarrow> dsc_data_plane_format cfg = V2Header \<longrightarrow>
          dk_protocol_path s = ''legacy_las1'' \<and> ss_data_plane (dk_service_snapshot s) = Path_V2Header
          \<and> ss_rollback_state (dk_service_snapshot s) = MainPathActive)
    \<and> ss_metrics (dk_service_snapshot s) = service_metrics_default"
proof -
  obtain sc where sc: "build_server_config (de_server_default env) cfg = Inr sc"
    "cfg_force_rollback sc = cfg_force_rollback (de_server_default env)"
    "effective_codec_selection sc \<noteq> Sel_Pcm24"
    "effective_codec_selection sc = Sel_Opus \<longleftrightarrow> dsc_codec_selection cfg = Sel_Opus \<and> desktop_data_plane cfg = V2Header"
    using configured_router [of "de_server_default env" cfg] by blast
  have plane: "desktop_data_plane cfg = dsc_data_plane_format cfg"
    by (simp add: desktop_data_plane_def select_data_plane_format_def split: audio_source_kind.split)
  have codec: "active_codec (router_from_config sc :: ('sock, 'wr) data_plane_router) = effective_codec_selection sc"
    using sc(2) assms(2) by (simp add: router_from_config_def Let_def)
  have m: "dm_active_sessions (desktop_metrics_from (service_metrics_snapshot_of sv)) = m_active_sessions (sv_metrics sv)"
    "dm_negotiated_data_plane (desktop_metrics_from (service_metrics_snapshot_of sv)) = m_negotiated_data_plane (sv_metrics sv)"
    for sv :: "('sock, 'wr) lan_audio_service"
    by (simp_all add: desktop_metrics_from_def service_metrics_snapshot_of_def snapshot_def)
  note d = get_desktop_snapshot_def sc(1) option.case sum.case plane codec Let_def
  have 1: "(dk_session_status s = ''streaming'' \<longleftrightarrow> status = Svc_Running \<and> dk_connected_devices s > 0)
    \<and> (ss_state (dk_service_snapshot s) = Streaming \<longleftrightarrow> dk_session_status s = ''streaming'')"
    unfolding assms(1) [symmetric] d
    by (cases status) (simp_all add: build_service_snapshot_def Let_def)
  have names: "(codec_selection_as_str c = ''opus'') = (c = Sel_Opus)" "(codec_selection_as_str c = ''pcm24'') = (c = Sel_Pcm24)" for c
    by (cases c; simp)+
  have pref: "(if x = ''opus'' then Pref_Opus else if x = ''pcm24'' then Pref_Pcm24 else Pref_Pcm16) = Pref_Pcm16
      \<longleftrightarrow> x \<noteq> ''opus'' \<and> x \<noteq> ''pcm24''" for x by simp
  have 2: "dk_protocol_path s = data_plane_format_as_str (dsc_data_plane_format cfg)
      \<and> dk_effective_codec s = codec_selection_as_str (effective_codec_selection sc)
      \<and> (ss_rollback_state (dk_service_snapshot s) = ForcedLegacyLas1Pcm16 \<longleftrightarrow>
          dsc_data_plane_format cfg = LegacyLas1 \<and> effective_codec_selection sc = Sel_Pcm16)"
    if "dk_connected_devices s = 0"
    using that sc(3) unfolding assms(1) [symmetric] d
    by (cases "effective_codec_selection sc"; cases "dsc_data_plane_format cfg")
      (simp_all add: build_service_snapshot_def Let_def)
  have legacy: "dsc_data_plane_format cfg = LegacyLas1 \<longrightarrow> effective_codec_selection sc = Sel_Pcm16"
    using sc(3,4) plane by (cases "effective_codec_selection sc") auto
  have 3: "dk_protocol_path s = ''legacy_las1'' \<and> ss_data_plane (dk_service_snapshot s) = Path_V2Header
          \<and> ss_rollback_state (dk_service_snapshot s) = MainPathActive"
    if "service = Some sv" "m_active_sessions (sv_metrics sv) > 0"
      "m_negotiated_data_plane (sv_metrics sv) = ''legacy_las1''" "dsc_data_plane_format cfg = V2Header" for sv
    using that unfolding assms(1) [symmetric] d
    by (simp add: m build_service_snapshot_def Let_def)
  have 4: "ss_metrics (dk_service_snapshot s) = service_metrics_default"
    unfolding assms(1) [symmetric] d by (simp add: build_service_snapshot_def Let_def)
  show ?thesis using 1 2 3 4 legacy names sc(3,4) plane by auto
qed

definition sample_service :: "(nat, nat) lan_audio_service" where
  "sample_service = \<lparr>sv_cfg = sample_config,
     sv_metrics = metrics_default\<lparr>m_active_sessions := 1, m_negotiated_data_plane := ''legacy_las1''\<rparr>,
     sv_adb_reverse_manager = [], sv_active_audio_mode = Balanced,
     sv_data_plane_router = router_from_config sample_config, sv_reverse_channel = None\<rparr>"

theorem desktop_snapshot_outcome_witness:
  "ss_data_plane (dk_service_snapshot (get_desktop_snapshot
      \<lparr>de_server_default = sample_config, de_local_ip = ''10.0.0.2'', de_version = ''1.13.0''\<rparr>
      Svc_Running None (desktop_config_default sample_config) (Some sample_service) [] None :: unit desktop_snapshot))
   = Path_V2Header"
proof -
  let ?env = "\<lparr>de_server_default = sample_config, de_local_ip = ''10.0.0.2'', de_version = ''1.13.0''\<rparr>"
  have f: "\<not> cfg_force_rollback (de_server_default ?env)" by (simp add: sample_config_def server_config_default_def)
  have v: "dsc_data_plane_format (desktop_config_default sample_config) = V2Header"
    "m_active_sessions (sv_metrics sample_service) > 0"
    "m_negotiated_data_plane (sv_metrics sample_service) = ''legacy_las1''"
    by (simp_all add: sample_service_def desktop_config_default_def sample_config_def server_config_default_def)
  let ?s = "get_desktop_snapshot ?env Svc_Running None (desktop_config_default sample_config)
      (Some sample_service) [] None :: unit desktop_snapshot"
  show ?thesis
    using desktop_snapshot_outcome [where s = ?s, OF refl f] v by blast
qed

end
