(* ===== verification/Desktop_Service.thy ===== *)
theory Desktop_Service
  imports Desktop_Config
begin

text \<open>
  The desktop application's control of the service, \<open>apps/desktop/src-tauri/src/lib.rs\<close>. Tauri runs
  the commands, which are not \<open>async\<close>, one after the other on the main thread; the tasks of the
  services run beside it. Every section of code that holds the lock of the state is a function; the
  step relation interleaves the sections of the main thread, whose position is a program counter,
  with the events of the services and with the end of their tasks. A service is known by the number
  of the run it was started in; \<open>dt_reported\<close> holds the runs whose task has returned.
\<close>

section \<open>State\<close>

record running_service =
  rn_run_id :: u64
  rn_task :: bool

record app_state_inner =
  ai_status :: service_status
  ai_last_error :: "string option"
  ai_run_id :: u64
  ai_config :: desktop_service_config
  ai_running :: "running_service option"

datatype main_thread =
    Idle | To_Start | Creating desktop_service_config u64 | Spawned desktop_service_config u64
  | To_Restart | Joining u64

record ('sock, 'wr, 'w) desktop =
  dt_inner :: app_state_inner
  dt_logs :: "string list"
  dt_update :: "update_info option"
  dt_services :: "u64 \<rightharpoonup> ('sock, 'wr) lan_audio_service \<times> service_run"
  dt_reported :: "u64 set"
  dt_pc :: main_thread
  dt_world :: 'w

text \<open>\<open>push_log\<close>: the newest first, at most 120.\<close>

definition push_log :: "nat \<Rightarrow> string \<Rightarrow> string list \<Rightarrow> string list" where
  "push_log now message logs = take 120 ((''['' @ show_nat now @ ''] '' @ message) # logs)"

definition desktop_init :: "real server_config \<Rightarrow> nat \<Rightarrow> 'w \<Rightarrow> ('sock, 'wr, 'w) desktop" where
  "desktop_init server_default now w =
     \<lparr>dt_inner = \<lparr>ai_status = Svc_NotStarted, ai_last_error = None, ai_run_id = 0,
        ai_config = desktop_config_default server_default, ai_running = None\<rparr>,
      dt_logs = push_log now ''desktop app ready'' [], dt_update = None, dt_services = Map.empty,
      dt_reported = {}, dt_pc = Idle, dt_world = w\<rparr>"

section \<open>Sections under the lock\<close>

definition is_up :: "service_status \<Rightarrow> bool" where
  "is_up status \<longleftrightarrow> status = Svc_Running \<or> status = Svc_Starting"

definition start_begin ::
  "app_state_inner \<Rightarrow> (desktop_service_config \<times> u64) option \<times> app_state_inner" where
  "start_begin a =
     (if is_up (ai_status a) then (None, a)
      else let run_id = sat_add (ai_run_id a) 1
           in (Some (ai_config a, run_id),
               a\<lparr>ai_status := Svc_Starting, ai_last_error := None, ai_run_id := run_id\<rparr>))"

definition start_failed :: "string \<Rightarrow> app_state_inner \<Rightarrow> app_state_inner" where
  "start_failed message a = a\<lparr>ai_status := Svc_Error, ai_last_error := Some message\<rparr>"

definition start_finish :: "u64 \<Rightarrow> app_state_inner \<Rightarrow> app_state_inner" where
  "start_finish run_id a =
     a\<lparr>ai_status := Svc_Running, ai_last_error := None,
       ai_running := Some \<lparr>rn_run_id = run_id, rn_task = True\<rparr>\<rparr>"

definition task_finished ::
  "nat \<Rightarrow> u64 \<Rightarrow> string + unit \<Rightarrow> app_state_inner \<times> string list \<Rightarrow> app_state_inner \<times> string list" where
  "task_finished now run_id result x =
     (case x of (a, logs) \<Rightarrow>
        if ai_run_id a \<noteq> run_id then (a, logs)
        else let a = a\<lparr>ai_running := None\<rparr> in
          (case result of
             Inr _ \<Rightarrow> (a\<lparr>ai_status := Svc_NotStarted\<rparr>, push_log now ''service stopped'' logs)
           | Inl message \<Rightarrow> (a\<lparr>ai_status := Svc_Error, ai_last_error := Some message\<rparr>,
               push_log now (''service error: '' @ message) logs)))"

text \<open>The service to stop and whether its task is to be waited for, which is taken then.\<close>

definition stop_begin ::
  "bool \<Rightarrow> app_state_inner \<Rightarrow> (u64 \<times> bool) option \<times> app_state_inner" where
  "stop_begin wait a =
     (case ai_running a of
        None \<Rightarrow> (None, a\<lparr>ai_status := Svc_NotStarted\<rparr>)
      | Some r \<Rightarrow>
          (Some (rn_run_id r, wait \<and> rn_task r),
           a\<lparr>ai_status := Svc_Stopping,
             ai_running := Some (if wait then r\<lparr>rn_task := False\<rparr> else r)\<rparr>))"

definition stop_joined :: "u64 \<Rightarrow> app_state_inner \<Rightarrow> app_state_inner" where
  "stop_joined run_id a =
     (if ai_run_id a = run_id then a\<lparr>ai_running := None, ai_status := Svc_NotStarted\<rparr> else a)"

section \<open>Commands that change the configuration\<close>

record service_settings_input =
  in_audio_source :: string
  in_data_plane_format :: string
  in_codec_selection :: string
  in_allow_gray :: bool
  in_fallback_to_synthetic :: bool
  in_capture_dump_wav :: bool

datatype desktop_command =
    Cmd_Restart | Cmd_Enable_Usb string | Cmd_Disable_Usb | Cmd_Rollback | Cmd_Restore
  | Cmd_Settings service_settings_input

text \<open>The names are parsed in this order; the first that is unknown is the error.\<close>

definition update_service_settings ::
  "service_settings_input \<Rightarrow> desktop_service_config \<Rightarrow> string + desktop_service_config" where
  "update_service_settings i cfg =
     (case audio_source_parse (in_audio_source i) of
        Inl _ \<Rightarrow> Inl (''unsupported audio source: '' @ in_audio_source i)
      | Inr source \<Rightarrow>
      (case data_plane_format_parse (in_data_plane_format i) of
        Inl _ \<Rightarrow> Inl (''unsupported data plane format: '' @ in_data_plane_format i)
      | Inr data_plane \<Rightarrow>
      (case codec_selection_parse (in_codec_selection i) of
        Inl _ \<Rightarrow> Inl (''unsupported codec: '' @ in_codec_selection i)
      | Inr codec \<Rightarrow>
          Inr (cfg\<lparr>dsc_audio_source := source, dsc_data_plane_format := data_plane,
             dsc_codec_selection := codec, dsc_allow_gray := in_allow_gray i,
             dsc_fallback_to_synthetic := in_fallback_to_synthetic i,
             dsc_capture_dump_wav := in_capture_dump_wav i\<rparr>))))"

definition enable_usb_mode :: "string \<Rightarrow> desktop_service_config \<Rightarrow> desktop_service_config" where
  "enable_usb_mode serial cfg = cfg\<lparr>dsc_transport_mode := Mode_Usb serial\<rparr>"

definition disable_usb_mode :: "desktop_service_config \<Rightarrow> desktop_service_config" where
  "disable_usb_mode cfg = cfg\<lparr>dsc_transport_mode := Mode_WiFi\<rparr>"

definition switch_to_rollback_mode :: "desktop_service_config \<Rightarrow> desktop_service_config" where
  "switch_to_rollback_mode cfg = cfg\<lparr>dsc_data_plane_format := LegacyLas1, dsc_codec_selection := Sel_Pcm16\<rparr>"

definition restore_recommended_mode :: "desktop_service_config \<Rightarrow> desktop_service_config" where
  "restore_recommended_mode cfg = cfg\<lparr>dsc_data_plane_format := V2Header, dsc_codec_selection := Sel_Opus\<rparr>"

text \<open>The first part of a command: the new configuration, and whether a restart follows.\<close>

fun command_begin :: "desktop_command \<Rightarrow> app_state_inner \<Rightarrow> string + app_state_inner \<times> bool" where
  "command_begin Cmd_Restart a = Inr (a, True)"
| "command_begin (Cmd_Enable_Usb serial) a =
     Inr (a\<lparr>ai_config := enable_usb_mode serial (ai_config a)\<rparr>, is_up (ai_status a))"
| "command_begin Cmd_Disable_Usb a =
     Inr (a\<lparr>ai_config := disable_usb_mode (ai_config a)\<rparr>, is_up (ai_status a))"
| "command_begin Cmd_Rollback a =
     Inr (a\<lparr>ai_config := switch_to_rollback_mode (ai_config a)\<rparr>, ai_running a \<noteq> None)"
| "command_begin Cmd_Restore a =
     Inr (a\<lparr>ai_config := restore_recommended_mode (ai_config a)\<rparr>, ai_running a \<noteq> None)"
| "command_begin (Cmd_Settings i) a =
     (case update_service_settings i (ai_config a) of Inl e \<Rightarrow> Inl e
      | Inr cfg \<Rightarrow> Inr (a\<lparr>ai_config := cfg\<rparr>, is_up (ai_status a)))"

definition show_bool :: "bool \<Rightarrow> string" where
  "show_bool b = (if b then ''true'' else ''false'')"

definition settings_log :: "service_settings_input \<Rightarrow> desktop_service_config \<Rightarrow> string" where
  "settings_log i cfg = ''settings updated: source='' @ audio_source_as_str (dsc_audio_source cfg)
     @ '', data_plane='' @ data_plane_format_as_str (dsc_data_plane_format cfg)
     @ '', codec='' @ codec_selection_as_str (dsc_codec_selection cfg)
     @ '', loopback_v2_gray='' @ show_bool (in_allow_gray i)
     @ '', fallback='' @ show_bool (in_fallback_to_synthetic i)
     @ '', dump_wav='' @ show_bool (in_capture_dump_wav i)"

text \<open>What a command logs; \<open>cfg\<close> is the new configuration.\<close>

fun command_log :: "desktop_command \<Rightarrow> desktop_service_config \<Rightarrow> string option" where
  "command_log (Cmd_Enable_Usb serial) cfg = Some (''usb mode enabled serial='' @ serial)"
| "command_log Cmd_Disable_Usb cfg = Some ''usb mode disabled''"
| "command_log (Cmd_Settings i) cfg = Some (settings_log i cfg)"
| "command_log _ cfg = None"

section \<open>The application and its services\<close>

text \<open>\<open>service.stop()\<close> on the service of a run.\<close>

definition signal_stop :: "u64 \<Rightarrow> ('sock, 'wr, 'w) desktop \<Rightarrow> ('sock, 'wr, 'w) desktop" where
  "signal_stop rid d =
     (case dt_services d rid of None \<Rightarrow> d
      | Some (sv, r) \<Rightarrow> d\<lparr>dt_services := (dt_services d)(rid \<mapsto> (service_stop sv, shutdown_send r))\<rparr>)"

definition after_stop_begin ::
  "nat \<Rightarrow> (u64 \<times> bool) option \<times> app_state_inner \<Rightarrow> ('sock, 'wr, 'w) desktop \<Rightarrow> ('sock, 'wr, 'w) desktop" where
  "after_stop_begin now x d =
     (case x of
        (None, a) \<Rightarrow> d\<lparr>dt_inner := a\<rparr>
      | (Some (rid, _), a) \<Rightarrow>
          (signal_stop rid d)\<lparr>dt_inner := a, dt_logs := push_log now ''stop signal sent'' (dt_logs d)\<rparr>)"

definition started_log :: "desktop_service_config \<Rightarrow> string" where
  "started_log cfg = ''service started (audio_source='' @ audio_source_as_str (dsc_audio_source cfg)
     @ '', data_plane='' @ data_plane_format_as_str (dsc_data_plane_format cfg)
     @ '', loopback_v2_gray='' @ show_bool (dsc_allow_gray cfg) @ '')''"

text \<open>
  \<open>console\<close> says whether Ctrl-C can arrive; \<open>env\<close> and \<open>bind\<close> are adb and the ports of the reverse
  channel; \<open>server_default\<close> is \<open>ServerConfig::default()\<close>. A service is dropped, with its forwards,
  once its task has returned and neither the state nor the main thread holds it.
\<close>

inductive desktop_step ::
  "bool \<Rightarrow> 'w adb_env \<Rightarrow> (u16 \<Rightarrow> bool) \<Rightarrow> real server_config
   \<Rightarrow> ('sock, 'wr, 'w) desktop \<Rightarrow> ('sock, 'wr, 'w) desktop \<Rightarrow> bool"
  for console env bind server_default where
  cmd_start: "dt_pc d = Idle \<Longrightarrow> desktop_step console env bind server_default d (d\<lparr>dt_pc := To_Start\<rparr>)"
| cmd_stop: "dt_pc d = Idle \<Longrightarrow>
    desktop_step console env bind server_default d (after_stop_begin now (stop_begin False (dt_inner d)) d)"
| cmd_change: "dt_pc d = Idle \<Longrightarrow> command_begin c (dt_inner d) = Inr (a, restart) \<Longrightarrow>
    desktop_step console env bind server_default d
      (d\<lparr>dt_inner := a, dt_pc := (if restart then To_Restart else Idle),
         dt_logs := (case command_log c (ai_config a) of None \<Rightarrow> dt_logs d | Some m \<Rightarrow> push_log now m (dt_logs d))\<rparr>)"
| cmd_volume: "dt_pc d = Idle \<Longrightarrow> ai_running (dt_inner d) = Some r \<Longrightarrow>
    dt_services d (rn_run_id r) = Some (sv, run) \<Longrightarrow>
    desktop_step console env bind server_default d
      (d\<lparr>dt_services := (dt_services d)(rn_run_id r \<mapsto> (send_android_volume pct sv, run)),
         dt_logs := push_log now (''android volume set to '' @ show_nat (unat pct) @ ''%'') (dt_logs d)\<rparr>)"
| stop_wait: "dt_pc d = To_Restart \<Longrightarrow> stop_begin True (dt_inner d) = (found, a) \<Longrightarrow>
    desktop_step console env bind server_default d
      ((after_stop_begin now (found, a) d)
         \<lparr>dt_pc := (case found of Some (rid, True) \<Rightarrow> Joining rid | _ \<Rightarrow> To_Start)\<rparr>)"
| stop_joins: "dt_pc d = Joining rid \<Longrightarrow> rid \<in> dt_reported d \<Longrightarrow>
    desktop_step console env bind server_default d
      (d\<lparr>dt_inner := stop_joined rid (dt_inner d), dt_pc := To_Start,
         dt_logs := push_log now ''service fully stopped'' (dt_logs d)\<rparr>)"
| start_refused: "dt_pc d = To_Start \<Longrightarrow> start_begin (dt_inner d) = (None, a) \<Longrightarrow>
    desktop_step console env bind server_default d (d\<lparr>dt_inner := a, dt_pc := Idle\<rparr>)"
| start_begun: "dt_pc d = To_Start \<Longrightarrow> start_begin (dt_inner d) = (Some (cfg, rid), a) \<Longrightarrow>
    desktop_step console env bind server_default d (d\<lparr>dt_inner := a, dt_pc := Creating cfg rid\<rparr>)"
| start_bad_config: "dt_pc d = Creating cfg rid \<Longrightarrow> build_server_config server_default cfg = Inl e \<Longrightarrow>
    desktop_step console env bind server_default d (d\<lparr>dt_pc := Idle\<rparr>)"
| start_fails: "dt_pc d = Creating cfg rid \<Longrightarrow> build_server_config server_default cfg = Inr server \<Longrightarrow>
    service_new env bind server (dt_world d) = (Inl e :: anyhow_error + ('sock, 'wr) lan_audio_service, w) \<Longrightarrow>
    desktop_step console env bind server_default d
      (d\<lparr>dt_inner := start_failed (hd e) (dt_inner d), dt_pc := Idle, dt_world := w,
         dt_logs := push_log now (''start failed: '' @ hd e) (dt_logs d)\<rparr>)"
| start_spawns: "dt_pc d = Creating cfg rid \<Longrightarrow> build_server_config server_default cfg = Inr server \<Longrightarrow>
    service_new env bind server (dt_world d) = (Inr sv, w) \<Longrightarrow>
    desktop_step console env bind server_default d
      (d\<lparr>dt_services := (dt_services d)(rid \<mapsto> (sv, service_run_new)),
         dt_reported := dt_reported d - {rid}, dt_pc := Spawned cfg rid, dt_world := w\<rparr>)"
| start_finishes: "dt_pc d = Spawned cfg rid \<Longrightarrow>
    desktop_step console env bind server_default d
      (d\<lparr>dt_inner := start_finish rid (dt_inner d), dt_pc := Idle,
         dt_logs := push_log now (started_log cfg) (dt_logs d)\<rparr>)"
| service_moves: "dt_services d rid = Some (sv, run) \<Longrightarrow> ev \<noteq> Ev_Stop \<Longrightarrow> (ev = Ev_Ctrl_C \<Longrightarrow> console) \<Longrightarrow>
    service_step (service_tasks uid sv) ev run = Inr run' \<Longrightarrow>
    desktop_step console env bind server_default d
      (d\<lparr>dt_services := (dt_services d)(rid \<mapsto> (sv, run'))\<rparr>)"
| task_returns: "dt_services d rid = Some (sv, run) \<Longrightarrow> sr_phase run = Ended result \<Longrightarrow> rid \<notin> dt_reported d \<Longrightarrow>
    task_finished now rid result (dt_inner d, dt_logs d) = (a, logs) \<Longrightarrow>
    desktop_step console env bind server_default d
      (d\<lparr>dt_inner := a, dt_logs := logs, dt_reported := insert rid (dt_reported d)\<rparr>)"
| service_released: "dt_services d rid = Some (sv, run) \<Longrightarrow> rid \<in> dt_reported d \<Longrightarrow>
    (\<forall>r. ai_running (dt_inner d) = Some r \<longrightarrow> rn_run_id r \<noteq> rid) \<Longrightarrow>
    dt_pc d \<noteq> Joining rid \<Longrightarrow> (\<forall>cfg. dt_pc d \<noteq> Spawned cfg rid) \<Longrightarrow>
    desktop_step console env bind server_default d
      (d\<lparr>dt_services := (dt_services d)(rid := None), dt_world := service_drop env sv (dt_world d)\<rparr>)"
| update_checked: "desktop_step console env bind server_default d
    (d\<lparr>dt_update := run_update_check found (dt_update d)\<rparr>)"

end
