(* ===== verification/Desktop_Control.thy ===== *)
theory Desktop_Control
  imports Desktop_Service
begin

text \<open>
  What the desktop's control of the service guarantees in every reachable state, and the races it
  leaves open: a stop that is lost while the service binds its sockets, and a task that ends before
  the application has recorded that it started.
\<close>

section \<open>The invariant\<close>

definition desktop_reachable ::
  "bool \<Rightarrow> 'w adb_env \<Rightarrow> (u16 \<Rightarrow> bool) \<Rightarrow> real server_config \<Rightarrow> ('sock, 'wr, 'w) desktop \<Rightarrow> bool" where
  "desktop_reachable console env bind sd d \<longleftrightarrow>
     (\<exists>now w. (desktop_step console env bind sd)\<^sup>*\<^sup>* (desktop_init sd now w) d)"

text \<open>A start is under way: the run that the main thread is creating.\<close>

fun starting_run :: "main_thread \<Rightarrow> u64 option" where
  "starting_run (Creating cfg rid) = Some rid"
| "starting_run (Spawned cfg rid) = Some rid"
| "starting_run _ = None"

text \<open>The runs whose service the main thread or the state holds.\<close>

definition held_runs :: "('sock, 'wr, 'w) desktop \<Rightarrow> u64 set" where
  "held_runs d = {rid. dt_pc d = Joining rid \<or> (\<exists>cfg. dt_pc d = Spawned cfg rid)
     \<or> (\<exists>r. ai_running (dt_inner d) = Some r \<and> rn_run_id r = rid)}"

definition status_inv :: "app_state_inner \<Rightarrow> main_thread \<Rightarrow> bool" where
  "status_inv a pc \<longleftrightarrow>
     (case ai_status a of
        Svc_Running \<Rightarrow> starting_run pc = None \<and> ai_running a = Some \<lparr>rn_run_id = ai_run_id a, rn_task = True\<rparr>
      | Svc_NotStarted \<Rightarrow> ai_running a = None
      | Svc_Stopping \<Rightarrow> starting_run pc = None \<and> ai_running a \<noteq> None
      | Svc_Starting \<Rightarrow> starting_run pc = Some (ai_run_id a)
      | Svc_Error \<Rightarrow> ai_last_error a \<noteq> None)
     \<and> (\<forall>rid. starting_run pc = Some rid \<longrightarrow> rid = ai_run_id a)"

definition desktop_inv :: "('sock, 'wr, 'w) desktop \<Rightarrow> bool" where
  "desktop_inv d \<longleftrightarrow> status_inv (dt_inner d) (dt_pc d) \<and> held_runs d \<subseteq> dom (dt_services d)
     \<and> length (dt_logs d) \<le> 120"

lemma push_log_length [simp]: "length (push_log now m logs) \<le> 120"
  by (simp add: push_log_def)

lemma init_inv: "desktop_inv (desktop_init sd now w)"
  by (simp add: desktop_inv_def desktop_init_def status_inv_def held_runs_def)

lemma config_builds: "build_server_config sd cfg \<noteq> Inl e"
  using configured_router [of sd cfg] by auto

lemma signal_stop_frame [simp]:
  "dom (dt_services (signal_stop rid d)) = dom (dt_services d)" "dt_pc (signal_stop rid d) = dt_pc d"
  "dt_logs (signal_stop rid d) = dt_logs d" "dt_inner (signal_stop rid d) = dt_inner d"
  "dt_reported (signal_stop rid d) = dt_reported d" "dt_world (signal_stop rid d) = dt_world d"
  by (auto simp: signal_stop_def dom_def split: option.split prod.split)

lemma after_stop_frame [simp]:
  "dom (dt_services (after_stop_begin now x d)) = dom (dt_services d)"
  "dt_pc (after_stop_begin now x d) = dt_pc d" "dt_inner (after_stop_begin now x d) = snd x"
  "dt_reported (after_stop_begin now x d) = dt_reported d"
  by (auto simp: after_stop_begin_def split: option.split prod.split)

lemma after_stop_logs: "length (dt_logs d) \<le> 120 \<Longrightarrow> length (dt_logs (after_stop_begin now x d)) \<le> 120"
  by (auto simp: after_stop_begin_def split: option.split prod.split)

lemma stop_begin_status:
  "stop_begin wait a = (found, a') \<Longrightarrow> starting_run pc = None \<Longrightarrow> status_inv a' pc"
  by (auto simp: stop_begin_def status_inv_def split: option.splits)

lemma stop_begin_running:
  "stop_begin wait a = (found, a') \<Longrightarrow>
    (\<forall>r. ai_running a' = Some r \<longrightarrow> (\<exists>r0. ai_running a = Some r0 \<and> rn_run_id r0 = rn_run_id r))
    \<and> (\<forall>rid w. found = Some (rid, w) \<longrightarrow> (\<exists>r0. ai_running a = Some r0 \<and> rn_run_id r0 = rid))"
  by (auto simp: stop_begin_def split: option.splits if_splits)

lemma task_finished_status:
  "task_finished now rid result (a, logs) = (a', logs') \<Longrightarrow> status_inv a pc \<Longrightarrow>
    status_inv a' pc \<and> (ai_running a' = ai_running a \<or> ai_running a' = None)
    \<and> (length logs \<le> 120 \<longrightarrow> length logs' \<le> 120)"
  by (auto simp: task_finished_def status_inv_def Let_def split: if_splits sum.splits)

lemma command_status:
  "command_begin c a = Inr (a', restart) \<Longrightarrow> status_inv a pc \<Longrightarrow> starting_run pc = None \<Longrightarrow> starting_run pc' = None \<Longrightarrow>
    status_inv a' pc' \<and> ai_running a' = ai_running a"
  by (cases c) (auto simp: status_inv_def split: service_status.splits sum.splits)

lemma inv_parts:
  assumes "desktop_inv d"
  shows "status_inv (dt_inner d) (dt_pc d)" and "held_runs d \<subseteq> dom (dt_services d)"
    and "length (dt_logs d) \<le> 120"
    and "\<And>r. ai_running (dt_inner d) = Some r \<Longrightarrow> rn_run_id r \<in> dom (dt_services d)"
    and "\<And>cfg rid. dt_pc d = Spawned cfg rid \<Longrightarrow> rid \<in> dom (dt_services d)"
    and "\<And>rid. dt_pc d = Joining rid \<Longrightarrow> rid \<in> dom (dt_services d)"
  using assms by (auto simp: desktop_inv_def held_runs_def)

lemma inv_moved:
  assumes "desktop_inv d" and "dt_inner d' = dt_inner d" and "dt_pc d' = dt_pc d"
    and "held_runs d \<subseteq> dom (dt_services d')" and "length (dt_logs d') \<le> 120"
  shows "desktop_inv d'"
  using assms by (simp add: desktop_inv_def held_runs_def)

lemma inv_pc:
  assumes "status_inv (dt_inner d') (dt_pc d')" and "length (dt_logs d') \<le> 120"
    and "\<forall>rid. dt_pc d' = Joining rid \<or> (\<exists>cfg. dt_pc d' = Spawned cfg rid) \<longrightarrow> rid \<in> dom (dt_services d')"
    and "\<forall>r. ai_running (dt_inner d') = Some r \<longrightarrow> rn_run_id r \<in> dom (dt_services d')"
  shows "desktop_inv d'"
  using assms by (auto simp: desktop_inv_def held_runs_def)

text \<open>A stop, by a command or on the way to a new start: its next state waits for what was registered.\<close>

lemma stop_begin_inv:
  assumes "desktop_inv d" and "stop_begin wait (dt_inner d) = (found, a)" and "starting_run pc = None"
    and "\<forall>cfg rid. pc \<noteq> Spawned cfg rid" and "\<forall>rid. pc = Joining rid \<longrightarrow> (\<exists>w. found = Some (rid, w))"
    and "dt_inner d' = a" and "dt_pc d' = pc" and "length (dt_logs d') \<le> 120"
    and "dom (dt_services d') = dom (dt_services d)"
  shows "desktop_inv d'"
proof (rule inv_pc)
  note r = stop_begin_running [OF assms(2)] and P = inv_parts [OF assms(1)]
  show "status_inv (dt_inner d') (dt_pc d')" using stop_begin_status [OF assms(2,3)] assms(6,7) by simp
  show "length (dt_logs d') \<le> 120" by (rule assms(8))
  show "\<forall>rid. dt_pc d' = Joining rid \<or> (\<exists>cfg. dt_pc d' = Spawned cfg rid) \<longrightarrow> rid \<in> dom (dt_services d')"
    unfolding assms(7,9) using assms(4,5) r P(4) by metis
  show "\<forall>r. ai_running (dt_inner d') = Some r \<longrightarrow> rn_run_id r \<in> dom (dt_services d')"
    unfolding assms(6,9) using r P(4) by metis
qed

lemma step_inv:
  assumes "desktop_step console env bind sd d d'" and "desktop_inv d"
  shows "desktop_inv d'"
proof -
  note P = inv_parts [OF assms(2)]
  show ?thesis using assms(1)
proof (cases rule: desktop_step.cases)
  case cmd_start
  show ?thesis unfolding cmd_start(1)
    by (rule inv_pc) (use P cmd_start(2) in \<open>auto simp: status_inv_def split: service_status.splits\<close>)
next
  case (cmd_stop now)
  obtain found a where f: "stop_begin False (dt_inner d) = (found, a)" by fastforce
  show ?thesis unfolding cmd_stop(1) f
    by (rule stop_begin_inv [OF assms(2) f, of Idle]) (simp_all add: cmd_stop(2) after_stop_logs [OF P(3)])
next
  case (cmd_change c a restart)
  have c: "status_inv a (if restart then To_Restart else Idle)" "ai_running a = ai_running (dt_inner d)"
    using command_status [OF cmd_change(3) P(1), of "if restart then To_Restart else Idle"] cmd_change(2) by auto
  show ?thesis unfolding cmd_change(1)
    by (rule inv_pc) (use P(3,4) c in \<open>simp_all split: option.split\<close>)
next
  case (cmd_volume r sv run pct now)
  show ?thesis unfolding cmd_volume(1)
    by (rule inv_moved [OF assms(2)]) (use P cmd_volume(4) in \<open>auto simp: dom_def\<close>)
next
  case (stop_wait found a now)
  show ?thesis unfolding stop_wait(1)
    by (rule stop_begin_inv [OF assms(2) stop_wait(3),
          of "case found of Some (rid, True) \<Rightarrow> Joining rid | _ \<Rightarrow> To_Start"])
      (auto simp: after_stop_logs [OF P(3)] split: option.split bool.split)
next
  case (stop_joins rid now)
  show ?thesis unfolding stop_joins(1)
    by (rule inv_pc) (use P stop_joins(2) in \<open>auto simp: stop_joined_def status_inv_def split: service_status.splits\<close>)
next
  case (start_refused a)
  show ?thesis unfolding start_refused(1)
    by (rule inv_pc) (use P start_refused(2,3) in \<open>auto simp: start_begin_def status_inv_def Let_def
      split: service_status.splits if_splits\<close>)
next
  case (start_begun cfg rid a)
  show ?thesis unfolding start_begun(1)
    by (rule inv_pc) (use P start_begun(2,3) in \<open>auto simp: start_begin_def status_inv_def Let_def
      split: if_splits\<close>)
next
  case (start_bad_config cfg rid e)
  then show ?thesis using config_builds by auto
next
  case (start_fails cfg rid server e w now)
  show ?thesis unfolding start_fails(1)
    by (rule inv_pc) (use P in \<open>auto simp: start_failed_def status_inv_def\<close>)
next
  case (start_spawns cfg rid server sv w)
  show ?thesis unfolding start_spawns(1)
    by (rule inv_pc) (use P start_spawns(2) in \<open>auto simp: status_inv_def split: service_status.splits\<close>)
next
  case (start_finishes cfg rid now)
  show ?thesis unfolding start_finishes(1)
    by (rule inv_pc) (use P start_finishes(2) in \<open>auto simp: start_finish_def status_inv_def\<close>)
next
  case (service_moves rid sv run ev uid run')
  show ?thesis unfolding service_moves(1)
    by (rule inv_moved [OF assms(2)]) (use P service_moves(2) in \<open>auto simp: dom_def\<close>)
next
  case (task_returns rid sv run result now a logs)
  note t = task_finished_status [OF task_returns(5) P(1)]
  show ?thesis unfolding task_returns(1)
    by (rule inv_pc) (use P t in auto)
next
  case (service_released rid sv run)
  show ?thesis unfolding service_released(1)
    by (rule inv_moved [OF assms(2)]) (use P service_released(4-6) in \<open>auto simp: held_runs_def\<close>)
next
  case (update_checked found)
  show ?thesis unfolding update_checked
    by (rule inv_moved [OF assms(2)]) (use P in auto)
qed
qed

text \<open>
  C18: what the state says in every reachable state. A state that shows Running registers the current
  run, with its task; NotStarted means nothing is registered, Stopping that something is; an error
  state has its message; a command never finds a start under way; the registered service exists;
  and the log holds at most 120 lines.
\<close>
theorem desktop_invariant:
  assumes "desktop_reachable console env bind sd d"
  shows "(ai_status (dt_inner d) = Svc_Running \<longrightarrow>
        ai_running (dt_inner d) = Some \<lparr>rn_run_id = ai_run_id (dt_inner d), rn_task = True\<rparr>)
    \<and> (ai_status (dt_inner d) = Svc_NotStarted \<longrightarrow> ai_running (dt_inner d) = None)
    \<and> (ai_status (dt_inner d) = Svc_Stopping \<longrightarrow> ai_running (dt_inner d) \<noteq> None)
    \<and> (ai_status (dt_inner d) = Svc_Error \<longrightarrow> ai_last_error (dt_inner d) \<noteq> None)
    \<and> (dt_pc d = Idle \<longrightarrow> ai_status (dt_inner d) \<noteq> Svc_Starting)
    \<and> (\<forall>r. ai_running (dt_inner d) = Some r \<longrightarrow> dt_services d (rn_run_id r) \<noteq> None)
    \<and> length (dt_logs d) \<le> 120"
proof -
  obtain now w where "(desktop_step console env bind sd)\<^sup>*\<^sup>* (desktop_init sd now w) d"
    using assms by (auto simp: desktop_reachable_def)
  then have "desktop_inv d" by (induction) (auto intro: init_inv step_inv)
  note P = inv_parts [OF this]
  have held: "\<forall>r. ai_running (dt_inner d) = Some r \<longrightarrow> dt_services d (rn_run_id r) \<noteq> None"
    using P(4) by (meson domIff)
  have st: "status_inv (dt_inner d) (dt_pc d)" by (rule P(1))
  show ?thesis
  proof (intro conjI impI)
    show "dt_pc d = Idle \<Longrightarrow> ai_status (dt_inner d) \<noteq> Svc_Starting" using st by (auto simp: status_inv_def)
  qed (use st P(3) held in \<open>simp_all add: status_inv_def\<close>)
qed

section \<open>A first start\<close>

lemma service_new_wifi:
  assumes "cfg_transport_mode cfg = Mode_WiFi"
  shows "\<exists>sv :: ('sock, 'wr) lan_audio_service. service_new env bind cfg w = (Inr sv, w)"
  using assms by (simp add: service_new_def setup_forwards_def reverse_server_start_def Let_def)

definition first_start :: "desktop_service_config \<Rightarrow> app_state_inner" where
  "first_start cfg = \<lparr>ai_status = Svc_Starting, ai_last_error = None, ai_run_id = 1, ai_config = cfg,
     ai_running = None\<rparr>"

lemma reach_step:
  "desktop_reachable console env bind sd d \<Longrightarrow> desktop_step console env bind sd d d' \<Longrightarrow>
    desktop_reachable console env bind sd d'"
  unfolding desktop_reachable_def by (meson rtranclp.rtrancl_into_rtrancl)

text \<open>With the default configuration, a start reaches the point where the task has been spawned.\<close>

lemma first_start_spawned:
  fixes vars f
  defines "sd \<equiv> server_config_default vars f"
  shows "\<exists>d :: ('sock, 'wr, 'w) desktop. desktop_reachable console env bind sd d
    \<and> dt_pc d = Spawned (desktop_config_default sd) 1 \<and> dt_inner d = first_start (desktop_config_default sd)
    \<and> (\<exists>sv. dt_services d 1 = Some (sv, service_run_new)) \<and> dt_reported d = {}"
proof -
  let ?step = "desktop_step console env bind sd"
  let ?cfg = "desktop_config_default sd"
  let ?d0 = "desktop_init sd 0 undefined :: ('sock, 'wr, 'w) desktop"
  let ?d1 = "?d0\<lparr>dt_pc := To_Start\<rparr>"
  let ?d2 = "?d1\<lparr>dt_inner := first_start ?cfg, dt_pc := Creating ?cfg 1\<rparr>"
  have mode: "dsc_transport_mode ?cfg = Mode_WiFi"
    by (simp add: desktop_config_default_def sd_def server_config_default_def)
  obtain server where server: "build_server_config sd ?cfg = Inr server" using configured_router by blast
  have "cfg_transport_mode server = Mode_WiFi"
    using server mode by (auto simp: build_server_config_def parse_bind_any)
  then have "\<exists>sv :: ('sock, 'wr) lan_audio_service. service_new env bind server (dt_world ?d2) = (Inr sv, dt_world ?d2)"
    by (rule service_new_wifi)
  then obtain sv :: "('sock, 'wr) lan_audio_service"
    where sv: "service_new env bind server (dt_world ?d2) = (Inr sv, dt_world ?d2)" by blast
  let ?d3 = "?d2\<lparr>dt_services := (dt_services ?d2)(1 \<mapsto> (sv, service_run_new)),
      dt_reported := dt_reported ?d2 - {1}, dt_pc := Spawned ?cfg 1, dt_world := dt_world ?d2\<rparr>"
  have "start_begin (dt_inner ?d1) = (Some (?cfg, 1), first_start ?cfg)"
    by (simp add: start_begin_def desktop_init_def is_up_def first_start_def sat_add_def)
  then have s2: "?step ?d1 ?d2" by (intro start_begun) simp_all
  have s1: "?step ?d0 ?d1" by (rule cmd_start) (simp add: desktop_init_def)
  have s3: "?step ?d2 ?d3" by (rule start_spawns [OF _ server sv]) simp
  have "desktop_reachable console env bind sd ?d0" unfolding desktop_reachable_def by blast
  from reach_step [OF reach_step [OF reach_step [OF this s1] s2] s3]
  have "desktop_reachable console env bind sd ?d3" .
  then show ?thesis
    by (intro exI [of _ ?d3]) (simp add: desktop_init_def)
qed

section \<open>The races\<close>

text \<open>
  C32: a service that fails at once is shown as running. The task of a new service may end, with any
  error, before the application records the start; its report is then overwritten: the application
  is idle, says Running and shows no error, while the task has returned and the service is dead.
\<close>
theorem desktop_start_race:
  "\<exists>d :: ('sock, 'wr, 'w) desktop. desktop_reachable console env bind (server_config_default vars f) d
    \<and> dt_pc d = Idle \<and> ai_status (dt_inner d) = Svc_Running \<and> ai_last_error (dt_inner d) = None
    \<and> 1 \<in> dt_reported d \<and> (\<exists>sv run. dt_services d 1 = Some (sv, run) \<and> sr_phase run = Ended (Inl e))"
proof -
  let ?sd = "server_config_default vars f"
  let ?cfg = "desktop_config_default ?sd"
  obtain d :: "('sock, 'wr, 'w) desktop" and sv where d: "desktop_reachable console env bind ?sd d"
    "dt_pc d = Spawned ?cfg 1" "dt_inner d = first_start ?cfg"
    "dt_services d 1 = Some (sv, service_run_new)" "dt_reported d = {}"
    using first_start_spawned by blast
  let ?r1 = "service_run_new\<lparr>sr_phase := Binding\<rparr>" and ?r2 = "service_run_new\<lparr>sr_phase := Ended (Inl e)\<rparr>"
  let ?d1 = "d\<lparr>dt_services := (dt_services d)(1 \<mapsto> (sv, ?r1))\<rparr>"
  let ?d2 = "?d1\<lparr>dt_services := (dt_services ?d1)(1 \<mapsto> (sv, ?r2))\<rparr>"
  obtain a logs where a: "task_finished 0 1 (Inl e) (dt_inner ?d2, dt_logs ?d2) = (a, logs)" by fastforce
  let ?d3 = "?d2\<lparr>dt_inner := a, dt_logs := logs, dt_reported := insert 1 (dt_reported ?d2)\<rparr>"
  let ?d4 = "?d3\<lparr>dt_inner := start_finish 1 (dt_inner ?d3), dt_pc := Idle,
      dt_logs := push_log 0 (started_log ?cfg) (dt_logs ?d3)\<rparr>"
  have "desktop_reachable console env bind ?sd ?d1"
    by (rule reach_step [OF d(1) service_moves [OF d(4), of Ev_Run]]) (auto simp: service_run_new_def)
  then have "desktop_reachable console env bind ?sd ?d2"
    by (rule reach_step [OF _ service_moves [of _ _ sv ?r1 "Ev_Bound (Inl e)"]]) (auto simp: service_run_new_def)
  then have "desktop_reachable console env bind ?sd ?d3"
    by (rule reach_step [OF _ task_returns [of _ 1 sv ?r2 "Inl e", OF _ _ _ a]]) (auto simp: d(5))
  then have "desktop_reachable console env bind ?sd ?d4"
    by (rule reach_step [OF _ start_finishes]) (simp add: d(2))
  then show ?thesis
    by (intro exI [of _ ?d4]) (auto simp: start_finish_def)
qed

text \<open>The main thread waits for a task that will not end.\<close>

definition waits_forever :: "u64 \<Rightarrow> ('sock, 'wr, 'w) desktop \<Rightarrow> bool" where
  "waits_forever rid d \<longleftrightarrow> dt_pc d = Joining rid \<and> rid \<notin> dt_reported d
     \<and> (\<exists>sv run. dt_services d rid = Some (sv, run) \<and> Task_Main \<notin> sr_told run
          \<and> (sr_phase run = Serving \<or> (\<exists>ts. sr_phase run = Spawning ts)))"

lemma run_keeps_serving:
  "service_step tasks ev run = Inr run' \<Longrightarrow> ev \<noteq> Ev_Stop \<Longrightarrow> ev \<noteq> Ev_Ctrl_C \<Longrightarrow> Task_Main \<notin> sr_told run \<Longrightarrow>
    sr_phase run = Serving \<or> (\<exists>ts. sr_phase run = Spawning ts) \<Longrightarrow>
    Task_Main \<notin> sr_told run' \<and> (sr_phase run' = Serving \<or> (\<exists>ts. sr_phase run' = Spawning ts))"
  by (cases ev) (auto split: if_splits list.splits)

lemma waits_forever_step:
  assumes "desktop_step False env bind sd d d'" and "waits_forever rid d"
  shows "waits_forever rid d'"
proof -
  obtain sv0 run0 where h: "dt_pc d = Joining rid" "rid \<notin> dt_reported d" "dt_services d rid = Some (sv0, run0)"
    "Task_Main \<notin> sr_told run0" "sr_phase run0 = Serving \<or> (\<exists>ts. sr_phase run0 = Spawning ts)"
    using assms(2) by (auto simp: waits_forever_def)
  show ?thesis using assms(1)
  proof (cases rule: desktop_step.cases)
    case (service_moves rid' sv run ev uid run')
    then show ?thesis
      using h run_keeps_serving [of "service_tasks uid sv" ev run run']
      by (cases "rid' = rid") (auto simp: waits_forever_def)
  next
    case (task_returns rid' sv run result now a logs)
    then show ?thesis using h by (auto simp: waits_forever_def)
  qed (use h in \<open>auto simp: waits_forever_def\<close>)
qed

text \<open>
  C31: a restart can hang the application. A restart that is asked for while the service is still
  binding its sockets sends a stop that nobody receives, and then waits for the task: a state is
  reachable in which the main thread waits and, whatever the services do, waits for ever (short of a
  Ctrl-C on a console).
\<close>
theorem desktop_restart_hangs:
  "\<exists>d :: ('sock, 'wr, 'w) desktop. desktop_reachable False env bind (server_config_default vars f) d
    \<and> ai_status (dt_inner d) = Svc_Stopping
    \<and> Collect ((desktop_step False env bind (server_config_default vars f))\<^sup>*\<^sup>* d) \<subseteq> {d'. dt_pc d' = Joining 1}"
proof -
  let ?sd = "server_config_default vars f"
  let ?cfg = "desktop_config_default ?sd"
  obtain d :: "('sock, 'wr, 'w) desktop" and sv where d: "desktop_reachable False env bind ?sd d"
    "dt_pc d = Spawned ?cfg 1" "dt_inner d = first_start ?cfg"
    "dt_services d 1 = Some (sv, service_run_new)" "dt_reported d = {}"
    using first_start_spawned by blast
  let ?r1 = "service_run_new\<lparr>sr_phase := Binding\<rparr>"
  let ?d1 = "d\<lparr>dt_inner := start_finish 1 (dt_inner d), dt_pc := Idle,
      dt_logs := push_log 0 (started_log ?cfg) (dt_logs d)\<rparr>"
  let ?d2 = "?d1\<lparr>dt_services := (dt_services ?d1)(1 \<mapsto> (sv, ?r1))\<rparr>"
  let ?d3 = "?d2\<lparr>dt_inner := dt_inner ?d2, dt_pc := To_Restart, dt_logs := dt_logs ?d2\<rparr>"
  let ?stop = "(Some (1 :: u64, True), (dt_inner ?d3)\<lparr>ai_status := Svc_Stopping,
      ai_running := Some \<lparr>rn_run_id = 1, rn_task = False\<rparr>\<rparr>)"
  let ?d4 = "(after_stop_begin 0 ?stop ?d3)\<lparr>dt_pc := Joining 1\<rparr>"
  have "desktop_reachable False env bind ?sd ?d1"
    by (rule reach_step [OF d(1) start_finishes]) (simp add: d(2))
  then have "desktop_reachable False env bind ?sd ?d2"
    by (rule reach_step [OF _ service_moves [of _ 1 sv service_run_new Ev_Run]]) (auto simp: service_run_new_def d(4))
  then have "desktop_reachable False env bind ?sd ?d3"
    using cmd_change [of ?d2 Cmd_Restart "dt_inner ?d2" True False env bind ?sd] by (auto intro: reach_step)
  moreover have "desktop_step False env bind ?sd ?d3 ?d4"
    using stop_wait [of ?d3 "fst ?stop" "snd ?stop" False env bind ?sd 0]
    by (simp add: stop_begin_def start_finish_def)
  ultimately have r4: "desktop_reachable False env bind ?sd ?d4" by (rule reach_step)
  have s4: "dt_services ?d4 1 = Some (service_stop sv, ?r1)"
    by (simp add: after_stop_begin_def signal_stop_def shutdown_send_def service_run_new_def)
  let ?tasks = "service_tasks 0 (service_stop sv)"
  let ?d5 = "?d4\<lparr>dt_services := (dt_services ?d4)(1 \<mapsto> (service_stop sv, ?r1\<lparr>sr_phase := Spawning ?tasks\<rparr>))\<rparr>"
  have r5: "desktop_reachable False env bind ?sd ?d5"
    by (rule reach_step [OF r4 service_moves [OF s4, of "Ev_Bound (Inr ())" False 0]]) auto
  have w5: "waits_forever 1 ?d5"
    by (simp add: waits_forever_def d(5) service_run_new_def)
  have "waits_forever 1 d'" if "(desktop_step False env bind ?sd)\<^sup>*\<^sup>* ?d5 d'" for d'
    using that by (induction rule: rtranclp_induct) (rule w5, rule waits_forever_step)
  then show ?thesis
    using r5 by (intro exI [of _ ?d5]) (auto simp: waits_forever_def)
qed

theorem desktop_invariant_witness:
  "\<exists>d :: (nat, nat, unit) desktop. ai_status (dt_inner d) = Svc_Running
    \<and> ai_running (dt_inner d) = Some \<lparr>rn_run_id = 1, rn_task = True\<rparr> \<and> dt_services d 1 \<noteq> None"
proof -
  let ?env = "\<lparr>ae_windows = False, ae_output = (\<lambda>c w. (Inl ''no adb'', w))\<rparr> :: unit adb_env"
  let ?sd = "server_config_default (\<lambda>_. None) 440"
  obtain d :: "(nat, nat, unit) desktop" where d: "desktop_reachable False ?env (\<lambda>_. True) ?sd d"
    "dt_pc d = Spawned (desktop_config_default ?sd) 1" "dt_inner d = first_start (desktop_config_default ?sd)"
    using first_start_spawned by blast
  let ?d = "d\<lparr>dt_inner := start_finish 1 (dt_inner d), dt_pc := Idle,
      dt_logs := push_log 0 (started_log (desktop_config_default ?sd)) (dt_logs d)\<rparr>"
  have r: "desktop_reachable False ?env (\<lambda>_. True) ?sd ?d"
    by (rule reach_step [OF d(1) start_finishes [OF d(2)]])
  have s: "ai_status (dt_inner ?d) = Svc_Running" by (simp add: start_finish_def)
  have run: "ai_running (dt_inner ?d) = Some \<lparr>rn_run_id = 1, rn_task = True\<rparr>"
    by (simp add: start_finish_def)
  from desktop_invariant [OF r] run have "dt_services ?d 1 \<noteq> None" by simp
  with s run show ?thesis by blast
qed

end
