(* ===== verification/Udp_Stream.thy ===== *)
theory Udp_Stream
  imports Broadcast_Pipeline
begin

text \<open>
  The stream to a single target (\<open>UdpTransport::spawn_stream\<close> of
  \<open>crates/lan_audio_server/src/transport.rs\<close>): capture, encode, watchdog and send run as four tasks
  joined by two bounded channels, and a stop aborts the three helpers. An event is one turn of one
  task, so a list of events is an interleaving. The mode is shared with the sessions, which change
  it at any time: the encode task reads it when it encodes, the send task again when it sends.
\<close>

section \<open>The state of the tasks\<close>

definition STREAM_CHANNEL_CAPACITY :: nat where "STREAM_CHANNEL_CAPACITY = 32"

text \<open>
  What the send task did with an encoded frame: the mode it was encoded in, the mode at the time of
  the send, the packet, its flags and bytes, and whether the socket took it. The code keeps none of
  it; \<open>us_made\<close> and \<open>us_sent\<close> only record the run.
\<close>

record udp_sent =
  sd_frame :: "audio_mode \<times> encoded_frame"
  sd_mode :: audio_mode
  sd_packet :: udp_audio_packet
  sd_flags :: u16
  sd_bytes :: "u8 list"
  sd_ok :: bool

record ('w, 'o, 'r) udp_stream =
  us_metrics :: metrics
  us_world :: 'w
  us_mode :: audio_mode
  us_capture_on :: bool
  us_handoff :: handoff_stats
  us_frames :: "audio_frame list"
  us_encode_on :: bool
  us_encoder :: "('o, 'r) audio_frame_encoder"
  us_last_applied_tier :: degradation_tier
  us_build_stats :: packet_build_stats
  us_frame_age :: u64
  us_backlog :: "(audio_mode \<times> encoded_frame) list" \<comment> \<open>encoded, not yet handed over\<close>
  us_encoded :: "(audio_mode \<times> encoded_frame) list"
  us_watchdog_on :: bool
  us_runtime :: "adaptive_runtime option"
  us_tier :: degradation_tier
  us_running :: bool
  us_sequence :: u32
  us_last_sent_mode :: audio_mode
  us_first_packet :: bool
  us_tx_stats :: tx_stats
  us_made :: "(audio_mode \<times> encoded_frame) list"
  us_sent :: "udp_sent list"

definition udp_stream_init ::
  "'o opus_api \<Rightarrow> bool \<Rightarrow> codec_selection \<Rightarrow> u32 \<Rightarrow> audio_mode \<Rightarrow> audio_mode \<Rightarrow> nat \<Rightarrow> 'w \<Rightarrow> metrics
   \<Rightarrow> ('w, 'o, 'r) udp_stream" where
  "udp_stream_init oa adaptive_enabled codec capture_rate encode_mode mode now w m =
     \<lparr>us_metrics = m, us_world = w, us_mode = mode, us_capture_on = True,
      us_handoff = handoff_new now, us_frames = [], us_encode_on = True,
      us_encoder = frame_encoder_new oa codec encode_mode (normalize_encoder_sample_rate capture_rate),
      us_last_applied_tier = Green, us_build_stats = packet_build_new now, us_frame_age = 0,
      us_backlog = [], us_encoded = [], us_watchdog_on = adaptive_enabled,
      us_runtime = (if adaptive_enabled
        then Some (runtime_new watchdog_config_default 3 100 100 500) else None),
      us_tier = Green, us_running = True, us_sequence = 0, us_last_sent_mode = mode,
      us_first_packet = True, us_tx_stats = tx_stats_new now, us_made = [], us_sent = []\<rparr>"

text \<open>
  \<open>spawn_stream\<close>: the source is built and started first; an error leaves no task behind. The result
  of the source's start and what it reports before and after it are those of the platform.
\<close>

definition spawn_stream ::
  "'o opus_api \<Rightarrow> (audio_format \<Rightarrow> string + 'l) \<Rightarrow> real server_config \<Rightarrow> codec_selection
   \<Rightarrow> capture_source_state \<times> string option \<Rightarrow> capture_error + unit
   \<Rightarrow> capture_source_state \<times> string option \<times> audio_format \<Rightarrow> audio_mode \<Rightarrow> audio_mode \<Rightarrow> nat \<Rightarrow> 'w
   \<Rightarrow> metrics \<Rightarrow> (string option + ('w, 'o, 'r) udp_stream) \<times> metrics" where
  "spawn_stream oa loopback cfg codec before started after encode_mode mode now w m =
     (case build_capture_source loopback cfg of
        Inl err \<Rightarrow> (Inl (Some err), m)
      | Inr (_, source_name) \<Rightarrow>
          (case start_source source_name before started after m of
             (Inl _, m) \<Rightarrow> (Inl None, m)
           | (Inr _, m) \<Rightarrow>
               (Inr (udp_stream_init oa (adaptive_runtime_enabled cfg) codec
                  (sample_rate_hz (snd (snd after))) encode_mode mode now w m), m)))"

section \<open>The turns of the tasks\<close>

text \<open>The frame is dropped, and the capture task ends, when the encode task is gone.\<close>

definition udp_on_capture ::
  "capture_error + audio_frame \<Rightarrow> capture_source_state \<Rightarrow> string option \<Rightarrow> real \<Rightarrow> nat
   \<Rightarrow> ('w, 'o, 'r) udp_stream \<Rightarrow> ('w, 'o, 'r) udp_stream" where
  "udp_on_capture frame_result source_state device block_ms now s =
     (let (frame, m) = capture_turn frame_result source_state device (us_metrics s);
          s = s\<lparr>us_metrics := m\<rparr>
      in case frame of None \<Rightarrow> s
         | Some f \<Rightarrow>
             let s = s\<lparr>us_handoff := handoff_maybe_log now (record_frame_tx_block block_ms (us_handoff s))\<rparr>
             in if us_encode_on s then s\<lparr>us_frames := us_frames s @ [f]\<rparr>
                else s\<lparr>us_capture_on := False\<rparr>)"

definition udp_capture_stop ::
  "capture_source_state \<Rightarrow> ('w, 'o, 'r) udp_stream \<Rightarrow> ('w, 'o, 'r) udp_stream" where
  "udp_capture_stop source_state s =
     s\<lparr>us_metrics := set_capture_source_state (capture_state_as_str source_state) (us_metrics s),
       us_capture_on := False\<rparr>"

text \<open>A change of tier reaches the encoder with the next frame, before it is encoded.\<close>

definition udp_apply_tier ::
  "'o opus_api \<Rightarrow> ('w, 'o, 'r) udp_stream \<Rightarrow> ('w, 'o, 'r) udp_stream" where
  "udp_apply_tier oa s =
     (if us_runtime s \<noteq> None \<and> us_tier s \<noteq> us_last_applied_tier s
      then s\<lparr>us_encoder := apply_tier_profile oa (tier_profile (us_tier s) (us_mode s)) (us_mode s) (us_encoder s),
             us_last_applied_tier := us_tier s\<rparr>
      else s)"

definition udp_on_frame ::
  "'o opus_api \<Rightarrow> 'r resampler_api \<Rightarrow> u64 \<Rightarrow> audio_frame \<Rightarrow> ('w, 'o, 'r) udp_stream
   \<Rightarrow> ('w, 'o, 'r) udp_stream" where
  "udp_on_frame oa rs wall_ms frame s =
     (let s = udp_apply_tier oa s;
          (encoded, e) = encode_frame oa rs frame (us_mode s) (us_encoder s);
          encoded = map (Pair (us_mode s)) encoded
      in s\<lparr>us_frame_age := sat_sub wall_ms (fr_pts_ms frame), us_encoder := e,
           us_backlog := encoded, us_made := us_made s @ encoded\<rparr>)"

definition udp_hand_over ::
  "real \<Rightarrow> nat \<Rightarrow> audio_mode \<times> encoded_frame \<Rightarrow> ('w, 'o, 'r) udp_stream \<Rightarrow> ('w, 'o, 'r) udp_stream" where
  "udp_hand_over block_ms now x s =
     (let b = record_packet_built (ef_frames_per_packet (snd x)) (length (ef_payload (snd x)))
                (us_frame_age s) FLUSH_REASON_IMMEDIATE_FRAME_READY (us_build_stats s);
          b = record_encoded_tx_block block_ms b
      in s\<lparr>us_build_stats := packet_build_maybe_log now b, us_encoded := us_encoded s @ [x]\<rparr>)"

definition udp_encode_timeout :: "nat \<Rightarrow> ('w, 'o, 'r) udp_stream \<Rightarrow> ('w, 'o, 'r) udp_stream" where
  "udp_encode_timeout now s =
     s\<lparr>us_metrics := inc_capture_underruns (us_metrics s),
       us_build_stats := packet_build_maybe_log now (record_encode_timeout (us_build_stats s))\<rparr>"

text \<open>The watchdog reads how full the channel of encoded frames is.\<close>

definition udp_on_watchdog ::
  "real option \<Rightarrow> adaptive_runtime \<Rightarrow> ('w, 'o, 'r) udp_stream \<Rightarrow> ('w, 'o, 'r) udp_stream" where
  "udp_on_watchdog cpu a s =
     (let queue_capacity = of_nat STREAM_CHANNEL_CAPACITY :: u32;
          queue_depth = sat_sub queue_capacity (of_nat (STREAM_CHANNEL_CAPACITY - length (us_encoded s)));
          (decision, a) = runtime_tick cpu queue_depth queue_capacity 0 None a;
          queue_ratio = (if queue_capacity = 0 then 0
                         else real (unat queue_depth) / real (unat queue_capacity))
      in s\<lparr>us_metrics := publish_decision decision queue_ratio (us_metrics s),
           us_runtime := Some a, us_tier := ad_tier decision\<rparr>)"

text \<open>
  A send: the marks depend on the mode of this moment. Whether or not the socket takes the
  datagram, the mode counts as sent, the first packet as sent, and the number as used.
\<close>

definition udp_on_encoded ::
  "('sock \<Rightarrow> u8 list \<Rightarrow> socket_addr \<Rightarrow> 'w \<Rightarrow> (string + unit) \<times> 'w) \<Rightarrow> 'sock \<Rightarrow> socket_addr
   \<Rightarrow> data_plane_format \<Rightarrow> real \<Rightarrow> nat \<Rightarrow> audio_mode \<times> encoded_frame \<Rightarrow> ('w, 'o, 'r) udp_stream
   \<Rightarrow> ('w, 'o, 'r) udp_stream" where
  "udp_on_encoded udp_send socket target plane await_ms now x s =
     (let encoded = snd x;
          active_mode = us_mode s;
          mode_changed = (active_mode \<noteq> us_last_sent_mode s);
          packet = packet_of encoded (us_sequence s);
          flags = v2_flags_for_frame packet mode_changed (us_first_packet s);
          bytes = encode_packet_by_data_plane packet plane flags (ef_codec encoded);
          kind = detect_data_plane_packet_kind bytes;
          (result, w) = udp_send socket bytes target (us_world s);
          s = s\<lparr>us_world := w\<rparr>;
          s = (case result of Inl _ \<Rightarrow> s
             | Inr _ \<Rightarrow> s\<lparr>us_metrics := inc_packets (length bytes) (us_metrics s),
                 us_tx_stats := tx_maybe_log now (tx_observe packet (length bytes) await_ms plane kind
                   flags mode_changed (ef_codec encoded) (ef_source_peak encoded)
                   (ef_source_rms encoded) (us_tx_stats s))\<rparr>)
      in s\<lparr>us_last_sent_mode := active_mode, us_first_packet := False,
           us_sequence := us_sequence s + 1,
           us_sent := us_sent s @ [\<lparr>sd_frame = x, sd_mode = active_mode, sd_packet = packet,
             sd_flags = flags, sd_bytes = bytes, sd_ok = (\<not> isl result)\<rparr>]\<rparr>)"

text \<open>The end of the send loop, and the aborts after it.\<close>

definition udp_stop :: "('w, 'o, 'r) udp_stream \<Rightarrow> ('w, 'o, 'r) udp_stream" where
  "udp_stop s = s\<lparr>us_running := False, us_capture_on := False, us_encode_on := False,
     us_watchdog_on := False\<rparr>"

section \<open>The machine\<close>

datatype udp_event =
    Us_Capture "capture_error + audio_frame" capture_source_state "string option" real nat
  | Us_Capture_Stop capture_source_state
  | Us_Encode u64
  | Us_Hand_Over real nat
  | Us_Encode_Timeout nat
  | Us_Encode_End
  | Us_Encode_Stop
  | Us_Watchdog "real option"
  | Us_Watchdog_Stop
  | Us_Mode audio_mode
  | Us_Send real nat
  | Us_Closed
  | Us_Shutdown

text \<open>
  \<open>Us_Capture_Stop\<close>, \<open>Us_Encode_Stop\<close>, \<open>Us_Watchdog_Stop\<close> and \<open>Us_Shutdown\<close> are the four receipts of
  the shutdown signal. The channel of encoded frames is closed once nobody holds a sender: the
  encode task has one, and the watchdog task a copy, which stays with the send task itself when the
  adaptive runtime is off.
\<close>

fun udp_step ::
  "'o opus_api \<Rightarrow> 'r resampler_api \<Rightarrow> ('sock \<Rightarrow> u8 list \<Rightarrow> socket_addr \<Rightarrow> 'w \<Rightarrow> (string + unit) \<times> 'w)
   \<Rightarrow> 'sock \<Rightarrow> socket_addr \<Rightarrow> data_plane_format \<Rightarrow> udp_event \<Rightarrow> ('w, 'o, 'r) udp_stream
   \<Rightarrow> unit + ('w, 'o, 'r) udp_stream" where
  "udp_step oa rs us socket target plane (Us_Capture res st device block_ms now) s =
     (if us_capture_on s \<and> (us_encode_on s \<longrightarrow> length (us_frames s) < STREAM_CHANNEL_CAPACITY)
      then Inr (udp_on_capture res st device block_ms now s) else Inl ())"
| "udp_step oa rs us socket target plane (Us_Capture_Stop st) s =
     (if us_capture_on s then Inr (udp_capture_stop st s) else Inl ())"
| "udp_step oa rs us socket target plane (Us_Encode wall_ms) s =
     (case us_frames s of [] \<Rightarrow> Inl ()
      | f # fs \<Rightarrow> if us_encode_on s \<and> us_backlog s = []
          then Inr (udp_on_frame oa rs wall_ms f (s\<lparr>us_frames := fs\<rparr>)) else Inl ())"
| "udp_step oa rs us socket target plane (Us_Hand_Over block_ms now) s =
     (case us_backlog s of [] \<Rightarrow> Inl ()
      | x # xs \<Rightarrow> if us_encode_on s \<and> length (us_encoded s) < STREAM_CHANNEL_CAPACITY
          then Inr (udp_hand_over block_ms now x (s\<lparr>us_backlog := xs\<rparr>)) else Inl ())"
| "udp_step oa rs us socket target plane (Us_Encode_Timeout now) s =
     (if us_encode_on s \<and> us_backlog s = [] \<and> us_frames s = [] \<and> us_capture_on s
      then Inr (udp_encode_timeout now s) else Inl ())"
| "udp_step oa rs us socket target plane Us_Encode_End s =
     (if us_encode_on s \<and> us_backlog s = [] \<and> us_frames s = [] \<and> \<not> us_capture_on s
      then Inr (s\<lparr>us_encode_on := False\<rparr>) else Inl ())"
| "udp_step oa rs us socket target plane Us_Encode_Stop s =
     (if us_encode_on s \<and> us_backlog s = []
      then Inr (s\<lparr>us_encode_on := False, us_frames := []\<rparr>) else Inl ())"
| "udp_step oa rs us socket target plane (Us_Watchdog cpu) s =
     (case us_runtime s of None \<Rightarrow> Inl ()
      | Some a \<Rightarrow> if us_watchdog_on s then Inr (udp_on_watchdog cpu a s) else Inl ())"
| "udp_step oa rs us socket target plane Us_Watchdog_Stop s =
     (if us_watchdog_on s then Inr (s\<lparr>us_watchdog_on := False\<rparr>) else Inl ())"
| "udp_step oa rs us socket target plane (Us_Mode mode) s = Inr (s\<lparr>us_mode := mode\<rparr>)"
| "udp_step oa rs us socket target plane (Us_Send await_ms now) s =
     (case us_encoded s of [] \<Rightarrow> Inl ()
      | x # xs \<Rightarrow> if us_running s
          then Inr (udp_on_encoded us socket target plane await_ms now x (s\<lparr>us_encoded := xs\<rparr>))
          else Inl ())"
| "udp_step oa rs us socket target plane Us_Closed s =
     (if us_running s \<and> us_encoded s = [] \<and> \<not> us_encode_on s \<and> us_runtime s \<noteq> None \<and> \<not> us_watchdog_on s
      then Inr (udp_stop s) else Inl ())"
| "udp_step oa rs us socket target plane Us_Shutdown s =
     (if us_running s then Inr (udp_stop s) else Inl ())"

section \<open>The invariant\<close>

definition mode_before :: "audio_mode \<Rightarrow> udp_sent list \<Rightarrow> nat \<Rightarrow> audio_mode" where
  "mode_before m0 ss k = (if k = 0 then m0 else sd_mode (ss ! (k - 1)))"

text \<open>What the \<open>k\<close>-th send did, from its frame and the modes alone.\<close>

definition sent_as :: "data_plane_format \<Rightarrow> audio_mode \<Rightarrow> udp_sent list \<Rightarrow> nat \<Rightarrow> bool" where
  "sent_as plane m0 ss k \<longleftrightarrow>
     sd_packet (ss ! k) = packet_of (snd (sd_frame (ss ! k))) (of_nat k)
     \<and> sd_flags (ss ! k) = v2_flags_for_frame (sd_packet (ss ! k))
         (sd_mode (ss ! k) \<noteq> mode_before m0 ss k) (k = 0)
     \<and> sd_bytes (ss ! k) = encode_packet_by_data_plane (sd_packet (ss ! k)) plane (sd_flags (ss ! k))
         (ef_codec (snd (sd_frame (ss ! k))))"

definition udp_inv :: "data_plane_format \<Rightarrow> audio_mode \<Rightarrow> ('w, 'o, 'r) udp_stream \<Rightarrow> bool" where
  "udp_inv plane m0 s \<longleftrightarrow>
     us_sequence s = of_nat (length (us_sent s))
     \<and> (us_first_packet s \<longleftrightarrow> us_sent s = [])
     \<and> us_last_sent_mode s = mode_before m0 (us_sent s) (length (us_sent s))
     \<and> length (us_frames s) \<le> STREAM_CHANNEL_CAPACITY
     \<and> length (us_encoded s) \<le> STREAM_CHANNEL_CAPACITY
     \<and> us_made s = map sd_frame (us_sent s) @ us_encoded s @ us_backlog s
     \<and> (\<forall>k < length (us_sent s). sent_as plane m0 (us_sent s) k)"

lemma mode_before_append: "k \<le> length ss \<Longrightarrow> mode_before m0 (ss @ ts) k = mode_before m0 ss k"
  by (auto simp: mode_before_def nth_append)

lemma mode_before_last: "mode_before m0 (ss @ [x]) (Suc (length ss)) = sd_mode x"
  by (simp add: mode_before_def)

lemma sent_as_append: "k < length ss \<Longrightarrow> sent_as plane m0 (ss @ ts) k = sent_as plane m0 ss k"
  by (simp add: sent_as_def nth_append mode_before_append)

lemma udp_init_inv:
  "udp_inv plane mode (udp_stream_init oa adaptive_enabled codec rate encode_mode mode now w m)"
  by (simp add: udp_inv_def udp_stream_init_def mode_before_def)

text \<open>Turns that leave the send side and the encoded frames alone.\<close>

lemma udp_inv_cong:
  assumes "udp_inv plane m0 s"
    and "us_sequence t = us_sequence s" "us_first_packet t = us_first_packet s"
    and "us_last_sent_mode t = us_last_sent_mode s" "us_encoded t = us_encoded s"
    and "us_backlog t = us_backlog s" "us_made t = us_made s" "us_sent t = us_sent s"
    and "length (us_frames t) \<le> STREAM_CHANNEL_CAPACITY"
  shows "udp_inv plane m0 t"
  using assms by (simp add: udp_inv_def)

lemma udp_frames_le: "udp_inv plane m0 s \<Longrightarrow> length (us_frames s) \<le> STREAM_CHANNEL_CAPACITY"
  by (simp add: udp_inv_def)

lemma udp_capture_inv:
  assumes "udp_inv plane m0 s" and "us_encode_on s \<longrightarrow> length (us_frames s) < STREAM_CHANNEL_CAPACITY"
  shows "udp_inv plane m0 (udp_on_capture res st device block_ms now s)"
  using assms by (auto simp: udp_on_capture_def udp_inv_def Let_def split: prod.split option.split)

lemma udp_frame_inv:
  assumes "udp_inv plane m0 s" and "us_frames s = f # fs" and "us_backlog s = []"
  shows "udp_inv plane m0 (udp_on_frame oa rs wall_ms f (s\<lparr>us_frames := fs\<rparr>))"
  using assms
  by (auto simp: udp_on_frame_def udp_apply_tier_def udp_inv_def Let_def split: prod.split)

lemma udp_hand_over_inv:
  assumes "udp_inv plane m0 s" and "us_backlog s = x # xs"
    and "length (us_encoded s) < STREAM_CHANNEL_CAPACITY"
  shows "udp_inv plane m0 (udp_hand_over block_ms now x (s\<lparr>us_backlog := xs\<rparr>))"
  using assms by (simp add: udp_hand_over_def udp_inv_def Let_def)

lemma udp_send_fields:
  assumes "t = udp_on_encoded us socket target plane await_ms now x s"
  shows "\<exists>r. us_sent t = us_sent s @ [r] \<and> sd_frame r = x \<and> sd_mode r = us_mode s
      \<and> sd_packet r = packet_of (snd x) (us_sequence s)
      \<and> sd_flags r = v2_flags_for_frame (sd_packet r) (us_mode s \<noteq> us_last_sent_mode s) (us_first_packet s)
      \<and> sd_bytes r = encode_packet_by_data_plane (sd_packet r) plane (sd_flags r) (ef_codec (snd x))
      \<and> sd_ok r = (\<not> isl (fst (us socket (sd_bytes r) target (us_world s))))"
    and "us_sequence t = us_sequence s + 1" and "\<not> us_first_packet t"
    and "us_last_sent_mode t = us_mode s" and "us_frames t = us_frames s"
    and "us_encoded t = us_encoded s" and "us_backlog t = us_backlog s" and "us_made t = us_made s"
    and "us_mode t = us_mode s" and "us_running t = us_running s"
  unfolding assms by (auto simp: udp_on_encoded_def Let_def split: prod.split sum.split)

lemma udp_send_inv:
  assumes "udp_inv plane m0 s" and "us_encoded s = x # xs"
  shows "udp_inv plane m0 (udp_on_encoded us socket target plane await_ms now x (s\<lparr>us_encoded := xs\<rparr>))"
proof -
  let ?t = "udp_on_encoded us socket target plane await_ms now x (s\<lparr>us_encoded := xs\<rparr>)"
  let ?n = "length (us_sent s)"
  note f = udp_send_fields [of ?t us socket target plane await_ms now x "s\<lparr>us_encoded := xs\<rparr>", OF refl]
  obtain r where r: "us_sent ?t = us_sent s @ [r]" "sd_frame r = x" "sd_mode r = us_mode s"
      "sd_packet r = packet_of (snd x) (us_sequence s)"
      "sd_flags r = v2_flags_for_frame (sd_packet r) (us_mode s \<noteq> us_last_sent_mode s) (us_first_packet s)"
      "sd_bytes r = encode_packet_by_data_plane (sd_packet r) plane (sd_flags r) (ef_codec (snd x))"
    using f(1) by auto
  have "sent_as plane m0 (us_sent s @ [r]) ?n"
    using assms(1) r by (simp add: sent_as_def mode_before_append udp_inv_def)
  then have "\<forall>k < Suc ?n. sent_as plane m0 (us_sent s @ [r]) k"
    using assms(1) by (simp add: udp_inv_def less_Suc_eq sent_as_append all_conj_distrib)
  then show ?thesis
    using assms f(2-8) r(1-3) by (simp add: udp_inv_def mode_before_last)
qed

lemma udp_step_inv:
  assumes "udp_inv plane m0 s" and "udp_step oa rs us socket target plane x s = Inr t"
  shows "udp_inv plane m0 t"
proof (cases x)
  case (Us_Watchdog cpu)
  then show ?thesis
    using assms(2) by (auto simp: udp_on_watchdog_def Let_def split: option.splits if_splits prod.splits
        intro!: udp_inv_cong [OF assms(1)] udp_frames_le [OF assms(1)])
next
  case (Us_Encode n)
  then show ?thesis
    using assms(2) by (auto split: list.splits if_splits intro: udp_frame_inv [OF assms(1)])
next
  case (Us_Hand_Over b n)
  then show ?thesis
    using assms(2) by (auto split: list.splits if_splits intro: udp_hand_over_inv [OF assms(1)])
next
  case (Us_Send a n)
  then show ?thesis
    using assms(2) by (auto split: list.splits if_splits intro: udp_send_inv [OF assms(1)])
next
  case (Us_Capture res st d b n)
  then show ?thesis
    using assms(2) by (auto split: if_splits intro: udp_capture_inv [OF assms(1)])
qed (use assms(2) in \<open>auto simp: udp_capture_stop_def udp_encode_timeout_def udp_stop_def
      split: if_splits intro!: udp_inv_cong [OF assms(1)] udp_frames_le [OF assms(1)]\<close>)

interpretation udp: guarded_machine "udp_step oa rs us socket target plane" "udp_inv plane m0"
  for oa rs us socket target plane m0
  by unfold_locales (rule udp_step_inv)

section \<open>Flags\<close>

lemma legacy_flag_silence: "legacy_flags_for_frame ef AND 1 \<noteq> 0 \<longleftrightarrow> ef_is_silence ef"
  by (simp add: legacy_flags_for_frame_def flag_consts)

lemma v2_flag_bits:
  "v2_flags_for_frame p mode_changed first AND UDP_FLAG_V2_CONFIG_CHANGED \<noteq> 0 \<longleftrightarrow> mode_changed"
  "v2_flags_for_frame p mode_changed first AND UDP_FLAG_V2_DISCONTINUITY \<noteq> 0 \<longleftrightarrow> mode_changed \<or> first"
  "v2_flags_for_frame p mode_changed first AND UDP_FLAG_V2_SILENCE \<noteq> 0 \<longleftrightarrow> p_flags p AND 1 \<noteq> 0"
  by (cases mode_changed; cases first; simp add: v2_flags_for_frame_def flag_consts)+

lemma sent_as_flags:
  assumes "sent_as plane m0 ss k"
  shows "sd_flags (ss ! k) AND UDP_FLAG_V2_CONFIG_CHANGED \<noteq> 0 \<longleftrightarrow> sd_mode (ss ! k) \<noteq> mode_before m0 ss k"
    and "sd_flags (ss ! k) AND UDP_FLAG_V2_DISCONTINUITY \<noteq> 0
      \<longleftrightarrow> sd_mode (ss ! k) \<noteq> mode_before m0 ss k \<or> k = 0"
    and "sd_flags (ss ! k) AND UDP_FLAG_V2_SILENCE \<noteq> 0 \<longleftrightarrow> ef_is_silence (snd (sd_frame (ss ! k)))"
    and "p_sequence (sd_packet (ss ! k)) = of_nat k"
  using assms by (simp_all add: sent_as_def v2_flag_bits legacy_flag_silence packet_of_def)

section \<open>Properties\<close>

text \<open>
  C11: a stream to one target, however its tasks interleave. Both channels hold at most 32 items.
  Every frame the encoder made is sent exactly once and in order, or still waits. The \<open>k\<close>-th send
  carries the number \<open>k\<close>; it is marked as a change of configuration exactly when the mode differs
  from that of the send before, as a discontinuity exactly then and on the first send, and as
  silence exactly when its frame is silent; all of this whether or not the socket took the
  datagrams before it. A change of sample rate, channels or codec that is not a change of mode is not
  marked, although the protocol document describes the mark for those too.
\<close>
theorem udp_stream_invariant:
  assumes "run_ops (udp_step oa rs us socket target plane) evs
      (udp_stream_init oa adaptive_enabled codec rate encode_mode mode now w m) = Inr s"
  shows "length (us_frames s) \<le> 32 \<and> length (us_encoded s) \<le> 32
    \<and> us_made s = map sd_frame (us_sent s) @ us_encoded s @ us_backlog s
    \<and> us_sequence s = of_nat (length (us_sent s))
    \<and> (\<forall>k < length (us_sent s). let r = us_sent s ! k; changed = (sd_mode r \<noteq> mode_before mode (us_sent s) k) in
         p_sequence (sd_packet r) = of_nat k
         \<and> (sd_flags r AND UDP_FLAG_V2_CONFIG_CHANGED \<noteq> 0 \<longleftrightarrow> changed)
         \<and> (sd_flags r AND UDP_FLAG_V2_DISCONTINUITY \<noteq> 0 \<longleftrightarrow> changed \<or> k = 0)
         \<and> (sd_flags r AND UDP_FLAG_V2_SILENCE \<noteq> 0 \<longleftrightarrow> ef_is_silence (snd (sd_frame r))))"
proof -
  have i: "udp_inv plane mode s" by (rule udp.run_ops_inv [OF udp_init_inv assms])
  have "let r = us_sent s ! k; changed = (sd_mode r \<noteq> mode_before mode (us_sent s) k) in
         p_sequence (sd_packet r) = of_nat k
         \<and> (sd_flags r AND UDP_FLAG_V2_CONFIG_CHANGED \<noteq> 0 \<longleftrightarrow> changed)
         \<and> (sd_flags r AND UDP_FLAG_V2_DISCONTINUITY \<noteq> 0 \<longleftrightarrow> changed \<or> k = 0)
         \<and> (sd_flags r AND UDP_FLAG_V2_SILENCE \<noteq> 0 \<longleftrightarrow> ef_is_silence (snd (sd_frame r)))"
    if "k < length (us_sent s)" for k
    using sent_as_flags [of plane mode "us_sent s" k] i that unfolding udp_inv_def Let_def by blast
  with i show ?thesis unfolding udp_inv_def STREAM_CHANNEL_CAPACITY_def by blast
qed

lemma udp_sends_unmarked:
  assumes "run_ops (udp_step oa rs us socket target plane) (map (\<lambda>(a, n). Us_Send a n) ts) s = Inr t"
    and "length ts = length (us_encoded s)" and "us_last_sent_mode s = us_mode s"
  shows "\<exists>rs. us_sent t = us_sent s @ rs \<and> map sd_frame rs = us_encoded s
    \<and> (\<forall>r \<in> set rs. sd_flags r AND UDP_FLAG_V2_CONFIG_CHANGED = 0)
    \<and> us_last_sent_mode t = us_mode s \<and> us_mode t = us_mode s \<and> us_encoded t = []"
  using assms
proof (induction ts arbitrary: s)
  case Nil
  then show ?case by simp
next
  case (Cons an ts)
  obtain x xs where q: "us_encoded s = x # xs" using Cons.prems(2) by (cases "us_encoded s") auto
  let ?s = "udp_on_encoded us socket target plane (fst an) (snd an) x (s\<lparr>us_encoded := xs\<rparr>)"
  note f = udp_send_fields [of ?s us socket target plane "fst an" "snd an" x "s\<lparr>us_encoded := xs\<rparr>", OF refl]
  obtain r where r: "us_sent ?s = us_sent s @ [r]" "sd_frame r = x"
      "sd_flags r = v2_flags_for_frame (sd_packet r) False (us_first_packet s)"
    using f(1) Cons.prems(3) by auto
  have run: "run_ops (udp_step oa rs us socket target plane) (map (\<lambda>(a, n). Us_Send a n) ts) ?s = Inr t"
    using Cons.prems(1) q by (auto split: if_splits prod.splits)
  have "us_encoded ?s = xs" "us_last_sent_mode ?s = us_mode ?s" "us_mode ?s = us_mode s"
    using f by simp_all
  with Cons.IH [OF run] Cons.prems(2) q obtain rs where
    "us_sent t = us_sent ?s @ rs" "map sd_frame rs = xs"
    "\<forall>r \<in> set rs. sd_flags r AND UDP_FLAG_V2_CONFIG_CHANGED = 0"
    "us_last_sent_mode t = us_mode s" "us_mode t = us_mode s" "us_encoded t = []" by auto
  then show ?case
    using r q v2_flag_bits(1) [of "sd_packet r" False "us_first_packet s"]
    by (intro exI [of _ "r # rs"]) auto
qed

text \<open>
  The mark of a change of mode is on the wrong packet. When the mode changes while encoded frames
  wait, the mark goes to the oldest of them, which was encoded in the old mode; the rest of the
  waiting frames, and then the first frame really encoded in the new mode, carry none.
\<close>
theorem mode_mark_misplaced:
  assumes "us_encoded s = q # qs" and "\<forall>x \<in> set (q # qs). fst x = us_last_sent_mode s"
    and "mode \<noteq> us_last_sent_mode s" and "length ts = Suc (length qs)"
    and "run_ops (udp_step oa rs us socket target plane)
      (Us_Mode mode # map (\<lambda>(a, n). Us_Send a n) ts) s = Inr t"
  shows "\<exists>r rs. us_sent t = us_sent s @ r # rs \<and> map sd_frame (r # rs) = q # qs
    \<and> sd_flags r AND UDP_FLAG_V2_CONFIG_CHANGED \<noteq> 0 \<and> fst (sd_frame r) \<noteq> mode
    \<and> (\<forall>r' \<in> set rs. sd_flags r' AND UDP_FLAG_V2_CONFIG_CHANGED = 0)
    \<and> (\<forall>a n ef. sd_flags (last (us_sent (udp_on_encoded us socket target plane a n (mode, ef) t)))
          AND UDP_FLAG_V2_CONFIG_CHANGED = 0)"
proof -
  obtain a n ts' where ts: "ts = (a, n) # ts'" using assms(4) by (cases ts) auto
  let ?s = "udp_on_encoded us socket target plane a n q (s\<lparr>us_mode := mode, us_encoded := qs\<rparr>)"
  note f = udp_send_fields [of ?s us socket target plane a n q "s\<lparr>us_mode := mode, us_encoded := qs\<rparr>", OF refl]
  obtain r where r: "us_sent ?s = us_sent s @ [r]" "sd_frame r = q"
      "sd_flags r = v2_flags_for_frame (sd_packet r) True (us_first_packet s)"
    using f(1) assms(3) by auto
  have run: "run_ops (udp_step oa rs us socket target plane) (map (\<lambda>(a, n). Us_Send a n) ts') ?s = Inr t"
    using assms(1,5) ts by (auto split: if_splits)
  have "us_encoded ?s = qs" "us_last_sent_mode ?s = us_mode ?s" "us_mode ?s = mode"
    using f by simp_all
  with udp_sends_unmarked [OF run] assms(4) ts obtain rs where
    rs: "us_sent t = us_sent ?s @ rs" "map sd_frame rs = qs"
      "\<forall>r \<in> set rs. sd_flags r AND UDP_FLAG_V2_CONFIG_CHANGED = 0"
      "us_last_sent_mode t = mode" "us_mode t = mode" by auto
  have "sd_flags (last (us_sent (udp_on_encoded us socket target plane a n (mode, ef) t)))
      AND UDP_FLAG_V2_CONFIG_CHANGED = 0" for a n ef
    using udp_send_fields(1) [of _ us socket target plane a n "(mode, ef)" t, OF refl]
      v2_flag_bits(1) [of _ False] rs(4,5) by auto
  moreover have "sd_flags r AND UDP_FLAG_V2_CONFIG_CHANGED \<noteq> 0"
    using r(3) v2_flag_bits(1) by simp
  ultimately show ?thesis
    using r rs assms(2,3) by (intro exI [of _ r] exI [of _ rs]) auto
qed

section \<open>Concrete runs\<close>

definition sample_encoded :: encoded_frame where
  "sample_encoded = \<lparr>ef_pts_ms = 0, ef_sample_rate = 48000, ef_channels = 2,
     ef_frames_per_packet = 480, ef_codec = Udp_Pcm16, ef_is_silence = False, ef_source_peak = 0,
     ef_source_rms = 0, ef_payload = [1, 2, 3, 4]\<rparr>"

text \<open>A libopus that cannot be initialised.\<close>

definition absent_opus :: "unit opus_api" where
  "absent_opus = \<lparr>oa_new = (\<lambda>_ _. Inl ''no encoder''), oa_set = (\<lambda>_ i. (Inr (), i)),
     oa_encode = (\<lambda>samples room i. (Inr (take room [1, 2, 3]), i))\<rparr>"

definition sample_stream :: "(nat, unit, unit) udp_stream" where
  "sample_stream = udp_stream_init absent_opus False Sel_Pcm16 48000 Balanced Balanced 0 0 metrics_default"

definition sample_target :: socket_addr where
  "sample_target = \<lparr>sa_ip = V4 127 0 0 1, sa_port = 40000\<rparr>"

abbreviation sample_udp_step ::
  "udp_event \<Rightarrow> (nat, unit, unit) udp_stream \<Rightarrow> unit + (nat, unit, unit) udp_stream" where
  "sample_udp_step \<equiv> udp_step absent_opus sample_resampler sample_udp_send () sample_target V2Header"

text \<open>One captured frame of PCM16, sent in the mode it was encoded in.\<close>

definition sample_stream_events :: "udp_event list" where
  "sample_stream_events = [Us_Capture (Inr sample_frame) Cap_Started None 0 0, Us_Encode 0,
     Us_Hand_Over 0 0, Us_Send 0 0]"

lemma sample_stream_run: "\<exists>s. run_ops sample_udp_step sample_stream_events sample_stream = Inr s
    \<and> length (us_sent s) = 1"
proof -
  let ?e = "frame_encoder_new absent_opus Sel_Pcm16 Balanced 48000"
  have "single_packet (fst (encode_frame absent_opus sample_resampler sample_frame Balanced ?e))"
    by (rule pcm16_encoder_single) (simp add: frame_encoder_new_def)
  then obtain ef e' where "encode_frame absent_opus sample_resampler sample_frame Balanced ?e = ([ef], e')"
    by (metis prod.collapse single_packet_def)
  then show ?thesis
    by (auto simp: sample_stream_events_def sample_stream_def udp_stream_init_def udp_on_capture_def
        capture_turn_def STREAM_CHANNEL_CAPACITY_def Let_def udp_on_frame_def udp_apply_tier_def
        normalize_encoder_sample_rate_def udp_hand_over_def udp_on_encoded_def sample_udp_send_def)
qed

theorem udp_stream_invariant_witness:
  "\<exists>s. run_ops sample_udp_step sample_stream_events sample_stream = Inr s
    \<and> sd_flags (us_sent s ! 0) AND UDP_FLAG_V2_DISCONTINUITY \<noteq> 0"
proof -
  obtain s where s: "run_ops sample_udp_step sample_stream_events sample_stream = Inr s"
    "length (us_sent s) = 1" using sample_stream_run by blast
  show ?thesis
    using udp_stream_invariant [OF s(1) [unfolded sample_stream_def]] s by (auto simp: Let_def)
qed

theorem mode_mark_misplaced_witness:
  "\<exists>t. run_ops sample_udp_step [Us_Mode LowLatency, Us_Send 0 0]
       (sample_stream\<lparr>us_encoded := [(Balanced, sample_encoded)]\<rparr>) = Inr t
     \<and> sd_flags (us_sent t ! 0) AND UDP_FLAG_V2_CONFIG_CHANGED \<noteq> 0"
proof -
  let ?s = "sample_stream\<lparr>us_encoded := [(Balanced, sample_encoded)]\<rparr>"
  have q: "us_encoded ?s = [(Balanced, sample_encoded)]" "us_last_sent_mode ?s = Balanced" "us_sent ?s = []"
    by (simp_all add: sample_stream_def udp_stream_init_def)
  obtain t where t: "run_ops sample_udp_step (Us_Mode LowLatency # map (\<lambda>(a, n). Us_Send a n) [(0, 0)]) ?s = Inr t"
    by (simp add: sample_stream_def udp_stream_init_def)
  show ?thesis
    using mode_mark_misplaced [OF q(1) _ _ _ t] t q(2,3) by auto
qed

end
