(* ===== verification/Stream_Typing.thy ===== *)
theory Stream_Typing
  imports Udp_Stream
begin

text \<open>
  What goes over the wire is what the receiver was promised. A typing of encoded frames against the
  negotiated codec is kept by the encoder (\<open>AudioFrameEncoder\<close>), by the pool of the encode worker and
  by the stream to one target, so every datagram of
  \<open>crates/lan_audio_server/src/transport.rs\<close> decodes with the format of its data plane. The one
  assumption is libopus' contract: it writes no more bytes than the buffer it is given.
\<close>

section \<open>Typing encoded frames\<close>

definition opus_in_bounds :: "'o opus_api \<Rightarrow> bool" where
  "opus_in_bounds oa \<longleftrightarrow> (\<forall>samples room i p j. oa_encode oa samples room i = (Inr p, j) \<longrightarrow> length p \<le> room)"

lemma opus_in_boundsD:
  "oa_encode oa samples room i = (Inr p, j) \<Longrightarrow> opus_in_bounds oa \<Longrightarrow> length p \<le> room"
  unfolding opus_in_bounds_def by blast

definition frame_typed :: "codec_selection \<Rightarrow> encoded_frame \<Rightarrow> bool" where
  "frame_typed codec ef \<longleftrightarrow>
     ef_codec ef = Udp_Pcm16 \<and> length (ef_payload ef) \<le> 1920
     \<or> ef_codec ef = Udp_Opus \<and> codec = Sel_Opus \<and> length (ef_payload ef) \<le> 4000
     \<or> ef_codec ef = Udp_Pcm24 \<and> codec = Sel_Pcm24"

lemma out_frames_bound: "out_frames_10ms (normalize_encoder_sample_rate r) \<le> 480"
  by (auto simp: out_frames_10ms_def normalize_encoder_sample_rate_def DEFAULT_OUTPUT_SAMPLE_RATE_def)

lemma pcm16_typed:
  "resample_to_stereo_10ms rs f e = (xs, e') \<Longrightarrow> frame_typed codec (encode_pcm16_from_samples f xs r)"
  using resample_length [of rs f e] out_frames_bound [of "fe_output_sample_rate e"]
  by (simp add: frame_typed_def length_pcm16_payload) (simp add: encode_pcm16_from_samples_def)

lemma opus_encode_typed:
  "opus_in_bounds oa \<Longrightarrow> opus_encode oa b mode oe = (Inr ef, oe') \<Longrightarrow> frame_typed Sel_Opus ef"
  by (auto simp: opus_encode_def frame_typed_def Let_def dest: opus_in_boundsD split: prod.splits sum.splits)

lemma drain_opus_typed:
  assumes "opus_in_bounds oa" and "\<forall>ef \<in> set acc. frame_typed Sel_Opus ef"
    and "drain_opus n oa mode acc oe b = (Inr fs, oe', b')"
  shows "\<forall>ef \<in> set fs. frame_typed Sel_Opus ef"
  using assms(2,3)
proof (induction n arbitrary: acc oe b)
  case (Suc n)
  show ?case
  proof (cases "pop_20ms b")
    case (Pair x c)
    show ?thesis
    proof (cases x)
      case (Some y)
      obtain z oe1 where z: "opus_encode oa y mode oe = (z, oe1)" by fastforce
      then obtain ef where ef: "z = Inr ef" using Suc.prems(2) Pair Some by (cases z) auto
      with opus_encode_typed [OF assms(1)] z have "\<forall>ef \<in> set (acc @ [ef]). frame_typed Sel_Opus ef"
        using Suc.prems(1) by auto
      from Suc.IH [OF this] show ?thesis using Suc.prems(2) Pair Some z ef by simp
    qed (use Suc.prems Pair in simp)
  qed
qed simp

lemma encode_frame_typed:
  assumes "opus_in_bounds oa" and "encode_frame oa rs f mode e = (fs, e')"
  shows "(\<forall>ef \<in> set fs. frame_typed (fe_codec e) ef) \<and> fe_codec e' = fe_codec e"
proof (cases "fe_codec e = Sel_Pcm24 \<and> \<not> fe_force_pcm16_fallback e")
  case True
  then show ?thesis
    using assms(2) by (auto simp: encode_frame_def frame_typed_def encode_pcm24_from_native_def Let_def
        split: if_splits prod.splits)
next
  case False
  obtain xs e1 where r: "resample_to_stereo_10ms rs f e = (xs, e1)" by fastforce
  note k = resample_keeps [OF r] and t = pcm16_typed [OF r]
  show ?thesis
  proof (cases "fe_codec e = Sel_Opus \<and> \<not> fe_force_pcm16_fallback e \<and> fe_opus e \<noteq> None
      \<and> fe_opus_frame_buffer e \<noteq> None")
    case True
    then obtain oe b where ob: "fe_opus e = Some oe" "fe_opus_frame_buffer e = Some b" by auto
    let ?b = "push_10ms (fr_pts_ms f) xs (fr_is_silence f) (fr_peak f) (fr_rms f) b"
    obtain z oe' b' where d: "drain_opus (Suc (length (fb_samples ?b))) oa mode [] oe ?b = (z, oe', b')"
      by (metis prod_cases3)
    show ?thesis
      using assms(2) True ob k t drain_opus_typed [OF assms(1), of "[]"] d
      by (cases z) (auto simp: encode_frame_def r Let_def simp del: drain_opus.simps)
  qed (use assms(2) False k t in \<open>auto simp: encode_frame_def r Let_def split: option.splits if_splits\<close>)
qed

lemma apply_tier_profile_codec [simp]: "fe_codec (apply_tier_profile oa prof mode e) = fe_codec e"
  by (simp add: apply_tier_profile_def)

lemma frame_encoder_new_codec [simp]: "fe_codec (frame_encoder_new oa codec mode rate) = codec"
  by (simp add: frame_encoder_new_def Let_def)

section \<open>Typing datagrams\<close>

text \<open>
  The datagram of a PCM16 or Opus packet: the plane's decoder gives back the packet, and it fits
  the 4096 bytes a receiver reads.
\<close>

definition datagram_typed :: "data_plane_format \<Rightarrow> udp_audio_packet \<Rightarrow> u16 \<Rightarrow> udp_audio_codec_v2 \<Rightarrow> u8 list \<Rightarrow> bool" where
  "datagram_typed plane p vflags codec bytes \<longleftrightarrow> length bytes \<le> 4033
     \<and> (case plane of
          V2Header \<Rightarrow> decode_packet_v2 bytes
            = Inr \<lparr>v2_header = build_v2_header_preview p vflags codec, v2_payload = p_payload p\<rparr>
        | LegacyLas1 \<Rightarrow> decode_las1 bytes = Inr p)"

lemma small_packet_typed:
  assumes "length (p_payload p) \<le> 4000"
  shows "datagram_typed plane p vflags codec (encode_packet_by_data_plane p plane vflags codec)"
proof -
  let ?q = "\<lparr>v2_header = build_v2_header_preview p vflags codec, v2_payload = p_payload p\<rparr>"
  have wf: "wf_packet_v2 ?q"
    using assms by (simp add: wf_packet_v2_def wf_header_v2_def build_v2_header_preview_def
        UDP_AUDIO_HEADER_V2_LEN_def unsigned_of_nat take_bit_nat_eq_self)
  then have "length (encode_packet_v2 ?q) = 33 + length (p_payload p)"
    by (subst length_encode_packet_v2) (simp_all add: wf_packet_v2_def UDP_AUDIO_HEADER_V2_LEN_def)
  then show ?thesis
    using assms v2.decode_encode [OF wf] las1.decode_encode [of p]
    by (cases plane) (simp_all add: datagram_typed_def wf_las1_def AUDIO_HEADER_LEN_def)
qed

lemma packet_of_payload [simp]: "p_payload (packet_of ef s) = ef_payload ef"
  by (simp add: packet_of_def)

lemma frame_typed_small: "frame_typed codec ef \<Longrightarrow> ef_codec ef \<noteq> Udp_Pcm24 \<Longrightarrow> length (ef_payload ef) \<le> 4000"
  by (auto simp: frame_typed_def)

section \<open>The stream to one target\<close>

definition udp_typed :: "codec_selection \<Rightarrow> ('w, 'o, 'r) udp_stream \<Rightarrow> bool" where
  "udp_typed codec s \<longleftrightarrow> fe_codec (us_encoder s) = codec
     \<and> (\<forall>x \<in> set (us_made s). frame_typed codec (snd x))"

lemma udp_typed_cong:
  "udp_typed codec s \<Longrightarrow> us_encoder t = us_encoder s \<Longrightarrow> us_made t = us_made s \<Longrightarrow> udp_typed codec t"
  by (simp add: udp_typed_def)

lemma udp_frame_typed:
  assumes "opus_in_bounds oa" and "udp_typed codec s"
  shows "udp_typed codec (udp_on_frame oa rs wall_ms f s)"
proof -
  let ?s = "udp_apply_tier oa s"
  obtain fs e where e: "encode_frame oa rs f (us_mode ?s) (us_encoder ?s) = (fs, e)" by fastforce
  have c: "fe_codec (us_encoder ?s) = codec" "us_made ?s = us_made s"
    using assms(2) by (simp_all add: udp_typed_def udp_apply_tier_def)
  show ?thesis
    using assms(2) c encode_frame_typed [OF assms(1) e]
    by (auto simp: udp_on_frame_def e Let_def udp_typed_def)
qed

lemma udp_step_typed:
  assumes "opus_in_bounds oa" and "udp_typed codec s"
    and "udp_step oa rs us socket target plane x s = Inr t"
  shows "udp_typed codec t"
proof (cases x)
  case (Us_Encode n)
  obtain f fs where "us_frames s = f # fs" using assms(3) Us_Encode by (cases "us_frames s") auto
  moreover have "udp_typed codec (s\<lparr>us_frames := fs\<rparr>)" using assms(2) by (simp add: udp_typed_def)
  ultimately show ?thesis
    using assms(3) Us_Encode udp_frame_typed [OF assms(1)] by (auto split: if_splits)
qed (use assms(3) in \<open>auto simp: udp_on_capture_def udp_capture_stop_def udp_hand_over_def
      udp_encode_timeout_def udp_on_watchdog_def udp_on_encoded_def udp_stop_def Let_def
      split: if_splits list.splits option.splits prod.splits sum.splits
      intro!: udp_typed_cong [OF assms(2)]\<close>)

interpretation udp_typing: guarded_machine
  "\<lambda>x s. if opus_in_bounds oa then udp_step oa rs us socket target plane x s else Inl ()"
  "udp_typed codec" for oa rs us socket target plane codec
  by unfold_locales (auto split: if_splits intro: udp_step_typed)

text \<open>Every send of a run, with what it carries.\<close>

lemma udp_run_typed:
  assumes "opus_in_bounds oa" and "codec \<noteq> Sel_Pcm24"
    and "run_ops (udp_step oa rs us socket target plane) evs
      (udp_stream_init oa adaptive_enabled codec rate encode_mode mode now w m) = Inr s"
    and "k < length (us_sent s)"
  shows "frame_typed codec (snd (sd_frame (us_sent s ! k)))
    \<and> datagram_typed plane (sd_packet (us_sent s ! k)) (sd_flags (us_sent s ! k))
        (ef_codec (snd (sd_frame (us_sent s ! k)))) (sd_bytes (us_sent s ! k))"
proof -
  let ?r = "us_sent s ! k" and ?ef = "snd (sd_frame (us_sent s ! k))"
  have i: "udp_inv plane mode s" by (rule udp.run_ops_inv [OF udp_init_inv assms(3)])
  have "udp_typed codec (udp_stream_init oa adaptive_enabled codec rate encode_mode mode now w m)"
    by (simp add: udp_typed_def udp_stream_init_def)
  then have "udp_typed codec s"
    by (rule udp_typing.run_ops_inv [of codec _ oa rs us socket target plane evs])
      (simp add: assms(1,3))
  moreover have "sd_frame ?r \<in> set (us_made s)" using i assms(4) by (simp add: udp_inv_def)
  ultimately have t: "frame_typed codec ?ef" by (simp add: udp_typed_def)
  with assms(2) have "length (ef_payload ?ef) \<le> 4000" by (auto simp: frame_typed_def)
  moreover have "sent_as plane mode (us_sent s) k" using i assms(4) by (simp add: udp_inv_def)
  ultimately show ?thesis
    using t small_packet_typed [of "sd_packet ?r"] by (simp add: sent_as_def)
qed

section \<open>The encode worker and the broadcast\<close>

text \<open>
  A wire frame fits its recipient: a PCM24 fragment only for a client that negotiated PCM24 on the
  v2 plane, Opus only for an Opus client, PCM16 for anyone; in the format of the client's plane.
\<close>

definition wire_typed :: "'wr wire_frame_out \<Rightarrow> bool" where
  "wire_typed x \<longleftrightarrow>
     (if wf_codec x = Udp_Pcm24
      then bc_codec (wf_client x) = Sel_Pcm24 \<and> bc_data_plane (wf_client x) = V2Header
        \<and> length (wf_wire_bytes x) \<le> 1429
        \<and> (\<exists>q. decode_packet_v3 (wf_wire_bytes x) = Inr q \<and> v3_codec (v3_header q) = Udp_Pcm24
             \<and> v3_sequence (v3_header q) = p_sequence (wf_packet x))
      else (wf_codec x = Udp_Pcm16 \<or> wf_codec x = Udp_Opus \<and> bc_codec (wf_client x) = Sel_Opus)
        \<and> datagram_typed (bc_data_plane (wf_client x)) (wf_packet x) (wf_v2_flags x) (wf_codec x)
            (wf_wire_bytes x))"

lemma pcm24_fragment_decodes:
  assumes "i < t" and "t \<le> 255"
  shows "length (encode_packet_v3 (pcm24_fragment p fl c (of_nat t) i nx)) \<le> 1429
    \<and> (\<exists>q. decode_packet_v3 (encode_packet_v3 (pcm24_fragment p fl c (of_nat t) i nx)) = Inr q
         \<and> v3_codec (v3_header q) = c \<and> v3_sequence (v3_header q) = nx)"
proof -
  let ?f = "pcm24_fragment p fl c (of_nat t) i nx"
  have wf: "wf_packet_v3 ?f" by (rule wf_pcm24_fragment [OF assms])
  have "length (encode_packet_v3 ?f) = 37 + length (v3_payload ?f)"
    using wf by (subst length_encode_packet_v3) (simp_all add: wf_packet_v3_def wire_simps)
  moreover have "length (v3_payload ?f) \<le> 1392"
    by (simp add: pcm24_fragment_def Let_def MAX_PCM24_FRAG_PAYLOAD_BYTES_def)
  moreover have "v3_codec (v3_header ?f) = c" "v3_sequence (v3_header ?f) = nx"
    by (simp_all add: pcm24_fragment_def Let_def)
  ultimately show ?thesis using v3.decode_encode [OF wf] by auto
qed

lemma wires_for_client_typed:
  assumes "frame_typed (bc_codec c) ef" and "x \<in> set (wires_for_client (packet_of ef s) ef c)"
  shows "wire_typed x"
proof (cases "ef_codec ef = Udp_Pcm24")
  case False
  let ?fl = "v2_flags_for_frame (packet_of ef s) (bc_mode_changed c) (bc_first_packet c)"
  have x: "wf_client x = c" "wf_packet x = packet_of ef s" "wf_v2_flags x = ?fl" "wf_codec x = ef_codec ef"
      "wf_wire_bytes x = encode_packet_by_data_plane (packet_of ef s) (bc_data_plane c) ?fl (ef_codec ef)"
    using assms(2) False
    by (simp_all add: wires_for_client_def encode_packets_by_data_plane_def Let_def frag_packet_def)
  show ?thesis
    using assms(1) False small_packet_typed [of "packet_of ef s" "bc_data_plane c" ?fl "ef_codec ef"]
      frame_typed_small [OF assms(1) False]
    unfolding wire_typed_def x by (auto simp: frame_typed_def)
next
  case True
  let ?p = "packet_of ef s" and ?n = "pcm24_total_frags (length (ef_payload ef))"
  let ?fl = "v2_flags_for_frame ?p (bc_mode_changed c) (bc_first_packet c)"
  have v: "bc_data_plane c = V2Header" "?n \<le> 255"
    using assms(2) True by (auto simp: wires_for_client_def encode_packets_by_data_plane_def Let_def
        split: if_splits intro: data_plane_format.exhaust [of "bc_data_plane c"])
  then obtain i where i: "i < ?n" "wf_client x = c" "wf_codec x = Udp_Pcm24" "wf_packet x = frag_packet ?p i"
      "wf_wire_bytes x = encode_packet_v3 (pcm24_fragment ?p ?fl Udp_Pcm24 (of_nat ?n) i (s + of_nat i))"
    using assms(2) True
    by (auto simp: wires_for_client_def encode_packets_by_data_plane_def Let_def pcm24_frag_loop_map
        in_set_enumerate_eq packet_of_def)
  have "bc_codec c = Sel_Pcm24" using assms(1) True by (simp add: frame_typed_def)
  moreover have "p_sequence (frag_packet ?p i) = s + of_nat i" by (simp add: frag_packet_def packet_of_def)
  ultimately show ?thesis
    using pcm24_fragment_decodes [OF i(1) v(2), of ?p ?fl Udp_Pcm24 "s + of_nat i"] v i(2-5)
    by (simp add: wire_typed_def)
qed

lemma recipients_typed:
  "frame_typed codec ef \<Longrightarrow> \<forall>c \<in> set cs. bc_codec c = codec \<Longrightarrow>
    x \<in> set (fst (recipients_loop (packet_of ef s0) ef cs s)) \<Longrightarrow> wire_typed x"
  by (auto simp: recipients_loop_eq intro: wires_for_client_typed)

lemma encoded_loop_typed:
  "\<forall>ef \<in> set efs. frame_typed codec ef \<Longrightarrow> \<forall>c \<in> set cs. bc_codec c = codec \<Longrightarrow>
    x \<in> set (fst (encoded_loop efs cs s)) \<Longrightarrow> wire_typed x"
proof (induction efs arbitrary: s)
  case (Cons ef efs)
  show ?case
    using Cons.prems recipients_typed [of codec ef cs x s "s + 1"]
      Cons.IH [of "snd (recipients_loop (packet_of ef s) ef cs (s + 1))"]
    by (simp add: Let_def split_beta) blast
qed simp

definition worker_typed :: "('o, 'r) encode_worker \<Rightarrow> bool" where
  "worker_typed w \<longleftrightarrow> (\<forall>key e. ew_encoders w key = Some e \<longrightarrow> fe_codec e = fst key)"

lemma encode_group_typed:
  assumes "opus_in_bounds oa" and "worker_typed w" and "encode_group oa rs job key w = (ws, w')"
  shows "(\<forall>x \<in> set ws. wire_typed x) \<and> worker_typed w'"
proof -
  let ?e = "encoder_for oa (job_active_tier job) key w"
  obtain fs e where e: "encode_frame oa rs (job_frame job) (fst (snd key)) ?e = (fs, e)" by fastforce
  obtain xs s where l: "encoded_loop fs (group_of key (job_clients job)) (ew_sequence w) = (xs, s)"
    by fastforce
  have "fe_codec ?e = fst key"
    using assms(2) by (cases key) (auto simp: encoder_for_def worker_typed_def split: option.split)
  with encode_frame_typed [OF assms(1) e] have t: "\<forall>ef \<in> set fs. frame_typed (fst key) ef" "fe_codec e = fst key"
    by auto
  have g: "\<forall>c \<in> set (group_of key (job_clients job)). bc_codec c = fst key"
    by (auto simp: group_of_def encoder_key_of_def)
  show ?thesis
    using assms(2,3) encoded_loop_typed [OF t(1) g, of _ "ew_sequence w"] t(2)
    by (auto simp: encode_group_def e l worker_typed_def split: if_splits)
qed

lemma groups_loop_typed:
  assumes "opus_in_bounds oa"
  shows "worker_typed w \<Longrightarrow> groups_loop oa rs job keys w = (ws, w') \<Longrightarrow>
    (\<forall>x \<in> set ws. wire_typed x) \<and> worker_typed w'"
proof (induction keys arbitrary: w ws)
  case (Cons key keys)
  obtain xs u where g: "encode_group oa rs job key w = (xs, u)" by fastforce
  obtain ys v where r: "groups_loop oa rs job keys u = (ys, v)" by fastforce
  show ?case
    using encode_group_typed [OF assms Cons.prems(1) g] Cons.IH [of u ys] Cons.prems(2) g r by auto
qed simp

lemma process_job_typed:
  assumes "opus_in_bounds oa" and "worker_typed w" and "process_job oa rs job keys w = (ws, w')"
  shows "(\<forall>x \<in> set ws. wire_typed x) \<and> worker_typed w'"
proof -
  have "worker_typed (apply_tier oa (job_active_tier job) w)"
    using assms(2) by (auto simp: worker_typed_def apply_tier_def)
  from groups_loop_typed [OF assms(1) this] show ?thesis using assms(3) by (simp add: process_job_def)
qed

definition pipeline_typed :: "('tx, 'wr, 'w, 'o, 'r) broadcast_state \<Rightarrow> bool" where
  "pipeline_typed b \<longleftrightarrow> worker_typed (bp_worker b) \<and> (\<forall>x \<in> set (bp_history b). wire_typed x)"

lemma pipeline_typed_cong:
  "pipeline_typed b \<Longrightarrow> bp_worker c = bp_worker b \<Longrightarrow> bp_history c = bp_history b \<Longrightarrow> pipeline_typed c"
  by (simp add: pipeline_typed_def)

lemma worker_turn_typed:
  assumes "opus_in_bounds oa" and "pipeline_typed b"
  shows "pipeline_typed (worker_turn oa rs job keys b)"
proof -
  obtain ws w where p: "process_job oa rs job keys (bp_worker b) = (ws, w)" by fastforce
  show ?thesis
    using process_job_typed [OF assms(1) _ p] assms(2) by (auto simp: worker_turn_def p pipeline_typed_def)
qed

lemma broadcast_step_typed:
  assumes "opus_in_bounds oa" and "pipeline_typed b"
    and "broadcast_step js oa rs us sw socket x b = Inr c"
  shows "pipeline_typed c"
proof (cases x)
  case (Ev_Worker keys)
  obtain job jobs where "bp_jobs b = job # jobs" using assms(3) Ev_Worker by (cases "bp_jobs b") auto
  moreover have "pipeline_typed (b\<lparr>bp_jobs := jobs\<rparr>)" using assms(2) by (simp add: pipeline_typed_def)
  ultimately show ?thesis
    using assms(3) Ev_Worker worker_turn_typed [OF assms(1)] by (auto split: if_splits)
qed (use assms(3) in \<open>auto simp: on_capture_def on_frame_def on_watchdog_tick_def on_result_def Let_def
      split: if_splits list.splits option.splits prod.splits sum.splits
      intro!: pipeline_typed_cong [OF assms(2)]\<close>)

interpretation pipeline_typing: guarded_machine
  "\<lambda>x b. if opus_in_bounds oa then broadcast_step js oa rs us sw socket x b else Inl ()" pipeline_typed
  for js oa rs us sw socket
  by unfold_locales (auto split: if_splits intro: broadcast_step_typed)

section \<open>Properties\<close>

text \<open>
  C7: every datagram of the broadcast is typed. Whatever the clients negotiated and however the tasks
  interleave, each wire frame the worker ever makes is in the format of its recipient's data plane
  and carries a codec the recipient negotiated or PCM16: on the legacy plane the LAS1 decoder gives
  the packet back, on the v2 plane the v2 decoder, and a PCM24 fragment is a v3 packet for a v2
  client that negotiated PCM24. No datagram exceeds the 4096 bytes a receiver reads at once.
\<close>
theorem broadcast_wire_typed:
  assumes "opus_in_bounds oa"
    and "run_ops (broadcast_step js oa rs us sw socket) evs (transport_start adaptive_enabled r w now) = Inr b"
    and "x \<in> set (bp_history b)"
  shows "length (wf_wire_bytes x) \<le> 4033
    \<and> (case wf_codec x of
         Udp_Pcm16 \<Rightarrow> datagram_typed (bc_data_plane (wf_client x)) (wf_packet x) (wf_v2_flags x) Udp_Pcm16 (wf_wire_bytes x)
       | Udp_Opus \<Rightarrow> bc_codec (wf_client x) = Sel_Opus
           \<and> datagram_typed (bc_data_plane (wf_client x)) (wf_packet x) (wf_v2_flags x) Udp_Opus (wf_wire_bytes x)
       | Udp_Pcm24 \<Rightarrow> bc_codec (wf_client x) = Sel_Pcm24 \<and> bc_data_plane (wf_client x) = V2Header
           \<and> (\<exists>q. decode_packet_v3 (wf_wire_bytes x) = Inr q \<and> v3_codec (v3_header q) = Udp_Pcm24
                \<and> v3_sequence (v3_header q) = p_sequence (wf_packet x))
       | Udp_F32 \<Rightarrow> False)"
proof -
  have "pipeline_typed (transport_start adaptive_enabled r w now)"
    by (simp add: pipeline_typed_def transport_start_def worker_typed_def worker_new_def)
  then have "pipeline_typed b"
    by (rule pipeline_typing.run_ops_inv [of _ oa js rs us sw socket evs]) (simp add: assms(1,2))
  then have "wire_typed x" using assms(3) by (simp add: pipeline_typed_def)
  then show ?thesis
    by (cases "wf_codec x") (auto simp: wire_typed_def datagram_typed_def)
qed

section \<open>Concrete runs\<close>

lemma absent_opus_bounded: "opus_in_bounds absent_opus"
  by (auto simp: opus_in_bounds_def absent_opus_def)

definition fallback_transport :: "(nat, nat, nat, unit, unit) broadcast_state" where
  "fallback_transport = transport_start False streaming_registry 0 0"

abbreviation fallback_step where
  "fallback_step \<equiv> broadcast_step sample_json absent_opus sample_resampler sample_udp_send
     sample_stream_write ()"

definition fallback_events :: "(nat, nat) broadcast_event list" where
  "fallback_events = [Ev_Capture (Inr sample_frame) Cap_Started None 0 0, Ev_Frame,
     Ev_Worker [(Sel_Opus, Balanced, 48000)]]"

lemma streaming_snapshot:
  assumes "reg_clients r = reg_clients streaming_registry"
  shows "\<exists>d r'. take_broadcast_clients r = ([d], r') \<and> bc_codec d = Sel_Opus
    \<and> encoder_key_of d = (Sel_Opus, Balanced, 48000)"
proof -
  obtain c where c: "reg_clients streaming_registry = [c]" "ch_transport c = Some (Transport_Usb 5)"
    "ch_codec c = Sel_Opus" "ch_audio_mode c = Balanced" "ch_preferred_sample_rate c = 48000"
    by (simp add: streaming_registry_def attach_usb_stream_def drop_expired_def expired_pending_def
        register_eval USB_PENDING_TIMEOUT_SECS_def update_client_def set_usb_stream_def)
  then show ?thesis
    using assms by (simp add: take_broadcast_clients_def map_filter_simps broadcast_view_def
        encoder_key_of_def normalize_encoder_sample_rate_def)
qed

lemma fallback_encodes:
  "\<exists>ef e. encode_frame absent_opus rs f mode (encoder_for absent_opus tier (Sel_Opus, mode, rate) (worker_new s))
     = ([ef], e) \<and> ef_codec ef = Udp_Pcm16"
proof -
  let ?e = "encoder_for absent_opus tier (Sel_Opus, mode, rate) (worker_new s) :: (unit, 'a) audio_frame_encoder"
  obtain xs e' where r: "resample_to_stereo_10ms rs f ?e = (xs, e')" by fastforce
  have "fe_opus ?e = None" "fe_codec ?e = Sel_Opus"
    by (simp_all add: encoder_for_def worker_new_def apply_tier_profile_def frame_encoder_new_def
        opus_encoder_new_def absent_opus_def Let_def)
  then show ?thesis
    using resample_keeps [OF r]
    by (auto simp: encode_frame_def r encode_pcm16_from_samples_def)
qed

lemma fallback_run: "\<exists>b x. run_ops fallback_step fallback_events fallback_transport = Inr b
    \<and> bp_history b = [x] \<and> wf_codec x = Udp_Pcm16"
proof -
  define r0 where "r0 = streaming_registry\<lparr>reg_metrics :=
    snd (capture_turn (Inr sample_frame) Cap_Started None (reg_metrics streaming_registry))\<rparr>"
  obtain d r where d: "take_broadcast_clients r0 = ([d], r)" "bc_codec d = Sel_Opus"
      "encoder_key_of d = (Sel_Opus, Balanced, 48000)"
    using streaming_snapshot [of r0] by (auto simp: r0_def)
  obtain ef e where "encode_frame absent_opus sample_resampler sample_frame Balanced
      (encoder_for absent_opus Green (Sel_Opus, Balanced, 48000) (worker_new 0)) = ([ef], e)"
      "ef_codec ef = Udp_Pcm16"
    using fallback_encodes by blast
  then show ?thesis
    using d by (auto simp: fallback_events_def fallback_transport_def transport_start_def
        FRAME_CHANNEL_CAPACITY_def on_capture_def capture_turn_def Let_def r0_def on_frame_def
        valid_order_def worker_turn_def process_job_def apply_tier_def worker_new_def encode_group_def
        group_of_def wires_for_client_def encode_packets_by_data_plane_def)
qed

theorem broadcast_wire_typed_witness:
  "\<exists>b x. run_ops fallback_step fallback_events fallback_transport = Inr b \<and> bp_history b = [x]
    \<and> datagram_typed (bc_data_plane (wf_client x)) (wf_packet x) (wf_v2_flags x) Udp_Pcm16 (wf_wire_bytes x)"
proof -
  obtain b x where b: "run_ops fallback_step fallback_events fallback_transport = Inr b"
    "bp_history b = [x]" "wf_codec x = Udp_Pcm16" using fallback_run by blast
  show ?thesis
    using broadcast_wire_typed [OF absent_opus_bounded b(1) [unfolded fallback_transport_def], of x] b
    by auto
qed

end
