(* ===== verification/Mock_Client.thy ===== *)
theory Mock_Client
  imports Stream_Typing
begin

text \<open>
  The test client \<open>crates/lan_audio_server/src/bin/mock_android_client.rs\<close>: its arguments, the
  beacon it waits for, the messages it sends and the counters of its receive loop. It is the
  receiver that the typing of a stream is checked against: what a stream to one target sends is
  what the client counts. Messages are values; their JSON text is that of serde\_json.
\<close>

section \<open>Arguments and discovery\<close>

record direct_target =
  dt_host :: string
  dt_ws_port :: u16

text \<open>\<open>str::parse::<u16>\<close>.\<close>

definition parse_u16 :: "string \<Rightarrow> u16 option" where
  "parse_u16 s =
     (let ds = (case s of c # cs \<Rightarrow> if c = CHR ''+'' then cs else s | [] \<Rightarrow> []) in
      if ds = [] then None
      else case digits_value 0 ds of None \<Rightarrow> None
      | Some n \<Rightarrow> if n < 2 ^ 16 then Some (of_nat n) else None)"

text \<open>The index loop over the arguments, on the arguments that are left.\<close>

fun parse_target_loop :: "string list \<Rightarrow> string option \<Rightarrow> u16 \<Rightarrow> string option \<times> u16" where
  "parse_target_loop [] host ws_port = (host, ws_port)"
| "parse_target_loop [arg] host ws_port = (host, ws_port)"
| "parse_target_loop (arg # v # rest) host ws_port =
     (if arg = ''--host'' then parse_target_loop rest (Some v) ws_port
      else if arg = ''--ws-port''
      then parse_target_loop rest host (case parse_u16 v of Some port \<Rightarrow> port | None \<Rightarrow> ws_port)
      else parse_target_loop (v # rest) host ws_port)"

definition parse_target_from_args :: "string list \<Rightarrow> direct_target option" where
  "parse_target_from_args args =
     (case parse_target_loop (drop 1 args) None 39991 of
        (Some h, port) \<Rightarrow> Some \<lparr>dt_host = h, dt_ws_port = port\<rparr>
      | (None, _) \<Rightarrow> None)"

definition parse_supports_opus_from_args :: "string list \<Rightarrow> bool" where
  "parse_supports_opus_from_args args \<longleftrightarrow> ''--supports-opus'' \<in> set args"

text \<open>
  \<open>wait_for_beacon\<close> on what the socket receives: the first datagram that is a beacon; an error of
  the socket ends it, and with no more datagrams it waits (\<open>None\<close>).
\<close>

fun wait_for_beacon ::
  "(u8 list \<Rightarrow> discovery_beacon option) \<Rightarrow> (string + u8 list \<times> socket_addr) list
   \<Rightarrow> (string + discovery_beacon \<times> socket_addr) option" where
  "wait_for_beacon from_slice [] = None"
| "wait_for_beacon from_slice (Inl err # rest) = Some (Inl err)"
| "wait_for_beacon from_slice (Inr (bytes, from) # rest) =
     (case from_slice (take 2048 bytes) of
        Some beacon \<Rightarrow> Some (Inr (beacon, from))
      | None \<Rightarrow> wait_for_beacon from_slice rest)"

section \<open>The messages it sends\<close>

definition mock_capabilities :: "bool \<Rightarrow> protocol_capabilities" where
  "mock_capabilities opus =
     \<lparr>supports_pcm16 = True, supports_f32 = False, supports_modes = True, supports_metrics = True,
      supports_opus_future = opus, supports_opus = opus, supports_opus_experimental = opus,
      supports_low_latency = True, supports_high_quality = True, supports_native_audio_track = True,
      supports_fast_path = True, supports_stable_audio_track = True, supports_usb_tethering = True,
      supports_usb_direct_future = False, supports_reverse_channel = False,
      supports_hires_pcm24 = False, supports_ultra_low_latency = True\<rparr>"

definition mock_hello :: "bool \<Rightarrow> u16 \<Rightarrow> string \<Rightarrow> hello" where
  "mock_hello opus udp_port client_id =
     \<lparr>hello_protocol_version = PROTOCOL_VERSION_V2, hello_device_name = ''mock-android'',
      hello_client_id = client_id, hello_udp_port = udp_port, hello_desired_sample_rate = 48000,
      hello_channels = 2, hello_capabilities = mock_capabilities opus,
      hello_preferred_audio_mode = Balanced\<rparr>"

definition mock_client_info :: "u16 \<Rightarrow> client_info" where
  "mock_client_info udp_port = \<lparr>ci_client_name = ''mock-android'', ci_platform = ''mock'',
     ci_app_version = ''local'', ci_udp_port = udp_port\<rparr>"

datatype mock_out = Out_V2 control_message_v2 | Out_Client client_control_message

definition mock_set_mode :: "audio_mode \<Rightarrow> mock_out" where
  "mock_set_mode mode = Out_V2 (Msg_SetAudioMode \<lparr>sam_mode = mode, sam_reason = ''mock_validation'',
     sam_preferred_sample_rate = Some 48000, sam_preferred_codec = None\<rparr>)"

section \<open>The receive loop\<close>

record mock_client =
  rx_packets :: u64
  rx_bytes :: u64
  rx_last_seq :: "u32 option"
  rx_losses :: u64
  rx_v1 :: u64
  rx_v2 :: u64
  rx_pcm16 :: u64
  rx_opus :: u64
  rx_config_changed :: u64
  rx_discontinuity :: u64
  ping_seq :: u64
  mode_switch_step :: u8
  mock_sent :: "mock_out list"

definition mock_start :: "bool \<Rightarrow> u16 \<Rightarrow> string \<Rightarrow> mock_client" where
  "mock_start opus udp_port client_id =
     \<lparr>rx_packets = 0, rx_bytes = 0, rx_last_seq = None, rx_losses = 0, rx_v1 = 0, rx_v2 = 0,
      rx_pcm16 = 0, rx_opus = 0, rx_config_changed = 0, rx_discontinuity = 0, ping_seq = 0,
      mode_switch_step = 0,
      mock_sent = [Out_V2 (Msg_Hello (mock_hello opus udp_port client_id)),
                   Out_V2 (Msg_ClientInfo (mock_client_info udp_port))]\<rparr>"

definition mock_note_seq :: "u32 \<Rightarrow> mock_client \<Rightarrow> mock_client" where
  "mock_note_seq sequence c =
     (let c = (case rx_last_seq c of None \<Rightarrow> c
        | Some prev \<Rightarrow> if sequence \<noteq> prev + 1
            then c\<lparr>rx_losses := rx_losses c + ucast (sequence - (prev + 1))\<rparr> else c)
      in c\<lparr>rx_last_seq := Some sequence\<rparr>)"

definition mock_on_las1 :: "udp_audio_packet \<Rightarrow> mock_client \<Rightarrow> mock_client" where
  "mock_on_las1 p c =
     mock_note_seq (p_sequence p) (c\<lparr>rx_v1 := rx_v1 c + 1, rx_pcm16 := rx_pcm16 c + 1\<rparr>)"

definition mock_on_v2 :: "udp_audio_packet_v2 \<Rightarrow> mock_client \<Rightarrow> mock_client" where
  "mock_on_v2 p c =
     (let c = c\<lparr>rx_v2 := rx_v2 c + 1\<rparr>;
          c = (case v2_codec (v2_header p) of
                 Udp_Opus \<Rightarrow> c\<lparr>rx_opus := rx_opus c + 1\<rparr>
               | Udp_Pcm16 \<Rightarrow> c\<lparr>rx_pcm16 := rx_pcm16 c + 1\<rparr>
               | Udp_F32 \<Rightarrow> c | Udp_Pcm24 \<Rightarrow> c);
          c = (if v2_flags (v2_header p) AND UDP_FLAG_V2_CONFIG_CHANGED \<noteq> 0
               then c\<lparr>rx_config_changed := rx_config_changed c + 1\<rparr> else c);
          c = (if v2_flags (v2_header p) AND UDP_FLAG_V2_DISCONTINUITY \<noteq> 0
               then c\<lparr>rx_discontinuity := rx_discontinuity c + 1\<rparr> else c)
      in mock_note_seq (v2_sequence (v2_header p)) c)"

text \<open>A datagram as the socket gives it: at most the 4096 bytes of the buffer.\<close>

definition mock_on_datagram :: "u8 list \<Rightarrow> mock_client \<Rightarrow> mock_client" where
  "mock_on_datagram datagram c =
     (let buf = take 4096 datagram;
          c = c\<lparr>rx_packets := rx_packets c + 1, rx_bytes := rx_bytes c + of_nat (length buf)\<rparr>
      in case detect_data_plane_packet_kind buf of
           LegacyLas1Kind \<Rightarrow> (case decode_las1 buf of Inr p \<Rightarrow> mock_on_las1 p c | Inl _ \<Rightarrow> c)
         | V2Lav2Kind \<Rightarrow> (case decode_packet_v2 buf of Inr p \<Rightarrow> mock_on_v2 p c | Inl _ \<Rightarrow> c)
         | UnknownKind \<Rightarrow> c)"

datatype mock_event = Mock_Ws string | Mock_Udp "string + u8 list" | Mock_Ping u64

fun mock_event_turn :: "mock_event \<Rightarrow> mock_client \<Rightarrow> string + mock_client" where
  "mock_event_turn (Mock_Ws txt) c = Inr c"
| "mock_event_turn (Mock_Udp (Inl err)) c = Inl err"
| "mock_event_turn (Mock_Udp (Inr datagram)) c = Inr (mock_on_datagram datagram c)"
| "mock_event_turn (Mock_Ping ts) c =
     Inr (c\<lparr>mock_sent := mock_sent c @ [Out_Client (ClientPing (ping_seq c) ts)],
            ping_seq := ping_seq c + 1\<rparr>)"

text \<open>The end of a one-second window: the step decides on a change of mode, or on the end.\<close>

definition mock_window :: "mock_client \<Rightarrow> mock_client \<times> bool" where
  "mock_window c =
     (let step = sat_add (mode_switch_step c) 1;
          c = c\<lparr>mode_switch_step := step\<rparr>
      in if step = 3 then (c\<lparr>mock_sent := mock_sent c @ [mock_set_mode LowLatency]\<rparr>, False)
         else if step = 6 then (c\<lparr>mock_sent := mock_sent c @ [mock_set_mode HighQuality]\<rparr>, False)
         else if step = 9 then (c\<lparr>mock_sent := mock_sent c @ [mock_set_mode Balanced]\<rparr>, False)
         else (c, step \<ge> 12))"

text \<open>
  The loop on the events that \<open>select!\<close> takes, each with whether the window has elapsed; the result
  tells whether the loop was left.
\<close>

fun mock_loop :: "(mock_event \<times> bool) list \<Rightarrow> mock_client \<Rightarrow> string + mock_client \<times> bool" where
  "mock_loop [] c = Inr (c, False)"
| "mock_loop ((x, elapsed) # rest) c =
     (case mock_event_turn x c of Inl err \<Rightarrow> Inl err
      | Inr c \<Rightarrow>
          if elapsed then
            (case mock_window c of (c, done) \<Rightarrow> if done then Inr (c, True) else mock_loop rest c)
          else mock_loop rest c)"

section \<open>What the counters say\<close>

lemma mock_note_seq_fields:
  "rx_last_seq (mock_note_seq q c) = Some q"
  "rx_losses (mock_note_seq q c) = rx_losses c
     + (case rx_last_seq c of None \<Rightarrow> 0 | Some prev \<Rightarrow> ucast (q - (prev + 1)))"
  "rx_packets (mock_note_seq q c) = rx_packets c" "rx_v1 (mock_note_seq q c) = rx_v1 c"
  "rx_v2 (mock_note_seq q c) = rx_v2 c" "rx_pcm16 (mock_note_seq q c) = rx_pcm16 c"
  "rx_opus (mock_note_seq q c) = rx_opus c"
  "rx_config_changed (mock_note_seq q c) = rx_config_changed c"
  "rx_discontinuity (mock_note_seq q c) = rx_discontinuity c"
  by (auto simp: mock_note_seq_def Let_def split: option.split)

lemma ucast_u32_u64: "n < 2 ^ 32 \<Longrightarrow> ucast (of_nat n :: u32) = (of_nat n :: u64)"
  by (intro word_unat_eq_iff [THEN iffD2])
    (simp add: unsigned_ucast_eq unsigned_of_nat take_bit_nat_eq_self)

text \<open>The number of missing packets between two sequence numbers.\<close>

lemma gap_between:
  assumes "i < j" and "j < 2 ^ 32"
  shows "ucast (of_nat j - (of_nat i + 1) :: u32) = (of_nat (j - Suc i) :: u64)"
proof -
  have "(of_nat j - (of_nat i + 1) :: u32) = of_nat (j - Suc i)"
    using assms(1) by (simp add: of_nat_diff)
  then show ?thesis using ucast_u32_u64 [of "j - Suc i"] assms(2) by simp
qed

lemma strict_span: "sorted_wrt (<) (ks :: nat list) \<Longrightarrow> ks \<noteq> [] \<Longrightarrow> hd ks + length ks \<le> Suc (last ks)"
proof (induction ks rule: rev_induct)
  case (snoc k ks)
  show ?case
  proof (cases "ks = []")
    case False
    then have "last ks < k" using snoc.prems(1) by (simp add: sorted_wrt_append)
    moreover have "hd ks + length ks \<le> Suc (last ks)"
      using False snoc by (simp add: sorted_wrt_append)
    ultimately show ?thesis using False by simp
  qed simp
qed simp

lemma strict_in_span: "sorted_wrt (<) (ks :: nat list) \<Longrightarrow> set ks \<subseteq> {hd ks..last ks}"
proof (induction ks rule: rev_induct)
  case (snoc k ks)
  show ?case
  proof (cases "ks = []")
    case False
    then have "hd ks \<in> set ks" by simp
    then have "hd ks < k" "\<forall>i \<in> set ks. i < k" using snoc.prems by (simp_all add: sorted_wrt_append)
    moreover have "set ks \<subseteq> {hd ks..last ks}" using snoc by (simp add: sorted_wrt_append)
    ultimately show ?thesis using False by (fastforce simp: subset_iff)
  qed simp
qed simp

text \<open>A typed datagram is decoded and counted.\<close>

definition mock_counted :: "u8 list \<Rightarrow> mock_client \<Rightarrow> mock_client" where
  "mock_counted bytes c = c\<lparr>rx_packets := rx_packets c + 1, rx_bytes := rx_bytes c + of_nat (length bytes)\<rparr>"

lemma typed_datagram_counted:
  assumes "datagram_typed plane p vflags codec bytes"
  shows "mock_on_datagram bytes c = (case plane of
      V2Header \<Rightarrow> mock_on_v2 \<lparr>v2_header = build_v2_header_preview p vflags codec, v2_payload = p_payload p\<rparr>
        (mock_counted bytes c)
    | LegacyLas1 \<Rightarrow> mock_on_las1 p (mock_counted bytes c))"
proof (cases plane)
  case V2Header
  then have "decode_packet_v2 bytes
      = Inr \<lparr>v2_header = build_v2_header_preview p vflags codec, v2_payload = p_payload p\<rparr>"
    and len: "take 4096 bytes = bytes"
    using assms by (simp_all add: datagram_typed_def)
  moreover from this(1) have "detect_data_plane_packet_kind bytes = V2Lav2Kind"
    using decode_packet_v2_kind by (fastforce simp: detect_data_plane_packet_kind_def
        AUDIO_MAGIC_def UDP_AUDIO_MAGIC_V2_def)
  ultimately show ?thesis using V2Header by (simp add: mock_on_datagram_def mock_counted_def Let_def)
next
  case LegacyLas1
  then have "decode_las1 bytes = Inr p" and len: "take 4096 bytes = bytes"
    using assms by (simp_all add: datagram_typed_def)
  moreover from this(1) have "detect_data_plane_packet_kind bytes = LegacyLas1Kind"
    using decode_las1_kind by (fastforce simp: detect_data_plane_packet_kind_def)
  ultimately show ?thesis using LegacyLas1 by (simp add: mock_on_datagram_def mock_counted_def Let_def)
qed

lemma typed_datagram_counters:
  assumes "datagram_typed plane p vflags codec bytes" and "c' = mock_on_datagram bytes c"
  shows "rx_packets c' = rx_packets c + 1" "rx_v1 c' + rx_v2 c' = rx_v1 c + rx_v2 c + 1"
    "rx_last_seq c' = Some (p_sequence p)"
    "rx_losses c' = rx_losses c + (case rx_last_seq c of None \<Rightarrow> 0
       | Some prev \<Rightarrow> ucast (p_sequence p - (prev + 1)))"
    "rx_config_changed c' = rx_config_changed c
       + (if plane = V2Header \<and> vflags AND UDP_FLAG_V2_CONFIG_CHANGED \<noteq> 0 then 1 else 0)"
    "rx_discontinuity c' = rx_discontinuity c
       + (if plane = V2Header \<and> vflags AND UDP_FLAG_V2_DISCONTINUITY \<noteq> 0 then 1 else 0)"
  unfolding assms(2) typed_datagram_counted [OF assms(1)]
  by (cases plane; cases codec; simp add: mock_on_v2_def mock_on_las1_def mock_note_seq_fields
      mock_counted_def Let_def build_v2_header_preview_def)+

text \<open>A client that receives the sends number \<open>ks\<close> of a stream, in this order.\<close>

definition mock_receives :: "udp_sent list \<Rightarrow> nat list \<Rightarrow> mock_client \<Rightarrow> mock_client" where
  "mock_receives ss ks c = fold (\<lambda>k. mock_on_datagram (sd_bytes (ss ! k))) ks c"

lemma mock_receives_snoc:
  "mock_receives ss (ks @ [k]) c = mock_on_datagram (sd_bytes (ss ! k)) (mock_receives ss ks c)"
  by (simp add: mock_receives_def)

lemma mock_counts:
  assumes "\<forall>k < length ss. \<exists>codec. p_sequence (sd_packet (ss ! k)) = of_nat k
      \<and> datagram_typed plane (sd_packet (ss ! k)) (sd_flags (ss ! k)) codec (sd_bytes (ss ! k))"
    and "length ss \<le> 2 ^ 32" and "sorted_wrt (<) ks" and "set ks \<subseteq> {..< length ss}"
    and "c = mock_receives ss ks (mock_start opus port cid)"
  shows "rx_packets c = of_nat (length ks) \<and> rx_v1 c + rx_v2 c = of_nat (length ks)
    \<and> rx_last_seq c = (if ks = [] then None else Some (of_nat (last ks)))
    \<and> rx_losses c = (if ks = [] then 0 else of_nat (Suc (last ks) - hd ks - length ks))
    \<and> rx_config_changed c = of_nat (length (filter (\<lambda>k. plane = V2Header
         \<and> sd_flags (ss ! k) AND UDP_FLAG_V2_CONFIG_CHANGED \<noteq> 0) ks))
    \<and> rx_discontinuity c = of_nat (length (filter (\<lambda>k. plane = V2Header
         \<and> sd_flags (ss ! k) AND UDP_FLAG_V2_DISCONTINUITY \<noteq> 0) ks))"
  using assms(3-5)
proof (induction ks arbitrary: c rule: rev_induct)
  case Nil
  then show ?case by (simp add: mock_receives_def mock_start_def)
next
  case (snoc k ks)
  let ?d = "mock_receives ss ks (mock_start opus port cid)"
  have ks: "sorted_wrt (<) ks" "set ks \<subseteq> {..< length ss}" "k < length ss" "\<forall>i \<in> set ks. i < k"
    using snoc.prems(1,2) by (auto simp: sorted_wrt_append)
  note IH = snoc.IH [OF ks(1,2) refl]
  obtain codec where t: "p_sequence (sd_packet (ss ! k)) = of_nat k"
    "datagram_typed plane (sd_packet (ss ! k)) (sd_flags (ss ! k)) codec (sd_bytes (ss ! k))"
    using assms(1) ks(3) by blast
  note n = typed_datagram_counters [OF t(2) snoc.prems(3) [unfolded mock_receives_snoc]]
  have "rx_losses c = of_nat (Suc k - hd (ks @ [k]) - length (ks @ [k]))"
  proof (cases "ks = []")
    case False
    then have "last ks < k" using ks(4) by simp
    moreover have "hd ks + length ks \<le> Suc (last ks)" by (rule strict_span [OF ks(1) False])
    ultimately have "Suc (last ks) - hd ks - length ks + (k - Suc (last ks)) = Suc k - hd ks - Suc (length ks)"
      by linarith
    then have "(of_nat (Suc (last ks) - hd ks - length ks) + of_nat (k - Suc (last ks)) :: u64)
        = of_nat (Suc k - hd ks - Suc (length ks))"
      unfolding of_nat_add [symmetric] by simp
    moreover have "ucast (of_nat k - (of_nat (last ks) + 1) :: u32) = (of_nat (k - Suc (last ks)) :: u64)"
      using \<open>last ks < k\<close> ks(3) assms(2) by (intro gap_between) auto
    ultimately show ?thesis using n(4) IH False t(1) by simp
  qed (use n(4) IH t(1) in simp)
  then show ?case
    using n IH t(1) by (auto simp: add.commute)
qed

section \<open>The script of the windows\<close>

definition mode_script :: "nat \<Rightarrow> audio_mode list" where
  "mode_script n = (if n < 3 then [] else if n < 6 then [LowLatency]
     else if n < 9 then [LowLatency, HighQuality] else [LowLatency, HighQuality, Balanced])"

definition modes_asked :: "mock_out list \<Rightarrow> audio_mode list" where
  "modes_asked outs = List.map_filter
     (\<lambda>x. case x of Out_V2 (Msg_SetAudioMode m) \<Rightarrow> Some (sam_mode m) | _ \<Rightarrow> None) outs"

lemma modes_asked_append [simp]: "modes_asked (xs @ ys) = modes_asked xs @ modes_asked ys"
  by (simp add: modes_asked_def map_filter_def)

lemma modes_asked_one [simp]:
  "modes_asked [mock_set_mode m] = [m]" "modes_asked [Out_Client x] = []"
  by (simp_all add: modes_asked_def mock_set_mode_def map_filter_simps)

lemma mock_event_keeps:
  assumes "mock_event_turn x c = Inr d"
  shows "mode_switch_step d = mode_switch_step c \<and> modes_asked (mock_sent d) = modes_asked (mock_sent c)"
proof (cases x)
  case (Mock_Udp r)
  have q: "mode_switch_step (mock_note_seq q e) = mode_switch_step e \<and> mock_sent (mock_note_seq q e) = mock_sent e"
    for q e by (auto simp: mock_note_seq_def Let_def split: option.split)
  show ?thesis
    using assms Mock_Udp
    by (cases r) (auto simp: mock_on_datagram_def mock_on_las1_def mock_on_v2_def q Let_def
        split: data_plane_packet_kind.split sum.split udp_audio_codec_v2.split)
qed (use assms in auto)

definition script_inv :: "nat \<Rightarrow> mock_client \<Rightarrow> bool" where
  "script_inv n c \<longleftrightarrow> n < 12 \<and> mode_switch_step c = of_nat n \<and> modes_asked (mock_sent c) = mode_script n"

lemma mock_window_script:
  assumes "script_inv n c" and "mock_window c = (d, done)"
  shows "done = (n = 11) \<and> (\<not> done \<longrightarrow> script_inv (Suc n) d)
    \<and> modes_asked (mock_sent d) = mode_script (Suc n)"
proof -
  have "n < 12" using assms(1) by (simp add: script_inv_def)
  then have "n \<in> {0, 1, 2, 3, 4, 5, 6, 7, 8, 9, 10, 11}" unfolding insert_iff empty_iff by presburger
  then show ?thesis
    using assms by (auto simp: script_inv_def mock_window_def Let_def sat_add_def mode_script_def word_le_nat_alt)
qed

lemma mock_loop_script:
  "script_inv n c \<Longrightarrow> mock_loop turns c = Inr (d, done) \<Longrightarrow>
    done = (12 \<le> n + length (filter snd turns))
    \<and> modes_asked (mock_sent d) = mode_script (min 12 (n + length (filter snd turns)))"
proof (induction turns arbitrary: n c)
  case Nil
  then show ?case by (simp add: script_inv_def)
next
  case (Cons t turns)
  obtain x elapsed where t: "t = (x, elapsed)" by fastforce
  obtain c1 where c1: "mock_event_turn x c = Inr c1" using Cons.prems(2) t by (auto split: sum.splits)
  have i: "script_inv n c1" using Cons.prems(1) mock_event_keeps [OF c1] by (simp add: script_inv_def)
  obtain c2 b where w: "mock_window c1 = (c2, b)" by fastforce
  note s = mock_window_script [OF i w]
  show ?case
  proof (cases elapsed)
    case False
    then show ?thesis using Cons.IH [OF i] Cons.prems(2) t c1 by simp
  next
    case True
    show ?thesis
    proof (cases b)
      case True
      then show ?thesis using s Cons.prems(2) t c1 w \<open>elapsed\<close> by auto
    next
      case False
      then have "script_inv (Suc n) c2" using s by simp
      from Cons.IH [OF this] show ?thesis using Cons.prems(2) t c1 w \<open>elapsed\<close> False by simp
    qed
  qed
qed

section \<open>Properties\<close>

text \<open>
  C6: the client counts exactly what the network lost. Let a stream run, tasks interleaved in any
  way, and let the client receive any of its sends, in order and without repetition (\<open>ks\<close> are
  their positions). If the stream is not PCM24, has made at most \<open>2 ^ 32\<close> sends and libopus keeps to the
  room it is given, every datagram is decoded, on either plane; the loss counter
  is the number of sends between the first and the last received one that are missing; and on the
  v2 plane the counted changes of configuration are the received packets sent in another mode than
  the send before them, so a mark the network loses is lost for good. PCM24 is left out because a frame
  of it can be longer than the 4096 bytes of the client's buffer, and is then cut off and not decoded.
\<close>
theorem mock_client_counts_losses:
  assumes "opus_in_bounds oa" and "codec \<noteq> Sel_Pcm24"
    and "run_ops (udp_step oa rs us socket target plane) evs
      (udp_stream_init oa adaptive_enabled codec rate encode_mode mode now w m) = Inr s"
    and "length (us_sent s) \<le> 2 ^ 32"
    and "sorted_wrt (<) ks" and "set ks \<subseteq> {..< length (us_sent s)}" and "ks \<noteq> []"
    and "c = mock_receives (us_sent s) ks (mock_start opus port client_id)"
  shows "rx_packets c = of_nat (length ks) \<and> rx_v1 c + rx_v2 c = of_nat (length ks)
    \<and> rx_last_seq c = Some (of_nat (last ks))
    \<and> rx_losses c = of_nat (card ({hd ks..last ks} - set ks))
    \<and> rx_config_changed c = of_nat (length (filter (\<lambda>k. plane = V2Header
         \<and> sd_mode (us_sent s ! k) \<noteq> mode_before mode (us_sent s) k) ks))"
proof -
  have i: "udp_inv plane mode s" by (rule udp.run_ops_inv [OF udp_init_inv assms(3)])
  then have sent: "sent_as plane mode (us_sent s) k" if "k < length (us_sent s)" for k
    using that by (simp add: udp_inv_def)
  have t: "\<forall>k < length (us_sent s). \<exists>codec. p_sequence (sd_packet (us_sent s ! k)) = of_nat k
      \<and> datagram_typed plane (sd_packet (us_sent s ! k)) (sd_flags (us_sent s ! k)) codec (sd_bytes (us_sent s ! k))"
    using udp_run_typed [OF assms(1-3)] sent_as_flags(4) [OF sent] by blast
  have "card ({hd ks..last ks} - set ks) = card {hd ks..last ks} - card (set ks)"
    using strict_in_span [OF assms(5)] by (intro card_Diff_subset) auto
  then have card: "card ({hd ks..last ks} - set ks) = Suc (last ks) - hd ks - length ks"
    using assms(5) by (simp add: distinct_card strict_sorted_iff)
  have "filter (\<lambda>k. plane = V2Header \<and> sd_flags (us_sent s ! k) AND UDP_FLAG_V2_CONFIG_CHANGED \<noteq> 0) ks
      = filter (\<lambda>k. plane = V2Header \<and> sd_mode (us_sent s ! k) \<noteq> mode_before mode (us_sent s) k) ks"
    using assms(6) sent_as_flags(1) [OF sent] by (intro filter_cong) auto
  then show ?thesis
    using mock_counts [OF t assms(4-6,8)] assms(7) card by simp
qed

text \<open>
  The client's script. Whatever it receives, as long as the socket gives no error it leaves the
  loop at the end of the twelfth window and not before, having asked for low latency in window 3,
  high quality in window 6 and balanced in window 9.
\<close>
theorem mock_client_script:
  assumes "mock_loop turns (mock_start opus port client_id) = Inr (c, done)"
  shows "done = (12 \<le> length (filter snd turns))
    \<and> modes_asked (mock_sent c) = mode_script (min 12 (length (filter snd turns)))"
proof -
  have "script_inv 0 (mock_start opus port client_id)"
    by (simp add: script_inv_def mock_start_def modes_asked_def map_filter_simps mode_script_def)
  from mock_loop_script [OF this assms] show ?thesis by simp
qed

text \<open>
  A datagram that arrives late, or twice, adds almost \<open>2 ^ 32\<close> to the loss counter: the gap is
  computed by a wrapping subtraction of 32-bit numbers.
\<close>
theorem mock_reorder_inflates_losses:
  assumes "rx_last_seq c = Some (q + of_nat d)" and "d < 2 ^ 32 - 1"
  shows "rx_losses (mock_note_seq q c) = rx_losses c + of_nat (2 ^ 32 - 1 - d)"
proof -
  have "(q - (q + of_nat d + 1) :: u32) = of_nat (2 ^ 32 - 1 - d)"
    using assms(2) by (simp add: of_nat_diff)
  then show ?thesis
    using assms(1) ucast_u32_u64 [of "2 ^ 32 - 1 - d"] by (simp only: mock_note_seq_fields) simp
qed

section \<open>Concrete runs\<close>

theorem mock_client_counts_losses_witness:
  "\<exists>s. run_ops sample_udp_step sample_stream_events sample_stream = Inr s
    \<and> rx_packets (mock_receives (us_sent s) [0] (mock_start True 40000 ''mock'')) = 1
    \<and> rx_losses (mock_receives (us_sent s) [0] (mock_start True 40000 ''mock'')) = 0"
proof -
  obtain s where s: "run_ops sample_udp_step sample_stream_events sample_stream = Inr s"
    "length (us_sent s) = 1" using sample_stream_run by blast
  show ?thesis
    using mock_client_counts_losses [OF absent_opus_bounded _ s(1) [unfolded sample_stream_def], of "[0]"] s
    by auto
qed

theorem mock_client_script_witness:
  "modes_asked (mock_sent (case mock_loop (replicate 4 (Mock_Ping 0, True)) (mock_start True 40000 ''mock'') of
     Inr (c, _) \<Rightarrow> c)) = [LowLatency]"
proof -
  have "\<exists>r. mock_loop (replicate n (Mock_Ping 0, True)) c = Inr r" for n c
    by (induction n arbitrary: c) (auto split: prod.split)
  then obtain c b where l: "mock_loop (replicate 4 (Mock_Ping 0, True)) (mock_start True 40000 ''mock'') = Inr (c, b)"
    by (metis surj_pair)
  from mock_client_script [OF l] show ?thesis unfolding l by (simp add: mode_script_def)
qed

theorem mock_reorder_inflates_losses_witness:
  "rx_losses (mock_note_seq 7 ((mock_start True 40000 ''mock'')\<lparr>rx_last_seq := Some 8\<rparr>)) = 4294967294"
  using mock_reorder_inflates_losses [of "(mock_start True 40000 ''mock'')\<lparr>rx_last_seq := Some 8\<rparr>" 7 1]
  by (simp add: mock_start_def)

end
