(* ===== verification/Transport_Lifecycle.thy ===== *)
theory Transport_Lifecycle
  imports Broadcast_Pipeline Lan_Service
begin

text \<open>
  The life of the broadcast transport (\<open>BroadcastTransport::new\<close> and \<open>run\<close> of
  \<open>crates/lan_audio_server/src/transport.rs\<close>) around the pipeline: binding, the task that accepts USB
  streams, the start of the source, the three ways out of the main loop, and what the shutdown does
  to the tasks and to the work in flight.
\<close>

section \<open>Binding\<close>

datatype bind_error = Bind_Udp string | Bind_Tcp string

record ('sock, 'lsn) transport_sockets =
  tp_socket :: 'sock
  tp_tcp_listener :: "'lsn option"

text \<open>The port for USB streams is only opened in USB mode, on the address of the UDP socket.\<close>

definition transport_new ::
  "(socket_addr \<Rightarrow> string + 'sock) \<Rightarrow> (socket_addr \<Rightarrow> string + 'lsn) \<Rightarrow> real server_config
   \<Rightarrow> bind_error + ('sock, 'lsn) transport_sockets" where
  "transport_new bind_udp bind_tcp cfg =
     (case bind_udp (udp_bind cfg) of
        Inl e \<Rightarrow> Inl (Bind_Udp e)
      | Inr socket \<Rightarrow>
          (case cfg_transport_mode cfg of
             Mode_WiFi \<Rightarrow> Inr \<lparr>tp_socket = socket, tp_tcp_listener = None\<rparr>
           | Mode_Usb _ \<Rightarrow>
               (case bind_tcp (udp_bind cfg) of
                  Inl e \<Rightarrow> Inl (Bind_Tcp e)
                | Inr l \<Rightarrow> Inr \<lparr>tp_socket = socket, tp_tcp_listener = Some l\<rparr>)))"

section \<open>The state of a run\<close>

text \<open>
  \<open>Main_Joining\<close> is the wait for the encode worker after the loop. \<open>lc_source_stopped\<close> tells whether
  the capture task stopped its source itself, \<open>lc_worker_on\<close> whether the worker's thread lives.
\<close>

datatype main_state = Main_Running | Main_Joining | Main_Returned "string option + unit"

record ('tx, 'wr, 'w, 'o, 'r) transport_run =
  lc_main :: main_state
  lc_pipeline :: "('tx, 'wr, 'w, 'o, 'r) broadcast_state"
  lc_accept_on :: bool
  lc_capture_on :: bool
  lc_watchdog_on :: bool
  lc_worker_on :: bool
  lc_source_stopped :: bool

text \<open>
  The beginning of \<open>run\<close>: the accept task is spawned first, so it stays when the source cannot be
  built or started; an error of the source is the error of the transport.
\<close>

definition transport_run_start ::
  "(audio_format \<Rightarrow> string + 'l) \<Rightarrow> real server_config \<Rightarrow> ('sock, 'lsn) transport_sockets
   \<Rightarrow> capture_source_state \<times> string option \<Rightarrow> capture_error + unit
   \<Rightarrow> capture_source_state \<times> string option \<times> audio_format \<Rightarrow> ('tx, 'wr) registry \<Rightarrow> 'w \<Rightarrow> nat
   \<Rightarrow> ('tx, 'wr, 'w, 'o, 'r) transport_run" where
  "transport_run_start loopback cfg sockets before started after r w now =
     (let accept_on = (tp_tcp_listener sockets \<noteq> None);
          failed = (\<lambda>err r. \<lparr>lc_main = Main_Returned (Inl err),
            lc_pipeline = transport_start (adaptive_runtime_enabled cfg) r w now,
            lc_accept_on = accept_on, lc_capture_on = False, lc_watchdog_on = False,
            lc_worker_on = False, lc_source_stopped = False\<rparr>)
      in case build_capture_source loopback cfg of
           Inl err \<Rightarrow> failed (Some err) r
         | Inr (_, source_name) \<Rightarrow>
             (case start_source source_name before started after (reg_metrics r) of
                (Inl _, m) \<Rightarrow> failed None (r\<lparr>reg_metrics := m\<rparr>)
              | (Inr _, m) \<Rightarrow>
                  \<lparr>lc_main = Main_Running,
                   lc_pipeline = transport_start (adaptive_runtime_enabled cfg) (r\<lparr>reg_metrics := m\<rparr>) w now,
                   lc_accept_on = accept_on, lc_capture_on = True,
                   lc_watchdog_on = adaptive_runtime_enabled cfg, lc_worker_on = True,
                   lc_source_stopped = False\<rparr>))"

text \<open>Leaving the loop: capture and watchdog are aborted, the sender of jobs is dropped.\<close>

definition leave_loop ::
  "('tx, 'wr, 'w, 'o, 'r) transport_run \<Rightarrow> ('tx, 'wr, 'w, 'o, 'r) transport_run" where
  "leave_loop l = l\<lparr>lc_main := Main_Joining, lc_capture_on := False, lc_watchdog_on := False\<rparr>"

section \<open>The machine\<close>

datatype ('tx, 'wr) transport_event =
    Tl_Work "('tx, 'wr) broadcast_event"
  | Tl_Accept_Error
  | Tl_Accept_Stop
  | Tl_Capture_Stop capture_source_state
  | Tl_Watchdog_Stop
  | Tl_Shutdown
  | Tl_Frames_Closed
  | Tl_Worker_Panic
  | Tl_Send_Failed
  | Tl_Results_Closed
  | Tl_Joined

text \<open>Whose turn an event of the pipeline is, and whether that task is there to take it.\<close>

fun task_alive :: "('tx, 'wr) broadcast_event \<Rightarrow> ('tx, 'wr, 'w, 'o, 'r) transport_run \<Rightarrow> bool" where
  "task_alive (Ev_Capture _ _ _ _ _) l = lc_capture_on l"
| "task_alive Ev_Frame l = (lc_main l = Main_Running \<and> lc_worker_on l)"
| "task_alive (Ev_Watchdog _) l = lc_watchdog_on l"
| "task_alive (Ev_Worker _) l = lc_worker_on l"
| "task_alive (Ev_Result _) l = (lc_main l = Main_Running)"
| "task_alive (Ev_Attach _ _) l = lc_accept_on l"
| "task_alive (Ev_Session _) l = True"

text \<open>
  \<open>Tl_Accept_Stop\<close>, \<open>Tl_Capture_Stop\<close>, \<open>Tl_Watchdog_Stop\<close> and \<open>Tl_Shutdown\<close> are the receipts of the
  shutdown signal. An error of \<open>accept\<close> is only logged. After a panic of the worker its jobs are lost;
  the loop notices at the next frame it would hand over (\<open>Tl_Send_Failed\<close>) or at the closed channel
  of results.
\<close>

fun transport_step ::
  "json_api \<Rightarrow> 'o opus_api \<Rightarrow> 'r resampler_api
   \<Rightarrow> ('sock \<Rightarrow> u8 list \<Rightarrow> socket_addr \<Rightarrow> 'w \<Rightarrow> (string + unit) \<times> 'w)
   \<Rightarrow> ('wr \<Rightarrow> u8 list \<Rightarrow> 'w \<Rightarrow> (string + unit) \<times> 'w) \<Rightarrow> 'sock \<Rightarrow> ('tx, 'wr) transport_event
   \<Rightarrow> ('tx, 'wr, 'w, 'o, 'r) transport_run \<Rightarrow> unit + ('tx, 'wr, 'w, 'o, 'r) transport_run" where
  "transport_step js oa rs us sw socket (Tl_Work x) l =
     (if task_alive x l then
        (case broadcast_step js oa rs us sw socket x (lc_pipeline l) of
           Inl _ \<Rightarrow> Inl () | Inr b \<Rightarrow> Inr (l\<lparr>lc_pipeline := b\<rparr>))
      else Inl ())"
| "transport_step js oa rs us sw socket Tl_Accept_Error l = (if lc_accept_on l then Inr l else Inl ())"
| "transport_step js oa rs us sw socket Tl_Accept_Stop l =
     (if lc_accept_on l then Inr (l\<lparr>lc_accept_on := False\<rparr>) else Inl ())"
| "transport_step js oa rs us sw socket (Tl_Capture_Stop source_state) l =
     (if lc_capture_on l
      then let r = bp_registry (lc_pipeline l);
               m = set_capture_source_state (capture_state_as_str source_state) (reg_metrics r)
           in Inr (l\<lparr>lc_pipeline := (lc_pipeline l)\<lparr>bp_registry := r\<lparr>reg_metrics := m\<rparr>\<rparr>,
                     lc_capture_on := False, lc_source_stopped := True\<rparr>)
      else Inl ())"
| "transport_step js oa rs us sw socket Tl_Watchdog_Stop l =
     (if lc_watchdog_on l then Inr (l\<lparr>lc_watchdog_on := False\<rparr>) else Inl ())"
| "transport_step js oa rs us sw socket Tl_Shutdown l =
     (if lc_main l = Main_Running then Inr (leave_loop l) else Inl ())"
| "transport_step js oa rs us sw socket Tl_Frames_Closed l =
     (if lc_main l = Main_Running \<and> \<not> lc_capture_on l \<and> bp_frames (lc_pipeline l) = []
      then Inr (leave_loop l) else Inl ())"
| "transport_step js oa rs us sw socket Tl_Worker_Panic l =
     (if lc_worker_on l
      then Inr (l\<lparr>lc_worker_on := False, lc_pipeline := (lc_pipeline l)\<lparr>bp_jobs := []\<rparr>\<rparr>) else Inl ())"
| "transport_step js oa rs us sw socket Tl_Send_Failed l =
     (if lc_main l = Main_Running \<and> \<not> lc_worker_on l then
        (case bp_frames (lc_pipeline l) of [] \<Rightarrow> Inl ()
         | f # fs \<Rightarrow>
             (case take_broadcast_clients (bp_registry (lc_pipeline l)) of
                (clients, r) \<Rightarrow>
                  let l = l\<lparr>lc_pipeline := (lc_pipeline l)\<lparr>bp_frames := fs, bp_registry := r\<rparr>\<rparr>
                  in Inr (if clients = [] then l else leave_loop l)))
      else Inl ())"
| "transport_step js oa rs us sw socket Tl_Results_Closed l =
     (if lc_main l = Main_Running \<and> \<not> lc_worker_on l \<and> bp_results (lc_pipeline l) = []
      then Inr (leave_loop l) else Inl ())"
| "transport_step js oa rs us sw socket Tl_Joined l =
     (if lc_main l = Main_Joining \<and> (lc_worker_on l \<longrightarrow> bp_jobs (lc_pipeline l) = [])
      then Inr (l\<lparr>lc_main := Main_Returned (Inr ()), lc_worker_on := False\<rparr>) else Inl ())"

section \<open>The invariant\<close>

definition transport_inv :: "('tx, 'wr, 'w, 'o, 'r) transport_run \<Rightarrow> bool" where
  "transport_inv l \<longleftrightarrow> pipeline_inv (lc_pipeline l)
     \<and> (lc_capture_on l \<longrightarrow> lc_main l = Main_Running)
     \<and> (lc_watchdog_on l \<longrightarrow> lc_main l = Main_Running)
     \<and> (\<forall>res. lc_main l = Main_Returned res \<longrightarrow> \<not> lc_worker_on l)
     \<and> (lc_source_stopped l \<longrightarrow> \<not> lc_capture_on l)"

lemma leave_loop_inv: "transport_inv l \<Longrightarrow> lc_main l = Main_Running \<Longrightarrow> transport_inv (leave_loop l)"
  by (auto simp: transport_inv_def leave_loop_def)

lemma pipeline_inv_frames:
  "pipeline_inv b \<Longrightarrow> bp_frames b = f # fs \<Longrightarrow> reg_inv r \<Longrightarrow> pipeline_inv (b\<lparr>bp_frames := fs, bp_registry := r\<rparr>)"
  unfolding pipeline_inv_def by (elim conjE, intro conjI) simp_all

lemma transport_step_inv:
  assumes "transport_inv l" and "transport_step js oa rs us sw socket x l = Inr l'"
  shows "transport_inv l'"
proof (cases x)
  case (Tl_Work y)
  then obtain b where "broadcast_step js oa rs us sw socket y (lc_pipeline l) = Inr b"
      and l': "l' = l\<lparr>lc_pipeline := b\<rparr>"
    using assms(2) by (auto split: if_splits sum.splits)
  then have "pipeline_inv b" using broadcast_step_inv assms(1) by (auto simp: transport_inv_def)
  then show ?thesis using assms(1) by (simp add: l' transport_inv_def)
next
  case Tl_Send_Failed
  obtain clients r where t: "take_broadcast_clients (bp_registry (lc_pipeline l)) = (clients, r)" by fastforce
  then have "reg_inv r"
    using take_inv [of "bp_registry (lc_pipeline l)"] assms(1) by (simp add: transport_inv_def pipeline_inv_def)
  then show ?thesis
    using assms Tl_Send_Failed pipeline_inv_frames
    by (auto simp: t Let_def transport_inv_def leave_loop_def split: if_splits list.splits)
next
  case Tl_Worker_Panic
  then show ?thesis
    using assms by (auto simp: transport_inv_def pipeline_inv_def split: if_splits)
next
  case (Tl_Capture_Stop st)
  then show ?thesis
    using assms by (auto simp: transport_inv_def pipeline_inv_def Let_def split: if_splits)
qed (use assms in \<open>auto split: if_splits intro: leave_loop_inv simp: transport_inv_def leave_loop_def\<close>)

interpretation transport_life: guarded_machine "transport_step js oa rs us sw socket" transport_inv
  for js oa rs us sw socket
  by unfold_locales (rule transport_step_inv)

lemma transport_run_start_inv:
  "reg_inv r \<Longrightarrow> transport_inv (transport_run_start loopback cfg sockets before started after r w now)"
  by (auto simp: transport_inv_def transport_run_start_def Let_def pipeline_start_inv
      split: sum.split prod.split)

section \<open>After the loop\<close>

definition sent_nothing ::
  "('tx, 'wr, 'w, 'o, 'r) transport_run \<Rightarrow> ('tx, 'wr, 'w, 'o, 'r) transport_run \<Rightarrow> bool" where
  "sent_nothing l l' \<longleftrightarrow> bp_dispatched (lc_pipeline l') = bp_dispatched (lc_pipeline l)
     \<and> bp_world (lc_pipeline l') = bp_world (lc_pipeline l)
     \<and> bp_tx_stats (lc_pipeline l') = bp_tx_stats (lc_pipeline l)"

lemma stopped_step:
  assumes "lc_main l \<noteq> Main_Running" and "transport_step js oa rs us sw socket x l = Inr l'"
  shows "lc_main l' \<noteq> Main_Running \<and> sent_nothing l l'
    \<and> (lc_main l \<noteq> Main_Joining \<longrightarrow> lc_main l' = lc_main l)
    \<and> (\<not> lc_capture_on l \<longrightarrow> \<not> lc_capture_on l' \<and> lc_source_stopped l' = lc_source_stopped l)"
proof (cases x)
  case (Tl_Work y)
  then show ?thesis
    using assms by (cases y) (auto simp: sent_nothing_def on_capture_def on_watchdog_tick_def
        worker_turn_def Let_def split: if_splits sum.splits list.splits option.splits prod.splits)
qed (use assms in \<open>auto simp: sent_nothing_def Let_def split: if_splits list.splits prod.splits\<close>)

lemma stopped_run:
  "lc_main l \<noteq> Main_Running \<Longrightarrow> run_ops (transport_step js oa rs us sw socket) evs l = Inr l' \<Longrightarrow>
    lc_main l' \<noteq> Main_Running \<and> sent_nothing l l' \<and> (lc_main l \<noteq> Main_Joining \<longrightarrow> lc_main l' = lc_main l)
    \<and> (\<not> lc_capture_on l \<longrightarrow> \<not> lc_capture_on l' \<and> lc_source_stopped l' = lc_source_stopped l)"
proof (induction evs arbitrary: l)
  case (Cons x evs)
  obtain k where k: "transport_step js oa rs us sw socket x l = Inr k"
    using Cons.prems(2) by (auto split: sum.splits)
  have "run_ops (transport_step js oa rs us sw socket) evs k = Inr l'" using Cons.prems(2) k by simp
  then show ?case
    using stopped_step [OF Cons.prems(1) k] Cons.IH [of k] by (auto simp: sent_nothing_def)
qed (simp add: sent_nothing_def)

lemma valid_order_exists: "\<exists>keys. valid_order keys job"
  using finite_distinct_list [of "encoder_key_of ` set (job_clients job)"] by (auto simp: valid_order_def)

text \<open>While the loop's end waits for it, the worker finishes the jobs one by one.\<close>

lemma worker_drains:
  "bp_jobs (lc_pipeline l) = jobs \<Longrightarrow> lc_worker_on l \<Longrightarrow> lc_main l = Main_Joining \<Longrightarrow>
    \<exists>evs l'. run_ops (transport_step js oa rs us sw socket) evs l = Inr l' \<and> length evs = length jobs
      \<and> set evs \<subseteq> range (Tl_Work \<circ> Ev_Worker) \<and> bp_jobs (lc_pipeline l') = []
      \<and> lc_worker_on l' \<and> lc_main l' = Main_Joining
      \<and> length (bp_results (lc_pipeline l')) = length (bp_results (lc_pipeline l)) + length jobs"
proof (induction jobs arbitrary: l)
  case Nil
  then show ?case by (intro exI [of _ "[]"]) simp
next
  case (Cons job jobs)
  obtain keys where k: "valid_order keys job" using valid_order_exists by blast
  let ?b = "worker_turn oa rs job keys ((lc_pipeline l)\<lparr>bp_jobs := jobs\<rparr>)"
  let ?l = "l\<lparr>lc_pipeline := ?b\<rparr>"
  have st: "transport_step js oa rs us sw socket (Tl_Work (Ev_Worker keys)) l = Inr ?l"
    using Cons.prems k by simp
  have b: "bp_jobs ?b = jobs" "length (bp_results ?b) = Suc (length (bp_results (lc_pipeline l)))"
    by (simp_all add: worker_turn_def split: prod.split)
  obtain evs l' where e: "run_ops (transport_step js oa rs us sw socket) evs ?l = Inr l'"
      "length evs = length jobs" "set evs \<subseteq> range (Tl_Work \<circ> Ev_Worker)" "bp_jobs (lc_pipeline l') = []"
      "lc_worker_on l'" "lc_main l' = Main_Joining"
      "length (bp_results (lc_pipeline l')) = length (bp_results ?b) + length jobs"
    using Cons.IH [of ?l] b(1) Cons.prems(2,3) by auto
  show ?case
    using st e b(2) by (intro exI [of _ "Tl_Work (Ev_Worker keys) # evs"] exI [of _ l']) auto
qed

section \<open>Properties\<close>

text \<open>
  A stop completes. From any reachable state of a running transport with a live worker, the
  receipt of the shutdown signal, one turn of the worker for each job that waits and the join end the
  run with success; no other task has to cooperate. All jobs are still encoded, but none of these
  results, and none that already waited, is ever sent.
\<close>
theorem transport_stop_completes:
  assumes "lc_main l = Main_Running" and "lc_worker_on l"
  shows "\<exists>evs l'. run_ops (transport_step js oa rs us sw socket) (Tl_Shutdown # evs @ [Tl_Joined]) l = Inr l'
    \<and> length evs = length (bp_jobs (lc_pipeline l)) \<and> set evs \<subseteq> range (Tl_Work \<circ> Ev_Worker)
    \<and> lc_main l' = Main_Returned (Inr ()) \<and> \<not> lc_worker_on l' \<and> bp_jobs (lc_pipeline l') = []
    \<and> bp_dispatched (lc_pipeline l') = bp_dispatched (lc_pipeline l)
    \<and> length (bp_results (lc_pipeline l'))
        = length (bp_results (lc_pipeline l)) + length (bp_jobs (lc_pipeline l))"
proof -
  let ?m = "leave_loop l"
  obtain evs k where e: "run_ops (transport_step js oa rs us sw socket) evs ?m = Inr k"
      "length evs = length (bp_jobs (lc_pipeline l))" "set evs \<subseteq> range (Tl_Work \<circ> Ev_Worker)"
      "bp_jobs (lc_pipeline k) = []" "lc_worker_on k" "lc_main k = Main_Joining"
      "length (bp_results (lc_pipeline k))
        = length (bp_results (lc_pipeline l)) + length (bp_jobs (lc_pipeline l))"
    using worker_drains [of ?m "bp_jobs (lc_pipeline l)" js oa rs us sw socket] assms(2)
    by (auto simp: leave_loop_def)
  have "sent_nothing ?m k" using stopped_run [OF _ e(1)] by (simp add: leave_loop_def)
  then have "bp_dispatched (lc_pipeline k) = bp_dispatched (lc_pipeline l)"
    by (simp add: sent_nothing_def leave_loop_def)
  moreover have "run_ops (transport_step js oa rs us sw socket) (evs @ [Tl_Joined]) ?m
      = Inr (k\<lparr>lc_main := Main_Returned (Inr ()), lc_worker_on := False\<rparr>)"
    using e(4-6) by (simp add: run_ops_append e(1))
  ultimately show ?thesis
    using assms(1) e by (intro exI [of _ evs]) simp
qed

text \<open>
  A transport without a source still takes clients' streams. In USB mode the task that accepts
  connections is spawned before the source is started and is not part of what \<open>run\<close> waits for: when
  the start fails, \<open>run\<close> returns the error, but every connection still replaces the stream of a
  client, and nothing is ever sent on it.
\<close>
theorem failed_start_still_accepts:
  assumes "tp_tcp_listener sockets = Some lsn" and "build_capture_source loopback cfg = Inr (choice, name)"
    and "l = transport_run_start loopback cfg sockets before (Inl err) after r w now"
  shows "lc_main l = Main_Returned (Inl None)
    \<and> m_capture_start_failures (reg_metrics (bp_registry (lc_pipeline l)))
        = m_capture_start_failures (reg_metrics r) + 1
    \<and> (\<forall>stream t. transport_step js oa rs us sw socket (Tl_Work (Ev_Attach stream t)) l
        = Inr (l\<lparr>lc_pipeline := (lc_pipeline l)\<lparr>bp_registry :=
            attach_usb_stream stream t (bp_registry (lc_pipeline l))\<rparr>\<rparr>))
    \<and> (\<forall>evs l'. run_ops (transport_step js oa rs us sw socket) evs l = Inr l' \<longrightarrow>
        lc_main l' = Main_Returned (Inl None) \<and> bp_dispatched (lc_pipeline l') = []
        \<and> bp_world (lc_pipeline l') = w)"
proof -
  have l: "lc_main l = Main_Returned (Inl None)" "lc_accept_on l" "bp_dispatched (lc_pipeline l) = []"
    "bp_world (lc_pipeline l) = w"
    "m_capture_start_failures (reg_metrics (bp_registry (lc_pipeline l)))
        = m_capture_start_failures (reg_metrics r) + 1"
    using assms by (simp_all add: transport_run_start_def start_source_def transport_start_def Let_def
        inc_capture_start_failures_def inc_capture_start_attempts_def set_current_audio_source_def
        set_capture_source_state_def set_capture_device_name_def)
  have "lc_main l' = Main_Returned (Inl None) \<and> bp_dispatched (lc_pipeline l') = []
      \<and> bp_world (lc_pipeline l') = w"
    if "run_ops (transport_step js oa rs us sw socket) evs l = Inr l'" for evs l'
    using stopped_run [OF _ that] l by (simp add: sent_nothing_def)
  then show ?thesis using l by simp
qed

text \<open>
  The graceful stop of the source can be lost. Both the loop and the capture task wait for the
  shutdown signal; when the loop hears it first it aborts the capture task, and then, whatever
  happens, the source is never asked to stop and nothing more is sent.
\<close>
theorem shutdown_aborts_capture:
  assumes "transport_inv l" and "lc_capture_on l"
    and "run_ops (transport_step js oa rs us sw socket) (Tl_Shutdown # evs) l = Inr l'"
  shows "\<not> lc_source_stopped l' \<and> \<not> lc_capture_on l' \<and> lc_main l' \<noteq> Main_Running
    \<and> bp_dispatched (lc_pipeline l') = bp_dispatched (lc_pipeline l)"
proof -
  have "lc_main l = Main_Running" using assms(1,2) by (simp add: transport_inv_def)
  then have "run_ops (transport_step js oa rs us sw socket) evs (leave_loop l) = Inr l'"
    using assms(3) by simp
  from stopped_run [OF _ this] show ?thesis
    using assms(1,2) by (auto simp: leave_loop_def sent_nothing_def transport_inv_def)
qed

lemma running_step_result:
  "transport_step js oa rs us sw socket x l = Inr l' \<Longrightarrow> lc_main l \<noteq> Main_Returned (Inl e) \<Longrightarrow>
    lc_main l' \<noteq> Main_Returned (Inl e)"
  by (cases x) (auto simp: leave_loop_def Let_def split: if_splits sum.splits list.splits prod.splits)

text \<open>
  A transport that has started never reports a failure: whichever way its loop ends, a panic of the
  encode worker included, \<open>run\<close> returns \<open>Ok\<close>.
\<close>
lemma started_transport_returns_ok:
  "run_ops (transport_step js oa rs us sw socket) evs l = Inr l' \<Longrightarrow> lc_main l = Main_Running \<Longrightarrow>
    lc_main l' = Main_Returned res \<Longrightarrow> res = Inr ()"
proof -
  assume r: "run_ops (transport_step js oa rs us sw socket) evs l = Inr l'" "lc_main l = Main_Running"
    "lc_main l' = Main_Returned res"
  have "lc_main l' \<noteq> Main_Returned (Inl e)" for e
  proof -
    have "run_ops (transport_step js oa rs us sw socket) evs l = Inr l' \<Longrightarrow>
        lc_main l \<noteq> Main_Returned (Inl e) \<Longrightarrow> lc_main l' \<noteq> Main_Returned (Inl e)"
      by (induction evs arbitrary: l) (auto split: sum.splits dest: running_step_result)
    then show ?thesis using r(1,2) by simp
  qed
  then show ?thesis using r(3) by (cases res) auto
qed

section \<open>Concrete runs\<close>

abbreviation sample_transport_step ::
  "(nat, nat) transport_event \<Rightarrow> (nat, nat, nat, unit, unit) transport_run
   \<Rightarrow> unit + (nat, nat, nat, unit, unit) transport_run" where
  "sample_transport_step \<equiv> transport_step sample_json sample_opus sample_resampler sample_udp_send
     sample_stream_write ()"

definition sample_transport_run :: "capture_error + unit \<Rightarrow> (nat, nat, nat, unit, unit) transport_run" where
  "sample_transport_run started = transport_run_start (\<lambda>_. Inl ''none'' :: string + unit) (sample_config\<lparr>audio_source := Synthetic\<rparr>)
     \<lparr>tp_socket = (), tp_tcp_listener = Some ()\<rparr> (Cap_Created, None) started
     (Cap_Started, None, audio_format_default) streaming_registry 0 0"

lemma sample_transport_running:
  "lc_main (sample_transport_run (Inr ())) = Main_Running" "lc_worker_on (sample_transport_run (Inr ()))"
  "lc_capture_on (sample_transport_run (Inr ()))" "transport_inv (sample_transport_run (Inr ()))"
proof -
  show "transport_inv (sample_transport_run (Inr ()))"
    unfolding sample_transport_run_def by (rule transport_run_start_inv [OF streaming_registry_inv])
qed (simp_all add: sample_transport_run_def transport_run_start_def build_capture_source_def
    start_source_def Let_def)

theorem transport_stop_completes_witness:
  "\<exists>l'. run_ops sample_transport_step [Tl_Shutdown, Tl_Joined] (sample_transport_run (Inr ())) = Inr l'
    \<and> lc_main l' = Main_Returned (Inr ())"
proof -
  have j: "bp_jobs (lc_pipeline (sample_transport_run (Inr ()))) = []"
    by (simp add: sample_transport_run_def transport_run_start_def build_capture_source_def
        start_source_def Let_def transport_start_def)
  obtain evs l' where e: "run_ops sample_transport_step (Tl_Shutdown # evs @ [Tl_Joined]) (sample_transport_run (Inr ())) = Inr l'"
      "length evs = 0" "lc_main l' = Main_Returned (Inr ())"
    using transport_stop_completes [OF sample_transport_running(1,2), of sample_json sample_opus
        sample_resampler sample_udp_send sample_stream_write "()"] unfolding j list.size by blast
  from e(2) have "Tl_Shutdown # evs @ [Tl_Joined] = [Tl_Shutdown, Tl_Joined]" by simp
  with e(1,3) show ?thesis by metis
qed

theorem failed_start_still_accepts_witness:
  "\<exists>l. transport_step sample_json sample_opus sample_resampler sample_udp_send sample_stream_write ()
      (Tl_Work (Ev_Attach 9 0)) (sample_transport_run (Inl Cap_NotStarted)) = Inr l
    \<and> lc_main (sample_transport_run (Inl Cap_NotStarted)) = Main_Returned (Inl None)"
proof -
  have b: "\<exists>choice name. build_capture_source (\<lambda>_. Inl ''none'' :: string + unit)
      (sample_config\<lparr>audio_source := Synthetic\<rparr>) = Inr (choice, name)"
    by (simp add: build_capture_source_def)
  then obtain choice name where b: "build_capture_source (\<lambda>_. Inl ''none'' :: string + unit)
      (sample_config\<lparr>audio_source := Synthetic\<rparr>) = Inr (choice, name)" by blast
  show ?thesis
    using failed_start_still_accepts [OF _ b sample_transport_run_def [of "Inl Cap_NotStarted"],
        of "()" sample_json sample_opus sample_resampler sample_udp_send sample_stream_write "()"] by auto
qed

theorem shutdown_aborts_capture_witness:
  "\<exists>l'. run_ops sample_transport_step [Tl_Shutdown, Tl_Joined] (sample_transport_run (Inr ())) = Inr l'
    \<and> \<not> lc_source_stopped l'"
proof -
  obtain l' where l': "run_ops sample_transport_step (Tl_Shutdown # [Tl_Joined]) (sample_transport_run (Inr ())) = Inr l'"
    by (simp add: sample_transport_running leave_loop_def)
      (simp add: sample_transport_run_def transport_run_start_def build_capture_source_def
        start_source_def Let_def transport_start_def)
  show ?thesis
    using shutdown_aborts_capture [OF sample_transport_running(4,3) l'] l' by auto
qed

end
