(* ===== verification/Session_Hub.thy ===== *)
theory Session_Hub
  imports Session_Server Lan_Service
begin

text \<open>
  The session server as a whole (\<open>SessionServer::run\<close> of
  \<open>crates/lan_audio_server/src/session.rs\<close>): the loop that accepts connections and the sessions it
  spawns, all on one registry, router and current mode, together with the operations the broadcast
  transport makes on the registry. An event is one turn of the accept loop, of one session or of the
  transport; connections are numbered in the order in which they are accepted.
\<close>

section \<open>The state\<close>

datatype hub_phase = Hub_Starting | Hub_Accepting | Hub_Ended "string + unit"

text \<open>
  A pending connection was accepted and has not said hello. A shutdown signal reaches the receivers
  that exist when it is sent: that of the loop (\<open>sh_signalled\<close>) and those of the connections whose task
  lives (\<open>sh_told\<close>); \<open>resubscribe\<close> starts at the end of the channel. \<open>sh_used\<close> are the session ids drawn so far, \<open>sh_failed\<close> those of the sessions whose
  \<open>handle_client\<close> returned an error after the id was drawn; the code records neither.
\<close>

record ('tx, 'wr, 'sock) session_hub =
  sh_phase :: hub_phase
  sh_signalled :: bool
  sh_next :: nat
  sh_told :: "nat set"
  sh_pending :: "nat \<rightharpoonup> socket_addr"
  sh_sessions :: "nat \<rightharpoonup> 'tx session"
  sh_world :: "('tx, 'wr, 'sock) session_world"
  sh_used :: "uuid set"
  sh_failed :: "uuid set"

definition session_hub_new :: "('tx, 'wr, 'sock) session_world \<Rightarrow> ('tx, 'wr, 'sock) session_hub" where
  "session_hub_new w =
     \<lparr>sh_phase = Hub_Starting, sh_signalled = False, sh_next = 0, sh_told = {},
      sh_pending = Map.empty, sh_sessions = Map.empty, sh_world = w,
      sh_used = {}, sh_failed = {}\<rparr>"

section \<open>The machine\<close>

datatype ('tx, 'wr) hub_event =
    Hub_Bound "string + unit"
  | Hub_Accept socket_addr
  | Hub_Accept_Error string
  | Hub_Signal
  | Hub_Stop
  | Hub_Upgrade_Failed nat
  | Hub_Hello nat uuid 'tx nat ws_read
  | Hub_Event nat session_event
  | Hub_Transport "('tx, 'wr) reg_op"

definition hub_accept ::
  "socket_addr \<Rightarrow> ('tx, 'wr, 'sock) session_hub \<Rightarrow> ('tx, 'wr, 'sock) session_hub" where
  "hub_accept peer h =
     h\<lparr>sh_pending := (sh_pending h)(sh_next h \<mapsto> peer), sh_next := Suc (sh_next h)\<rparr>"

text \<open>The hello of a connection and the opening of its session, under a fresh random id.\<close>

definition hub_hello ::
  "session_env \<Rightarrow> 'f server_config \<Rightarrow> socket_addr \<Rightarrow> nat \<Rightarrow> uuid \<Rightarrow> 'tx \<Rightarrow> nat \<Rightarrow> ws_read
   \<Rightarrow> ('tx, 'wr, 'sock) session_hub \<Rightarrow> ('tx, 'wr, 'sock) session_hub" where
  "hub_hello env cfg peer c sid tx now hello_read h =
     (let (result, conn, w) = open_session env cfg peer sid tx now hello_read (sh_world h);
          h = h\<lparr>sh_pending := (sh_pending h)(c := None), sh_world := w, sh_used := insert sid (sh_used h)\<rparr>
      in case result of
           Inl _ \<Rightarrow> h\<lparr>sh_failed := insert sid (sh_failed h)\<rparr>
         | Inr None \<Rightarrow> h
         | Inr (Some se) \<Rightarrow> h\<lparr>sh_sessions := (sh_sessions h)(c \<mapsto> se)\<rparr>)"

definition hub_message ::
  "session_env \<Rightarrow> nat \<Rightarrow> 'tx session \<Rightarrow> session_event \<Rightarrow> ('tx, 'wr, 'sock) session_hub
   \<Rightarrow> ('tx, 'wr, 'sock) session_hub" where
  "hub_message env c se ev h =
     (case handle_event env se ev (sh_world h) of
        (Loop_Continue, w) \<Rightarrow> h\<lparr>sh_world := w\<rparr>
      | (Loop_Break, w) \<Rightarrow>
          h\<lparr>sh_world := snd (close_session env se w), sh_sessions := (sh_sessions h)(c := None)\<rparr>
      | (Loop_Fail _, w) \<Rightarrow>
          h\<lparr>sh_world := w, sh_sessions := (sh_sessions h)(c := None),
            sh_failed := insert (se_id se) (sh_failed h)\<rparr>)"

fun is_register :: "('tx, 'wr) reg_op \<Rightarrow> bool" where
  "is_register (Op_Register _ _) = True"
| "is_register _ = False"

fun hub_step ::
  "session_env \<Rightarrow> 'f server_config \<Rightarrow> ('tx, 'wr) hub_event \<Rightarrow> ('tx, 'wr, 'sock) session_hub
   \<Rightarrow> unit + ('tx, 'wr, 'sock) session_hub" where
  "hub_step env cfg (Hub_Bound result) h =
     (if sh_phase h = Hub_Starting
      then Inr (h\<lparr>sh_phase := (case result of Inl e \<Rightarrow> Hub_Ended (Inl e) | Inr _ \<Rightarrow> Hub_Accepting)\<rparr>)
      else Inl ())"
| "hub_step env cfg (Hub_Accept peer) h =
     (if sh_phase h = Hub_Accepting then Inr (hub_accept peer h) else Inl ())"
| "hub_step env cfg (Hub_Accept_Error e) h =
     (if sh_phase h = Hub_Accepting then Inr (h\<lparr>sh_phase := Hub_Ended (Inl e)\<rparr>) else Inl ())"
| "hub_step env cfg Hub_Signal h =
     Inr (h\<lparr>sh_signalled := (sh_signalled h \<or> sh_phase h = Hub_Starting \<or> sh_phase h = Hub_Accepting),
            sh_told := sh_told h \<union> dom (sh_pending h) \<union> dom (sh_sessions h)\<rparr>)"
| "hub_step env cfg Hub_Stop h =
     (if sh_phase h = Hub_Accepting \<and> sh_signalled h
      then Inr (h\<lparr>sh_phase := Hub_Ended (Inr ())\<rparr>) else Inl ())"
| "hub_step env cfg (Hub_Upgrade_Failed c) h =
     (if sh_pending h c \<noteq> None then Inr (h\<lparr>sh_pending := (sh_pending h)(c := None)\<rparr>) else Inl ())"
| "hub_step env cfg (Hub_Hello c sid tx now hello_read) h =
     (case sh_pending h c of None \<Rightarrow> Inl ()
      | Some peer \<Rightarrow> if sid \<in> sh_used h then Inl ()
          else Inr (hub_hello env cfg peer c sid tx now hello_read h))"
| "hub_step env cfg (Hub_Event c ev) h =
     (case sh_sessions h c of None \<Rightarrow> Inl ()
      | Some se \<Rightarrow> if ev = Ev_Shutdown \<and> c \<notin> sh_told h then Inl ()
          else Inr (hub_message env c se ev h))"
| "hub_step env cfg (Hub_Transport x) h =
     (if is_register x then Inl ()
      else case reg_step (env_json env) x (sw_registry (sh_world h)) of Inl _ \<Rightarrow> Inl ()
      | Inr r \<Rightarrow> Inr (h\<lparr>sh_world := (sh_world h)\<lparr>sw_registry := r\<rparr>\<rparr>))"

section \<open>Which ids the registry holds\<close>

abbreviation reg_ids :: "('tx, 'wr) registry \<Rightarrow> uuid set" where
  "reg_ids r \<equiv> ch_id ` set (reg_clients r)"

lemma world_ids_reg: "set (world_ids w) = reg_ids (sw_registry w)"
  by (simp add: world_ids_def)

lemma ids_of_map: "map ch_id cs = map ch_id ds \<Longrightarrow> ch_id ` set cs = ch_id ` set ds"
  by (metis set_map)

lemma update_client_reg_ids:
  "(\<And>c. ch_id (f c) = ch_id c) \<Longrightarrow> ch_id ` set (update_client i f cs) = ch_id ` set cs"
  by (rule ids_of_map) simp

lemma register_reg_ids: "reg_ids (snd (register_client js rq now r)) \<subseteq> insert (rq_id rq) (reg_ids r)"
proof (cases "fst (register_client js rq now r)")
  case (Inl e)
  then show ?thesis
    using register_client_error_state [OF Inl]
    by (auto simp: after_replacement_clients split: option.splits)
next
  case (Inr u)
  then have ok: "fst (register_client js rq now r) = Inr ()" by simp
  obtain c s where a: "assign_transport (rq_transport_kind rq) now (new_client_handle rq) (after_replacement rq r) = (c, s)"
    by fastforce
  then have "ch_id c = rq_id rq"
    using assign_transport_frame [OF a] by (simp add: new_client_handle_def)
  then show ?thesis
    using register_client_result(1) [OF ok a]
    by (auto simp: insert_client_def after_replacement_clients split: option.splits)
qed

lemma remove_reg_ids:
  "reg_inv r \<Longrightarrow> reg_ids (snd (remove_client js i r)) = reg_ids r - {i}"
  by (auto simp: remove_client_def remove_client_locked_def split: option.splits prod.splits)

lemma attach_reg_ids: "reg_ids (attach_usb_stream st now r) \<subseteq> reg_ids r"
proof -
  have "reg_ids (attach_usb_stream st now r) = reg_ids (drop_expired now r)"
    by (auto simp: attach_usb_stream_def Let_def update_client_reg_ids set_usb_stream_def
        split: list.split option.split)
  then show ?thesis by (auto simp: drop_expired_form)
qed

lemma mark_lost_reg_ids: "reg_ids (snd (mark_usb_transport_lost i now r)) = reg_ids r"
  by (simp add: mark_usb_transport_lost_def Let_def update_client_reg_ids split: option.split)

lemma take_reg_ids: "reg_ids (snd (take_broadcast_clients r)) = reg_ids r"
  by (simp add: take_broadcast_clients_def image_image) (force split: option.splits)

lemma transport_reg_ids:
  assumes "\<not> is_register x" and "reg_inv r" and "reg_step js x r = Inr s"
  shows "reg_ids s \<subseteq> reg_ids r"
proof (cases x)
  case (Op_Rehash cs)
  then show ?thesis using assms(3) by (auto simp: reg_step_def split: if_splits dest: mset_eq_setD)
next
  case (Op_Lost i now)
  then have "s = snd (mark_usb_transport_lost i now r)" using assms(3) by (simp add: reg_step_def)
  then show ?thesis by (simp only: mark_lost_reg_ids order_refl)
next
  case Op_Take
  then have "s = snd (take_broadcast_clients r)" using assms(3) by (simp add: reg_step_def)
  then show ?thesis by (simp only: take_reg_ids order_refl)
next
  case (Op_SetMode i m rate codec)
  have "reg_ids (set_client_mode js i m rate codec r) = reg_ids r"
    by (rule ids_of_map) (rule set_client_mode_ids)
  then show ?thesis using Op_SetMode assms(3) by (simp add: reg_step_def)
next
  case (Op_Remove i)
  have "reg_ids (snd (remove_client js i r)) \<subseteq> reg_ids r" using remove_reg_ids [OF assms(2)] by blast
  then show ?thesis using Op_Remove assms(3) by (simp add: reg_step_def)
next
  case (Op_Attach st now)
  then show ?thesis using assms(3) attach_reg_ids [of st now r] by (simp add: reg_step_def)
qed (use assms(1,3) in \<open>auto simp: reg_step_def note_client_watermark_def take_latest_watermark_def\<close>)

lemma send_jsons_reg_ids: "send_jsons js tx r = (ok, s) \<Longrightarrow> reg_ids s = reg_ids r"
  using send_jsons_frame by metis

text \<open>What opening a session can add to the registry: its own id, and only if it did not end refused.\<close>

lemma open_session_ids:
  assumes "open_session env cfg peer sid tx now hello_read w = (result, conn, w')"
  shows "reg_ids (sw_registry w') \<subseteq> insert sid (reg_ids (sw_registry w))"
proof -
  have est: "reg_ids (sw_registry w') \<subseteq> insert sid (reg_ids (sw_registry w))"
    if e: "establish env cfg peer sid tx now f conn0 w = (result, conn, w')" for f conn0
  proof -
    let ?path = "negotiate_session_path (sw_router w) (hf_v2 f) (hf_capabilities f)"
    let ?rq = "session_request env cfg peer sid tx (sw_audio_mode w) ?path f"
    let ?reg = "(sw_registry w)\<lparr>reg_metrics := set_negotiated_session_path
      (data_plane_format_as_str (np_data_plane ?path)) (codec_selection_as_str (np_codec ?path))
      (reg_metrics (sw_registry w))\<rparr>"
    obtain res reg where r: "register_client (env_json env) ?rq now ?reg = (res, reg)" by fastforce
    have ids: "reg_ids reg \<subseteq> insert sid (reg_ids (sw_registry w))"
      using register_reg_ids [of "env_json env" ?rq now ?reg] r by (simp add: session_request_def)
    have "reg_ids (sw_registry w') = reg_ids reg"
      using e r unfolding establish_def Let_def
      by (auto split: sum.splits prod.splits if_splits dest!: send_jsons_reg_ids)
    with ids show ?thesis by simp
  qed
  show ?thesis
    using assms est unfolding open_session_def Let_def
    by (auto split: ws_read.splits ws_message.splits sum.splits)
qed

section \<open>The invariant\<close>

definition open_ids :: "('tx, 'wr, 'sock) session_hub \<Rightarrow> uuid set" where
  "open_ids h = se_id ` ran (sh_sessions h)"

definition hub_inv :: "('tx, 'wr, 'sock) session_hub \<Rightarrow> bool" where
  "hub_inv h \<longleftrightarrow> reg_inv (sw_registry (sh_world h))
     \<and> reg_ids (sw_registry (sh_world h)) \<subseteq> open_ids h \<union> sh_failed h
     \<and> open_ids h \<union> sh_failed h \<subseteq> sh_used h
     \<and> open_ids h \<inter> sh_failed h = {}
     \<and> inj_on (\<lambda>c. se_id (the (sh_sessions h c))) (dom (sh_sessions h))
     \<and> dom (sh_pending h) \<inter> dom (sh_sessions h) = {}
     \<and> dom (sh_pending h) \<union> dom (sh_sessions h) \<union> sh_told h \<subseteq> {..< sh_next h}"

lemma open_ids_dom: "open_ids h = (\<lambda>c. se_id (the (sh_sessions h c))) ` dom (sh_sessions h)"
  by (force simp: open_ids_def ran_def dom_def)

lemma open_idsI: "sh_sessions h c = Some se \<Longrightarrow> se_id se \<in> open_ids h"
  by (auto simp: open_ids_def ran_def)

text \<open>A session that ends takes its id, and only it, off the open ones.\<close>

lemma open_ids_remove:
  assumes "inj_on (\<lambda>c. se_id (the (sh_sessions h c))) (dom (sh_sessions h))" and "sh_sessions h c = Some se"
    and "sh_sessions k = (sh_sessions h)(c := None)"
  shows "open_ids k = open_ids h - {se_id se}"
    and "inj_on (\<lambda>c. se_id (the (sh_sessions k c))) (dom (sh_sessions k))"
proof -
  have same: "\<And>d. d \<in> dom (sh_sessions k) \<Longrightarrow> the (sh_sessions k d) = the (sh_sessions h d)"
    using assms(3) by auto
  have sub: "dom (sh_sessions k) = dom (sh_sessions h) - {c}" using assms(3) by auto
  show "inj_on (\<lambda>c. se_id (the (sh_sessions k c))) (dom (sh_sessions k))"
    using assms(1) sub same by (auto simp: inj_on_def)
  have "open_ids k = (\<lambda>c. se_id (the (sh_sessions h c))) ` (dom (sh_sessions h) - {c})"
    unfolding open_ids_dom sub [symmetric] using same by (intro image_cong) auto
  also have "\<dots> = open_ids h - {se_id se}"
    using assms(1,2) unfolding open_ids_dom
    by (subst inj_on_image_set_diff [of _ "dom (sh_sessions h)"]) auto
  finally show "open_ids k = open_ids h - {se_id se}" .
qed

lemma open_ids_add:
  assumes "inj_on (\<lambda>c. se_id (the (sh_sessions h c))) (dom (sh_sessions h))" and "sh_sessions h c = None"
    and "se_id se \<notin> open_ids h" and "sh_sessions k = (sh_sessions h)(c \<mapsto> se)"
  shows "open_ids k = insert (se_id se) (open_ids h)"
    and "inj_on (\<lambda>c. se_id (the (sh_sessions k c))) (dom (sh_sessions k))"
proof -
  have "c \<notin> dom (sh_sessions h)" using assms(2) by auto
  show "open_ids k = insert (se_id se) (open_ids h)"
    by (simp add: open_ids_def assms(2,4) ran_map_upd)
  show "inj_on (\<lambda>c. se_id (the (sh_sessions k c))) (dom (sh_sessions k))"
  proof -
    have "\<And>d x. sh_sessions h d = Some x \<Longrightarrow> se_id x \<noteq> se_id se"
      using assms(3) open_idsI by metis
    then show ?thesis
      using assms(1) \<open>c \<notin> dom (sh_sessions h)\<close> unfolding assms(4)
      by (auto simp: inj_on_def dest: sym)
  qed
qed

lemma hub_message_inv:
  assumes "hub_inv h" and "sh_sessions h c = Some se"
  shows "hub_inv (hub_message env c se ev h)"
proof -
  obtain x w where h: "handle_event env se ev (sh_world h) = (x, w)" by fastforce
  have k: "reg_ids (sw_registry w) = reg_ids (sw_registry (sh_world h))" "reg_inv (sw_registry w)"
    using handle_event_keeps [OF h] assms(1) by (auto simp: hub_inv_def world_ids_reg [symmetric])
  have o: "se_id se \<in> open_ids h" by (rule open_idsI [OF assms(2)])
  let ?k = "hub_message env c se ev h"
  show ?thesis
  proof (cases x)
    case Loop_Continue
    then show ?thesis using assms(1) k by (simp add: hub_message_def h hub_inv_def open_ids_def)
  next
    case Loop_Break
    let ?w = "snd (close_session env se w)"
    have s: "sh_sessions ?k = (sh_sessions h)(c := None)" "sh_world ?k = ?w" "sh_failed ?k = sh_failed h"
        "sh_used ?k = sh_used h" "sh_pending ?k = sh_pending h" "sh_next ?k = sh_next h"
        "sh_told ?k = sh_told h"
      using Loop_Break by (simp_all add: hub_message_def h)
    have w: "reg_inv (sw_registry ?w)" "reg_ids (sw_registry ?w) = reg_ids (sw_registry w) - {se_id se}"
      using remove_inv [OF k(2)] remove_reg_ids [OF k(2)] by (simp_all add: close_session_def)
    note r = open_ids_remove [OF _ assms(2) s(1)]
    show ?thesis
      using assms(1) w k(1) r unfolding hub_inv_def s by auto
  next
    case (Loop_Fail e)
    have s: "sh_sessions ?k = (sh_sessions h)(c := None)" "sh_world ?k = w"
        "sh_failed ?k = insert (se_id se) (sh_failed h)" "sh_used ?k = sh_used h"
        "sh_pending ?k = sh_pending h" "sh_next ?k = sh_next h" "sh_told ?k = sh_told h"
      using Loop_Fail by (simp_all add: hub_message_def h)
    note r = open_ids_remove [OF _ assms(2) s(1)]
    show ?thesis
      using assms(1) k o r unfolding hub_inv_def s by auto
  qed
qed

text \<open>A connection whose hello is over without a session: its id is used, and may count as failed.\<close>

lemma hub_rest_inv:
  assumes "hub_inv h" and "sid \<notin> sh_used h" and "reg_inv (sw_registry w)"
    and "reg_ids (sw_registry w) \<subseteq> open_ids h \<union> failed" and "failed \<subseteq> insert sid (sh_failed h)"
  shows "hub_inv (h\<lparr>sh_pending := (sh_pending h)(c := None), sh_world := w, sh_used := insert sid (sh_used h),
    sh_failed := failed\<rparr>)" (is "hub_inv ?k")
proof -
  have s: "open_ids ?k = open_ids h" "sh_sessions ?k = sh_sessions h" by (simp_all add: open_ids_def)
  show ?thesis using assms unfolding hub_inv_def s by auto
qed

text \<open>A connection that becomes a session.\<close>

lemma hub_join_inv:
  assumes "hub_inv h" and "sh_pending h c = Some peer" and "se_id se \<notin> sh_used h" and "reg_inv (sw_registry w)"
    and "reg_ids (sw_registry w) \<subseteq> insert (se_id se) (reg_ids (sw_registry (sh_world h)))"
  shows "hub_inv (h\<lparr>sh_pending := (sh_pending h)(c := None), sh_world := w,
    sh_used := insert (se_id se) (sh_used h), sh_sessions := (sh_sessions h)(c \<mapsto> se)\<rparr>)" (is "hub_inv ?k")
proof -
  have c: "sh_sessions h c = None" and n: "se_id se \<notin> open_ids h" "se_id se \<notin> sh_failed h"
    using assms(1-3) by (auto simp: hub_inv_def)
  have inj: "inj_on (\<lambda>c. se_id (the (sh_sessions h c))) (dom (sh_sessions h))"
    using assms(1) by (simp add: hub_inv_def)
  have s: "sh_sessions ?k = (sh_sessions h)(c \<mapsto> se)" by simp
  note add = open_ids_add [OF inj c n(1) s]
  have h: "reg_ids (sw_registry (sh_world h)) \<subseteq> open_ids h \<union> sh_failed h"
      "open_ids h \<union> sh_failed h \<subseteq> sh_used h" "open_ids h \<inter> sh_failed h = {}"
      "dom (sh_pending h) \<inter> dom (sh_sessions h) = {}"
      "dom (sh_pending h) \<union> dom (sh_sessions h) \<union> sh_told h \<subseteq> {..<sh_next h}" "c \<in> dom (sh_pending h)"
    using assms(1,2) unfolding hub_inv_def by blast+
  show ?thesis
    unfolding hub_inv_def add(1)
  proof (intro conjI)
    show "inj_on (\<lambda>c. se_id (the (sh_sessions ?k c))) (dom (sh_sessions ?k))" by (rule add(2))
    show "reg_ids (sw_registry (sh_world ?k)) \<subseteq> insert (se_id se) (open_ids h) \<union> sh_failed ?k"
      using subset_trans [OF assms(5) insert_mono [OF h(1)]] by (simp del: insert_subset)
    show "dom (sh_pending ?k) \<inter> dom (sh_sessions ?k) = {}" using h(4) by auto
    show "dom (sh_pending ?k) \<union> dom (sh_sessions ?k) \<union> sh_told ?k \<subseteq> {..<sh_next ?k}" using h(5,6) by auto
  qed (use h n assms(3,4) in auto)
qed

lemma hub_hello_inv:
  assumes "hub_inv h" and "sh_pending h c = Some peer" and "sid \<notin> sh_used h"
  shows "hub_inv (hub_hello env cfg peer c sid tx now hello_read h)"
proof -
  obtain result conn w where o: "open_session env cfg peer sid tx now hello_read (sh_world h) = (result, conn, w)"
    by (metis prod_cases3)
  have i: "reg_inv (sw_registry (sh_world h))" "reg_ids (sw_registry (sh_world h)) \<subseteq> open_ids h \<union> sh_failed h"
      "sid \<notin> reg_ids (sw_registry (sh_world h))"
    using assms(1,3) by (auto simp: hub_inv_def)
  note oc = open_session_result [OF i(1) _ o, unfolded world_ids_reg, OF i(3)]
  have ids: "reg_ids (sw_registry w) \<subseteq> insert sid (reg_ids (sw_registry (sh_world h)))"
    by (rule open_session_ids [OF o])
  have wi: "reg_inv (sw_registry w)" using oc by simp
  consider (err) e where "result = Inl e" | (refused) "result = Inr None" | (ok) se where "result = Inr (Some se)"
    by (cases result; cases "projr result") auto
  then show ?thesis
  proof cases
    case err
    have "hub_inv (h\<lparr>sh_pending := (sh_pending h)(c := None), sh_world := w, sh_used := insert sid (sh_used h),
        sh_failed := insert sid (sh_failed h)\<rparr>)"
      using ids i(2) by (intro hub_rest_inv [OF assms(1,3) wi]) auto
    then show ?thesis using err by (simp add: hub_hello_def o Let_def)
  next
    case refused
    then have "reg_ids (sw_registry w) = reg_ids (sw_registry (sh_world h))" using oc by (auto simp: session_refused_def)
    then have "hub_inv (h\<lparr>sh_pending := (sh_pending h)(c := None), sh_world := w, sh_used := insert sid (sh_used h),
        sh_failed := sh_failed h\<rparr>)"
      using i(2) by (intro hub_rest_inv [OF assms(1,3) wi]) auto
    then show ?thesis using refused by (simp add: hub_hello_def o Let_def)
  next
    case ok
    then have "se_id se = sid" using oc by (auto simp: session_established_def)
    then show ?thesis
      using hub_join_inv [OF assms(1,2) _ wi, of se] assms(3) ids ok by (simp add: hub_hello_def o Let_def)
  qed
qed

lemma hub_inv_phase [simp]:
  "hub_inv (h\<lparr>sh_phase := p\<rparr>) = hub_inv h"
  by (simp_all add: hub_inv_def open_ids_def)

lemma hub_accept_inv: "hub_inv h \<Longrightarrow> hub_inv (hub_accept peer h)"
  by (auto simp: hub_inv_def open_ids_def hub_accept_def subset_iff dest: less_SucI)

lemma hub_upgrade_inv: "hub_inv h \<Longrightarrow> hub_inv (h\<lparr>sh_pending := (sh_pending h)(c := None)\<rparr>)"
  by (auto simp: hub_inv_def open_ids_def)

lemma hub_signal_inv:
  "hub_inv h \<Longrightarrow> hub_inv (h\<lparr>sh_signalled := b, sh_told := sh_told h \<union> dom (sh_pending h) \<union> dom (sh_sessions h)\<rparr>)"
  by (simp add: hub_inv_def open_ids_def)

lemma hub_transport_inv:
  assumes "hub_inv h" and "\<not> is_register x" and "reg_step js x (sw_registry (sh_world h)) = Inr r"
  shows "hub_inv (h\<lparr>sh_world := (sh_world h)\<lparr>sw_registry := r\<rparr>\<rparr>)"
proof -
  have i: "reg_inv (sw_registry (sh_world h))" using assms(1) by (simp add: hub_inv_def)
  have "reg_inv r" "reg_ids r \<subseteq> reg_ids (sw_registry (sh_world h))"
    using reg_step_inv [OF i assms(3)] transport_reg_ids [OF assms(2) i assms(3)] by simp_all
  then show ?thesis using assms(1) unfolding hub_inv_def open_ids_def by auto
qed

lemma hub_step_inv:
  assumes "hub_inv h" and "hub_step env cfg x h = Inr k"
  shows "hub_inv k"
proof (cases x)
  case (Hub_Hello c sid tx now hello_read)
  then show ?thesis using assms hub_hello_inv by (auto split: option.splits if_splits)
next
  case (Hub_Event c ev)
  then show ?thesis using assms hub_message_inv by (auto split: option.splits if_splits)
next
  case (Hub_Transport y)
  then show ?thesis using assms hub_transport_inv by (auto split: sum.splits if_splits)
qed (use assms in \<open>auto intro: hub_accept_inv hub_upgrade_inv hub_signal_inv split: if_splits\<close>)

interpretation hub: guarded_machine "hub_step env cfg" hub_inv for env cfg
  by unfold_locales (rule hub_step_inv)

lemma session_hub_new_inv: "reg_inv (sw_registry w) \<Longrightarrow> world_ids w = [] \<Longrightarrow> hub_inv (session_hub_new w)"
  by (simp add: hub_inv_def session_hub_new_def open_ids_def world_ids_def)

section \<open>Properties\<close>

text \<open>
  C9: all sessions together. From a server without clients, however the accept loop, the sessions and
  the transport interleave: the registry satisfies its invariant, so at most four clients are
  connected; no two open sessions share an id; and every registered client belongs to a session that
  is open or to one whose \<open>handle_client\<close> returned an error. So a client is left behind in the
  registry only by a session that failed, never by one that was closed, replaced or refused.
\<close>
theorem hub_invariant:
  assumes "reg_inv (sw_registry w)" and "world_ids w = []"
    and "run_ops (hub_step env cfg) evs (session_hub_new w) = Inr h"
  shows "reg_inv (sw_registry (sh_world h)) \<and> length (world_ids (sh_world h)) \<le> MAX_CLIENTS
    \<and> set (world_ids (sh_world h)) \<subseteq> se_id ` ran (sh_sessions h) \<union> sh_failed h
    \<and> se_id ` ran (sh_sessions h) \<inter> sh_failed h = {}
    \<and> inj_on (\<lambda>c. se_id (the (sh_sessions h c))) (dom (sh_sessions h))"
proof -
  have "hub_inv h" by (rule hub.run_ops_inv [OF session_hub_new_inv [OF assms(1,2)] assms(3)])
  then show ?thesis
    by (auto simp: hub_inv_def open_ids_def world_ids_def reg_inv_def clients_ok_def)
qed

definition sample_peer :: socket_addr where
  "sample_peer = \<lparr>sa_ip = V4 10 0 0 3, sa_port = 1\<rparr>"

definition idle_world :: "(nat, nat, nat) session_world" where
  "idle_world = sample_world\<lparr>sw_registry := registry_new metrics_default\<rparr>"

definition sample_hub :: "(nat, nat, nat) session_hub" where
  "sample_hub = (session_hub_new sample_world)\<lparr>sh_phase := Hub_Accepting, sh_next := 2, sh_used := {1, 2},
     sh_sessions := [0 \<mapsto> sample_session, 1 \<mapsto> sample_session\<lparr>se_id := 2\<rparr>]\<rparr>"

lemma sample_hub_inv: "hub_inv sample_hub"
proof -
  have "reg_inv (sw_registry (sh_world sample_hub))"
    using reg_reachable_inv [OF sample_registry_reachable]
    by (simp add: sample_hub_def session_hub_new_def sample_world_def)
  moreover have "open_ids sample_hub = {1, 2}"
    by (simp add: open_ids_def sample_hub_def sample_session_def ran_map_upd insert_commute)
  moreover have "reg_ids (sw_registry (sh_world sample_hub)) = {1}"
    by (simp add: sample_hub_def session_hub_new_def sample_world_def register_eval)
  ultimately show ?thesis
    by (auto simp: hub_inv_def sample_hub_def session_hub_new_def sample_session_def inj_on_def)
qed

theorem hub_invariant_witness:
  "\<exists>h. run_ops (hub_step sample_env sample_config)
      [Hub_Bound (Inr ()), Hub_Accept sample_peer, Hub_Hello 0 2 8 0 Read_Timeout] (session_hub_new idle_world) = Inr h
    \<and> sh_failed h = {2} \<and> set (world_ids (sh_world h)) \<subseteq> se_id ` ran (sh_sessions h) \<union> sh_failed h"
proof -
  have i: "reg_inv (sw_registry idle_world)" "world_ids idle_world = []"
    using reg_new_inv by (simp_all add: idle_world_def world_ids_def registry_new_def)
  obtain h where h: "run_ops (hub_step sample_env sample_config)
      [Hub_Bound (Inr ()), Hub_Accept sample_peer, Hub_Hello 0 2 8 0 Read_Timeout] (session_hub_new idle_world) = Inr h"
    and f: "sh_failed h = {2}"
    by (simp add: session_hub_new_def hub_accept_def hub_hello_def open_session_def sample_peer_def Let_def)
  show ?thesis using hub_invariant [OF i h] h f by blast
qed

text \<open>
  C19: sessions are isolated, in every state that satisfies the invariant of the hub, as all reachable
  ones do. Whatever the session of a connection receives, and however it ends,
  every other connection keeps its session, no other open session has its id, and in the registry the
  whole handle of every other client (its transport, plane, codec, mode, rate and pending marks), the
  waiting entries of the other USB clients and the queue of streams are what they were. What others
  can notice is a message (the new client list, a client that left) and the server's current mode,
  which later connections start with.
\<close>
theorem hub_sessions_isolated:
  assumes "hub_inv h" and "sh_sessions h c = Some sc"
    and "hub_step env cfg (Hub_Event c ev) h = Inr k"
  shows "(\<forall>d. d \<noteq> c \<longrightarrow> sh_sessions k d = sh_sessions h d
      \<and> (\<forall>se. sh_sessions h d = Some se \<longrightarrow> se_id se \<noteq> se_id sc))
    \<and> (\<forall>i. i \<noteq> se_id sc \<longrightarrow> get_client i (reg_clients (sw_registry (sh_world k)))
        = get_client i (reg_clients (sw_registry (sh_world h))))
    \<and> filter (\<lambda>(i, _). i \<noteq> se_id sc) (reg_pending_usb_clients (sw_registry (sh_world k)))
        = filter (\<lambda>(i, _). i \<noteq> se_id sc) (reg_pending_usb_clients (sw_registry (sh_world h)))
    \<and> reg_pending_usb_streams (sw_registry (sh_world k)) = reg_pending_usb_streams (sw_registry (sh_world h))"
proof -
  have k: "k = hub_message env c sc ev h" using assms(2,3) by (auto split: if_splits)
  have "inj_on (\<lambda>c. se_id (the (sh_sessions h c))) (dom (sh_sessions h))"
    using assms(1) by (simp add: hub_inv_def)
  then have ne: "\<forall>d se. d \<noteq> c \<longrightarrow> sh_sessions h d = Some se \<longrightarrow> se_id se \<noteq> se_id sc"
    using assms(2) by (fastforce simp: inj_on_def dom_def)
  obtain x w where h: "handle_event env sc ev (sh_world h) = (x, w)" by fastforce
  have "same_others (se_id sc) (sw_registry (sh_world h)) (sw_registry (snd (close_session env sc w)))"
    using same_others_trans [OF handle_event_others [OF h] remove_client_others] by (simp add: close_session_def)
  then have "same_others (se_id sc) (sw_registry (sh_world h)) (sw_registry (sh_world k))"
    using handle_event_others [OF h] by (cases x) (simp_all add: k hub_message_def h)
  moreover have "\<forall>d. d \<noteq> c \<longrightarrow> sh_sessions k d = sh_sessions h d"
    by (cases x) (simp_all add: k hub_message_def h)
  ultimately show ?thesis using ne unfolding same_others_def by blast
qed

theorem hub_sessions_isolated_witness:
  "\<exists>k. hub_step sample_env sample_config (Hub_Event 1 (Ev_Read (Read_Error ''reset''))) sample_hub = Inr k
    \<and> sh_sessions k 0 = Some sample_session
    \<and> get_client 1 (reg_clients (sw_registry (sh_world k))) = get_client 1 (reg_clients sample_registry)"
proof -
  obtain k where k: "hub_step sample_env sample_config (Hub_Event 1 (Ev_Read (Read_Error ''reset''))) sample_hub = Inr k"
    by (simp add: sample_hub_def)
  obtain sc where sc: "sh_sessions sample_hub 1 = Some sc" "se_id sc \<noteq> 1"
    by (simp add: sample_hub_def session_hub_new_def sample_session_def)
  have "sh_sessions sample_hub 0 = Some sample_session" "sw_registry (sh_world sample_hub) = sample_registry"
    by (simp_all add: sample_hub_def session_hub_new_def sample_world_def)
  then show ?thesis
    using hub_sessions_isolated [OF sample_hub_inv sc(1) k] sc(2) k by (intro exI [of _ k]) auto
qed

definition no_new_connections ::
  "('tx, 'wr, 'sock) session_hub \<Rightarrow> ('tx, 'wr, 'sock) session_hub \<Rightarrow> bool" where
  "no_new_connections h k \<longleftrightarrow> sh_phase k = sh_phase h \<and> sh_next k = sh_next h
     \<and> dom (sh_pending k) \<union> dom (sh_sessions k) \<subseteq> dom (sh_pending h) \<union> dom (sh_sessions h)"

lemma ended_step:
  assumes "sh_phase h = Hub_Ended res" and "hub_step env cfg x h = Inr k"
  shows "no_new_connections h k"
proof (cases x)
  case (Hub_Hello c sid tx now hello_read)
  then show ?thesis
    using assms by (auto simp: no_new_connections_def hub_hello_def Let_def
        split: option.splits if_splits prod.splits sum.splits)
next
  case (Hub_Event c ev)
  then show ?thesis
    using assms by (auto simp: no_new_connections_def hub_message_def
        split: option.splits if_splits prod.splits loop_outcome.splits)
qed (use assms in \<open>auto simp: no_new_connections_def split: if_splits sum.splits\<close>)

lemma no_new_connections_refl: "no_new_connections h h"
  by (simp add: no_new_connections_def)

lemma no_new_connections_trans: "no_new_connections h k \<Longrightarrow> no_new_connections k l \<Longrightarrow> no_new_connections h l"
  unfolding no_new_connections_def by (elim conjE) (intro conjI, simp, simp, rule order_trans)

lemma ended_run:
  "sh_phase k = Hub_Ended res \<Longrightarrow> run_ops (hub_step env cfg) evs k = Inr l \<Longrightarrow> no_new_connections k l"
proof (induction evs arbitrary: k)
  case Nil
  then show ?case by (simp add: no_new_connections_refl)
next
  case (Cons x evs)
  obtain m where m: "hub_step env cfg x k = Inr m" "run_ops (hub_step env cfg) evs m = Inr l"
    using Cons.prems(2) by (auto split: sum.splits)
  have n: "no_new_connections k m" by (rule ended_step [OF Cons.prems(1) m(1)])
  then have "sh_phase m = Hub_Ended res" using Cons.prems(1) by (simp add: no_new_connections_def)
  from no_new_connections_trans [OF n Cons.IH [OF this m(2)]] show ?case .
qed

text \<open>The service does not look at its tasks while it serves.\<close>

lemma serving_run:
  "sr_phase q = Serving \<Longrightarrow> Task_Main \<notin> sr_told q \<Longrightarrow> Task_Sessions \<notin> sr_receivers q \<Longrightarrow>
    set xs \<inter> {Ev_Stop, Ev_Ctrl_C} = {} \<Longrightarrow> run_ops (service_step tasks) xs q = Inr q' \<Longrightarrow>
    sr_phase q' = Serving \<and> Task_Sessions \<notin> sr_receivers q'"
proof (induction xs arbitrary: q)
  case (Cons x xs)
  obtain p where p: "service_step tasks x q = Inr p" using Cons.prems(5) by (auto split: sum.splits)
  then have "sr_phase p = Serving \<and> Task_Main \<notin> sr_told p \<and> Task_Sessions \<notin> sr_receivers p"
    using Cons.prems(1-4) by (cases x) (auto split: if_splits)
  then show ?case using Cons.IH [of p] Cons.prems(4,5) p by simp
qed simp

text \<open>
  C29: one failed \<open>accept\<close> ends the session server. The error leaves the accept loop by \<open>?\<close>: in whatever
  happens afterwards no connection is accepted and every session belongs to a connection accepted
  before; and the service that spawned the loop goes on serving, since it looks at its tasks only
  after a stop.
\<close>
theorem accept_error_ends_sessions:
  assumes "hub_step env cfg (Hub_Accept_Error e) h = Inr k"
    and "run_ops (hub_step env cfg) evs k = Inr l"
    and "sr_phase r = Serving" and "Task_Sessions \<in> sr_receivers r"
    and "Task_Main \<notin> sr_told r" and "set sevs \<inter> {Ev_Stop, Ev_Ctrl_C} = {}"
    and "run_ops (service_step tasks) (Ev_Task_End Task_Sessions # sevs) r = Inr r'"
  shows "sh_phase l = Hub_Ended (Inl e) \<and> no_new_connections k l
    \<and> (\<forall>peer. hub_step env cfg (Hub_Accept peer) l = Inl ())
    \<and> sr_phase r' = Serving \<and> Task_Sessions \<notin> sr_receivers r'"
proof -
  have k: "sh_phase k = Hub_Ended (Inl e)" using assms(1) by (auto split: if_splits)
  have n: "no_new_connections k l" by (rule ended_run [OF k assms(2)])
  then have l: "sh_phase l = Hub_Ended (Inl e)" using k by (simp add: no_new_connections_def)
  have "run_ops (service_step tasks) sevs (r\<lparr>sr_receivers := sr_receivers r - {Task_Sessions}\<rparr>) = Inr r'"
    using assms(4,7) by simp
  from serving_run [OF _ _ _ assms(6) this]
  have "sr_phase r' = Serving \<and> Task_Sessions \<notin> sr_receivers r'" using assms(3,5) by simp
  with n l show ?thesis by simp
qed

theorem accept_error_ends_sessions_witness:
  "\<exists>l r'. run_ops (hub_step sample_env sample_config) [Hub_Accept_Error ''EMFILE'', Hub_Signal] sample_hub = Inr l
    \<and> sh_phase l = Hub_Ended (Inl ''EMFILE'') \<and> sr_phase r' = Serving
    \<and> run_ops (service_step [Task_Sessions]) [Ev_Task_End Task_Sessions]
        \<lparr>sr_phase = Serving, sr_receivers = {Task_Sessions}, sr_told = {}\<rparr> = Inr r'"
proof -
  let ?r = "\<lparr>sr_phase = Serving, sr_receivers = {Task_Sessions}, sr_told = {}\<rparr>"
  let ?k = "sample_hub\<lparr>sh_phase := Hub_Ended (Inl ''EMFILE'')\<rparr>"
  let ?l = "?k\<lparr>sh_told := {0, 1}\<rparr>" and ?r' = "?r\<lparr>sr_receivers := {}\<rparr>"
  have k: "hub_step sample_env sample_config (Hub_Accept_Error ''EMFILE'') sample_hub = Inr ?k"
    "run_ops (hub_step sample_env sample_config) [Hub_Signal] ?k = Inr ?l"
    "run_ops (service_step [Task_Sessions]) [Ev_Task_End Task_Sessions] ?r = Inr ?r'"
    by (simp_all add: sample_hub_def session_hub_new_def insert_commute)
  have "sr_phase ?r = Serving" "Task_Sessions \<in> sr_receivers ?r" "Task_Main \<notin> sr_told ?r"
    "set [] \<inter> {Ev_Stop, Ev_Ctrl_C} = {}" by simp_all
  note * = accept_error_ends_sessions [OF k(1,2) this k(3)]
  have "run_ops (hub_step sample_env sample_config) [Hub_Accept_Error ''EMFILE'', Hub_Signal] sample_hub = Inr ?l"
    unfolding run_ops.simps(2) [of _ "Hub_Accept_Error ''EMFILE''"] k(1) sum.case by (rule k(2))
  then show ?thesis using * k(3) by blast
qed

lemma deaf_step:
  "c \<notin> sh_told h \<Longrightarrow> x \<noteq> Hub_Signal \<Longrightarrow> hub_step env cfg x h = Inr k \<Longrightarrow> c \<notin> sh_told k"
  by (cases x) (auto simp: hub_accept_def hub_hello_def hub_message_def Let_def
      split: if_splits option.splits sum.splits prod.splits loop_outcome.splits)

text \<open>
  A late session never hears the shutdown. The accept loop and the shutdown signal are two arms of
  one \<open>select!\<close>; a connection accepted when the last signal has been sent subscribes behind it, and
  then, whatever else happens, its session is never told to stop.
\<close>
theorem late_session_deaf:
  assumes "hub_inv h" and "hub_step env cfg (Hub_Accept peer) h = Inr k"
    and "Hub_Signal \<notin> set evs" and "run_ops (hub_step env cfg) evs k = Inr l"
  shows "hub_step env cfg (Hub_Event (sh_next h) Ev_Shutdown) l = Inl ()"
proof -
  have "sh_next h \<notin> sh_told k"
    using assms(1,2) by (auto simp: hub_accept_def hub_inv_def split: if_splits)
  then have "sh_next h \<notin> sh_told l"
    using assms(3,4)
  proof (induction evs arbitrary: k)
    case (Cons x evs)
    obtain m where m: "hub_step env cfg x k = Inr m" using Cons.prems(3) by (auto split: sum.splits)
    have "sh_next h \<notin> sh_told m" by (rule deaf_step [OF Cons.prems(1) _ m]) (use Cons.prems(2) in auto)
    then show ?case using Cons.IH [of m] Cons.prems(2,3) m by simp
  qed simp
  then show ?thesis by (simp split: option.split)
qed

theorem late_session_deaf_witness:
  "\<exists>l. run_ops (hub_step sample_env sample_config)
      [Hub_Accept sample_peer, Hub_Stop] (sample_hub\<lparr>sh_signalled := True\<rparr>) = Inr l
    \<and> sh_pending l 2 = Some sample_peer
    \<and> hub_step sample_env sample_config (Hub_Event 2 Ev_Shutdown) l = Inl ()"
proof -
  let ?h = "sample_hub\<lparr>sh_signalled := True\<rparr>"
  have i: "hub_inv ?h" using sample_hub_inv by (simp add: hub_inv_def open_ids_def)
  obtain k where k: "hub_step sample_env sample_config (Hub_Accept sample_peer) ?h = Inr k"
    by (simp add: sample_hub_def)
  obtain l where l: "run_ops (hub_step sample_env sample_config) [Hub_Stop] k = Inr l"
      "sh_pending l 2 = Some sample_peer"
    using k by (auto simp: sample_hub_def hub_accept_def)
  have "sh_next ?h = 2" by (simp add: sample_hub_def)
  then show ?thesis using late_session_deaf [OF i k _ l(1)] k l by simp
qed

end
