(* ===== verification/Host_Platform.thy ===== *)
theory Host_Platform
  imports Adaptive_Runtime
begin

text \<open>
  What the server asks of the host it runs on: the CPU load of the process
  (\<open>crates/lan_audio_server/src/cpu_sampler.rs\<close>, both of its implementations) and the scheduling class
  of the encode thread (\<open>thread_priority.rs\<close>); and the adaptive runtime with the sampler it owns. The
  answers of the operating system are arguments. An instant is a number of nanoseconds, \<open>f64\<close> is real.
\<close>

unbundle bit_operations_syntax

section \<open>The CPU sampler\<close>

record cpu_sample =
  smp_percent :: real
  smp_sampled_at :: nat

record cpu_snapshot =
  wall_at :: nat
  cpu_100ns :: u64

text \<open>A \<open>FILETIME\<close> is its high and low word; \<open>GetProcessTimes\<close> gives kernel and user time or fails.\<close>

type_synonym filetime = "u32 \<times> u32"

definition filetime_to_100ns :: "filetime \<Rightarrow> u64" where
  "filetime_to_100ns ft = (push_bit 32 (ucast (fst ft)) OR ucast (snd ft))"

definition current_snapshot :: "(filetime \<times> filetime) option \<Rightarrow> nat \<Rightarrow> cpu_snapshot option" where
  "current_snapshot usage now =
     (case usage of None \<Rightarrow> None
      | Some (kern, usr) \<Rightarrow>
          Some \<lparr>wall_at = now,
            cpu_100ns = sat_add (filetime_to_100ns kern) (filetime_to_100ns usr)\<rparr>)"

record process_cpu_sampler =
  last_snapshot :: "cpu_snapshot option"
  logical_processors :: u32

definition sampler_new :: "u32 \<Rightarrow> process_cpu_sampler" where
  "sampler_new processors = \<lparr>last_snapshot = None, logical_processors = max processors 1\<rparr>"

definition wall_delta :: "cpu_snapshot \<Rightarrow> cpu_snapshot \<Rightarrow> real" where
  "wall_delta prev snap = real (wall_at snap - wall_at prev) / 1000000000"

definition percent_between :: "cpu_snapshot \<Rightarrow> cpu_snapshot \<Rightarrow> u32 \<Rightarrow> real" where
  "percent_between prev snap processors =
     (let cpu_seconds = real (unat (sat_sub (cpu_100ns snap) (cpu_100ns prev))) / 10000000;
          percent = cpu_seconds / wall_delta prev snap / real (unat processors) * 100
      in clamp percent 0 100)"

definition cpu_sample_windows ::
  "(filetime \<times> filetime) option \<Rightarrow> nat \<Rightarrow> process_cpu_sampler \<Rightarrow> cpu_sample option \<times> process_cpu_sampler" where
  "cpu_sample_windows usage now s =
     (case current_snapshot usage now of None \<Rightarrow> (None, s)
      | Some snap \<Rightarrow>
          (case last_snapshot s of
             None \<Rightarrow> (Some \<lparr>smp_percent = 0, smp_sampled_at = wall_at snap\<rparr>, s\<lparr>last_snapshot := Some snap\<rparr>)
           | Some prev \<Rightarrow>
               if wall_delta prev snap \<le> 0 then (None, s)
               else (Some \<lparr>smp_percent = percent_between prev snap (logical_processors s),
                       smp_sampled_at = wall_at snap\<rparr>, s\<lparr>last_snapshot := Some snap\<rparr>)))"

definition cpu_sample_other :: "nat \<Rightarrow> cpu_sample option" where
  "cpu_sample_other now = Some \<lparr>smp_percent = 0, smp_sampled_at = now\<rparr>"

text \<open>The sampler of the platform the program is built for.\<close>

datatype host_sampler = Windows_Sampler process_cpu_sampler | Other_Sampler

fun host_sample ::
  "(filetime \<times> filetime) option \<Rightarrow> nat \<Rightarrow> host_sampler \<Rightarrow> cpu_sample option \<times> host_sampler" where
  "host_sample usage now (Windows_Sampler s) =
     (let (r, s) = cpu_sample_windows usage now s in (r, Windows_Sampler s))"
| "host_sample usage now Other_Sampler = (cpu_sample_other now, Other_Sampler)"

section \<open>The runtime with its sampler\<close>

record host_runtime =
  hr_sampler :: host_sampler
  hr_runtime :: adaptive_runtime

record host_tick =
  ht_times :: "(filetime \<times> filetime) option"
  ht_now :: nat
  ht_queue_depth :: u32
  ht_queue_capacity :: u32
  ht_dropped :: u32
  ht_watermark :: "watermark_observation option"

definition host_runtime_tick :: "host_tick \<Rightarrow> host_runtime \<Rightarrow> adaptive_decision \<times> host_runtime" where
  "host_runtime_tick t h =
     (let (sample, sampler) = host_sample (ht_times t) (ht_now t) (hr_sampler h);
          (decision, runtime) = runtime_tick (map_option smp_percent sample) (ht_queue_depth t)
            (ht_queue_capacity t) (ht_dropped t) (ht_watermark t) (hr_runtime h)
      in (decision, \<lparr>hr_sampler = sampler, hr_runtime = runtime\<rparr>))"

definition host_run :: "host_tick list \<Rightarrow> host_runtime \<Rightarrow> host_runtime" where
  "host_run ts h = fold (\<lambda>t h. snd (host_runtime_tick t h)) ts h"

section \<open>Thread priority\<close>

datatype mmcss_task = ProAudio | Mmcss_Audio | Games

fun mmcss_task_as_str :: "mmcss_task \<Rightarrow> string" where
  "mmcss_task_as_str ProAudio = ''Pro Audio''"
| "mmcss_task_as_str Mmcss_Audio = ''Audio''"
| "mmcss_task_as_str Games = ''Games''"

text \<open>
  The calls of MMCSS: registration by a wide name that ends in a zero, and its reversal. \<open>None\<close> is a
  target without MMCSS, where a registration is a handle of no meaning.
\<close>

record ('h, 'w) mmcss_api =
  set_characteristics :: "u16 list \<Rightarrow> 'w \<Rightarrow> (string + 'h) \<times> 'w"
  handle_invalid :: "'h \<Rightarrow> bool"
  revert_characteristics :: "'h \<Rightarrow> 'w \<Rightarrow> 'w"

definition wide_name :: "mmcss_task \<Rightarrow> u16 list" where
  "wide_name task = map (\<lambda>c. of_nat (of_char c)) (mmcss_task_as_str task) @ [0]"

definition register_priority ::
  "('h, 'w) mmcss_api option \<Rightarrow> mmcss_task \<Rightarrow> 'w \<Rightarrow> (string + 'h option) \<times> 'w" where
  "register_priority api task w =
     (case api of None \<Rightarrow> (Inr None, w)
      | Some a \<Rightarrow>
          (case set_characteristics a (wide_name task) w of
             (Inl err, w) \<Rightarrow> (Inl (''AvSetMmThreadCharacteristicsW: '' @ err), w)
           | (Inr h, w) \<Rightarrow> if handle_invalid a h then (Inl ''AvSetMmThreadCharacteristicsW returned invalid handle'', w)
               else (Inr (Some h), w)))"

definition drop_priority :: "('h, 'w) mmcss_api option \<Rightarrow> 'h option \<Rightarrow> 'w \<Rightarrow> 'w" where
  "drop_priority api handle w =
     (case api of None \<Rightarrow> w
      | Some a \<Rightarrow> (case handle of None \<Rightarrow> w
          | Some h \<Rightarrow> if handle_invalid a h then w else revert_characteristics a h w))"

definition boost_current_thread ::
  "('h, 'w) mmcss_api option \<Rightarrow> mmcss_task \<Rightarrow> 'w \<Rightarrow> 'h option option \<times> 'w" where
  "boost_current_thread api task w =
     (case register_priority api task w of
        (Inr handle, w) \<Rightarrow> (Some handle, w)
      | (Inl _, w) \<Rightarrow> (None, w))"

text \<open>
  The body of the encode thread: boosted, then the worker loop \<open>body\<close>, which may panic; either way the
  handle is dropped.
\<close>

definition boosted :: "('h, 'w) mmcss_api option \<Rightarrow> mmcss_task \<Rightarrow> ('w \<Rightarrow> 'a \<times> 'w) \<Rightarrow> 'w \<Rightarrow> 'a \<times> 'w" where
  "boosted api task body w =
     (let (handle, w) = boost_current_thread api task w;
          (result, w) = body w
      in (result, case handle of None \<Rightarrow> w | Some h \<Rightarrow> drop_priority api h w))"

section \<open>No CPU time is lost\<close>

fun sampler_run ::
  "((filetime \<times> filetime) option \<times> nat) list \<Rightarrow> process_cpu_sampler
   \<Rightarrow> cpu_sample option list \<times> process_cpu_sampler" where
  "sampler_run [] s = ([], s)"
| "sampler_run ((usage, now) # rest) s =
     (let (r, s) = cpu_sample_windows usage now s; (rs, s) = sampler_run rest s in (r # rs, s))"

text \<open>The processor seconds that the samples of a run report: load times processors times elapsed time.\<close>

fun reported_seconds ::
  "((filetime \<times> filetime) option \<times> nat) list \<Rightarrow> process_cpu_sampler \<Rightarrow> real" where
  "reported_seconds [] s = 0"
| "reported_seconds ((usage, now) # rest) s =
     (let (r, s') = cpu_sample_windows usage now s
      in (case (r, last_snapshot s, last_snapshot s') of
            (Some c, Some prev, Some snap) \<Rightarrow>
              smp_percent c / 100 * real (unat (logical_processors s)) * wall_delta prev snap
          | _ \<Rightarrow> 0) + reported_seconds rest s')"

definition snapshots_of :: "((filetime \<times> filetime) option \<times> nat) list \<Rightarrow> cpu_snapshot list" where
  "snapshots_of reads = List.map_filter (\<lambda>(usage, now). current_snapshot usage now) reads"

definition seconds_between :: "cpu_snapshot \<Rightarrow> cpu_snapshot \<Rightarrow> real" where
  "seconds_between a b = (real (unat (cpu_100ns b)) - real (unat (cpu_100ns a))) / 10000000"

lemma percent_between_bounds: "0 \<le> percent_between a b n \<and> percent_between a b n \<le> 100"
  by (simp add: percent_between_def clamp_def Let_def)

lemma cpu_sample_windows_bounds:
  "cpu_sample_windows usage now s = (Some c, s') \<Longrightarrow> 0 \<le> smp_percent c \<and> smp_percent c \<le> 100"
  using percent_between_bounds
  by (auto simp: cpu_sample_windows_def split: option.splits if_splits)

lemma host_sample_bounds:
  "host_sample usage now s = (Some c, s') \<Longrightarrow> 0 \<le> smp_percent c \<and> smp_percent c \<le> 100"
  by (cases s) (auto simp: cpu_sample_other_def Let_def dest: cpu_sample_windows_bounds split: prod.splits)

text \<open>One sample over a positive time, on at least one processor.\<close>

lemma percent_between_seconds:
  assumes "0 < wall_delta a b" and "0 < unat n" and "cpu_100ns a \<le> cpu_100ns b"
  shows "percent_between a b n / 100 * real (unat n) * wall_delta a b \<le> seconds_between a b"
    and "percent_between a b n \<noteq> 100 \<Longrightarrow>
      percent_between a b n / 100 * real (unat n) * wall_delta a b = seconds_between a b"
proof -
  let ?d = "wall_delta a b" and ?n = "real (unat n)"
  have s: "real (unat (sat_sub (cpu_100ns b) (cpu_100ns a))) / 10000000 = seconds_between a b"
    using assms(3) by (simp add: seconds_between_def unat_sat_sub word_le_nat_alt)
  have p: "0 \<le> seconds_between a b"
    using of_nat_mono [OF assms(3) [unfolded word_le_nat_alt], where 'a = real]
    unfolding seconds_between_def by (simp only: divide_nonneg_pos diff_ge_0_iff_ge)
  let ?x = "seconds_between a b / ?d / ?n * 100"
  have x0: "0 \<le> ?x" using p assms(1,2) by (intro mult_nonneg_nonneg divide_nonneg_nonneg of_nat_0_le_iff) auto
  have e: "percent_between a b n = min ?x 100"
    unfolding percent_between_def Let_def s clamp_def using x0 by (auto simp: min_def)
  have N: "0 < ?n" using assms(2) by (simp only: of_nat_0_less_iff)
  have x: "?x / 100 * ?n * ?d = seconds_between a b" using assms(1) N by simp
  have "min ?x 100 / 100 * ?n * ?d \<le> ?x / 100 * ?n * ?d"
    using assms(1) N by (intro mult_right_mono divide_right_mono) auto
  then show "percent_between a b n / 100 * ?n * ?d \<le> seconds_between a b" unfolding e x .
  show "percent_between a b n / 100 * ?n * ?d = seconds_between a b" if "percent_between a b n \<noteq> 100"
    using that x unfolding e by (metis min_def)
qed

lemma snapshots_of_Cons:
  "snapshots_of ((usage, now) # rest) =
    (case current_snapshot usage now of None \<Rightarrow> snapshots_of rest | Some x \<Rightarrow> x # snapshots_of rest)"
  by (simp add: snapshots_of_def List.map_filter_def split: option.split)

lemma reported_from:
  assumes "last_snapshot s = Some a" and "0 < unat (logical_processors s)"
    and "sorted (map cpu_100ns (a # snapshots_of reads))" and "sampler_run reads s = (rs, s')"
  shows "\<exists>b. last_snapshot s' = Some b \<and> reported_seconds reads s \<le> seconds_between a b
    \<and> ((\<forall>c. Some c \<in> set rs \<longrightarrow> smp_percent c \<noteq> 100) \<longrightarrow> reported_seconds reads s = seconds_between a b)"
  using assms
proof (induction reads s arbitrary: a rs rule: reported_seconds.induct)
  case (1 s)
  then show ?case by (simp add: seconds_between_def)
next
  case (2 usage now rest s)
  obtain r t where rt: "cpu_sample_windows usage now s = (r, t)" by fastforce
  obtain rs' where rs': "sampler_run rest t = (rs', s')" "rs = r # rs'"
    using "2.prems"(4) rt by (auto simp: Let_def split: prod.splits)
  show ?case
  proof (cases "t = s \<and> r = None")
    case True
    have "sorted (map cpu_100ns (a # snapshots_of rest))"
      using "2.prems"(3) by (auto simp: snapshots_of_Cons split: option.splits)
    then show ?thesis
      using "2.IH" [OF rt [symmetric] refl] "2.prems"(1,2) True rt rs' by (auto simp: Let_def)
  next
    case False
    then obtain b where b: "current_snapshot usage now = Some b" "0 < wall_delta a b"
        "r = Some \<lparr>smp_percent = percent_between a b (logical_processors s), smp_sampled_at = wall_at b\<rparr>"
        "t = s\<lparr>last_snapshot := Some b\<rparr>"
      using rt "2.prems"(1) by (auto simp: cpu_sample_windows_def split: option.splits if_splits)
    have so: "cpu_100ns a \<le> cpu_100ns b" "sorted (map cpu_100ns (b # snapshots_of rest))"
      using "2.prems"(3) b(1) by (auto simp: snapshots_of_Cons)
    obtain c where c: "last_snapshot s' = Some c" "reported_seconds rest t \<le> seconds_between b c"
        "(\<forall>c. Some c \<in> set rs' \<longrightarrow> smp_percent c \<noteq> 100) \<longrightarrow> reported_seconds rest t = seconds_between b c"
      using "2.IH" [OF rt [symmetric] refl _ _ so(2) rs'(1)] b(4) "2.prems"(2) by auto
    have sum: "seconds_between a b + seconds_between b c = seconds_between a c"
      by (simp add: seconds_between_def diff_divide_distrib)
    have rep: "reported_seconds ((usage, now) # rest) s =
        percent_between a b (logical_processors s) / 100 * real (unat (logical_processors s)) * wall_delta a b
        + reported_seconds rest t"
      using rt b "2.prems"(1) by (simp add: Let_def)
    show ?thesis
      using c percent_between_seconds [OF b(2) "2.prems"(2) so(1)] sum
      unfolding rep rs'(2) b(3) by fastforce
  qed
qed

lemma sampler_run_bounds:
  "sampler_run reads s = (rs, s') \<Longrightarrow> Some c \<in> set rs \<Longrightarrow> 0 \<le> smp_percent c \<and> smp_percent c \<le> 100"
proof (induction reads s arbitrary: rs rule: sampler_run.induct)
  case (2 usage now rest s)
  then show ?case
    by (auto simp: Let_def split: prod.splits dest: cpu_sample_windows_bounds)
qed simp

lemma reported_unread:
  assumes "last_snapshot t = None" and "0 < unat (logical_processors t)" and "sampler_run reads t = (rs, s)"
    and "sorted (map cpu_100ns (snapshots_of reads))"
  shows "case snapshots_of reads of [] \<Rightarrow> last_snapshot s = None \<and> set rs \<subseteq> {None}
     | first # _ \<Rightarrow> \<exists>final. last_snapshot s = Some final \<and> reported_seconds reads t \<le> seconds_between first final
         \<and> ((\<forall>c. Some c \<in> set rs \<longrightarrow> smp_percent c \<noteq> 100) \<longrightarrow> reported_seconds reads t = seconds_between first final)"
  using assms
proof (induction reads arbitrary: rs)
  case Nil
  then show ?case by (simp add: snapshots_of_def)
next
  case (Cons x reads)
  obtain usage now where x: "x = (usage, now)" by fastforce
  show ?case
  proof (cases "current_snapshot usage now")
    case None
    then have q: "cpu_sample_windows usage now t = (None, t)" by (simp add: cpu_sample_windows_def)
    then obtain rs' where rs': "sampler_run reads t = (rs', s)" "rs = None # rs'"
      using Cons.prems(3) by (auto simp: x Let_def split: prod.splits)
    have "sorted (map cpu_100ns (snapshots_of reads))"
      using Cons.prems(4) None by (simp add: x snapshots_of_Cons)
    from Cons.IH [OF Cons.prems(1,2) rs'(1) this] show ?thesis
      using None q rs'(2) by (simp add: x snapshots_of_Cons split: list.splits)
  next
    case (Some a)
    let ?t = "t\<lparr>last_snapshot := Some a\<rparr>"
    have q: "cpu_sample_windows usage now t = (Some \<lparr>smp_percent = 0, smp_sampled_at = wall_at a\<rparr>, ?t)"
      using Some Cons.prems(1) by (simp add: cpu_sample_windows_def)
    then obtain rs' where rs': "sampler_run reads ?t = (rs', s)" "rs = Some \<lparr>smp_percent = 0, smp_sampled_at = wall_at a\<rparr> # rs'"
      using Cons.prems(3) by (auto simp: x Let_def split: prod.splits)
    have so: "sorted (map cpu_100ns (a # snapshots_of reads))"
      using Cons.prems(4) Some by (simp add: x snapshots_of_Cons)
    have "reported_seconds (x # reads) t = reported_seconds reads ?t"
      using q Cons.prems(1) by (simp add: x Let_def)
    then show ?thesis
      using reported_from [OF _ _ so rs'(1)] Cons.prems(2) Some rs'(2) by (auto simp: x snapshots_of_Cons)
  qed
qed

text \<open>
  C37: the sampler loses no CPU time. However often it is asked, and whichever calls of
  \<open>GetProcessTimes\<close> fail or come within the resolution of the clock: every load it reports lies between
  0 and 100 percent; and the processor time its samples stand for is at most the time the process
  used between the first and the last snapshot it kept, and exactly that if no sample was cut off at
  100. An interval without a sample is made up for by the next one.
\<close>
theorem cpu_time_accounted:
  assumes "sorted (map cpu_100ns (snapshots_of reads))" and "sampler_run reads (sampler_new processors) = (rs, s)"
  shows "(\<forall>c. Some c \<in> set rs \<longrightarrow> 0 \<le> smp_percent c \<and> smp_percent c \<le> 100)
    \<and> (case snapshots_of reads of [] \<Rightarrow> last_snapshot s = None \<and> set rs \<subseteq> {None}
       | first # _ \<Rightarrow> \<exists>final. last_snapshot s = Some final
           \<and> reported_seconds reads (sampler_new processors) \<le> seconds_between first final
           \<and> ((\<forall>c. Some c \<in> set rs \<longrightarrow> smp_percent c \<noteq> 100)
               \<longrightarrow> reported_seconds reads (sampler_new processors) = seconds_between first final))"
proof -
  have "1 \<le> max processors 1" by simp
  then have "0 < unat (logical_processors (sampler_new processors))"
    by (simp add: sampler_new_def word_le_nat_alt)
  from reported_unread [OF _ this assms(2,1)] sampler_run_bounds [OF assms(2)]
  show ?thesis by (simp add: sampler_new_def)
qed

theorem cpu_time_accounted_witness:
  "\<exists>rs s. sampler_run [(Some ((0, 0), (0, 0)), 0), (None, 5), (Some ((0, 10000000), (0, 0)), 2000000000)] (sampler_new 1) = (rs, s)
    \<and> reported_seconds [(Some ((0, 0), (0, 0)), 0), (None, 5), (Some ((0, 10000000), (0, 0)), 2000000000)] (sampler_new 1) \<le> 1"
proof -
  let ?reads = "[(Some ((0, 0), (0, 0)), 0), (None, 5), (Some ((0, 10000000), (0, 0)), 2000000000)]
    :: ((filetime \<times> filetime) option \<times> nat) list"
  have snaps: "snapshots_of ?reads = [\<lparr>wall_at = 0, cpu_100ns = 0\<rparr>, \<lparr>wall_at = 2000000000, cpu_100ns = 10000000\<rparr>]"
    by (simp add: snapshots_of_def List.map_filter_def current_snapshot_def filetime_to_100ns_def sat_add_def)
  then have "sorted (map cpu_100ns (snapshots_of ?reads))" by simp
  moreover obtain rs s where r: "sampler_run ?reads (sampler_new 1) = (rs, s)" by fastforce
  moreover have "last_snapshot s = Some \<lparr>wall_at = 2000000000, cpu_100ns = 10000000\<rparr>"
    using r by (auto simp: cpu_sample_windows_def current_snapshot_def filetime_to_100ns_def sat_add_def
        sampler_new_def wall_delta_def Let_def)
  ultimately show ?thesis
    using cpu_time_accounted [of ?reads 1 rs s] by (auto simp: snaps seconds_between_def)
qed

section \<open>The load the watchdog sees\<close>

lemma runtime_tick_watchdog:
  "ar_watchdog (snd (runtime_tick cpu qd qc dr wm a)) =
     snd (watchdog_tick \<lparr>current_cpu_percent = (case cpu of None \<Rightarrow> 0 | Some p \<Rightarrow> p),
       consecutive_dropped_frames = dr, encode_queue_depth = qd, encode_queue_capacity = qc\<rparr>
       (ar_cadence a) (ar_watchdog a))"
  by (auto simp: runtime_tick_def Let_def split: prod.splits option.splits)

definition host_inv :: "host_runtime \<Rightarrow> bool" where
  "host_inv h \<longleftrightarrow> runtime_inv (hr_runtime h) \<and> predictor_ok (wd_predictor (ar_watchdog (hr_runtime h)))"

lemma host_tick_inv:
  assumes "host_inv h"
  shows "host_inv (snd (host_runtime_tick t h))"
proof -
  obtain r q where s: "host_sample (ht_times t) (ht_now t) (hr_sampler h) = (r, q)" by fastforce
  have r: "0 \<le> (case map_option smp_percent r of None \<Rightarrow> 0 | Some p \<Rightarrow> p)"
      "(case map_option smp_percent r of None \<Rightarrow> 0 | Some p \<Rightarrow> p) \<le> 100"
    using host_sample_bounds [of "ht_times t" "ht_now t" "hr_sampler h"] s by (auto split: option.splits)
  obtain d b where b: "runtime_tick (map_option smp_percent r) (ht_queue_depth t) (ht_queue_capacity t)
      (ht_dropped t) (ht_watermark t) (hr_runtime h) = (d, b)" by fastforce
  have "runtime_inv b" using runtime_tick_keeps [OF b] assms by (simp add: host_inv_def)
  moreover have "predictor_ok (wd_predictor (ar_watchdog b))"
    using runtime_tick_watchdog [of "map_option smp_percent r"] b assms r
    by (metis host_inv_def observe_cpu_ok pressure_signals.select_convs(1) snd_conv watchdog_tick_predictor)
  ultimately show ?thesis by (simp add: host_runtime_tick_def s b host_inv_def)
qed

lemma host_run_inv: "host_inv h \<Longrightarrow> host_inv (host_run ts h)"
  by (induction ts arbitrary: h) (simp_all add: host_run_def host_tick_inv)

lemma host_new_inv:
  "host_inv \<lparr>hr_sampler = sampler, hr_runtime = runtime_new cfg horizon target initial cadence\<rparr>"
  using runtime_new_inv [of cfg horizon target initial cadence]
  by (simp add: host_inv_def predictor_ok_def) (simp add: runtime_new_def watchdog_new_def predictor_new_def)

definition calm :: "watchdog_config \<Rightarrow> host_tick \<Rightarrow> bool" where
  "calm cfg t \<longleftrightarrow> ht_dropped t < red_drop_streak cfg
     \<and> (let ratio = queue_fill_ratio \<lparr>current_cpu_percent = 0, consecutive_dropped_frames = ht_dropped t,
          encode_queue_depth = ht_queue_depth t, encode_queue_capacity = ht_queue_capacity t\<rparr>
        in ratio < yellow_queue_ratio cfg \<and> ratio < red_queue_ratio cfg)"

definition idle_host :: "watchdog_config \<Rightarrow> host_runtime \<Rightarrow> bool" where
  "idle_host cfg h \<longleftrightarrow> hr_sampler h = Other_Sampler \<and> wd_cfg (ar_watchdog (hr_runtime h)) = cfg
     \<and> wd_tier (ar_watchdog (hr_runtime h)) = Green
     \<and> (let p = wd_predictor (ar_watchdog (hr_runtime h)) in ewma p = 0 \<and> trend p = 0 \<and> last_sample p = 0)"

definition tick_signals :: "host_tick \<Rightarrow> pressure_signals" where
  "tick_signals t = \<lparr>current_cpu_percent = 0, consecutive_dropped_frames = ht_dropped t,
     encode_queue_depth = ht_queue_depth t, encode_queue_capacity = ht_queue_capacity t\<rparr>"

lemma other_tick_watchdog:
  "hr_sampler h = Other_Sampler \<Longrightarrow> ar_watchdog (hr_runtime (snd (host_runtime_tick t h))) =
    snd (watchdog_tick (tick_signals t) (ar_cadence (hr_runtime h)) (ar_watchdog (hr_runtime h)))"
  "hr_sampler h = Other_Sampler \<Longrightarrow> hr_sampler (snd (host_runtime_tick t h)) = Other_Sampler"
  using runtime_tick_watchdog [of "Some 0" "ht_queue_depth t" "ht_queue_capacity t" "ht_dropped t" "ht_watermark t" "hr_runtime h"]
  by (simp_all add: host_runtime_tick_def cpu_sample_other_def tick_signals_def Let_def split_beta)

lemma above_green: "(if Green < t then t else if t < Green \<and> b then t else Green) = t"
  by (cases t) (simp_all add: less_degradation_tier_def)

lemma idle_desired:
  assumes "idle_host cfg h" and "0 < yellow_cpu_threshold cfg" and "0 < red_cpu_threshold cfg"
  shows "desired_tier (tick_signals t) (ar_watchdog (hr_runtime h)) =
    (if ht_dropped t \<ge> red_drop_streak cfg \<or> queue_fill_ratio (tick_signals t) \<ge> red_queue_ratio cfg then Red
     else if queue_fill_ratio (tick_signals t) \<ge> yellow_queue_ratio cfg then Yellow else Green)"
  using assms
  by (simp add: desired_tier_def compute_desired_tier_def observe_cpu_def forecast_def idle_host_def clamp_def
      tick_signals_def Let_def)

lemma idle_tick:
  assumes "idle_host cfg h" and "0 < yellow_cpu_threshold cfg" and "0 < red_cpu_threshold cfg" and "calm cfg t"
  shows "idle_host cfg (snd (host_runtime_tick t h))"
proof -
  let ?w = "ar_watchdog (hr_runtime h)"
  have o: "hr_sampler h = Other_Sampler" using assms(1) by (simp add: idle_host_def)
  have "desired_tier (tick_signals t) ?w = Green"
    using assms(4) unfolding idle_desired [OF assms(1-3)] by (simp add: calm_def tick_signals_def Let_def not_le)
  then have "wd_tier (snd (watchdog_tick (tick_signals t) (ar_cadence (hr_runtime h)) ?w)) = Green"
    using assms(1) by (simp add: watchdog_tick_tier idle_host_def)
  then show ?thesis
    using assms(1) by (simp add: idle_host_def other_tick_watchdog [OF o] watchdog_tick_cfg watchdog_tick_predictor
        observe_cpu_def tick_signals_def Let_def)
qed

lemma idle_run:
  "idle_host cfg h \<Longrightarrow> 0 < yellow_cpu_threshold cfg \<Longrightarrow> 0 < red_cpu_threshold cfg \<Longrightarrow>
    \<forall>t\<in>set ts. calm cfg t \<Longrightarrow> idle_host cfg (host_run ts h)"
  by (induction ts arbitrary: h) (auto simp: host_run_def idle_tick)

text \<open>
  A host without a CPU sampler degrades all the same. On such a host the load is 0 at every tick:
  the tier stays Green while the queue and the drops are below the thresholds, whatever the clock and
  the watermarks are. But the first tick on which one of them reaches its threshold demotes, so the
  sampler's zero does not keep the watchdog in Green as its documentation says.
\<close>
theorem no_sampler_still_degrades:
  assumes "0 < yellow_cpu_threshold cfg" and "0 < red_cpu_threshold cfg" and "\<forall>t\<in>set ts. calm cfg t"
  shows "let h = host_run ts \<lparr>hr_sampler = Other_Sampler, hr_runtime = runtime_new cfg horizon target initial cadence\<rparr>;
             d = fst (host_runtime_tick t h)
    in wd_tier (ar_watchdog (hr_runtime h)) = Green
      \<and> ad_tier d = (if ht_dropped t \<ge> red_drop_streak cfg \<or> queue_fill_ratio (tick_signals t) \<ge> red_queue_ratio cfg then Red
          else if queue_fill_ratio (tick_signals t) \<ge> yellow_queue_ratio cfg then Yellow else Green)"
proof -
  let ?start = "\<lparr>hr_sampler = Other_Sampler, hr_runtime = runtime_new cfg horizon target initial cadence\<rparr>"
  let ?h = "host_run ts ?start"
  have hi: "host_inv ?h"
    by (rule host_run_inv) (simp add: host_new_inv)
  have "idle_host cfg ?start"
    by (simp add: idle_host_def runtime_new_def watchdog_new_def predictor_new_def)
  then have i: "idle_host cfg ?h" by (rule idle_run [OF _ assms])
  then have g: "wd_tier (ar_watchdog (hr_runtime ?h)) = Green" "hr_sampler ?h = Other_Sampler"
    by (simp_all add: idle_host_def)
  obtain d b where b: "runtime_tick (Some 0) (ht_queue_depth t) (ht_queue_capacity t)
      (ht_dropped t) (ht_watermark t) (hr_runtime ?h) = (d, b)" by fastforce
  have d: "fst (host_runtime_tick t ?h) = d" "hr_runtime (snd (host_runtime_tick t ?h)) = b"
    using b g(2) by (simp_all add: host_runtime_tick_def cpu_sample_other_def Let_def)
  have w: "ar_watchdog b = snd (watchdog_tick (tick_signals t) (ar_cadence (hr_runtime ?h)) (ar_watchdog (hr_runtime ?h)))"
    using other_tick_watchdog(1) [OF g(2), of t] unfolding d(2) .
  have "ad_tier d = wd_tier (ar_watchdog b)"
    using runtime_tick_keeps [OF b] hi by (simp add: host_inv_def)
  also have "\<dots> = desired_tier (tick_signals t) (ar_watchdog (hr_runtime ?h))"
    unfolding w watchdog_tick_tier g(1) by (rule above_green)
  finally show ?thesis using g(1) idle_desired [OF i assms(1,2)] by (simp add: d Let_def)
qed

theorem no_sampler_still_degrades_witness:
  "ad_tier (fst (host_runtime_tick \<lparr>ht_times = None, ht_now = 5, ht_queue_depth = 9, ht_queue_capacity = 10,
      ht_dropped = 0, ht_watermark = None\<rparr>
     \<lparr>hr_sampler = Other_Sampler, hr_runtime = runtime_new watchdog_config_default 1 40 40 500\<rparr>)) = Red"
  using no_sampler_still_degrades [of watchdog_config_default "[]"]
  by (simp add: watchdog_config_default_def host_run_def queue_fill_ratio_def tick_signals_def Let_def)

text \<open>
  The load the watchdog works with. On either host, in every run of the adaptive runtime: the
  smoothed load stays between 0 and 100, its trend within 100 points per tick, and the coupling of the
  sync engine to the tier holds.
\<close>
theorem host_load_bounded:
  "let a = hr_runtime (host_run ts \<lparr>hr_sampler = sampler, hr_runtime = runtime_new cfg horizon target initial cadence\<rparr>);
       p = wd_predictor (ar_watchdog a)
   in 0 \<le> ewma p \<and> ewma p \<le> 100 \<and> \<bar>trend p\<bar> \<le> 100
      \<and> \<bar>last_offset_mhz (ar_sync_engine a)\<bar> \<le> MAX_RESAMPLE_OFFSET_MHZ
      \<and> (integral_frozen (pid (ar_sync_engine a)) \<longleftrightarrow> wd_tier (ar_watchdog a) \<noteq> Green)"
proof -
  from host_run_inv [OF host_new_inv] show ?thesis
    by (simp add: host_inv_def predictor_ok_def runtime_inv_def Let_def)
qed

section \<open>The boost is undone\<close>

lemma wide_name_reads:
  "takeWhile (\<lambda>u. u \<noteq> 0) (wide_name task) = butlast (wide_name task)" "last (wide_name task) = 0"
  "wide_name task = wide_name other \<longleftrightarrow> task = other"
  by (cases task; cases other; simp add: wide_name_def)+

text \<open>
  The boost of a thread never fails it and is undone exactly once. Whatever MMCSS answers, the body
  runs once and its result is the thread's; the handle is given back after it if and only if the
  registration succeeded; and the name handed over reads, up to its zero, as the task's name.
\<close>
theorem boost_undone:
  "(case api of None \<Rightarrow> boosted api task body w = body w
    | Some a \<Rightarrow>
        (let (answer, w1) = set_characteristics a (wide_name task) w; (result, w2) = body w1
         in boosted api task body w =
              (result, case answer of Inl _ \<Rightarrow> w2 | Inr h \<Rightarrow> if handle_invalid a h then w2 else revert_characteristics a h w2)))
    \<and> map (\<lambda>c. of_nat (of_char c)) (mmcss_task_as_str task) = takeWhile (\<lambda>u. u \<noteq> 0) (wide_name task)"
proof -
  have "map (\<lambda>c. of_nat (of_char c)) (mmcss_task_as_str task) = takeWhile (\<lambda>u. u \<noteq> 0) (wide_name task)"
    unfolding wide_name_reads(1) by (simp add: wide_name_def)
  then show ?thesis
    by (auto simp: boosted_def boost_current_thread_def register_priority_def drop_priority_def Let_def
        split: option.splits prod.splits sum.splits if_splits)
qed

end
