(* ===== verification/Opus_Stress.thy ===== *)
theory Opus_Stress
  imports Frame_Encoder
begin

text \<open>
  The stress run of the Opus path (\<open>run_opus_encoder_stress\<close> of
  \<open>crates/lan_audio_server/src/transport.rs\<close>): a sine wave is handed to one encoder frame by frame and
  the durations of the calls that gave packets are summed up. The clock is the argument \<open>elapsed\<close>: the
  microseconds that the call on frame \<open>idx\<close> took.
\<close>

record opus_stress_stats =
  os_encoded_packets :: nat
  os_p99_encode_us :: u64
  os_channel_full_drop_rate :: real

definition stress_frame :: "nat \<Rightarrow> audio_frame" where
  "stress_frame idx =
     (let phase_offset = real idx * 480
      in \<lparr>fr_pts_ms = of_nat idx * 10,
          fr_format = \<lparr>sample_rate_hz = 48000, af_channels = 2, af_sample_format = SampleF32,
            af_frame_duration_ms = 10\<rparr>,
          fr_samples = map (\<lambda>sample_idx.
              let phase = (phase_offset + real sample_idx / 2) * 440 * (2 * pi) / 48000
              in sin phase * (2 / 10)) [0..<960],
          fr_is_silence = False, fr_source_buffer_frames = None, fr_packet_kind = SyntheticPacket,
          fr_peak = 2 / 10, fr_rms = 14 / 100\<rparr>)"

fun stress_loop ::
  "'o opus_api \<Rightarrow> 'r resampler_api \<Rightarrow> audio_mode \<Rightarrow> (nat \<Rightarrow> u64) \<Rightarrow> nat list
   \<Rightarrow> ('o, 'r) audio_frame_encoder \<Rightarrow> u64 list \<Rightarrow> nat \<Rightarrow> string + u64 list \<times> nat" where
  "stress_loop oa rs mode elapsed [] encoder durations packets = Inr (durations, packets)"
| "stress_loop oa rs mode elapsed (idx # rest) encoder durations packets =
     (let (encoded, encoder) = encode_frame oa rs (stress_frame idx) mode encoder
      in if encoded = [] then stress_loop oa rs mode elapsed rest encoder durations packets
         else if \<exists>frame\<in>set encoded. ef_codec frame \<noteq> Udp_Opus
         then Inl ''opus stress helper emitted non-opus packet; encoder fallback was triggered''
         else stress_loop oa rs mode elapsed rest encoder (durations @ [elapsed idx])
                (packets + length encoded))"

definition p99_index :: "nat \<Rightarrow> nat" where
  "p99_index n = min (n * 99 div 100) (n - 1)"

definition run_opus_encoder_stress ::
  "'o opus_api \<Rightarrow> 'r resampler_api \<Rightarrow> (nat \<Rightarrow> u64) \<Rightarrow> nat \<Rightarrow> audio_mode \<Rightarrow> string + opus_stress_stats" where
  "run_opus_encoder_stress oa rs elapsed total_input_frames mode =
     (let encoder = frame_encoder_new oa Sel_Opus mode DEFAULT_OUTPUT_SAMPLE_RATE;
          channel_full_drops = 0
      in case stress_loop oa rs mode elapsed [0..<total_input_frames] encoder [] 0 of
           Inl e \<Rightarrow> Inl e
         | Inr (durations, encoded_packets) \<Rightarrow>
             if durations = [] then Inl ''opus stress helper produced no encoded packets''
             else Inr \<lparr>os_encoded_packets = encoded_packets,
                    os_p99_encode_us = sort durations ! p99_index (length durations),
                    os_channel_full_drop_rate =
                      (if encoded_packets = 0 then 0 else channel_full_drops / real encoded_packets)\<rparr>)"

section \<open>Lemmas\<close>

text \<open>The percentile: at least 99 of 100 values are not above it.\<close>

lemma p99_rank:
  fixes xs :: "'a::linorder list"
  assumes "xs \<noteq> []"
  shows "sort xs ! p99_index (length xs) \<in> set xs"
    and "99 * length xs \<le> 100 * length (filter (\<lambda>x. x \<le> sort xs ! p99_index (length xs)) xs)"
proof -
  let ?s = "sort xs" and ?i = "p99_index (length xs)"
  have i: "?i < length ?s" using assms by (cases xs) (auto simp: p99_index_def)
  then show "?s ! ?i \<in> set xs" using nth_mem [OF i] by simp
  let ?P = "\<lambda>x. x \<le> ?s ! ?i"
  have "\<forall>x\<in>set (take (Suc ?i) ?s). ?P x"
    using i by (auto simp: in_set_conv_nth intro!: sorted_nth_mono)
  then have "filter ?P (take (Suc ?i) ?s) = take (Suc ?i) ?s" by (rule filter_True)
  moreover have "filter ?P ?s = filter ?P (take (Suc ?i) ?s) @ filter ?P (drop (Suc ?i) ?s)"
    by (metis append_take_drop_id filter_append)
  ultimately have "Suc ?i \<le> length (filter ?P ?s)" using i by simp
  moreover have "length (filter ?P ?s) = length (filter ?P xs)"
    by (metis filter_sort length_sort)
  moreover have "99 * length xs \<le> 100 * Suc ?i" 
  proof -
    have "0 < n \<Longrightarrow> 99 * n \<le> 100 * Suc (min (n * 99 div 100) (n - 1))" for n :: nat
    proof (cases "n * 99 div 100 \<le> n - 1")
      case True
      have "n * 99 \<le> 100 * Suc (n * 99 div 100)"
        using dividend_less_times_div [of 100 "n * 99"] by simp
      then show ?thesis using True by (simp add: min_absorb1)
    next
      case False
      assume "0 < n"
      then show ?thesis using False by (simp add: min_absorb2)
    qed
    then show ?thesis using assms by (simp add: p99_index_def)
  qed
  ultimately show "99 * length xs \<le> 100 * length (filter ?P xs)" by (metis mult_le_mono2 order_trans)
qed

text \<open>A libopus that never fails makes Opus packets only.\<close>

definition never_fails :: "'o opus_api \<Rightarrow> bool" where
  "never_fails oa \<longleftrightarrow> (\<forall>pcm room i. \<not> isl (fst (oa_encode oa pcm room i)))"

lemma opus_encode_never_fails:
  "never_fails oa \<Longrightarrow> \<exists>p oe'. opus_encode oa inp mode oe = (Inr p, oe') \<and> ef_codec p = Udp_Opus"
proof -
  let ?i = "if oe_mode oe \<noteq> mode then apply_settings oa (opus_mode_settings mode) (oe_inner oe) else oe_inner oe"
  assume "never_fails oa"
  then obtain y i where "oa_encode oa (samples_to_i16 (oi_samples inp)) 4000 ?i = (Inr y, i)"
    unfolding never_fails_def by (metis prod.collapse sum.collapse(2))
  then show ?thesis by (simp add: opus_encode_def Let_def split: if_splits)
qed

lemma drain_never_fails:
  "never_fails oa \<Longrightarrow> \<forall>p\<in>set acc. ef_codec p = Udp_Opus \<Longrightarrow>
    \<exists>ps oe' b'. drain_opus n oa mode acc oe b = (Inr ps, oe', b') \<and> (\<forall>p\<in>set ps. ef_codec p = Udp_Opus)"
proof (induction n arbitrary: acc oe b)
  case (Suc n)
  obtain x b' where pop: "pop_20ms b = (x, b')" by fastforce
  show ?case
  proof (cases x)
    case (Some inp)
    obtain p oe' where p: "opus_encode oa inp mode oe = (Inr p, oe')" "ef_codec p = Udp_Opus"
      using opus_encode_never_fails [OF Suc.prems(1)] by blast
    have "\<forall>p\<in>set (acc @ [p]). ef_codec p = Udp_Opus" using Suc.prems(2) p(2) by simp
    from Suc.IH [OF Suc.prems(1) this, of oe' b'] show ?thesis using pop Some p by simp
  qed (use pop Suc.prems(2) in simp)
qed simp

lemma encode_never_fails:
  assumes "never_fails oa" and "encoder_rates_ok e b" and "encode_frame oa rs f mode e = (ps, e')"
  shows "\<forall>p\<in>set ps. ef_codec p = Udp_Opus"
proof -
  obtain oe where oe: "fe_opus e = Some oe" using assms(2) by (auto simp: encoder_rates_ok_def)
  obtain xs e1 where r: "resample_to_stereo_10ms rs f e = (xs, e1)" by fastforce
  define b1 where "b1 = push_10ms (fr_pts_ms f) xs (fr_is_silence f) (fr_peak f) (fr_rms f) b"
  obtain qs oe' b' where d: "drain_opus (Suc (length (fb_samples b1))) oa mode [] oe b1 = (Inr qs, oe', b')"
      "\<forall>p\<in>set qs. ef_codec p = Udp_Opus"
    using drain_never_fails [OF assms(1), of "[]" "Suc (length (fb_samples b1))" mode oe b1] by auto
  have "ps = qs"
    using assms(2,3) resample_keeps [OF r] oe d(1)
    by (simp add: encode_frame_def r encoder_rates_ok_def Let_def b1_def [symmetric] del: drain_opus.simps)
  then show ?thesis using d(2) by simp
qed

lemma opus_half_rates: "opus_half f e \<Longrightarrow> \<exists>b. encoder_rates_ok e b"
  by (auto simp: opus_half_def split: option.splits)

lemma stress_loop_pairs:
  assumes "opus_ready encoder"
  shows "\<not> never_fails oa \<and> stress_loop oa rs mode elapsed idxs encoder durations packets
      = Inl ''opus stress helper emitted non-opus packet; encoder fallback was triggered''
    \<or> stress_loop oa rs mode elapsed idxs encoder durations packets
      = Inr (durations @ map (\<lambda>k. elapsed (idxs ! (2 * k + 1))) [0..<length idxs div 2], packets + length idxs div 2)"
  using assms
proof (induction idxs arbitrary: encoder durations packets rule: induct_list012)
  case (2 a)
  obtain e1 where "encode_frame oa rs (stress_frame a) mode encoder = ([], e1)"
    using encode_first_block [OF 2, of oa rs "stress_frame a" mode] by blast
  then show ?case by simp
next
  case (3 a b idxs)
  obtain e1 where 1: "encode_frame oa rs (stress_frame a) mode encoder = ([], e1)" "opus_half (stress_frame a) e1"
    using encode_first_block [OF 3(3), of oa rs "stress_frame a" mode] by blast
  obtain p e2 where 2: "encode_frame oa rs (stress_frame b) mode e1 = ([p], e2)" "opus_ready e2"
    using encode_second_block [OF 1(2), of oa rs "stress_frame b" mode] by blast
  have op: "never_fails oa \<Longrightarrow> ef_codec p = Udp_Opus"
    using encode_never_fails [OF _ _ 2(1)] opus_half_rates [OF 1(2)] by auto
  have step: "stress_loop oa rs mode elapsed (a # b # idxs) encoder durations packets =
      (if ef_codec p \<noteq> Udp_Opus
       then Inl ''opus stress helper emitted non-opus packet; encoder fallback was triggered''
       else stress_loop oa rs mode elapsed idxs e2 (durations @ [elapsed b]) (packets + 1))"
    using 1(1) 2(1) by simp
  have "map (\<lambda>k. elapsed ((a # b # idxs) ! (2 * k + 1))) [0..<length (a # b # idxs) div 2]
      = elapsed b # map (\<lambda>k. elapsed (idxs ! (2 * k + 1))) [0..<length idxs div 2]"
    by (simp add: map_upt_Suc del: upt_Suc)
  then show ?case
    using 3(1) [OF 2(2), of "durations @ [elapsed b]" "packets + 1"] op unfolding step by auto
qed simp

section \<open>The outcome\<close>

text \<open>
  What a stress run tells. With a libopus that can be created, on \<open>n\<close> frames: it fails exactly if
  \<open>n < 2\<close>, when there is no packet, or if libopus can fail and a packet was PCM16; otherwise
  it reports \<open>n div 2\<close> packets, and as percentile one of the measured durations that at least 99
  percent of the \<open>n div 2\<close> calls that gave a packet did not exceed. The drop rate it reports is 0
  whatever happens: nothing counts drops.
\<close>
theorem opus_stress_outcome:
  assumes "opus_encoder_new oa mode 48000 = Inr oe"
  shows "case run_opus_encoder_stress oa rs elapsed n mode of
      Inl e \<Rightarrow> n < 2 \<and> e = ''opus stress helper produced no encoded packets''
        \<or> \<not> never_fails oa
          \<and> e = ''opus stress helper emitted non-opus packet; encoder fallback was triggered''
    | Inr st \<Rightarrow> 2 \<le> n \<and> os_encoded_packets st = n div 2 \<and> os_channel_full_drop_rate st = 0
        \<and> (\<exists>k < n div 2. os_p99_encode_us st = elapsed (2 * k + 1))
        \<and> 99 * (n div 2) \<le> 100 * length (filter (\<lambda>k. elapsed (2 * k + 1) \<le> os_p99_encode_us st) [0..<n div 2])"
proof -
  let ?e = "frame_encoder_new oa Sel_Opus mode DEFAULT_OUTPUT_SAMPLE_RATE :: (_, _) audio_frame_encoder"
  let ?d = "map (\<lambda>k. elapsed (2 * k + 1)) [0..<n div 2]"
  have "normalize_encoder_sample_rate DEFAULT_OUTPUT_SAMPLE_RATE = 48000"
    by (simp add: normalize_encoder_sample_rate_def DEFAULT_OUTPUT_SAMPLE_RATE_def)
  then have ready: "opus_ready ?e" using frame_encoder_new_ready assms by metis
  have idx: "map (\<lambda>k. elapsed ([0..<n] ! (2 * k + 1))) [0..<length [0..<n] div 2] = ?d" by auto
  from stress_loop_pairs [OF ready, of oa rs mode elapsed "[0..<n]" "[]" 0]
  consider (failed) "\<not> never_fails oa" "stress_loop oa rs mode elapsed [0..<n] ?e [] 0
      = Inl ''opus stress helper emitted non-opus packet; encoder fallback was triggered''"
    | (ok) "stress_loop oa rs mode elapsed [0..<n] ?e [] 0 = Inr (?d, n div 2)"
    unfolding idx by auto
  then show ?thesis
  proof cases
    case failed
    then show ?thesis by (simp add: run_opus_encoder_stress_def Let_def)
  next
    case ok
    show ?thesis
    proof (cases "n < 2")
      case True
      then show ?thesis using ok by (simp add: run_opus_encoder_stress_def Let_def)
    next
      case False
      then have "?d \<noteq> []" by simp
      note r = p99_rank [OF this]
      have m: "\<exists>k < n div 2. sort ?d ! p99_index (length ?d) = elapsed (2 * k + 1)"
        using r(1) by auto
      have f: "99 * (n div 2) \<le> 100 * length (filter (\<lambda>k. elapsed (2 * k + 1) \<le> sort ?d ! p99_index (length ?d)) [0..<n div 2])"
        using r(2) by (simp add: filter_map comp_def)
      show ?thesis using ok \<open>?d \<noteq> []\<close> False m f by (simp add: run_opus_encoder_stress_def Let_def)
    qed
  qed
qed

theorem opus_stress_outcome_witness:
  "\<exists>st. run_opus_encoder_stress sample_opus sample_resampler (\<lambda>idx. of_nat idx) 300 Balanced = Inr st
    \<and> os_encoded_packets st = 150 \<and> os_channel_full_drop_rate st = 0"
proof -
  have "opus_encoder_new sample_opus Balanced 48000 = Inr \<lparr>oe_inner = (), oe_mode = Balanced, oe_sample_rate = 48000\<rparr>"
    by (simp add: opus_encoder_new_def sample_opus_def normalize_encoder_sample_rate_def Let_def)
  note o = opus_stress_outcome [OF this, where rs = sample_resampler and elapsed = "\<lambda>idx. of_nat idx" and n = 300]
  have "never_fails sample_opus" by (simp add: never_fails_def sample_opus_def)
  with o show ?thesis by (auto split: sum.splits)
qed

end
