(* ===== verification/Headless.thy ===== *)
theory Headless
  imports Lan_Service
begin

text \<open>
  The command-line server (\<open>crates/lan_audio_server/src/bin/desktop_headless.rs\<close>): its arguments, the
  service it creates, and the capture run of \<open>--force-rollback\<close>, which lets the service run for five
  seconds, writes a file of evidence and stops it. Paths are lists of their components; the directory
  of the crate, the clock, \<open>serde_json\<close> and the file system are arguments.
\<close>

section \<open>The evidence\<close>

type_synonym path = "string list"

definition path_parent :: "path \<Rightarrow> path option" where
  "path_parent p = (if p = [] then None else Some (butlast p))"

record rollback_evidence =
  tested_at :: nat \<comment> \<open>printed as a decimal number\<close>
  forced_rollback :: bool
  active_data_plane :: string
  evidence_codec :: string
  evidence_rollback_state :: string
  snapshot_observed :: bool
  log_excerpt :: string

definition rollback_evidence_path :: "path \<Rightarrow> string + path" where
  "rollback_evidence_path crate_dir =
     (case Option.bind (path_parent crate_dir) path_parent of
        None \<Rightarrow> Inl ''failed to resolve repo root from CARGO_MANIFEST_DIR''
      | Some repo_root \<Rightarrow> Inr (repo_root @ [''artifacts''] @ [''validate''] @ [''rollback_evidence.json'']))"

definition rollback_evidence_of :: "nat \<Rightarrow> ('sock, 'wr) lan_audio_service \<Rightarrow> rollback_evidence" where
  "rollback_evidence_of now_secs sv =
     (let status = data_plane_status_of sv;
          plane = data_plane_path_as_str (dps_active_path status);
          codec = codec_selection_as_str (dps_active_codec status);
          state = (if \<not> dps_is_on_main_path status \<and> dps_active_path status = Path_LegacyLas1
                      \<and> codec_selection_as_str (dps_active_codec status) = ''pcm16''
                   then ''active'' else ''inactive'')
      in \<lparr>tested_at = now_secs, forced_rollback = True, active_data_plane = plane, evidence_codec = codec,
          evidence_rollback_state = state, snapshot_observed = True,
          log_excerpt = ''forced_rollback: legacy_las1 + pcm16''\<rparr>)"

record 'w evidence_env =
  ev_crate_dir :: path
  ev_create_dir_all :: "path \<Rightarrow> 'w \<Rightarrow> (string + unit) \<times> 'w"
  ev_to_json :: "rollback_evidence \<Rightarrow> string + string"
  ev_write :: "path \<Rightarrow> string \<Rightarrow> 'w \<Rightarrow> (string + unit) \<times> 'w"

definition write_rollback_evidence ::
  "'w evidence_env \<Rightarrow> nat \<Rightarrow> ('sock, 'wr) lan_audio_service \<Rightarrow> 'w \<Rightarrow> (string + unit) \<times> 'w" where
  "write_rollback_evidence env now_secs sv w =
     (let evidence = rollback_evidence_of now_secs sv in
      case rollback_evidence_path (ev_crate_dir env) of
        Inl e \<Rightarrow> (Inl e, w)
      | Inr evidence_path \<Rightarrow>
          (case (case path_parent evidence_path of Some parent \<Rightarrow> ev_create_dir_all env parent w
                 | None \<Rightarrow> (Inr (), w)) of
             (Inl e, w) \<Rightarrow> (Inl e, w)
           | (Inr _, w) \<Rightarrow>
               (case ev_to_json env evidence of
                  Inl e \<Rightarrow> (Inl e, w)
                | Inr json \<Rightarrow> ev_write env evidence_path json w)))"

section \<open>The entry point\<close>

datatype headless_run = Just_Run | Force_Rollback_Capture

datatype ('sock, 'wr) headless_outcome =
    Headless_Help
  | Headless_Config_Error config_error
  | Headless_Service_Error anyhow_error
  | Headless_Runs headless_run "('sock, 'wr) lan_audio_service"

definition headless_main ::
  "(string \<Rightarrow> real option) \<Rightarrow> 'w adb_env \<Rightarrow> (u16 \<Rightarrow> bool) \<Rightarrow> real server_config \<Rightarrow> string list \<Rightarrow> 'w
   \<Rightarrow> ('sock, 'wr) headless_outcome \<times> 'w" where
  "headless_main parse_f32 env bind default_config argv w =
     (if \<exists>arg\<in>set argv. arg = ''--help'' \<or> arg = ''-h'' then (Headless_Help, w)
      else case apply_args parse_f32 (drop 1 argv) default_config of
             Inl e \<Rightarrow> (Headless_Config_Error e, w)
           | Inr cfg \<Rightarrow>
               (case service_new env bind cfg w of
                  (Inl e, w) \<Rightarrow> (Headless_Service_Error e, w)
                | (Inr sv, w) \<Rightarrow>
                    (Headless_Runs (if \<exists>arg\<in>set argv. arg = ''--force-rollback'' then Force_Rollback_Capture
                       else Just_Run) sv, w)))"

section \<open>The capture run\<close>

text \<open>
  \<open>run_force_rollback_capture\<close>: the service runs in a task of its own, of which \<open>Capture_Service\<close> are
  the steps; \<open>Capture_Slept\<close> is the end of the sleep with the result of \<open>write_rollback_evidence\<close>.
\<close>

datatype capture_phase = Capture_Sleeping | Capture_Joining | Capture_Returned "string + unit"

record headless_capture =
  hc_phase :: capture_phase
  hc_run :: service_run

definition headless_capture_new :: headless_capture where
  "headless_capture_new = \<lparr>hc_phase = Capture_Sleeping, hc_run = service_run_new\<rparr>"

datatype capture_event = Capture_Service service_event | Capture_Slept "string + unit" | Capture_Joined

fun capture_step :: "service_task list \<Rightarrow> capture_event \<Rightarrow> headless_capture \<Rightarrow> unit + headless_capture" where
  "capture_step tasks (Capture_Service ev) h =
     (if ev = Ev_Stop \<or> (\<exists>r. hc_phase h = Capture_Returned r) then Inl ()
      else case service_step tasks ev (hc_run h) of Inl _ \<Rightarrow> Inl () | Inr r \<Rightarrow> Inr (h\<lparr>hc_run := r\<rparr>))"
| "capture_step tasks (Capture_Slept result) h =
     (if hc_phase h \<noteq> Capture_Sleeping then Inl ()
      else case result of
             Inl e \<Rightarrow> Inr (h\<lparr>hc_phase := Capture_Returned (Inl e)\<rparr>)
           | Inr _ \<Rightarrow> Inr (h\<lparr>hc_phase := Capture_Joining, hc_run := shutdown_send (hc_run h)\<rparr>))"
| "capture_step tasks Capture_Joined h =
     (case (hc_phase h, sr_phase (hc_run h)) of
        (Capture_Joining, Ended result) \<Rightarrow> Inr (h\<lparr>hc_phase := Capture_Returned result\<rparr>)
      | _ \<Rightarrow> Inl ())"

section \<open>Properties\<close>

text \<open>The arguments that \<open>apply_args\<close> reads as options; the others are values of the option before them.\<close>

fun options_of :: "string list \<Rightarrow> string list" where
  "options_of [] = []"
| "options_of (arg # rest) =
     (if arg \<in> set valued_options then (case rest of [] \<Rightarrow> [] | _ # rest' \<Rightarrow> arg # options_of rest')
      else arg # options_of rest)"

lemma apply_valued_keeps_rollback:
  "apply_valued pf arg value s = Inr t \<Longrightarrow> cfg_force_rollback (as_cfg t) = cfg_force_rollback (as_cfg s)"
  by (auto simp: apply_valued_def Let_def split: if_splits sum.splits option.splits)

lemma apply_flag_rollback:
  "cfg_force_rollback (as_cfg (apply_flag arg s)) \<longleftrightarrow> cfg_force_rollback (as_cfg s) \<or> arg = ''--force-rollback''"
  by (simp add: apply_flag_def Let_def)

lemma apply_args_loop_rollback:
  "apply_args_loop pf args s = Inr t \<Longrightarrow>
    cfg_force_rollback (as_cfg t) \<longleftrightarrow> cfg_force_rollback (as_cfg s) \<or> ''--force-rollback'' \<in> set (options_of args)"
proof (induction pf args s rule: apply_args_loop.induct)
  case (2 pf arg rest s)
  have v: "''--force-rollback'' \<notin> set valued_options" by (simp add: valued_options_def)
  show ?case
  proof (cases "arg \<in> set valued_options")
    case True
    then obtain v rest' s' where r: "rest = v # rest'" "apply_valued pf arg v s = Inr s'"
        "apply_args_loop pf rest' s' = Inr t"
      using "2.prems" by (auto split: list.splits sum.splits)
    have "arg \<noteq> ''--force-rollback''" using True v by blast
    then show ?thesis
      using "2.IH"(1) [OF True r(1,2,3)] apply_valued_keeps_rollback [OF r(2)] True r(1) by auto
  next
    case False
    then show ?thesis using "2.IH"(2) [OF False] "2.prems" by (auto simp: apply_flag_rollback)
  qed
qed simp

lemma apply_args_rollback:
  "apply_args pf args cfg = Inr cfg' \<Longrightarrow>
    cfg_force_rollback cfg' \<longleftrightarrow> cfg_force_rollback cfg \<or> ''--force-rollback'' \<in> set (options_of args)"
  by (auto simp: apply_args_def split: sum.splits dest: apply_args_loop_rollback)

lemma service_new_router:
  "service_new env bind cfg w = (Inr sv, w') \<Longrightarrow> sv_data_plane_router sv = router_from_config cfg"
  by (auto simp: service_new_def Let_def split: prod.splits sum.splits)

text \<open>
  What the evidence of a forced rollback is worth. If the program starts a service at all, the file
  it would write says \<open>active\<close> exactly if \<open>--force-rollback\<close> stood among the arguments as an option, and
  then names the legacy plane and PCM16. But whether it writes the file is decided by a search through
  all arguments, values included, and the fields \<open>forced_rollback\<close> and \<open>snapshot_observed\<close> are constant;
  nor does the file depend on whether the service ever ran.
\<close>
theorem rollback_evidence_outcome:
  assumes "headless_main pf env bind default_config argv w = (Headless_Runs run (sv :: ('sock, 'wr) lan_audio_service), w')"
    and "\<not> cfg_force_rollback default_config"
  shows "let ev = rollback_evidence_of now_secs sv; forced = (''--force-rollback'' \<in> set (options_of (drop 1 argv)))
    in (run = Force_Rollback_Capture \<longleftrightarrow> ''--force-rollback'' \<in> set argv)
      \<and> evidence_rollback_state ev = (if forced then ''active'' else ''inactive'')
      \<and> (forced \<longrightarrow> active_data_plane ev = ''legacy_las1'' \<and> evidence_codec ev = ''pcm16'')
      \<and> forced_rollback ev \<and> snapshot_observed ev"
proof -
  obtain cfg where cfg: "apply_args pf (drop 1 argv) default_config = Inr cfg"
    and new: "service_new env bind cfg w = (Inr sv, w')"
    and run: "run = (if \<exists>arg\<in>set argv. arg = ''--force-rollback'' then Force_Rollback_Capture else Just_Run)"
    using assms(1) by (auto simp: headless_main_def split: if_splits sum.splits prod.splits)
  let ?forced = "''--force-rollback'' \<in> set (options_of (drop 1 argv))"
  have f: "cfg_force_rollback cfg \<longleftrightarrow> ?forced" using apply_args_rollback [OF cfg] assms(2) by simp
  have r: "sv_data_plane_router sv = router_from_config cfg" by (rule service_new_router [OF new])
  have main: "active_is_main (sv_data_plane_router sv) \<longleftrightarrow> \<not> ?forced"
    by (simp add: r f router_from_config_def router_force_rollback_def Let_def)
  have legacy: "active_path (sv_data_plane_router sv) = Path_LegacyLas1 \<and> active_codec (sv_data_plane_router sv) = Sel_Pcm16"
    if ?forced
    using that by (simp add: r f router_from_config_def router_force_rollback_def Let_def active_path_def
        data_plane_path_from_name_def)
  show ?thesis
    using main legacy by (auto simp: rollback_evidence_of_def data_plane_status_of_def run Let_def)
qed

theorem rollback_evidence_outcome_witness:
  "\<exists>(sv :: (nat, nat) lan_audio_service) issued.
    headless_main (\<lambda>_. None) (logged_adb False (\<lambda>_. True)) (\<lambda>_. True) sample_config
      [''desktop_headless'', ''--capture-dump-dir'', ''--force-rollback''] [] = (Headless_Runs Force_Rollback_Capture sv, issued)
    \<and> forced_rollback (rollback_evidence_of 0 sv) \<and> evidence_rollback_state (rollback_evidence_of 0 sv) = ''inactive''"
proof -
  let ?argv = "[''desktop_headless'', ''--capture-dump-dir'', ''--force-rollback'']"
  have a: "apply_args (\<lambda>_. None) (drop 1 ?argv) sample_config = Inr (sample_config\<lparr>capture_debug_dump_dir := ''--force-rollback''\<rparr>)"
    by (simp add: apply_args_def valued_options_def apply_valued_def sample_config_def server_config_default_def
        transport_mode_parse_def)
  obtain sv :: "(nat, nat) lan_audio_service" and issued where
    n: "service_new (logged_adb False (\<lambda>_. True)) (\<lambda>_. True) (sample_config\<lparr>capture_debug_dump_dir := ''--force-rollback''\<rparr>) []
        = (Inr sv, issued)"
    by (simp add: service_new_def setup_forwards_def sample_config_def server_config_default_def
        reverse_server_start_def Let_def)
  have h: "headless_main (\<lambda>_. None) (logged_adb False (\<lambda>_. True)) (\<lambda>_. True) sample_config ?argv []
      = (Headless_Runs Force_Rollback_Capture sv, issued)"
    using a n by (simp add: headless_main_def)
  have "\<not> cfg_force_rollback sample_config" by (simp add: sample_config_def server_config_default_def)
  from rollback_evidence_outcome [OF h this, of 0] h show ?thesis
    by (auto simp: valued_options_def Let_def)
qed

text \<open>The stop of a capture run is heard only by a service that listens when the evidence is written.\<close>

definition capture_heard :: "service_task list \<Rightarrow> capture_event list \<Rightarrow> bool" where
  "capture_heard tasks evs \<longleftrightarrow>
     (\<exists>xs ys s. evs = xs @ Capture_Slept (Inr ()) # ys
        \<and> run_ops (capture_step tasks) xs headless_capture_new = Inr s \<and> Task_Main \<in> sr_receivers (hc_run s))"

lemma capture_heard_append: "capture_heard tasks evs \<Longrightarrow> capture_heard tasks (evs @ rest)"
  by (force simp: capture_heard_def)

lemma service_step_untold:
  assumes "service_step tasks x r = Inr q" and "x \<noteq> Ev_Stop" and "x \<noteq> Ev_Ctrl_C" and "Task_Main \<notin> sr_told r"
  shows "sr_told q = sr_told r"
    and "sr_phase q \<in> {Joining_Tasks, Ended (Inr ())} \<Longrightarrow> sr_phase r \<in> {Joining_Tasks, Ended (Inr ())}"
  using assms
  by (cases x; auto simp: shutdown_send_def split: if_splits sum.splits run_phase.splits list.splits)+

lemma capture_history:
  "run_ops (capture_step tasks) evs headless_capture_new = Inr h \<Longrightarrow> Capture_Service Ev_Ctrl_C \<notin> set evs \<Longrightarrow>
    (Task_Main \<in> sr_told (hc_run h) \<or> sr_phase (hc_run h) \<in> {Joining_Tasks, Ended (Inr ())}
       \<or> hc_phase h = Capture_Returned (Inr ()) \<longrightarrow> capture_heard tasks evs)
    \<and> (hc_phase h = Capture_Sleeping \<longrightarrow> sr_told (hc_run h) = {})
    \<and> (\<forall>e. hc_phase h = Capture_Returned (Inl e) \<longrightarrow> sr_told (hc_run h) = {} \<or> sr_phase (hc_run h) = Ended (Inl e))"
proof (induction evs arbitrary: h rule: rev_induct)
  case (snoc ev evs)
  then obtain s where s: "run_ops (capture_step tasks) evs headless_capture_new = Inr s"
    "capture_step tasks ev s = Inr h" by (auto simp: run_ops_append split: sum.splits)
  note IH = snoc.IH [OF s(1)]
  have stop: "capture_heard tasks (evs @ [Capture_Slept (Inr ())])" if "Task_Main \<in> sr_receivers (hc_run s)"
    using that s(1) unfolding capture_heard_def by blast
  have ih: "Task_Main \<in> sr_told (hc_run s) \<or> sr_phase (hc_run s) \<in> {Joining_Tasks, Ended (Inr ())}
      \<longrightarrow> capture_heard tasks (evs @ [ev])"
    using IH snoc.prems(2) capture_heard_append by auto
  have sleep: "hc_phase s = Capture_Sleeping \<longrightarrow> sr_told (hc_run s) = {}"
    using IH snoc.prems(2) by auto
  show ?case
  proof (cases ev)
    case (Capture_Service x)
    then have x: "x \<noteq> Ev_Stop" "x \<noteq> Ev_Ctrl_C" "\<forall>r. hc_phase s \<noteq> Capture_Returned r" "hc_phase h = hc_phase s"
        "service_step tasks x (hc_run s) = Inr (hc_run h)"
      using s(2) snoc.prems(2) by (auto split: if_splits sum.splits)
    note untold = service_step_untold [OF x(5,1,2)]
    show ?thesis
      using x(3,4) ih sleep untold by (cases "Task_Main \<in> sr_told (hc_run s)") auto
  next
    case (Capture_Slept result)
    then show ?thesis using s(2) ih sleep stop by (auto simp: shutdown_send_def split: if_splits sum.splits)
  next
    case Capture_Joined
    then show ?thesis using s(2) ih sleep
      by (auto split: capture_phase.splits run_phase.splits sum.splits)
  qed
qed (simp add: headless_capture_new_def service_run_new_def)

text \<open>
  The end of a capture run. Without Ctrl-C, it returns without an error only if the evidence was
  written when the service was listening, with all its tasks spawned; if the service needs longer than
  the five seconds, the stop is lost and the run never returns well. And if it returns an error that
  is not the service's own, no task of the service was told to stop.
\<close>
theorem headless_capture_ends:
  assumes "run_ops (capture_step tasks) evs headless_capture_new = Inr h"
    and "Capture_Service Ev_Ctrl_C \<notin> set evs" and "hc_phase h = Capture_Returned result"
  shows "case result of
      Inr _ \<Rightarrow> \<exists>xs ys s. evs = xs @ Capture_Slept (Inr ()) # ys
        \<and> run_ops (capture_step tasks) xs headless_capture_new = Inr s \<and> Task_Main \<in> sr_receivers (hc_run s)
    | Inl e \<Rightarrow> sr_told (hc_run h) = {} \<or> sr_phase (hc_run h) = Ended (Inl e)"
  using capture_history [OF assms(1,2)] assms(3) unfolding capture_heard_def by (auto split: sum.split)

theorem headless_capture_ends_witness:
  "\<exists>h. run_ops (capture_step [Task_Transport, Task_Main])
      [Capture_Service Ev_Run, Capture_Service (Ev_Bound (Inr ())), Capture_Service Ev_Subscribe,
       Capture_Service Ev_Subscribe, Capture_Slept (Inl ''disk full'')] headless_capture_new = Inr h
    \<and> hc_phase h = Capture_Returned (Inl ''disk full'') \<and> sr_phase (hc_run h) = Serving \<and> sr_told (hc_run h) = {}"
proof -
  let ?evs = "[Capture_Service Ev_Run, Capture_Service (Ev_Bound (Inr ())), Capture_Service Ev_Subscribe,
    Capture_Service Ev_Subscribe, Capture_Slept (Inl ''disk full'')]"
  obtain h where h: "run_ops (capture_step [Task_Transport, Task_Main]) ?evs headless_capture_new = Inr h"
      "hc_phase h = Capture_Returned (Inl ''disk full'')" "sr_phase (hc_run h) = Serving"
    by (simp add: headless_capture_new_def service_run_new_def)
  have "Capture_Service Ev_Ctrl_C \<notin> set ?evs" by simp
  from headless_capture_ends [OF h(1) this h(2)] h show ?thesis by auto
qed

end
