(* ===== verification/Desktop_Commands.thy ===== *)
theory Desktop_Commands
  imports Desktop_Control
begin

text \<open>
  The commands of the desktop application that leave configuration and service alone
  (\<open>apps/desktop/src-tauri/src/lib.rs\<close>): the list of devices, the diagnostics file, the QR code, the
  release page, the volume of the phone, and the menu of the tray icon. The file system, \<open>serde_json\<close>,
  the \<open>qrcode\<close> crate and the opening of a page are arguments; a path is the list of its components.
\<close>

section \<open>Snapshot and devices\<close>

definition running_service_of :: "('sock, 'wr, 'w) desktop \<Rightarrow> ('sock, 'wr) lan_audio_service option" where
  "running_service_of d =
     Option.bind (ai_running (dt_inner d)) (\<lambda>r. map_option fst (dt_services d (rn_run_id r)))"

definition desktop_snapshot_of ::
  "desktop_env \<Rightarrow> ('sock, 'wr, 'w) desktop \<Rightarrow> 'json desktop_snapshot" where
  "desktop_snapshot_of env d =
     get_desktop_snapshot env (ai_status (dt_inner d)) (ai_last_error (dt_inner d)) (ai_config (dt_inner d))
       (running_service_of d) (dt_logs d) (dt_update d)"

record adb_device_info =
  di_serial :: string
  di_model :: string
  di_transport_id :: string

text \<open>An error's \<open>to_string\<close> is its outermost message.\<close>

definition list_adb_devices :: "'w adb_env \<Rightarrow> 'w \<Rightarrow> (string + adb_device_info list) \<times> 'w" where
  "list_adb_devices env w =
     (case adb_devices env w of
        (Inl e, w) \<Rightarrow> (Inl (hd e), w)
      | (Inr devices, w) \<Rightarrow>
          (Inr (map (\<lambda>device. \<lparr>di_serial = ad_serial device, di_model = ad_model device,
                        di_transport_id = ad_transport_id device\<rparr>) devices), w))"

section \<open>Diagnostics\<close>

record 'json diagnostics_report =
  dr_exported_at_unix_seconds :: u64
  dr_snapshot :: "'json desktop_snapshot"

record ('json, 'w) diagnostics_env =
  dg_to_json :: "'json diagnostics_report \<Rightarrow> string + string"
  dg_create_dir_all :: "string list \<Rightarrow> 'w \<Rightarrow> (string + unit) \<times> 'w"
  dg_write :: "string list \<Rightarrow> string \<Rightarrow> 'w \<Rightarrow> (string + unit) \<times> 'w"
  dg_display :: "string list \<Rightarrow> string"

definition export_diagnostics_report ::
  "('json, 'w) diagnostics_env \<Rightarrow> desktop_env \<Rightarrow> u64 \<Rightarrow> ('sock, 'wr, 'v) desktop \<Rightarrow> 'w
   \<Rightarrow> (string + string) \<times> 'w" where
  "export_diagnostics_report dg env exported_at d w =
     (let snap = desktop_snapshot_of env d;
          report = \<lparr>dr_exported_at_unix_seconds = exported_at, dr_snapshot = snap\<rparr>
      in case dg_to_json dg report of
           Inl e \<Rightarrow> (Inl e, w)
         | Inr content \<Rightarrow>
             let output_dir = [''dist'', ''diagnostics''] in
             (case dg_create_dir_all dg output_dir w of
                (Inl e, w) \<Rightarrow> (Inl e, w)
              | (Inr _, w) \<Rightarrow>
                  let file_name = ''desktop-diagnostics-'' @ show_nat (unat exported_at) @ ''.json'';
                      output = output_dir @ [file_name]
                  in (case dg_write dg output content w of
                        (Inl e, w) \<Rightarrow> (Inl e, w)
                      | (Inr _, w) \<Rightarrow> (Inr (dg_display dg output), w))))"

definition export_support_bundle ::
  "('json, 'w) diagnostics_env \<Rightarrow> desktop_env \<Rightarrow> u64 \<Rightarrow> ('sock, 'wr, 'v) desktop \<Rightarrow> 'w
   \<Rightarrow> (string + string) \<times> 'w" where
  "export_support_bundle = export_diagnostics_report"

section \<open>QR code and release page\<close>

definition connection_uri :: "'json desktop_snapshot \<Rightarrow> string" where
  "connection_uri snap = ''lan-audio://'' @ dk_local_ip snap @ '':'' @ show_port (dk_ws_port snap)"

definition get_connection_qr_svg ::
  "(string \<Rightarrow> string + 'qr) \<Rightarrow> ('qr \<Rightarrow> string) \<Rightarrow> desktop_env \<Rightarrow> ('sock, 'wr, 'w) desktop \<Rightarrow> string + string" where
  "get_connection_qr_svg qr_new render env d =
     (let snap = desktop_snapshot_of env d :: unit desktop_snapshot; uri = connection_uri snap
      in case qr_new uri of Inl e \<Rightarrow> Inl e | Inr code \<Rightarrow> Inr (render code))"

definition open_release_page :: "(string \<Rightarrow> string + unit) \<Rightarrow> ('sock, 'wr, 'w) desktop \<Rightarrow> string + unit" where
  "open_release_page open_page d =
     (case map_option ui_release_url (dt_update d) of
        None \<Rightarrow> Inl ''no update release url''
      | Some url \<Rightarrow> open_page url)"

section \<open>Volume and tray\<close>

text \<open>\<open>service.send_android_volume\<close> on the service that the state holds; it never fails.\<close>

definition send_volume_to_running :: "u8 \<Rightarrow> ('sock, 'wr, 'w) desktop \<Rightarrow> ('sock, 'wr, 'w) desktop" where
  "send_volume_to_running pct d =
     (case ai_running (dt_inner d) of None \<Rightarrow> d
      | Some r \<Rightarrow> (case dt_services d (rn_run_id r) of None \<Rightarrow> d
          | Some (sv, run) \<Rightarrow>
              d\<lparr>dt_services := (dt_services d)(rn_run_id r \<mapsto> (send_android_volume pct sv, run))\<rparr>))"

definition set_android_volume ::
  "nat \<Rightarrow> u8 \<Rightarrow> ('sock, 'wr, 'w) desktop \<Rightarrow> ('sock, 'wr, 'w) desktop" where
  "set_android_volume now volume_pct d =
     (if ai_running (dt_inner d) = None then d
      else (send_volume_to_running volume_pct d)
        \<lparr>dt_logs := push_log now (''android volume set to '' @ show_nat (unat volume_pct) @ ''%'') (dt_logs d)\<rparr>)"

datatype tray_action = Tray_Show_Window | Tray_Check_Updates | Tray_Volume u8 | Tray_Quit | Tray_Nothing

definition tray_menu_event :: "string \<Rightarrow> tray_action" where
  "tray_menu_event event_id =
     (if event_id = ''show_window'' then Tray_Show_Window
      else if event_id = ''check_updates'' then Tray_Check_Updates
      else if event_id \<in> {''vol_25'', ''vol_50'', ''vol_75'', ''vol_100''} then
        Tray_Volume (if event_id = ''vol_25'' then 25 else if event_id = ''vol_50'' then 50
          else if event_id = ''vol_75'' then 75 else if event_id = ''vol_100'' then 100 else 50)
      else if event_id = ''quit'' then Tray_Quit else Tray_Nothing)"

text \<open>The menu as it is built: identifiers and labels.\<close>

definition volume_menu :: "(string \<times> string) list" where
  "volume_menu = [(''vol_25'', ''25%''), (''vol_50'', ''50%''), (''vol_75'', ''75%''), (''vol_100'', ''100%'')]"

definition tray_menu_ids :: "string list" where
  "tray_menu_ids = [''show_window'', ''check_updates''] @ map fst volume_menu @ [''quit'']"

datatype mouse_button = Left_Button | Right_Button | Middle_Button
datatype button_state = Button_Up | Button_Down

definition tray_icon_click :: "mouse_button \<Rightarrow> button_state \<Rightarrow> tray_action" where
  "tray_icon_click b st = (if b = Left_Button \<and> st = Button_Up then Tray_Show_Window else Tray_Nothing)"

text \<open>What an action does to the state; \<open>None\<close> is the end of the process.\<close>

fun tray_effect ::
  "update_info option \<Rightarrow> tray_action \<Rightarrow> ('sock, 'wr, 'w) desktop \<Rightarrow> ('sock, 'wr, 'w) desktop option" where
  "tray_effect found Tray_Show_Window d = Some d"
| "tray_effect found Tray_Check_Updates d = Some (d\<lparr>dt_update := run_update_check found (dt_update d)\<rparr>)"
| "tray_effect found (Tray_Volume pct) d = Some (send_volume_to_running pct d)"
| "tray_effect found Tray_Quit d = None"
| "tray_effect found Tray_Nothing d = Some d"

section \<open>Lemmas\<close>

lemma snapshot_fields:
  fixes d :: "('sock, 'wr, 'w) desktop"
  shows "dk_local_ip (desktop_snapshot_of env d :: 'json desktop_snapshot) = de_local_ip env"
    "dk_ws_port (desktop_snapshot_of env d :: 'json desktop_snapshot) = dsc_ws_port (ai_config (dt_inner d))"
    "dk_connect_address (desktop_snapshot_of env d :: 'json desktop_snapshot) =
      ''ws://'' @ (case dsc_transport_mode (ai_config (dt_inner d)) of Mode_WiFi \<Rightarrow> de_local_ip env | Mode_Usb _ \<Rightarrow> ''127.0.0.1'')
        @ '':'' @ show_port (dsc_ws_port (ai_config (dt_inner d)))"
  by (simp_all add: desktop_snapshot_of_def get_desktop_snapshot_def Let_def)

lemma send_volume_inv: "desktop_inv d \<Longrightarrow> desktop_inv (send_volume_to_running pct d)"
  by (auto simp: send_volume_to_running_def desktop_inv_def held_runs_def split: option.splits)

lemma tray_effect_inv: "desktop_inv d \<Longrightarrow> tray_effect found a d = Some d' \<Longrightarrow> desktop_inv d'"
proof (cases a)
  case Tray_Check_Updates
  assume "desktop_inv d" "tray_effect found a d = Some d'"
  with Tray_Check_Updates show ?thesis by (auto simp: desktop_inv_def held_runs_def)
qed (use send_volume_inv in auto)

lemma percent_labels:
  "show_nat (unat (25 :: u8)) = ''25''" "show_nat (unat (50 :: u8)) = ''50''"
  "show_nat (unat (75 :: u8)) = ''75''" "show_nat (unat (100 :: u8)) = ''100''"
  by code_simp+

section \<open>Properties\<close>

text \<open>
  Where the QR code points. Over Wi-Fi it names the address and port of the snapshot's connect
  address, and the server a start would build listens on every interface. In USB mode that server
  listens on the loopback interface only, on the port shown, and the connect address says so; but the
  QR code still names the address of the machine in the network, where nobody listens.
\<close>
theorem qr_address:
  fixes d :: "('sock, 'wr, 'w) desktop"
  assumes "build_server_config (de_server_default env) (ai_config (dt_inner d)) = Inr server"
  shows "let s = desktop_snapshot_of env d :: 'json desktop_snapshot; rest = '':'' @ show_port (sa_port (ws_bind server))
    in connection_uri s = ''lan-audio://'' @ de_local_ip env @ rest
      \<and> (case dsc_transport_mode (ai_config (dt_inner d)) of
           Mode_WiFi \<Rightarrow> dk_connect_address s = ''ws://'' @ de_local_ip env @ rest \<and> sa_ip (ws_bind server) = V4 0 0 0 0
         | Mode_Usb _ \<Rightarrow> dk_connect_address s = ''ws://127.0.0.1'' @ rest \<and> sa_ip (ws_bind server) = V4 127 0 0 1)"
proof (cases "dsc_transport_mode (ai_config (dt_inner d))")
  case Mode_WiFi
  then show ?thesis
    using assms by (auto simp: connection_uri_def snapshot_fields build_server_config_def parse_bind_any Let_def)
next
  case (Mode_Usb serial)
  then show ?thesis
    using assms by (auto simp: connection_uri_def snapshot_fields build_server_config_def parse_bind_local Let_def)
qed

definition usb_desktop :: "(nat, nat, unit) desktop" where
  "usb_desktop = (let d = desktop_init sample_config 0 () in
     d\<lparr>dt_inner := (dt_inner d)\<lparr>ai_config := enable_usb_mode ''R58M'' (ai_config (dt_inner d))\<rparr>\<rparr>)"

theorem qr_address_witness:
  "\<exists>server rest. build_server_config sample_config (ai_config (dt_inner usb_desktop)) = Inr server
    \<and> sa_ip (ws_bind server) = V4 127 0 0 1
    \<and> connection_uri (desktop_snapshot_of \<lparr>de_server_default = sample_config, de_local_ip = ''10.0.0.2'',
         de_version = ''1.13.0''\<rparr> usb_desktop :: unit desktop_snapshot) = ''lan-audio://10.0.0.2'' @ rest"
proof -
  let ?env = "\<lparr>de_server_default = sample_config, de_local_ip = ''10.0.0.2'', de_version = ''1.13.0''\<rparr>"
  obtain server where b: "build_server_config sample_config (ai_config (dt_inner usb_desktop)) = Inr server"
    using config_builds by (metis sum.exhaust)
  then have "build_server_config (de_server_default ?env) (ai_config (dt_inner usb_desktop)) = Inr server" by simp
  note q = qr_address [OF this, where 'json = unit]
  have m: "dsc_transport_mode (ai_config (dt_inner usb_desktop)) = Mode_Usb ''R58M''"
    by (simp add: usb_desktop_def enable_usb_mode_def Let_def)
  show ?thesis using q b unfolding m Let_def by auto
qed

text \<open>
  The tray. Every entry of the menu has its action, and a volume entry sets the percentage of its
  label; an action keeps the invariant of the application and sends the volume to the running service
  just as the command does, except that the command logs it. \<open>quit\<close> is the exception: it ends the
  process at once, and no service is told to stop and no forward is removed.
\<close>
theorem tray_outcome:
  assumes "desktop_inv d" and "entry \<in> set tray_menu_ids"
  shows "case tray_effect found (tray_menu_event entry) d of
      None \<Rightarrow> entry = ''quit''
    | Some d' \<Rightarrow> desktop_inv d' \<and> dt_world d' = dt_world d \<and> dt_inner d' = dt_inner d \<and> dt_logs d' = dt_logs d
        \<and> (\<forall>label. (entry, label) \<in> set volume_menu \<longrightarrow>
             (\<exists>pct. label = show_nat (unat pct) @ ''%'' \<and> d' = (set_android_volume now pct d)\<lparr>dt_logs := dt_logs d\<rparr>))"
proof (cases "tray_effect found (tray_menu_event entry) d")
  case None
  then show ?thesis by (cases "tray_menu_event entry") (auto simp: tray_menu_event_def split: if_splits)
next
  case (Some d')
  have same: "dt_world d' = dt_world d \<and> dt_inner d' = dt_inner d \<and> dt_logs d' = dt_logs d"
    using Some by (cases "tray_menu_event entry") (auto simp: send_volume_to_running_def split: option.splits)
  have sv: "send_volume_to_running pct d = (set_android_volume now pct d)\<lparr>dt_logs := dt_logs d\<rparr>" for pct
    by (auto simp: set_android_volume_def send_volume_to_running_def split: option.splits)
  have "\<exists>pct. label = show_nat (unat pct) @ ''%'' \<and> d' = (set_android_volume now pct d)\<lparr>dt_logs := dt_logs d\<rparr>"
    if "(entry, label) \<in> set volume_menu" for label
  proof -
    have "tray_menu_event entry = Tray_Volume 25 \<and> label = ''25%'' \<or> tray_menu_event entry = Tray_Volume 50 \<and> label = ''50%''
        \<or> tray_menu_event entry = Tray_Volume 75 \<and> label = ''75%'' \<or> tray_menu_event entry = Tray_Volume 100 \<and> label = ''100%''"
      using that by (auto simp: volume_menu_def tray_menu_event_def)
    then obtain pct :: u8 where p: "tray_menu_event entry = Tray_Volume pct" "label = show_nat (unat pct) @ ''%''"
      using percent_labels by (elim disjE conjE) (rule that, assumption, simp only: append.simps)+
    then show ?thesis using Some sv [of pct] by auto
  qed
  then show ?thesis using Some same tray_effect_inv [OF assms(1) Some] by simp
qed

theorem tray_outcome_witness:
  "\<exists>d d' :: (nat, nat, unit) desktop. d = desktop_init sample_config 0 ()
    \<and> tray_effect None (tray_menu_event ''vol_75'') d = Some d'
    \<and> desktop_inv d' \<and> d' = (set_android_volume 0 75 d)\<lparr>dt_logs := dt_logs d\<rparr>"
proof -
  let ?d = "desktop_init sample_config 0 () :: (nat, nat, unit) desktop"
  have i: "desktop_inv ?d" by (rule init_inv)
  have e: "''vol_75'' \<in> set tray_menu_ids" by (simp add: tray_menu_ids_def volume_menu_def)
  have a: "tray_menu_event ''vol_75'' = Tray_Volume 75" by (simp add: tray_menu_event_def)
  obtain d' where d': "tray_effect None (tray_menu_event ''vol_75'') ?d = Some d'" by (simp add: a)
  have "desktop_inv d'" using tray_outcome [OF i e, where found = None and now = 0] unfolding d' by simp
  moreover have "d' = (set_android_volume 0 75 ?d)\<lparr>dt_logs := dt_logs ?d\<rparr>"
    using d' by (auto simp: a send_volume_to_running_def set_android_volume_def desktop_init_def)
  ultimately show ?thesis using d' by auto
qed

end
