(* ===== verification/Contract_Export.thy ===== *)
theory Contract_Export
  imports Audio_Domain
begin

text \<open>
  The bundle of contracts that \<open>crates/lan_audio_domain/src/bin/export_contracts.rs\<close> prints for the
  other parts of the system: the mode contracts, the names of the connection states and of the failure
  codes, and the templates. The JSON text of it is left to \<open>serde_json\<close>, a parameter.
\<close>

record 'json contract_bundle =
  cb_mode_contracts :: "ModeContract list"
  cb_connection_states :: "connection_state list"
  cb_failure_codes :: "failure_code list"
  cb_service_snapshot_template :: "'json service_snapshot"
  cb_release_gate_template :: release_gate

definition contract_bundle_value :: "'json contract_bundle" where
  "contract_bundle_value =
     \<lparr>cb_mode_contracts = [mode_contract LowLatency, mode_contract Balanced, mode_contract HighQuality],
      cb_connection_states = [Disconnected, Handshaking, Negotiated, Streaming, Reconfiguring, Recovering, Closed],
      cb_failure_codes = [BuildFmt, BuildCheck, BuildTest, FlutterAnalyze, FlutterTest, GradleBuild,
        DeviceNotFound, AdbUnauthorized, UsbTetheringUnavailable, HandshakeTimeout, NegotiationMismatch,
        CodecInitFail, JitterGrowth, LatePacketStorm, AudioSinkUnderrun, BackgroundKilled, AudioFocusLost,
        ReconnectLoop, MetricsSchemaDrift, ReleaseGateBlocked],
      cb_service_snapshot_template = service_snapshot_empty,
      cb_release_gate_template = release_gate_blocked\<rparr>"

text \<open>The output; a failed conversion panics (\<open>None\<close>).\<close>

definition export_contracts_main :: "('json contract_bundle \<Rightarrow> string + string) \<Rightarrow> string option" where
  "export_contracts_main to_string_pretty =
     (case to_string_pretty contract_bundle_value of Inl _ \<Rightarrow> None | Inr text \<Rightarrow> Some (text @ [CHR 0x0A]))"

text \<open>
  What the bundle covers. It lists every connection state and every failure code once, and the
  templates are an idle snapshot and a gate that blocks; but the contracts of three modes only: that
  of the mode with the lowest latency is in the program and differs from all that are exported.
\<close>
theorem contract_bundle_coverage:
  "let b = contract_bundle_value :: 'json contract_bundle in
     set (cb_connection_states b) = UNIV \<and> distinct (cb_connection_states b)
   \<and> set (cb_failure_codes b) = UNIV \<and> distinct (cb_failure_codes b)
   \<and> set (cb_mode_contracts b) = range mode_contract - {mode_contract UltraLowLatency}
   \<and> \<not> allows_release (cb_release_gate_template b)"
proof -
  have states: "set (cb_connection_states (contract_bundle_value :: 'json contract_bundle)) = UNIV"
    by (rule set_eqI, case_tac x) (simp_all add: contract_bundle_value_def)
  have codes: "set (cb_failure_codes (contract_bundle_value :: 'json contract_bundle)) = UNIV"
    by (rule set_eqI, case_tac x) (simp_all add: contract_bundle_value_def)
  have range: "range mode_contract = {mode_contract UltraLowLatency, mode_contract LowLatency,
      mode_contract Balanced, mode_contract HighQuality}"
  proof -
    have U: "(UNIV :: audio_mode set) = {UltraLowLatency, LowLatency, Balanced, HighQuality}"
      by (rule set_eqI, case_tac x) simp_all
    show ?thesis unfolding U image_insert image_empty by (rule refl)
  qed
  have "mode_contract UltraLowLatency \<noteq> mode_contract LowLatency"
    "mode_contract UltraLowLatency \<noteq> mode_contract Balanced" "mode_contract UltraLowLatency \<noteq> mode_contract HighQuality"
    by simp_all
  then have "set (cb_mode_contracts (contract_bundle_value :: 'json contract_bundle))
      = range mode_contract - {mode_contract UltraLowLatency}"
    unfolding range by (auto simp: contract_bundle_value_def simp del: mode_contract.simps)
  then show ?thesis
    using states codes release_gate_blocked_blocks by (simp add: contract_bundle_value_def Let_def)
qed

end
