(* ===== verification/Whole_Server.thy ===== *)
theory Whole_Server
  imports Session_Hub Transport_Lifecycle
begin

text \<open>
  The server as one machine: the service of \<open>service.rs\<close> (\<open>run_until_shutdown\<close>), the session server of
  \<open>session.rs\<close> and the broadcast transport of \<open>transport.rs\<close>, as \<open>run_until_shutdown\<close> puts them
  together. They share one registry, and the service's shutdown channel is what the other two listen
  to. The session server and the transport are the machines \<open>hub_step\<close> and \<open>transport_step\<close>; here their
  inputs from each other are no longer free: what one does to the registry the other one sees, a
  shutdown is received only when it was sent to a receiver that existed, and a task ends only when its
  machine is at its end.
\<close>

section \<open>The parts and what they share\<close>

text \<open>The outside world of the server: its configuration, what it binds, and the libraries it calls.\<close>

record ('wr, 'w, 'o, 'r, 'sock, 'lsn, 'l) server_env =
  en_session :: session_env
  en_cfg :: "real server_config"
  en_loopback :: "audio_format \<Rightarrow> string + 'l"
  en_sockets :: "('sock, 'lsn) transport_sockets"
  en_opus :: "'o opus_api"
  en_resampler :: "'r resampler_api"
  en_udp_send :: "'sock \<Rightarrow> u8 list \<Rightarrow> socket_addr \<Rightarrow> 'w \<Rightarrow> (string + unit) \<times> 'w"
  en_stream_write :: "'wr \<Rightarrow> u8 list \<Rightarrow> 'w \<Rightarrow> (string + unit) \<times> 'w"

text \<open>
  The transport is there once its task has begun to run. \<open>wh_tasks_told\<close> tells whether a shutdown was
  sent since then: the receivers of its accept, capture and watchdog tasks are made by \<open>resubscribe\<close>
  when it begins, and start at the end of the channel.
\<close>

record ('tx, 'wr, 'w, 'o, 'r, 'sock) whole_server =
  wh_service :: service_run
  wh_hub :: "('tx, 'wr, 'sock) session_hub"
  wh_transport :: "('tx, 'wr, 'w, 'o, 'r) transport_run option"
  wh_tasks_told :: bool

definition whole_new :: "('tx, 'wr, 'sock) session_world \<Rightarrow> ('tx, 'wr, 'w, 'o, 'r, 'sock) whole_server" where
  "whole_new w =
     \<lparr>wh_service = service_run_new, wh_hub = session_hub_new w, wh_transport = None, wh_tasks_told = False\<rparr>"

abbreviation wh_registry :: "('tx, 'wr, 'w, 'o, 'r, 'sock) whole_server \<Rightarrow> ('tx, 'wr) registry" where
  "wh_registry s \<equiv> sw_registry (sh_world (wh_hub s))"

text \<open>The session server and the transport hold clones of one registry: a change of either is seen by both.\<close>

definition hub_sees :: "('tx, 'wr) registry \<Rightarrow> ('tx, 'wr, 'sock) session_hub \<Rightarrow> ('tx, 'wr, 'sock) session_hub" where
  "hub_sees r h = h\<lparr>sh_world := (sh_world h)\<lparr>sw_registry := r\<rparr>\<rparr>"

definition transport_sees ::
  "('tx, 'wr) registry \<Rightarrow> ('tx, 'wr, 'w, 'o, 'r) transport_run \<Rightarrow> ('tx, 'wr, 'w, 'o, 'r) transport_run" where
  "transport_sees r l = l\<lparr>lc_pipeline := (lc_pipeline l)\<lparr>bp_registry := r\<rparr>\<rparr>"

section \<open>The machine\<close>

datatype ('tx, 'wr, 'w) whole_event =
    Wh_Service service_event
  | Wh_Start "capture_source_state \<times> string option" "capture_error + unit"
      "capture_source_state \<times> string option \<times> audio_format" 'w nat
  | Wh_Transport "('tx, 'wr) transport_event"
  | Wh_Hub "('tx, 'wr) hub_event"

fun main_over :: "main_state \<Rightarrow> bool" where
  "main_over (Main_Returned _) = True"
| "main_over _ = False"

fun hub_over :: "hub_phase \<Rightarrow> bool" where
  "hub_over (Hub_Ended _) = True"
| "hub_over _ = False"

fun task_over :: "service_task \<Rightarrow> ('tx, 'wr, 'w, 'o, 'r, 'sock) whole_server \<Rightarrow> bool" where
  "task_over Task_Transport s = (case wh_transport s of None \<Rightarrow> False | Some l \<Rightarrow> main_over (lc_main l))"
| "task_over Task_Sessions s = hub_over (sh_phase (wh_hub s))"
| "task_over _ s = True"

fun may_happen :: "service_event \<Rightarrow> ('tx, 'wr, 'w, 'o, 'r, 'sock) whole_server \<Rightarrow> bool" where
  "may_happen (Ev_Task_End t) s = task_over t s"
| "may_happen _ s = True"

fun sends_shutdown :: "service_event \<Rightarrow> bool" where
  "sends_shutdown Ev_Stop = True"
| "sends_shutdown Ev_Ctrl_C = True"
| "sends_shutdown Ev_Heard = True"
| "sends_shutdown _ = False"

definition hub_spawned :: "('tx, 'wr, 'w, 'o, 'r, 'sock) whole_server \<Rightarrow> bool" where
  "hub_spawned s \<longleftrightarrow> Task_Sessions \<in> sr_receivers (wh_service s) \<or> sh_phase (wh_hub s) \<noteq> Hub_Starting"

text \<open>A shutdown, as the session server with its connections and the tasks of the transport get it.\<close>

definition deliver_shutdown ::
  "('wr, 'w, 'o, 'r, 'sock, 'lsn, 'l) server_env \<Rightarrow> ('tx, 'wr, 'w, 'o, 'r, 'sock) whole_server
   \<Rightarrow> ('tx, 'wr, 'w, 'o, 'r, 'sock) whole_server" where
  "deliver_shutdown E s =
     s\<lparr>wh_hub := (if hub_spawned s
         then (case hub_step (en_session E) (en_cfg E) Hub_Signal (wh_hub s) of Inr h \<Rightarrow> h | Inl _ \<Rightarrow> wh_hub s)
         else wh_hub s),
       wh_tasks_told := (wh_tasks_told s \<or> wh_transport s \<noteq> None)\<rparr>"

text \<open>
  The receipts of the shutdown are possible only when there is something to receive; the registry
  operations of the session server come from the session server itself.
\<close>

fun transport_may :: "('tx, 'wr) transport_event \<Rightarrow> ('tx, 'wr, 'w, 'o, 'r, 'sock) whole_server \<Rightarrow> bool" where
  "transport_may Tl_Shutdown s = (Task_Transport \<in> sr_told (wh_service s))"
| "transport_may Tl_Accept_Stop s = wh_tasks_told s"
| "transport_may (Tl_Capture_Stop _) s = wh_tasks_told s"
| "transport_may Tl_Watchdog_Stop s = wh_tasks_told s"
| "transport_may (Tl_Work (Ev_Session _)) s = False"
| "transport_may _ s = True"

fun hub_may :: "('tx, 'wr) hub_event \<Rightarrow> bool" where
  "hub_may Hub_Signal = False"
| "hub_may (Hub_Transport _) = False"
| "hub_may _ = True"

fun whole_step ::
  "service_task list \<Rightarrow> ('wr, 'w, 'o, 'r, 'sock, 'lsn, 'l) server_env \<Rightarrow> ('tx, 'wr, 'w) whole_event
   \<Rightarrow> ('tx, 'wr, 'w, 'o, 'r, 'sock) whole_server \<Rightarrow> unit + ('tx, 'wr, 'w, 'o, 'r, 'sock) whole_server" where
  "whole_step tasks E (Wh_Service x) s =
     (if may_happen x s then
        (case service_step tasks x (wh_service s) of
           Inl _ \<Rightarrow> Inl ()
         | Inr r \<Rightarrow>
             let t = s\<lparr>wh_service := r\<rparr> in Inr (if sends_shutdown x then deliver_shutdown E t else t))
      else Inl ())"
| "whole_step tasks E (Wh_Start before started after w now) s =
     (if Task_Transport \<in> sr_receivers (wh_service s) \<and> wh_transport s = None
      then let l = transport_run_start (en_loopback E) (en_cfg E) (en_sockets E) before started after
                     (wh_registry s) w now
           in Inr (s\<lparr>wh_transport := Some l, wh_hub := hub_sees (bp_registry (lc_pipeline l)) (wh_hub s)\<rparr>)
      else Inl ())"
| "whole_step tasks E (Wh_Transport x) s =
     (case wh_transport s of
        None \<Rightarrow> Inl ()
      | Some l \<Rightarrow>
          if transport_may x s then
            (case transport_step (env_json (en_session E)) (en_opus E) (en_resampler E) (en_udp_send E)
                    (en_stream_write E) (tp_socket (en_sockets E)) x l of
               Inl _ \<Rightarrow> Inl ()
             | Inr l \<Rightarrow> Inr (s\<lparr>wh_transport := Some l,
                               wh_hub := hub_sees (bp_registry (lc_pipeline l)) (wh_hub s)\<rparr>))
          else Inl ())"
| "whole_step tasks E (Wh_Hub x) s =
     (if hub_may x \<and> hub_spawned s then
        (case hub_step (en_session E) (en_cfg E) x (wh_hub s) of
           Inl _ \<Rightarrow> Inl ()
         | Inr h \<Rightarrow> Inr (s\<lparr>wh_hub := h,
             wh_transport := map_option (transport_sees (sw_registry (sh_world h))) (wh_transport s)\<rparr>))
      else Inl ())"

section \<open>The transport adds nobody to the registry\<close>

lemma dispatch_reg_ids:
  assumes "dispatch_wire_frames js us sw socket now xs t r w = (t', r', w')"
  shows "reg_ids r' \<subseteq> reg_ids r"
proof -
  let ?d0 = "\<lparr>ds_registry = r, ds_tx_stats = t, ds_world = w, ds_failed_wifi = [], ds_failed_usb = []\<rparr>"
  obtain oks u where "send_outcomes us sw socket xs (ds_world ?d0) = (oks, u)" by fastforce
  from dispatch_fold [OF refl this, of now] obtain m
    where m: "ds_registry (fold (dispatch_one us sw socket now) xs ?d0) = r\<lparr>reg_metrics := m\<rparr>" by auto
  show ?thesis
    using assms by (auto simp: dispatch_wire_frames_def Let_def m remove_clients_fold lost_clients_fold
        drop_stream_def)
qed

text \<open>The recipients of what the pipeline has in hand or ever made.\<close>

definition recipients :: "('tx, 'wr, 'w, 'o, 'r) broadcast_state \<Rightarrow> uuid set" where
  "recipients b = bc_id ` set (concat (map job_clients (bp_jobs b))) \<union> wire_id ` set (bp_history b)"

lemma recipients_frame [simp]:
  "recipients (b\<lparr>bp_registry := r\<rparr>) = recipients b" "recipients (b\<lparr>bp_frames := fs\<rparr>) = recipients b"
  "recipients (b\<lparr>bp_handoff := hs\<rparr>) = recipients b" "recipients (b\<lparr>bp_runtime := a\<rparr>) = recipients b"
  "recipients (b\<lparr>bp_current_tier := ct\<rparr>) = recipients b" "recipients (b\<lparr>bp_worker := ew\<rparr>) = recipients b"
  "recipients (b\<lparr>bp_results := rs\<rparr>) = recipients b" "recipients (b\<lparr>bp_tx_stats := ts\<rparr>) = recipients b"
  "recipients (b\<lparr>bp_world := u\<rparr>) = recipients b" "recipients (b\<lparr>bp_dispatched := ws\<rparr>) = recipients b"
  by (simp_all add: recipients_def)

lemma recipients_jobs:
  "recipients (b\<lparr>bp_jobs := jobs\<rparr>) = bc_id ` set (concat (map job_clients jobs)) \<union> wire_id ` set (bp_history b)"
  "recipients (b\<lparr>bp_history := ws\<rparr>) = bc_id ` set (concat (map job_clients (bp_jobs b))) \<union> wire_id ` set ws"
  by (simp_all add: recipients_def)

lemma recipients_push:
  "bp_jobs c = bp_jobs b @ jobs \<Longrightarrow> bp_history c = bp_history b \<Longrightarrow>
    recipients c = recipients b \<union> bc_id ` set (concat (map job_clients jobs))"
  by (auto simp: recipients_def)

lemma recipients_clear: "recipients (b\<lparr>bp_jobs := []\<rparr>) \<subseteq> recipients b"
  by (auto simp: recipients_def)

lemma snapshot_ids_subset: "bc_id ` set (fst (take_broadcast_clients r)) \<subseteq> reg_ids r"
proof -
  have "bc_id ` set (fst (take_broadcast_clients r)) = ch_id ` set (filter (\<lambda>c. ch_transport c \<noteq> None) (reg_clients r))"
    by (metis snapshot_ids set_map)
  then show ?thesis by auto
qed

lemma on_frame_ids:
  "reg_ids (bp_registry (on_frame f b)) = reg_ids (bp_registry b)
    \<and> recipients (on_frame f b) \<subseteq> recipients b \<union> reg_ids (bp_registry b)"
proof -
  obtain cs r where t: "take_broadcast_clients (bp_registry b) = (cs, r)" by fastforce
  have ids: "reg_ids r = reg_ids (bp_registry b)" "bc_id ` set cs \<subseteq> reg_ids (bp_registry b)"
    using take_reg_ids [of "bp_registry b"] snapshot_ids_subset [of "bp_registry b"] unfolding t by simp_all
  show ?thesis
  proof (cases "cs = []")
    case True
    then show ?thesis using ids(1) by (simp add: on_frame_def t)
  next
    case False
    let ?job = "\<lparr>job_frame = f, job_clients = cs,
      job_active_tier = (case bp_runtime b of None \<Rightarrow> Green | Some _ \<Rightarrow> bp_current_tier b)\<rparr>"
    have job: "on_frame f b = b\<lparr>bp_registry := r, bp_jobs := bp_jobs b @ [?job]\<rparr>"
      using False by (simp add: on_frame_def t Let_def split: option.split)
    then have "recipients (on_frame f b) = recipients b \<union> bc_id ` set cs"
      using recipients_push [of "on_frame f b" b "[?job]"] by simp
    then show ?thesis using ids by (auto simp: job)
  qed
qed

lemma worker_turn_ids:
  assumes "bp_jobs b = job # jobs"
  shows "bp_registry (worker_turn oa rs job keys (b\<lparr>bp_jobs := jobs\<rparr>)) = bp_registry b
    \<and> recipients (worker_turn oa rs job keys (b\<lparr>bp_jobs := jobs\<rparr>)) \<subseteq> recipients b"
proof -
  obtain ws w where p: "process_job oa rs job keys (bp_worker b) = (ws, w)" by fastforce
  then have "wf_client x \<in> set (job_clients job)" if "x \<in> set ws" for x
    using that groups_loop_clients [of x oa rs job keys "apply_tier oa (job_active_tier job) (bp_worker b)"]
    by (simp add: process_job_def)
  then have "wire_id ` set ws \<subseteq> bc_id ` set (job_clients job)" by (auto simp: wire_id_def)
  then show ?thesis by (simp add: worker_turn_def p recipients_def assms image_Un) blast
qed

lemma broadcast_step_ids:
  assumes "\<And>y. x \<noteq> Ev_Session y" and "broadcast_step js oa rs us sw socket x b = Inr b'"
  shows "reg_ids (bp_registry b') \<subseteq> reg_ids (bp_registry b) \<and> recipients b' \<subseteq> recipients b \<union> reg_ids (bp_registry b)"
proof (cases x)
  case (Ev_Capture res st device block_ms now)
  then show ?thesis using assms(2)
    by (auto simp: on_capture_def Let_def split: if_splits prod.splits option.splits)
next
  case Ev_Frame
  obtain f fs where f: "bp_frames b = f # fs" using assms(2) Ev_Frame by (auto split: list.splits)
  then have "b' = on_frame f (b\<lparr>bp_frames := fs\<rparr>)" using assms(2) Ev_Frame by simp
  then show ?thesis using on_frame_ids [of f "b\<lparr>bp_frames := fs\<rparr>"] by simp
next
  case (Ev_Watchdog cpu)
  then show ?thesis using assms(2)
    by (auto simp: on_watchdog_tick_def take_latest_watermark_def split: option.splits prod.splits)
next
  case (Ev_Worker keys)
  obtain job jobs where j: "bp_jobs b = job # jobs" using assms(2) Ev_Worker by (auto split: list.splits)
  then have "b' = worker_turn oa rs job keys (b\<lparr>bp_jobs := jobs\<rparr>)"
    using assms(2) Ev_Worker by (auto split: if_splits)
  then show ?thesis using worker_turn_ids [OF j, of oa rs keys] by (simp add: le_supI1)
next
  case (Ev_Result now)
  obtain ws rest where q: "bp_results b = ws # rest" using assms(2) Ev_Result by (auto split: list.splits)
  obtain t r w where d: "dispatch_wire_frames js us sw socket now ws (bp_tx_stats b)
      (bp_registry b) (bp_world b) = (t, r, w)" by (metis prod_cases3)
  show ?thesis using dispatch_reg_ids [OF d] assms(2) Ev_Result q
    by (auto simp: on_result_def d)
next
  case (Ev_Attach stream now)
  then show ?thesis using assms(2) attach_reg_ids [of stream now "bp_registry b"] by auto
qed (use assms(1) in auto)

lemma transport_step_ids:
  assumes "\<And>y. x \<noteq> Tl_Work (Ev_Session y)" and "transport_step js oa rs us sw socket x l = Inr l'"
  shows "reg_ids (bp_registry (lc_pipeline l')) \<subseteq> reg_ids (bp_registry (lc_pipeline l))
    \<and> recipients (lc_pipeline l') \<subseteq> recipients (lc_pipeline l) \<union> reg_ids (bp_registry (lc_pipeline l))"
proof (cases x)
  case (Tl_Work y)
  then obtain b where b: "broadcast_step js oa rs us sw socket y (lc_pipeline l) = Inr b"
      and l': "l' = l\<lparr>lc_pipeline := b\<rparr>"
    using assms(2) by (auto split: if_splits sum.splits)
  have "\<And>z. y \<noteq> Ev_Session z" using assms(1) Tl_Work by auto
  from broadcast_step_ids [OF this b] show ?thesis by (simp add: l')
next
  case Tl_Send_Failed
  obtain cs r where t: "take_broadcast_clients (bp_registry (lc_pipeline l)) = (cs, r)" by fastforce
  have "reg_ids r = reg_ids (bp_registry (lc_pipeline l))"
    using take_reg_ids [of "bp_registry (lc_pipeline l)"] unfolding t by simp
  then show ?thesis using assms(2) Tl_Send_Failed
    by (auto simp: t Let_def leave_loop_def split: if_splits list.splits)
next
  case Tl_Worker_Panic
  then show ?thesis using assms(2) recipients_clear [of "lc_pipeline l"] by (auto split: if_splits)
qed (use assms(2) in \<open>auto simp: leave_loop_def Let_def split: if_splits\<close>)

section \<open>The invariant\<close>

definition whole_inv :: "('tx, 'wr, 'w, 'o, 'r, 'sock) whole_server \<Rightarrow> bool" where
  "whole_inv s \<longleftrightarrow> hub_inv (wh_hub s)
     \<and> (case wh_transport s of None \<Rightarrow> True
        | Some l \<Rightarrow> transport_inv l \<and> bp_registry (lc_pipeline l) = wh_registry s)"

lemma hub_sees_inv:
  assumes "hub_inv h" and "reg_inv r" and "reg_ids r \<subseteq> reg_ids (sw_registry (sh_world h))"
  shows "hub_inv (hub_sees r h)"
  using assms unfolding hub_inv_def hub_sees_def open_ids_def by auto

lemma transport_sees_inv: "transport_inv l \<Longrightarrow> reg_inv r \<Longrightarrow> transport_inv (transport_sees r l)"
  by (auto simp: transport_inv_def transport_sees_def pipeline_inv_def)

lemma deliver_shutdown_inv: "whole_inv s \<Longrightarrow> whole_inv (deliver_shutdown E s)"
  by (auto simp: whole_inv_def deliver_shutdown_def hub_signal_inv split: option.splits)

lemma start_registry:
  assumes "l = transport_run_start loopback cfg sockets before started after r w now"
  shows "reg_clients (bp_registry (lc_pipeline l)) = reg_clients r"
    and "reg_inv r \<Longrightarrow> reg_inv (bp_registry (lc_pipeline l))"
  using assms by (auto simp: transport_run_start_def transport_start_def Let_def split: sum.split prod.split)

lemma whole_step_inv:
  assumes "whole_inv s" and "whole_step tasks E x s = Inr t"
  shows "whole_inv t"
proof (cases x)
  case (Wh_Service y)
  then obtain r where "t = s\<lparr>wh_service := r\<rparr> \<or> t = deliver_shutdown E (s\<lparr>wh_service := r\<rparr>)"
    using assms(2) by (auto simp: Let_def split: if_splits sum.splits)
  moreover have "whole_inv (s\<lparr>wh_service := r\<rparr>)"
    using assms(1) by (auto simp: whole_inv_def split: option.splits)
  ultimately show ?thesis using deliver_shutdown_inv by auto
next
  case (Wh_Start before started after w now)
  define l :: "('a, 'b, 'c, 'd, 'e) transport_run"
    where "l = transport_run_start (en_loopback E) (en_cfg E) (en_sockets E) before started after (wh_registry s) w now"
  have t: "t = s\<lparr>wh_transport := Some l, wh_hub := hub_sees (bp_registry (lc_pipeline l)) (wh_hub s)\<rparr>"
    using assms(2) Wh_Start by (auto simp: Let_def l_def split: if_splits)
  have i: "hub_inv (wh_hub s)" "reg_inv (wh_registry s)" using assms(1) by (simp_all add: whole_inv_def hub_inv_def)
  have "hub_inv (hub_sees (bp_registry (lc_pipeline l)) (wh_hub s))"
    by (rule hub_sees_inv [OF i(1)]) (simp_all add: start_registry [OF l_def] i(2))
  moreover have "transport_inv l" unfolding l_def by (rule transport_run_start_inv [OF i(2)])
  ultimately show ?thesis by (simp add: t whole_inv_def) (simp add: hub_sees_def)
next
  case (Wh_Transport y)
  then obtain l l' where l: "wh_transport s = Some l" "transport_may y s"
      "transport_step (env_json (en_session E)) (en_opus E) (en_resampler E) (en_udp_send E)
        (en_stream_write E) (tp_socket (en_sockets E)) y l = Inr l'"
      "t = s\<lparr>wh_transport := Some l', wh_hub := hub_sees (bp_registry (lc_pipeline l')) (wh_hub s)\<rparr>"
    using assms(2) by (auto split: if_splits option.splits sum.splits)
  have i: "transport_inv l" "bp_registry (lc_pipeline l) = wh_registry s" "hub_inv (wh_hub s)"
    using assms(1) l(1) by (simp_all add: whole_inv_def)
  have ti: "transport_inv l'" by (rule transport_step_inv [OF i(1) l(3)])
  have "y \<noteq> Tl_Work (Ev_Session z)" for z using l(2) by auto
  from transport_step_ids [OF this l(3)] have "reg_ids (bp_registry (lc_pipeline l')) \<subseteq> reg_ids (wh_registry s)"
    using i(2) by simp
  then have "hub_inv (hub_sees (bp_registry (lc_pipeline l')) (wh_hub s))"
    using hub_sees_inv [OF i(3)] ti by (simp add: transport_inv_def pipeline_inv_def)
  with ti show ?thesis by (simp add: l(4) whole_inv_def) (simp add: hub_sees_def)
next
  case (Wh_Hub y)
  then obtain h where h: "hub_step (en_session E) (en_cfg E) y (wh_hub s) = Inr h"
      "t = s\<lparr>wh_hub := h, wh_transport := map_option (transport_sees (sw_registry (sh_world h))) (wh_transport s)\<rparr>"
    using assms(2) by (auto split: if_splits sum.splits)
  have hi: "hub_inv h" using hub_step_inv [OF _ h(1)] assms(1) by (simp add: whole_inv_def)
  then have "reg_inv (sw_registry (sh_world h))" by (simp add: hub_inv_def)
  with hi show ?thesis
    using assms(1) transport_sees_inv
    by (auto simp: h(2) whole_inv_def transport_sees_def [of _ "the (wh_transport s)"] split: option.splits)
      (auto simp: transport_sees_def)
qed

interpretation whole: guarded_machine "whole_step tasks E" whole_inv for tasks E
  by unfold_locales (rule whole_step_inv)

lemma whole_new_inv: "reg_inv (sw_registry w) \<Longrightarrow> world_ids w = [] \<Longrightarrow> whole_inv (whole_new w)"
  by (simp add: whole_inv_def whole_new_def session_hub_new_inv)

section \<open>The invariant of the shutdown\<close>

text \<open>
  The receivers in the order in which they subscribe: each once, the service itself last. A task that
  was spawned is still a receiver or is over; what the service hears, every receiver was sent.
\<close>

definition good_tasks :: "service_task list \<Rightarrow> bool" where
  "good_tasks tasks \<longleftrightarrow> distinct tasks \<and> tasks \<noteq> [] \<and> last tasks = Task_Main
     \<and> Task_Transport \<in> set tasks \<and> Task_Sessions \<in> set tasks"

lemma service_tasks_good: "good_tasks (service_tasks uid sv)"
  by (auto simp: good_tasks_def service_tasks_def)

fun spawned :: "service_task list \<Rightarrow> run_phase \<Rightarrow> service_task set" where
  "spawned tasks Not_Run = {}"
| "spawned tasks Binding = {}"
| "spawned tasks (Spawning ts) = set tasks - set ts"
| "spawned tasks (Ended (Inl _)) = {}"
| "spawned tasks _ = set tasks"

fun phase_ok :: "service_task list \<Rightarrow> run_phase \<Rightarrow> bool" where
  "phase_ok tasks (Spawning ts) = (ts \<noteq> [] \<and> (\<exists>ds. tasks = ds @ ts))"
| "phase_ok tasks _ = True"

definition stop_inv :: "service_task list \<Rightarrow> ('tx, 'wr, 'w, 'o, 'r, 'sock) whole_server \<Rightarrow> bool" where
  "stop_inv tasks s \<longleftrightarrow> phase_ok tasks (sr_phase (wh_service s))
     \<and> sr_receivers (wh_service s) \<subseteq> spawned tasks (sr_phase (wh_service s))
     \<and> sr_told (wh_service s) \<subseteq> spawned tasks (sr_phase (wh_service s))
     \<and> (\<forall>t \<in> spawned tasks (sr_phase (wh_service s)). t \<in> sr_receivers (wh_service s) \<or> t = Task_Main \<or> task_over t s)
     \<and> (Task_Main \<in> sr_told (wh_service s) \<longrightarrow> sr_receivers (wh_service s) \<subseteq> sr_told (wh_service s))
     \<and> (sr_phase (wh_service s) = Joining_Tasks \<longrightarrow> sr_receivers (wh_service s) \<subseteq> sr_told (wh_service s))
     \<and> (sr_phase (wh_service s) = Ended (Inr ()) \<longrightarrow> sr_receivers (wh_service s) = {})
     \<and> (Task_Sessions \<in> sr_told (wh_service s) \<longrightarrow> sh_signalled (wh_hub s) \<or> hub_over (sh_phase (wh_hub s)))"

lemma main_not_spawned:
  assumes "good_tasks tasks" and "phase_ok tasks (Spawning ts)"
  shows "Task_Main \<in> set ts"
proof -
  obtain ds where "tasks = ds @ ts" "ts \<noteq> []" using assms(2) by auto
  then have "last ts = Task_Main" using assms(1) by (simp add: good_tasks_def)
  then show ?thesis using last_in_set [OF \<open>ts \<noteq> []\<close>] by simp
qed

lemma spawn_step:
  assumes "good_tasks tasks" and "phase_ok tasks (Spawning (t # ts))"
  shows "spawned tasks (if ts = [] then Serving else Spawning ts) = insert t (spawned tasks (Spawning (t # ts)))"
    and "phase_ok tasks (if ts = [] then Serving else Spawning ts)"
proof -
  obtain ds where "tasks = ds @ t # ts" "distinct tasks" using assms by (auto simp: good_tasks_def)
  then show "spawned tasks (if ts = [] then Serving else Spawning ts) = insert t (spawned tasks (Spawning (t # ts)))"
    and "phase_ok tasks (if ts = [] then Serving else Spawning ts)"
    by auto
qed

text \<open>A task that is over stays over.\<close>

lemma hub_over_step: "hub_over (sh_phase h) \<Longrightarrow> hub_step env cfg x h = Inr k \<Longrightarrow> hub_over (sh_phase k)"
  using ended_step [of h _ env cfg x k] by (cases "sh_phase h") (auto simp: no_new_connections_def)

lemma main_over_step:
  "main_over (lc_main l) \<Longrightarrow> transport_step js oa rs us sw socket x l = Inr l' \<Longrightarrow> main_over (lc_main l')"
  using stopped_step [of l js oa rs us sw socket x l'] by (cases "lc_main l") auto

lemma deliver_frame [simp]:
  "wh_service (deliver_shutdown E s) = wh_service s" "wh_transport (deliver_shutdown E s) = wh_transport s"
  "sh_phase (wh_hub (deliver_shutdown E s)) = sh_phase (wh_hub s)"
  "sh_sessions (wh_hub (deliver_shutdown E s)) = sh_sessions (wh_hub s)"
  "sh_next (wh_hub (deliver_shutdown E s)) = sh_next (wh_hub s)"
  "sh_world (wh_hub (deliver_shutdown E s)) = sh_world (wh_hub s)"
  by (simp_all add: deliver_shutdown_def)

lemma deliver_signal:
  "Task_Sessions \<in> sr_receivers (wh_service s) \<Longrightarrow>
    sh_signalled (wh_hub (deliver_shutdown E s)) \<or> hub_over (sh_phase (wh_hub s))"
  "sh_signalled (wh_hub s) \<Longrightarrow> sh_signalled (wh_hub (deliver_shutdown E s))"
  by (cases "sh_phase (wh_hub s)"; simp add: deliver_shutdown_def hub_spawned_def)+

lemma deliver_over [simp]: "task_over t (deliver_shutdown E s) = task_over t s"
  by (cases t) simp_all

lemma service_over [simp]: "task_over t (s\<lparr>wh_service := r\<rparr>) = task_over t s"
  by (cases t) simp_all

text \<open>Only the service moves its own record; the two machines can only get nearer to their ends.\<close>

lemma stop_inv_machines:
  assumes "stop_inv tasks s" and "wh_service t = wh_service s"
    and "\<And>k. task_over k s \<Longrightarrow> task_over k t"
    and "sh_signalled (wh_hub s) \<or> hub_over (sh_phase (wh_hub s)) \<Longrightarrow>
      sh_signalled (wh_hub t) \<or> hub_over (sh_phase (wh_hub t))"
  shows "stop_inv tasks t"
  using assms(1) assms(3,4) unfolding stop_inv_def assms(2) by blast

lemma hub_signal_step:
  "sh_signalled h \<Longrightarrow> hub_step env cfg x h = Inr k \<Longrightarrow> sh_signalled k"
  by (cases x) (auto simp: hub_accept_def hub_hello_def hub_message_def Let_def
      split: if_splits option.splits sum.splits prod.splits loop_outcome.splits)

lemma task_over_transport_sees [simp]:
  "wh_transport s = map_option (transport_sees r) (wh_transport t) \<Longrightarrow> task_over Task_Transport s = task_over Task_Transport t"
  by (cases "wh_transport t") (simp_all add: transport_sees_def)

lemma stop_inv_step_machines:
  assumes "stop_inv tasks s" and "whole_step tasks E x s = Inr t" and "\<And>y. x \<noteq> Wh_Service y"
  shows "stop_inv tasks t"
proof (rule stop_inv_machines [OF assms(1)])
  show "wh_service t = wh_service s"
    using assms(2,3) by (cases x) (auto simp: Let_def split: if_splits option.splits sum.splits)
  show "task_over k t" if "task_over k s" for k
  proof (cases x)
    case (Wh_Start before started after w now)
    then show ?thesis using assms(2) that
      by (cases k) (auto simp: Let_def hub_sees_def split: if_splits)
  next
    case (Wh_Transport y)
    then show ?thesis using assms(2) that
      by (cases k) (auto simp: hub_sees_def split: if_splits option.splits sum.splits dest: main_over_step)
  next
    case (Wh_Hub y)
    then obtain h where h: "hub_step (en_session E) (en_cfg E) y (wh_hub s) = Inr h"
        "t = s\<lparr>wh_hub := h, wh_transport := map_option (transport_sees (sw_registry (sh_world h))) (wh_transport s)\<rparr>"
      using assms(2) by (auto split: if_splits sum.splits)
    show ?thesis using that hub_over_step [OF _ h(1)]
      by (cases k) (auto simp: h(2) transport_sees_def split: option.splits)
  qed (use assms(3) in simp)
  show "sh_signalled (wh_hub t) \<or> hub_over (sh_phase (wh_hub t))"
    if "sh_signalled (wh_hub s) \<or> hub_over (sh_phase (wh_hub s))"
  proof (cases x)
    case (Wh_Hub y)
    then obtain h where h: "hub_step (en_session E) (en_cfg E) y (wh_hub s) = Inr h" "wh_hub t = h"
      using assms(2) by (auto split: if_splits sum.splits)
    then show ?thesis using that hub_signal_step [OF _ h(1)] hub_over_step [OF _ h(1)] by blast
  qed (use assms(2,3) that in \<open>auto simp: Let_def hub_sees_def split: if_splits option.splits sum.splits\<close>)
qed

lemma stop_inv_send:
  assumes "stop_inv tasks s"
  shows "stop_inv tasks (deliver_shutdown E (s\<lparr>wh_service := shutdown_send (wh_service s)\<rparr>))"
proof -
  let ?s = "s\<lparr>wh_service := shutdown_send (wh_service s)\<rparr>"
  have "sh_signalled (wh_hub (deliver_shutdown E ?s)) \<or> hub_over (sh_phase (wh_hub s))"
    if "Task_Sessions \<in> sr_told (wh_service s) \<union> sr_receivers (wh_service s)"
  proof (cases "Task_Sessions \<in> sr_receivers (wh_service s)")
    case True
    then show ?thesis using deliver_signal(1) [of ?s E] by (simp add: shutdown_send_def)
  next
    case False
    then have "sh_signalled (wh_hub s) \<or> hub_over (sh_phase (wh_hub s))"
      using that assms by (auto simp: stop_inv_def)
    then show ?thesis using deliver_signal(2) [of ?s E] by auto
  qed
  then show ?thesis using assms unfolding stop_inv_def by (simp add: shutdown_send_def)
qed

lemma stop_inv_subscribe:
  assumes "good_tasks tasks" and "stop_inv tasks s" and "sr_phase (wh_service s) = Spawning (t # ts)"
  shows "stop_inv tasks (s\<lparr>wh_service := (wh_service s)\<lparr>sr_receivers := insert t (sr_receivers (wh_service s)),
    sr_phase := (if ts = [] then Serving else Spawning ts)\<rparr>\<rparr>)"
proof -
  have ok: "phase_ok tasks (Spawning (t # ts))" using assms(2,3) by (simp add: stop_inv_def)
  note n = spawn_step [OF assms(1) ok] and m = main_not_spawned [OF assms(1) ok]
  have "Task_Main \<notin> sr_told (wh_service s)"
    using assms(2,3) m by (auto simp: stop_inv_def)
  moreover have "(if ts = [] then Serving else Spawning ts) \<noteq> Joining_Tasks"
      "(if ts = [] then Serving else Spawning ts) \<noteq> Ended (Inr ())" by simp_all
  ultimately show ?thesis
    using assms(2) n unfolding stop_inv_def assms(3) by (auto simp del: spawned.simps phase_ok.simps)
qed

lemma stop_inv_end_task:
  assumes "stop_inv tasks s" and "task_over t s"
  shows "stop_inv tasks (s\<lparr>wh_service := (wh_service s)\<lparr>sr_receivers := sr_receivers (wh_service s) - {t}\<rparr>\<rparr>)"
  using assms unfolding stop_inv_def by auto

lemma stop_inv_join:
  assumes "stop_inv tasks s" and "sr_phase (wh_service s) = Serving" and "Task_Main \<in> sr_told (wh_service s) \<or>
      sr_receivers (wh_service s) \<subseteq> sr_told (wh_service s)"
  shows "stop_inv tasks (s\<lparr>wh_service := (wh_service s)\<lparr>sr_phase := Joining_Tasks\<rparr>\<rparr>)"
  using assms unfolding stop_inv_def by auto

lemma stop_inv_joined:
  assumes "stop_inv tasks s" and "sr_phase (wh_service s) = Joining_Tasks" and "sr_receivers (wh_service s) \<subseteq> {Task_Main}"
  shows "stop_inv tasks (s\<lparr>wh_service := (wh_service s)\<lparr>sr_phase := Ended (Inr ()), sr_receivers := {}\<rparr>\<rparr>)"
  using assms unfolding stop_inv_def by auto

lemma deliver_commute:
  "deliver_shutdown E (s\<lparr>wh_service := r\<rparr>)
    = (deliver_shutdown E (s\<lparr>wh_service := q\<rparr>))\<lparr>wh_service := r\<rparr>" if "sr_receivers q = sr_receivers r"
  by (simp add: deliver_shutdown_def hub_spawned_def that)

lemma stop_inv_step_service:
  assumes "good_tasks tasks" and "stop_inv tasks s" and "whole_step tasks E (Wh_Service x) s = Inr t"
  shows "stop_inv tasks t"
proof -
  let ?r = "wh_service s"
  let ?sent = "deliver_shutdown E (s\<lparr>wh_service := shutdown_send ?r\<rparr>)"
  have sent: "stop_inv tasks ?sent" by (rule stop_inv_send [OF assms(2)])
  obtain r where may: "may_happen x s" and r: "service_step tasks x ?r = Inr r"
    and t: "t = (if sends_shutdown x then deliver_shutdown E (s\<lparr>wh_service := r\<rparr>) else s\<lparr>wh_service := r\<rparr>)"
    using assms(3) by (auto simp: Let_def split: if_splits sum.splits)
  have join: "stop_inv tasks t" if "x = Ev_Ctrl_C \<or> x = Ev_Heard"
  proof -
    have r': "sr_phase ?r = Serving" "r = (shutdown_send ?r)\<lparr>sr_phase := Joining_Tasks\<rparr>" "sends_shutdown x"
      using r that by (auto split: if_splits)
    have "t = ?sent\<lparr>wh_service := (wh_service ?sent)\<lparr>sr_phase := Joining_Tasks\<rparr>\<rparr>"
      using r' deliver_commute [of "shutdown_send ?r" r E s] by (simp add: t)
    moreover have "stop_inv tasks (?sent\<lparr>wh_service := (wh_service ?sent)\<lparr>sr_phase := Joining_Tasks\<rparr>\<rparr>)"
      by (rule stop_inv_join [OF sent]) (use r'(1) in \<open>simp_all add: shutdown_send_def\<close>)
    ultimately show ?thesis by simp
  qed
  show ?thesis
  proof (cases x)
    case Ev_Run
    then show ?thesis using assms(2) r unfolding stop_inv_def t by (auto split: if_splits)
  next
    case (Ev_Bound result)
    then show ?thesis using assms(1,2) r unfolding stop_inv_def t good_tasks_def
      by (auto split: if_splits sum.splits)
  next
    case Ev_Subscribe
    then obtain k ks where k: "sr_phase ?r = Spawning (k # ks)" using r by (auto split: run_phase.splits list.splits)
    have "t = s\<lparr>wh_service := ?r\<lparr>sr_receivers := insert k (sr_receivers ?r),
        sr_phase := (if ks = [] then Serving else Spawning ks)\<rparr>\<rparr>"
      using r k Ev_Subscribe by (auto simp: t)
    then show ?thesis using stop_inv_subscribe [OF assms(1,2) k] by simp
  next
    case Ev_Stop
    then show ?thesis using r sent by (simp add: t)
  next
    case (Ev_Task_End k)
    then have "task_over k s" "t = s\<lparr>wh_service := ?r\<lparr>sr_receivers := sr_receivers ?r - {k}\<rparr>\<rparr>"
      using r may by (auto simp: t split: if_splits)
    then show ?thesis using stop_inv_end_task [OF assms(2)] by simp
  next
    case Ev_Joined
    then show ?thesis using stop_inv_joined [OF assms(2)] r by (auto simp: t split: if_splits)
  qed (use join in simp_all)
qed

lemma stop_inv_step:
  assumes "good_tasks tasks" and "stop_inv tasks s" and "whole_step tasks E x s = Inr t"
  shows "stop_inv tasks t"
  using stop_inv_step_service [OF assms(1,2)] stop_inv_step_machines [OF assms(2,3)] assms(3)
  by (cases x) blast+

lemma stop_inv_new: "stop_inv tasks (whole_new w)"
  by (simp add: stop_inv_def whole_new_def service_run_new_def)

definition whole_ok :: "service_task list \<Rightarrow> ('tx, 'wr, 'w, 'o, 'r, 'sock) whole_server \<Rightarrow> bool" where
  "whole_ok tasks s \<longleftrightarrow> good_tasks tasks \<and> whole_inv s \<and> stop_inv tasks s"

interpretation whole_stop: guarded_machine "whole_step tasks E" "whole_ok tasks" for tasks E
  by unfold_locales (auto simp: whole_ok_def intro: whole_step_inv stop_inv_step)

lemma whole_new_ok:
  "reg_inv (sw_registry w) \<Longrightarrow> world_ids w = [] \<Longrightarrow> whole_ok (service_tasks uid sv) (whole_new w)"
  by (simp add: whole_ok_def service_tasks_good whole_new_inv stop_inv_new)

section \<open>Who gets the audio\<close>

lemma recipients_transport_sees [simp]: "recipients (lc_pipeline (transport_sees r l)) = recipients (lc_pipeline l)"
  by (simp add: transport_sees_def)

lemma start_recipients:
  "recipients (lc_pipeline (transport_run_start loopback cfg sockets before started after r w now)) = {}"
  by (simp add: transport_run_start_def transport_start_def recipients_def Let_def split: sum.split prod.split)

definition in_hand :: "('tx, 'wr, 'w, 'o, 'r, 'sock) whole_server \<Rightarrow> uuid set" where
  "in_hand s = (case wh_transport s of None \<Rightarrow> {} | Some l \<Rightarrow> recipients (lc_pipeline l))"

lemma whole_step_in_hand:
  assumes "whole_inv s" and "whole_step tasks E x s = Inr t"
  shows "in_hand t \<subseteq> in_hand s \<union> reg_ids (wh_registry s)"
proof (cases x)
  case (Wh_Service y)
  then have "wh_transport t = wh_transport s"
    using assms(2) by (auto simp: Let_def split: if_splits sum.splits)
  then show ?thesis by (simp add: in_hand_def)
next
  case (Wh_Start before started after w now)
  then have "in_hand t = {}"
    using assms(2) by (auto simp: Let_def in_hand_def start_recipients split: if_splits)
  then show ?thesis by simp
next
  case (Wh_Transport y)
  then obtain l l' where l: "wh_transport s = Some l" "transport_may y s" "wh_transport t = Some l'"
      "transport_step (env_json (en_session E)) (en_opus E) (en_resampler E) (en_udp_send E)
        (en_stream_write E) (tp_socket (en_sockets E)) y l = Inr l'"
    using assms(2) by (auto split: if_splits option.splits sum.splits)
  have "y \<noteq> Tl_Work (Ev_Session z)" for z using l(2) by auto
  from transport_step_ids [OF this l(4)] show ?thesis
    using assms(1) l(1,3) by (simp add: in_hand_def whole_inv_def)
next
  case (Wh_Hub y)
  then have "in_hand t = in_hand s"
    using assms(2) by (auto simp: in_hand_def split: if_splits sum.splits option.split)
  then show ?thesis by simp
qed

text \<open>The ids that were in the registry at some point of a run.\<close>

definition ever_registered ::
  "service_task list \<Rightarrow> ('wr, 'w, 'o, 'r, 'sock, 'lsn, 'l) server_env \<Rightarrow> ('tx, 'wr, 'w) whole_event list
   \<Rightarrow> ('tx, 'wr, 'w, 'o, 'r, 'sock) whole_server \<Rightarrow> uuid set" where
  "ever_registered tasks E evs s = {i. \<exists>xs ys m. evs = xs @ ys \<and> run_ops (whole_step tasks E) xs s = Inr m
     \<and> i \<in> reg_ids (wh_registry m)}"

lemma ever_registered_append: "ever_registered tasks E xs s \<subseteq> ever_registered tasks E (xs @ ys) s"
  by (force simp: ever_registered_def)

lemma in_hand_registered:
  "whole_inv s \<Longrightarrow> in_hand s = {} \<Longrightarrow> run_ops (whole_step tasks E) evs s = Inr t \<Longrightarrow>
    in_hand t \<subseteq> ever_registered tasks E evs s"
proof (induction evs arbitrary: t rule: rev_induct)
  case (snoc x evs)
  obtain m where m: "run_ops (whole_step tasks E) evs s = Inr m" "whole_step tasks E x m = Inr t"
    using snoc.prems(3) by (auto simp: run_ops_append split: sum.splits)
  have "in_hand t \<subseteq> in_hand m \<union> reg_ids (wh_registry m)"
    by (rule whole_step_in_hand [OF whole.run_ops_inv [OF snoc.prems(1) m(1)] m(2)])
  moreover have "reg_ids (wh_registry m) \<subseteq> ever_registered tasks E (evs @ [x]) s"
    using m(1) unfolding ever_registered_def by blast
  moreover have "in_hand m \<subseteq> ever_registered tasks E (evs @ [x]) s"
    using snoc.IH [OF snoc.prems(1,2) m(1)] ever_registered_append by blast
  ultimately show ?case by blast
qed simp

section \<open>How a stop can end\<close>

abbreviation env_transport_step ::
  "('wr, 'w, 'o, 'r, 'sock, 'lsn, 'l) server_env \<Rightarrow> ('tx, 'wr) transport_event
   \<Rightarrow> ('tx, 'wr, 'w, 'o, 'r) transport_run \<Rightarrow> unit + ('tx, 'wr, 'w, 'o, 'r) transport_run" where
  "env_transport_step E \<equiv> transport_step (env_json (en_session E)) (en_opus E) (en_resampler E)
     (en_udp_send E) (en_stream_write E) (tp_socket (en_sockets E))"

definition stop_events :: "('tx, 'wr) transport_event set" where
  "stop_events = {Tl_Shutdown, Tl_Joined} \<union> range (Tl_Work \<circ> Ev_Worker)"

lemma joining_returns:
  assumes "lc_main l = Main_Joining"
  shows "\<exists>evs l'. run_ops (env_transport_step E) evs l = Inr l' \<and> set evs \<subseteq> stop_events - {Tl_Shutdown} \<and> main_over (lc_main l')"
proof (cases "lc_worker_on l")
  case False
  then show ?thesis using assms
    by (intro exI [of _ "[Tl_Joined]"]) (simp add: stop_events_def)
next
  case True
  obtain evs k where e: "run_ops (env_transport_step E) evs l = Inr k" "set evs \<subseteq> range (Tl_Work \<circ> Ev_Worker)"
      "bp_jobs (lc_pipeline k) = []" "lc_main k = Main_Joining"
    using worker_drains [OF refl True assms, of "env_json (en_session E)" "en_opus E" "en_resampler E"
        "en_udp_send E" "en_stream_write E" "tp_socket (en_sockets E)"] by blast
  have "run_ops (env_transport_step E) (evs @ [Tl_Joined]) l
      = Inr (k\<lparr>lc_main := Main_Returned (Inr ()), lc_worker_on := False\<rparr>)"
    using e(3,4) by (simp add: run_ops_append e(1))
  then show ?thesis
    using e(2) by (intro exI [of _ "evs @ [Tl_Joined]"]) (auto simp: stop_events_def)
qed

lemma transport_can_return:
  "\<exists>evs l'. run_ops (env_transport_step E) evs l = Inr l' \<and> set evs \<subseteq> stop_events
     \<and> (lc_main l \<noteq> Main_Running \<longrightarrow> Tl_Shutdown \<notin> set evs) \<and> main_over (lc_main l')"
proof (cases "lc_main l")
  case Main_Running
  obtain evs l' where "run_ops (env_transport_step E) evs (leave_loop l) = Inr l'"
      "set evs \<subseteq> stop_events - {Tl_Shutdown}" "main_over (lc_main l')"
    using joining_returns [of "leave_loop l" E] by (auto simp: leave_loop_def)
  then show ?thesis
    using Main_Running by (intro exI [of _ "Tl_Shutdown # evs"] exI [of _ l']) (auto simp: stop_events_def)
next
  case Main_Joining
  then show ?thesis using joining_returns [OF Main_Joining, of E] by blast
next
  case (Main_Returned res)
  then show ?thesis by (intro exI [of _ "[]"]) simp
qed

lemma lift_transport:
  "run_ops (env_transport_step E) evs l = Inr l' \<Longrightarrow> wh_transport s = Some l \<Longrightarrow> set evs \<subseteq> stop_events \<Longrightarrow>
    (Tl_Shutdown \<in> set evs \<Longrightarrow> Task_Transport \<in> sr_told (wh_service s)) \<Longrightarrow>
    \<exists>t. run_ops (whole_step tasks E) (map Wh_Transport evs) s = Inr t \<and> wh_transport t = Some l'
      \<and> wh_service t = wh_service s \<and> sh_phase (wh_hub t) = sh_phase (wh_hub s)
      \<and> sh_signalled (wh_hub t) = sh_signalled (wh_hub s) \<and> sh_sessions (wh_hub t) = sh_sessions (wh_hub s)"
proof (induction evs arbitrary: l s)
  case (Cons x evs)
  obtain m where m: "env_transport_step E x l = Inr m" "run_ops (env_transport_step E) evs m = Inr l'"
    using Cons.prems(1) by (auto split: sum.splits)
  have may: "transport_may x s" using Cons.prems(3,4) by (auto simp: stop_events_def)
  let ?s = "s\<lparr>wh_transport := Some m, wh_hub := hub_sees (bp_registry (lc_pipeline m)) (wh_hub s)\<rparr>"
  have "whole_step tasks E (Wh_Transport x) s = Inr ?s" using Cons.prems(2) may m(1) by simp
  moreover obtain t where "run_ops (whole_step tasks E) (map Wh_Transport evs) ?s = Inr t"
      "wh_transport t = Some l'" "wh_service t = wh_service s" "sh_phase (wh_hub t) = sh_phase (wh_hub s)"
      "sh_signalled (wh_hub t) = sh_signalled (wh_hub s)" "sh_sessions (wh_hub t) = sh_sessions (wh_hub s)"
    using Cons.IH [OF m(2), of ?s] Cons.prems(3,4) by (auto simp: hub_sees_def)
  ultimately show ?case by (intro exI [of _ t]) simp
qed simp

lemma hub_can_end:
  assumes "sh_phase (wh_hub s) \<noteq> Hub_Starting" and "sh_signalled (wh_hub s) \<or> hub_over (sh_phase (wh_hub s))"
  shows "\<exists>evs t. run_ops (whole_step tasks E) (map Wh_Hub evs) s = Inr t \<and> set evs \<subseteq> {Hub_Stop}
    \<and> hub_over (sh_phase (wh_hub t)) \<and> wh_service t = wh_service s \<and> sh_sessions (wh_hub t) = sh_sessions (wh_hub s)
    \<and> task_over Task_Transport t = task_over Task_Transport s"
proof (cases "sh_phase (wh_hub s)")
  case Hub_Starting
  then show ?thesis using assms(1) by simp
next
  case Hub_Accepting
  then show ?thesis using assms(2)
    by (intro exI [of _ "[Hub_Stop]"])
      (auto simp: hub_spawned_def transport_sees_def split: option.split)
next
  case (Hub_Ended res)
  then show ?thesis by (intro exI [of _ "[]"] exI [of _ s]) simp
qed

lemma tasks_can_end:
  assumes "distinct ts" and "set ts \<subseteq> sr_receivers (wh_service s) - {Task_Main}" and "\<forall>t \<in> set ts. task_over t s"
  shows "run_ops (whole_step tasks E) (map (Wh_Service \<circ> Ev_Task_End) ts) s
    = Inr (s\<lparr>wh_service := (wh_service s)\<lparr>sr_receivers := sr_receivers (wh_service s) - set ts\<rparr>\<rparr>)"
  using assms
proof (induction ts arbitrary: s)
  case (Cons t ts)
  let ?s = "s\<lparr>wh_service := (wh_service s)\<lparr>sr_receivers := sr_receivers (wh_service s) - {t}\<rparr>\<rparr>"
  have "whole_step tasks E (Wh_Service (Ev_Task_End t)) s = Inr ?s" using Cons.prems by simp
  moreover have "run_ops (whole_step tasks E) (map (Wh_Service \<circ> Ev_Task_End) ts) ?s
      = Inr (?s\<lparr>wh_service := (wh_service ?s)\<lparr>sr_receivers := sr_receivers (wh_service ?s) - set ts\<rparr>\<rparr>)"
    using Cons.prems by (intro Cons.IH) auto
  moreover have "sr_receivers (wh_service s) - {t} - set ts = sr_receivers (wh_service s) - set (t # ts)" by auto
  ultimately show ?case by (simp add: comp_def del: whole_step.simps)
qed simp

text \<open>What may happen while the server ends: no event is an input from outside.\<close>

definition closing_events :: "('tx, 'wr, 'w) whole_event set" where
  "closing_events = Wh_Transport ` stop_events \<union> {Wh_Hub Hub_Stop, Wh_Service Ev_Heard, Wh_Service Ev_Joined}
     \<union> range (Wh_Service \<circ> Ev_Task_End)"

lemma run_ops_compose: "run_ops f xs s = Inr t \<Longrightarrow> run_ops f ys t = Inr u \<Longrightarrow> run_ops f (xs @ ys) s = Inr u"
  by (simp add: run_ops_append)

lemma joining_ends:
  assumes "whole_ok tasks s" and "sr_phase (wh_service s) = Joining_Tasks" and "wh_transport s = Some l"
    and "sh_phase (wh_hub s) \<noteq> Hub_Starting"
  shows "\<exists>evs t. run_ops (whole_step tasks E) evs s = Inr t \<and> set evs \<subseteq> closing_events
    \<and> sr_phase (wh_service t) = Ended (Inr ()) \<and> sh_sessions (wh_hub t) = sh_sessions (wh_hub s)"
proof -
  have tasks: "Task_Transport \<in> spawned tasks Joining_Tasks" "Task_Sessions \<in> spawned tasks Joining_Tasks"
    using assms(1) by (simp_all add: whole_ok_def good_tasks_def)
  have told: "t \<in> sr_told (wh_service s) \<or> task_over t s" if "t \<in> {Task_Transport, Task_Sessions}" for t
    using assms(1,2) tasks that unfolding whole_ok_def stop_inv_def by auto
  obtain evs l' where l: "run_ops (env_transport_step E) evs l = Inr l'" "set evs \<subseteq> stop_events"
      "lc_main l \<noteq> Main_Running \<longrightarrow> Tl_Shutdown \<notin> set evs" "main_over (lc_main l')"
    using transport_can_return [of E l] by blast
  have "Task_Transport \<in> sr_told (wh_service s)" if "Tl_Shutdown \<in> set evs"
    using told [of Task_Transport] that l(3) assms(3) by (cases "lc_main l") auto
  then obtain m where m: "run_ops (whole_step tasks E) (map Wh_Transport evs) s = Inr m" "wh_transport m = Some l'"
      "wh_service m = wh_service s" "sh_phase (wh_hub m) = sh_phase (wh_hub s)"
      "sh_signalled (wh_hub m) = sh_signalled (wh_hub s)" "sh_sessions (wh_hub m) = sh_sessions (wh_hub s)"
    using lift_transport [OF l(1) assms(3) l(2), of tasks] by blast
  have "sh_signalled (wh_hub m) \<or> hub_over (sh_phase (wh_hub m))"
    using told [of Task_Sessions] assms(1) m(4,5) by (auto simp: whole_ok_def stop_inv_def)
  then obtain hevs n where n: "run_ops (whole_step tasks E) (map Wh_Hub hevs) m = Inr n" "set hevs \<subseteq> {Hub_Stop}"
      "hub_over (sh_phase (wh_hub n))" "wh_service n = wh_service m" "sh_sessions (wh_hub n) = sh_sessions (wh_hub m)"
      "task_over Task_Transport n = task_over Task_Transport m"
    using hub_can_end [of m tasks E] assms(4) m(4) by auto
  have over: "task_over t n" for t using m(2) n(3,6) l(4) by (cases t) simp_all
  obtain ts where ts: "set ts = sr_receivers (wh_service s) - {Task_Main}" "distinct ts"
  proof -
    have "finite (sr_receivers (wh_service s))"
      using assms(1,2) by (auto simp: whole_ok_def stop_inv_def intro: finite_subset)
    then show ?thesis using finite_distinct_list [of "sr_receivers (wh_service s) - {Task_Main}"] that by auto
  qed
  let ?n = "n\<lparr>wh_service := (wh_service n)\<lparr>sr_receivers := sr_receivers (wh_service n) - set ts\<rparr>\<rparr>"
  let ?t = "?n\<lparr>wh_service := (wh_service ?n)\<lparr>sr_phase := Ended (Inr ()), sr_receivers := {}\<rparr>\<rparr>"
  have e: "run_ops (whole_step tasks E) (map (Wh_Service \<circ> Ev_Task_End) ts) n = Inr ?n"
    by (rule tasks_can_end) (use ts over m(3) n(4) in auto)
  have j: "whole_step tasks E (Wh_Service Ev_Joined) ?n = Inr ?t"
    using ts m(3) n(4) assms(2) by auto
  let ?evs = "map Wh_Transport evs @ map Wh_Hub hevs @ map (Wh_Service \<circ> Ev_Task_End) ts @ [Wh_Service Ev_Joined]"
  have "run_ops (whole_step tasks E) [Wh_Service Ev_Joined] ?n = Inr ?t"
    unfolding run_ops.simps j sum.case ..
  from run_ops_compose [OF m(1) run_ops_compose [OF n(1) run_ops_compose [OF e this]]]
  have "run_ops (whole_step tasks E) ?evs s = Inr ?t" .
  moreover have "set ?evs \<subseteq> closing_events" using l(2) n(2) by (auto simp: closing_events_def)
  ultimately show ?thesis
    using m(6) n(5) by (intro exI [of _ ?evs] exI [of _ ?t] conjI) simp_all
qed

lemma serving_ends:
  assumes "whole_ok tasks s" and "sr_phase (wh_service s) = Serving" and "Task_Main \<in> sr_told (wh_service s)"
    and "wh_transport s \<noteq> None" and "sh_phase (wh_hub s) \<noteq> Hub_Starting"
  shows "\<exists>closing t. run_ops (whole_step tasks E) closing s = Inr t \<and> set closing \<subseteq> closing_events
    \<and> sr_phase (wh_service t) = Ended (Inr ()) \<and> sh_sessions (wh_hub t) = sh_sessions (wh_hub s)"
proof -
  let ?m = "deliver_shutdown E (s\<lparr>wh_service := (shutdown_send (wh_service s))\<lparr>sr_phase := Joining_Tasks\<rparr>\<rparr>)"
  obtain l where l: "wh_transport s = Some l" using assms(4) by blast
  have m: "whole_step tasks E (Wh_Service Ev_Heard) s = Inr ?m" using assms(2,3) by simp
  then have "whole_ok tasks ?m" using whole_stop.step_inv [OF assms(1)] by blast
  from joining_ends [OF this, of l E] obtain closing t
    where "run_ops (whole_step tasks E) closing ?m = Inr t" "set closing \<subseteq> closing_events"
      "sr_phase (wh_service t) = Ended (Inr ())" "sh_sessions (wh_hub t) = sh_sessions (wh_hub s)"
    using l assms(5) by (auto simp del: whole_step.simps)
  then show ?thesis
    using m by (intro exI [of _ "Wh_Service Ev_Heard # closing"] exI [of _ t])
      (simp add: closing_events_def del: whole_step.simps)
qed

section \<open>Properties\<close>

text \<open>
  C3: the whole server. From the start of the service on an empty registry, however the service, the
  accept loop, the sessions, the capture, the encode worker, the dispatch and the watchdog interleave:
  the one registry satisfies its invariant and holds at most four clients, each of a session that is
  open or that failed; the transport works on that registry and dispatches its frames in the order in
  which they were made. Its sequence counter stands, modulo \<open>2 ^ 32\<close>, at the count of the numbers the
  packets of all jobs needed, and until that count passes \<open>2 ^ 32\<close> the numbers of the frames made for
  any client strictly increase. And every frame it ever dispatched is addressed to an id that was
  registered at some earlier point of the run.
\<close>
theorem whole_server_invariant:
  assumes "reg_inv (sw_registry w)" and "world_ids w = []"
    and "run_ops (whole_step (service_tasks uid sv) E) evs (whole_new w) = Inr s"
  shows "reg_inv (wh_registry s) \<and> length (world_ids (sh_world (wh_hub s))) \<le> MAX_CLIENTS
    \<and> set (world_ids (sh_world (wh_hub s))) \<subseteq> se_id ` ran (sh_sessions (wh_hub s)) \<union> sh_failed (wh_hub s)
    \<and> (case wh_transport s of None \<Rightarrow> True
       | Some l \<Rightarrow> bp_registry (lc_pipeline l) = wh_registry s
           \<and> bp_history (lc_pipeline l) = bp_dispatched (lc_pipeline l) @ concat (bp_results (lc_pipeline l))
           \<and> ew_sequence (bp_worker (lc_pipeline l)) = of_nat (bp_numbers (lc_pipeline l))
           \<and> (bp_numbers (lc_pipeline l) \<le> 2 ^ 32 \<longrightarrow>
                (\<forall>i. sorted_wrt (<) (numbers_of i (bp_history (lc_pipeline l)))))
           \<and> (\<forall>x \<in> set (bp_dispatched (lc_pipeline l)). \<exists>xs ys m. evs = xs @ ys
               \<and> run_ops (whole_step (service_tasks uid sv) E) xs (whole_new w) = Inr m
               \<and> wire_id x \<in> set (world_ids (sh_world (wh_hub m)))))"
proof -
  note new = whole_new_inv [OF assms(1,2)]
  have inv: "whole_inv s" by (rule whole.run_ops_inv [OF new assms(3)])
  have hub: "reg_inv (wh_registry s)" "length (world_ids (sh_world (wh_hub s))) \<le> MAX_CLIENTS"
      "set (world_ids (sh_world (wh_hub s))) \<subseteq> se_id ` ran (sh_sessions (wh_hub s)) \<union> sh_failed (wh_hub s)"
    using inv by (auto simp: whole_inv_def hub_inv_def open_ids_def world_ids_def reg_inv_def clients_ok_def)
  have "in_hand s \<subseteq> ever_registered (service_tasks uid sv) E evs (whole_new w)"
    by (rule in_hand_registered [OF new _ assms(3)]) (simp add: in_hand_def whole_new_def)
  moreover have "wire_id x \<in> in_hand s" if "wh_transport s = Some l" "x \<in> set (bp_history (lc_pipeline l))" for l x
    using that by (simp add: in_hand_def recipients_def)
  ultimately have reg: "\<exists>xs ys m. evs = xs @ ys \<and> run_ops (whole_step (service_tasks uid sv) E) xs (whole_new w) = Inr m
      \<and> wire_id x \<in> set (world_ids (sh_world (wh_hub m)))"
    if "wh_transport s = Some l" "x \<in> set (bp_history (lc_pipeline l))" for l x
    using that unfolding ever_registered_def world_ids_reg by blast
  have pipe: "bp_registry (lc_pipeline l) = wh_registry s"
      "bp_history (lc_pipeline l) = bp_dispatched (lc_pipeline l) @ concat (bp_results (lc_pipeline l))"
      "ew_sequence (bp_worker (lc_pipeline l)) = of_nat (bp_numbers (lc_pipeline l))"
      "bp_numbers (lc_pipeline l) \<le> 2 ^ 32 \<longrightarrow> (\<forall>i. sorted_wrt (<) (numbers_of i (bp_history (lc_pipeline l))))"
    if "wh_transport s = Some l" for l
    using inv that unfolding whole_inv_def transport_inv_def pipeline_inv_def numbered_from_0 by auto
  show ?thesis
  proof (cases "wh_transport s")
    case None
    then show ?thesis using hub by simp
  next
    case (Some l)
    then have "set (bp_dispatched (lc_pipeline l)) \<subseteq> set (bp_history (lc_pipeline l))"
      using pipe(2) by simp
    then show ?thesis
      unfolding Some option.case
      by (intro conjI ballI hub pipe [OF Some] reg [OF Some]) auto
  qed
qed

text \<open>
  C20: a stop that the service hears ends the server. From every reachable state in which the service
  serves, its session server listens and its transport has begun, and in which a stop was sent, there
  is a way to the end that needs nothing from outside: no client, no capture, no network. The encode
  worker finishes its jobs, the loop of the transport and the accept loop return, the tasks are
  joined, and \<open>run_until_shutdown\<close> returns \<open>Ok\<close>. The open sessions need not end for that: all of them can
  still be there.
\<close>
theorem whole_stop_completes:
  assumes "reg_inv (sw_registry w)" and "world_ids w = []"
    and "run_ops (whole_step (service_tasks uid sv) E) evs (whole_new w) = Inr s"
    and "sr_phase (wh_service s) = Serving" and "Task_Main \<in> sr_told (wh_service s)"
    and "wh_transport s \<noteq> None" and "sh_phase (wh_hub s) \<noteq> Hub_Starting"
  shows "\<exists>closing t. run_ops (whole_step (service_tasks uid sv) E) closing s = Inr t
    \<and> set closing \<subseteq> closing_events \<and> sr_phase (wh_service t) = Ended (Inr ())
    \<and> sh_sessions (wh_hub t) = sh_sessions (wh_hub s)"
proof -
  have "whole_ok (service_tasks uid sv) s"
    by (rule whole_stop.run_ops_inv [OF whole_new_ok [OF assms(1,2)] assms(3)])
  from serving_ends [OF this assms(4-7)] show ?thesis .
qed

lemma sent_nothing_refl: "sent_nothing l l"
  by (simp add: sent_nothing_def)

lemma sent_nothing_trans: "sent_nothing l k \<Longrightarrow> sent_nothing k m \<Longrightarrow> sent_nothing l m"
  by (simp add: sent_nothing_def)

lemma over_step:
  assumes "wh_transport s = Some l" and "main_over (lc_main l)" and "hub_over (sh_phase (wh_hub s))"
    and "whole_step tasks E x s = Inr t"
  shows "\<exists>k. wh_transport t = Some k \<and> main_over (lc_main k) \<and> hub_over (sh_phase (wh_hub t))
    \<and> sent_nothing l k \<and> no_new_connections (wh_hub s) (wh_hub t)"
proof (cases x)
  case (Wh_Service y)
  then have "wh_transport t = wh_transport s" "sh_phase (wh_hub t) = sh_phase (wh_hub s)"
      "no_new_connections (wh_hub s) (wh_hub t)"
    using assms(4) by (auto simp: Let_def no_new_connections_def deliver_shutdown_def split: if_splits sum.splits)
  then show ?thesis using assms(1-3) by (simp add: sent_nothing_refl)
next
  case (Wh_Start before started after w now)
  then show ?thesis using assms(1,4) by (simp split: if_splits)
next
  case (Wh_Transport y)
  then obtain k where k: "env_transport_step E y l = Inr k"
      "t = s\<lparr>wh_transport := Some k, wh_hub := hub_sees (bp_registry (lc_pipeline k)) (wh_hub s)\<rparr>"
    using assms(1,4) by (auto split: if_splits sum.splits)
  have "lc_main l \<noteq> Main_Running" using assms(2) by auto
  from stopped_step [OF this k(1)] show ?thesis
    using main_over_step [OF assms(2) k(1)] assms(3)
    by (simp add: k(2)) (simp add: hub_sees_def no_new_connections_def)
next
  case (Wh_Hub y)
  then obtain h where h: "hub_step (en_session E) (en_cfg E) y (wh_hub s) = Inr h"
      "t = s\<lparr>wh_hub := h, wh_transport := map_option (transport_sees (sw_registry (sh_world h))) (wh_transport s)\<rparr>"
    using assms(4) by (auto split: if_splits sum.splits)
  obtain res where "sh_phase (wh_hub s) = Hub_Ended res" using assms(3) by (cases "sh_phase (wh_hub s)") auto
  from ended_step [OF this h(1)] show ?thesis
    using hub_over_step [OF assms(3) h(1)] assms(1,2)
    by (simp add: h(2)) (simp add: transport_sees_def sent_nothing_def)
qed

lemma over_run:
  "wh_transport s = Some l \<Longrightarrow> main_over (lc_main l) \<Longrightarrow> hub_over (sh_phase (wh_hub s)) \<Longrightarrow>
    run_ops (whole_step tasks E) evs s = Inr t \<Longrightarrow>
    \<exists>k. wh_transport t = Some k \<and> sent_nothing l k \<and> no_new_connections (wh_hub s) (wh_hub t)"
proof (induction evs arbitrary: s l)
  case Nil
  then show ?case by (simp add: sent_nothing_refl no_new_connections_refl)
next
  case (Cons x evs)
  obtain m where m: "whole_step tasks E x s = Inr m" "run_ops (whole_step tasks E) evs m = Inr t"
    using Cons.prems(4) by (auto simp del: whole_step.simps split: sum.splits)
  from over_step [OF Cons.prems(1-3) m(1)] obtain k where k: "wh_transport m = Some k" "main_over (lc_main k)"
      "hub_over (sh_phase (wh_hub m))" "sent_nothing l k" "no_new_connections (wh_hub s) (wh_hub m)" by blast
  from Cons.IH [OF k(1-3) m(2)] show ?case
    using sent_nothing_trans [OF k(4)] no_new_connections_trans [OF k(5)] by blast
qed

text \<open>
  C21: an ended server is silent. Once \<open>run_until_shutdown\<close> has returned \<open>Ok\<close>, whatever the sessions that
  outlive it and the task that accepts USB streams still do, no audio is sent any more and no
  connection is accepted.
\<close>
theorem ended_server_silent:
  assumes "reg_inv (sw_registry w)" and "world_ids w = []"
    and "run_ops (whole_step (service_tasks uid sv) E) evs (whole_new w) = Inr s"
    and "sr_phase (wh_service s) = Ended (Inr ())"
    and "run_ops (whole_step (service_tasks uid sv) E) later s = Inr t"
  shows "\<exists>l k. wh_transport s = Some l \<and> wh_transport t = Some k \<and> sent_nothing l k
    \<and> no_new_connections (wh_hub s) (wh_hub t)"
proof -
  have ok: "whole_ok (service_tasks uid sv) s"
    by (rule whole_stop.run_ops_inv [OF whole_new_ok [OF assms(1,2)] assms(3)])
  have "task_over Task_Transport s" "task_over Task_Sessions s"
    using ok assms(4) by (auto simp: whole_ok_def stop_inv_def good_tasks_def)
  then obtain l where l: "wh_transport s = Some l" "main_over (lc_main l)" "hub_over (sh_phase (wh_hub s))"
    by (auto split: option.splits)
  from over_run [OF l assms(5)] l(1) show ?thesis by blast
qed

section \<open>Concrete runs\<close>

definition sample_server_env :: "(nat, nat, unit, unit, nat, nat, nat) server_env" where
  "sample_server_env =
     \<lparr>en_session = sample_env, en_cfg = sample_config\<lparr>audio_source := Synthetic\<rparr>,
      en_loopback = (\<lambda>_. Inl ''none''), en_sockets = \<lparr>tp_socket = 0, tp_tcp_listener = None\<rparr>,
      en_opus = sample_opus, en_resampler = sample_resampler, en_udp_send = (\<lambda>_. sample_udp_send ()),
      en_stream_write = sample_stream_write\<rparr>"

definition usb_service :: "(nat, nat) lan_audio_service" where
  "usb_service =
     \<lparr>sv_cfg = usb_config, sv_metrics = metrics_default, sv_adb_reverse_manager = [],
      sv_active_audio_mode = Balanced, sv_data_plane_router = router_from_config usb_config,
      sv_reverse_channel = None\<rparr>"

abbreviation sample_whole_step ::
  "(nat, nat, nat) whole_event \<Rightarrow> (nat, nat, nat, unit, unit, nat) whole_server
   \<Rightarrow> unit + (nat, nat, nat, unit, unit, nat) whole_server" where
  "sample_whole_step \<equiv> whole_step (service_tasks 0 usb_service) sample_server_env"

definition sample_start :: "(nat, nat, nat) whole_event list" where
  "sample_start = map Wh_Service [Ev_Run, Ev_Bound (Inr ()), Ev_Subscribe, Ev_Subscribe, Ev_Subscribe, Ev_Subscribe]
     @ [Wh_Start (Cap_Created, None) (Inr ()) (Cap_Started, None, audio_format_default) 0 0,
        Wh_Hub (Hub_Bound (Inr ())), Wh_Hub (Hub_Accept sample_peer), Wh_Service Ev_Stop]"

lemma idle_world_ok: "reg_inv (sw_registry idle_world)" "world_ids idle_world = []"
  using reg_new_inv by (simp_all add: idle_world_def world_ids_def registry_new_def)

lemma sample_tasks: "service_tasks uid usb_service = [Task_Transport, Task_Sessions, Task_Metrics, Task_Main]"
  by (simp add: service_tasks_def usb_service_def usb_config_def)

lemma sample_start_run:
  "\<exists>s. run_ops sample_whole_step sample_start (whole_new idle_world) = Inr s \<and> sr_phase (wh_service s) = Serving
    \<and> Task_Main \<in> sr_told (wh_service s) \<and> wh_transport s \<noteq> None \<and> sh_phase (wh_hub s) = Hub_Accepting"
  by (simp add: sample_tasks sample_start_def whole_new_def service_run_new_def session_hub_new_def
      shutdown_send_def deliver_shutdown_def hub_spawned_def hub_sees_def hub_accept_def Let_def)

theorem whole_server_invariant_witness:
  "\<exists>s l. run_ops sample_whole_step sample_start (whole_new idle_world) = Inr s
    \<and> wh_transport s = Some l \<and> bp_registry (lc_pipeline l) = wh_registry s"
proof -
  obtain s l where s: "run_ops sample_whole_step sample_start (whole_new idle_world) = Inr s" "wh_transport s = Some l"
    using sample_start_run by blast
  from whole_server_invariant [OF idle_world_ok s(1)] s show ?thesis by simp
qed

theorem whole_stop_completes_witness:
  "\<exists>s closing t. run_ops sample_whole_step sample_start (whole_new idle_world) = Inr s
    \<and> run_ops sample_whole_step closing s = Inr t \<and> sr_phase (wh_service t) = Ended (Inr ())"
proof -
  obtain s where s: "run_ops sample_whole_step sample_start (whole_new idle_world) = Inr s"
      "sr_phase (wh_service s) = Serving" "Task_Main \<in> sr_told (wh_service s)" "wh_transport s \<noteq> None"
      "sh_phase (wh_hub s) \<noteq> Hub_Starting"
    using sample_start_run by force
  from whole_stop_completes [OF idle_world_ok s] s(1) show ?thesis by blast
qed

theorem ended_server_silent_witness:
  "\<exists>evs s t. run_ops sample_whole_step evs (whole_new idle_world) = Inr s \<and> sr_phase (wh_service s) = Ended (Inr ())
    \<and> run_ops sample_whole_step [Wh_Service Ev_Stop] s = Inr t \<and> sh_next (wh_hub t) = sh_next (wh_hub s)"
proof -
  obtain s where s: "run_ops sample_whole_step sample_start (whole_new idle_world) = Inr s"
      "sr_phase (wh_service s) = Serving" "Task_Main \<in> sr_told (wh_service s)" "wh_transport s \<noteq> None"
      "sh_phase (wh_hub s) \<noteq> Hub_Starting"
    using sample_start_run by force
  have "whole_ok (service_tasks 0 usb_service) s"
    by (rule whole_stop.run_ops_inv [OF whole_new_ok [OF idle_world_ok] s(1)])
  from serving_ends [OF this s(2-5)] obtain closing t
    where t: "run_ops sample_whole_step closing s = Inr t" "sr_phase (wh_service t) = Ended (Inr ())" by blast
  have r: "run_ops sample_whole_step (sample_start @ closing) (whole_new idle_world) = Inr t"
    by (rule run_ops_compose [OF s(1) t(1)])
  obtain u where u: "run_ops sample_whole_step [Wh_Service Ev_Stop] t = Inr u" by simp
  from ended_server_silent [OF idle_world_ok r t(2) u] r t(2) u show ?thesis
    by (auto simp: no_new_connections_def simp del: run_ops.simps)
qed

end
