(* ===== verification/Tests_Protocol.thy ===== *)
theory Tests_Protocol
  imports Server_Config
begin

text \<open>
  The unit tests of the protocol crate and the domain crate, as the repository has them
  (\<open>crates/lan_audio_protocol/src/lib.rs\<close> and \<open>crates/lan_audio_domain/src/lib.rs\<close>, modules \<open>tests\<close>), run on
  the definitions of this library: a test is the conjunction of its assertions, with the model's
  function for every function the test calls. They tie the model to expectations that its code was
  written against. Tests of what \<open>serde\<close> prints are not here.
\<close>

section \<open>Packets\<close>

definition udp_packet_round_trip :: bool where
  "udp_packet_round_trip \<longleftrightarrow>
     (let packet = \<lparr>p_version = 1, p_flags = 0, p_sequence = 42, p_timestamp_ms = 123456,
            p_sample_rate = 48000, p_channels = 2, p_frames_per_packet = 960, p_payload = [1, 2, 3, 4, 5]\<rparr>;
          encoded = encode_las1 packet
      in decode_las1 encoded = Inr packet)"

definition invalid_magic_should_fail :: bool where
  "invalid_magic_should_fail \<longleftrightarrow>
     (let bytes = [0x42, 0x41, 0x44, 0x21] @ replicate (AUDIO_HEADER_LEN - 4) 0
      in decode_las1 bytes = Inl Las1_InvalidMagic)"

definition udp_v2_header_round_trip :: bool where
  "udp_v2_header_round_trip \<longleftrightarrow>
     (let header = \<lparr>v2_magic = UDP_AUDIO_MAGIC_V2, v2_protocol_version = PROTOCOL_VERSION_V2,
            v2_header_size = of_nat UDP_AUDIO_HEADER_V2_LEN,
            v2_flags = UDP_FLAG_V2_SILENCE OR UDP_FLAG_V2_CONFIG_CHANGED, v2_sequence = 77,
            v2_timestamp_ms = 987654, v2_codec = Udp_Pcm16, v2_channels = 2, v2_sample_rate = 48000,
            v2_frame_duration_ms = 10, v2_payload_size = 32, v2_reserved = 0\<rparr>
      in decode_header_v2 (encode_header_v2 header) = Inr header)"

definition udp_v2_header_codec_and_flag_matrix_round_trip :: bool where
  "udp_v2_header_codec_and_flag_matrix_round_trip \<longleftrightarrow>
     list_all (\<lambda>codec.
       let header = \<lparr>v2_magic = UDP_AUDIO_MAGIC_V2, v2_protocol_version = PROTOCOL_VERSION_V2,
             v2_header_size = of_nat UDP_AUDIO_HEADER_V2_LEN,
             v2_flags = UDP_FLAG_V2_SILENCE OR UDP_FLAG_V2_CONFIG_CHANGED OR UDP_FLAG_V2_DISCONTINUITY,
             v2_sequence = 4294967295, v2_timestamp_ms = 18446744073709551615 - 1, v2_codec = codec,
             v2_channels = 2, v2_sample_rate = 48000, v2_frame_duration_ms = 20,
             v2_payload_size = 65535, v2_reserved = 0\<rparr>
       in decode_header_v2 (encode_header_v2 header) = Inr header)
     [Udp_Pcm16, Udp_F32, Udp_Opus]"

definition udp_v2_packet_round_trip :: bool where
  "udp_v2_packet_round_trip \<longleftrightarrow>
     (let packet = \<lparr>v2_header = \<lparr>v2_magic = UDP_AUDIO_MAGIC_V2, v2_protocol_version = PROTOCOL_VERSION_V2,
              v2_header_size = of_nat UDP_AUDIO_HEADER_V2_LEN, v2_flags = UDP_FLAG_V2_DISCONTINUITY,
              v2_sequence = 1001, v2_timestamp_ms = 100000, v2_codec = Udp_Pcm16, v2_channels = 2,
              v2_sample_rate = 48000, v2_frame_duration_ms = 10, v2_payload_size = 0, v2_reserved = 0\<rparr>,
            v2_payload = [1, 2, 3, 4, 5, 6]\<rparr>
      in case decode_packet_v2 (encode_packet_v2 packet) of
           Inl _ \<Rightarrow> False
         | Inr decoded \<Rightarrow> v2_payload decoded = v2_payload packet \<and> v2_sequence (v2_header decoded) = 1001
             \<and> v2_flags (v2_header decoded) = UDP_FLAG_V2_DISCONTINUITY)"

definition udp_v3_packet_round_trip_unfragmented :: bool where
  "udp_v3_packet_round_trip_unfragmented \<longleftrightarrow>
     (let packet = \<lparr>v3_header = \<lparr>v3_magic = UDP_AUDIO_MAGIC_V3, v3_protocol_version = PROTOCOL_VERSION_V3,
              v3_header_size = of_nat UDP_AUDIO_HEADER_V3_LEN, v3_flags = 0, v3_sequence = 42,
              v3_timestamp_ms = 1700000000, v3_codec = Udp_Pcm24, v3_channels = 2, v3_sample_rate = 48000,
              v3_frame_duration_ms = 5, v3_payload_size = 0, v3_frag_index = 0, v3_total_frags = 1,
              v3_logical_seq = 42\<rparr>,
            v3_payload = replicate 864 0xAA\<rparr>
      in case decode_packet_v3 (encode_packet_v3 packet) of
           Inl _ \<Rightarrow> False
         | Inr decoded \<Rightarrow> v3_payload decoded = v3_payload packet \<and> v3_codec (v3_header decoded) = Udp_Pcm24
             \<and> v3_frag_index (v3_header decoded) = 0 \<and> v3_total_frags (v3_header decoded) = 1
             \<and> v3_logical_seq (v3_header decoded) = 42 \<and> v3_sample_rate (v3_header decoded) = 48000)"

definition udp_v3_packet_round_trip_fragmented :: bool where
  "udp_v3_packet_round_trip_fragmented \<longleftrightarrow>
     (let header_template = \<lparr>v3_magic = UDP_AUDIO_MAGIC_V3, v3_protocol_version = PROTOCOL_VERSION_V3,
            v3_header_size = of_nat UDP_AUDIO_HEADER_V3_LEN, v3_flags = 0, v3_sequence = 0,
            v3_timestamp_ms = 1700000000, v3_codec = Udp_Pcm24, v3_channels = 2, v3_sample_rate = 96000,
            v3_frame_duration_ms = 5, v3_payload_size = 0, v3_frag_index = 0, v3_total_frags = 2,
            v3_logical_seq = 7\<rparr>;
          frag0 = \<lparr>v3_header = header_template\<lparr>v3_sequence := 100, v3_frag_index := 0, v3_total_frags := 2\<rparr>,
            v3_payload = replicate 1440 0x11\<rparr>;
          frag1 = \<lparr>v3_header = header_template\<lparr>v3_sequence := 101, v3_frag_index := 1, v3_total_frags := 2\<rparr>,
            v3_payload = replicate 1440 0x22\<rparr>
      in case (decode_packet_v3 (encode_packet_v3 frag0), decode_packet_v3 (encode_packet_v3 frag1)) of
           (Inr d0, Inr d1) \<Rightarrow> v3_logical_seq (v3_header d0) = v3_logical_seq (v3_header d1)
             \<and> v3_frag_index (v3_header d0) = 0 \<and> v3_frag_index (v3_header d1) = 1
             \<and> v3_sequence (v3_header d0) \<noteq> v3_sequence (v3_header d1)
         | _ \<Rightarrow> False)"

definition udp_v3_rejects_invalid_frag_header :: bool where
  "udp_v3_rejects_invalid_frag_header \<longleftrightarrow>
     (let packet = \<lparr>v3_header = \<lparr>v3_magic = UDP_AUDIO_MAGIC_V3, v3_protocol_version = PROTOCOL_VERSION_V3,
              v3_header_size = of_nat UDP_AUDIO_HEADER_V3_LEN, v3_flags = 0, v3_sequence = 1,
              v3_timestamp_ms = 0, v3_codec = Udp_Pcm24, v3_channels = 2, v3_sample_rate = 96000,
              v3_frame_duration_ms = 5, v3_payload_size = 0, v3_frag_index = 5, v3_total_frags = 2,
              v3_logical_seq = 0\<rparr>,
            v3_payload = []\<rparr>
      in decode_packet_v3 (encode_packet_v3 packet) = Inl V3_InvalidFragHeader)"

definition udp_v3_rejects_v2_protocol_version :: bool where
  "udp_v3_rejects_v2_protocol_version \<longleftrightarrow>
     (let packet = \<lparr>v3_header = \<lparr>v3_magic = UDP_AUDIO_MAGIC_V3, v3_protocol_version = PROTOCOL_VERSION_V2,
              v3_header_size = of_nat UDP_AUDIO_HEADER_V3_LEN, v3_flags = 0, v3_sequence = 1,
              v3_timestamp_ms = 0, v3_codec = Udp_Opus, v3_channels = 2, v3_sample_rate = 48000,
              v3_frame_duration_ms = 10, v3_payload_size = 0, v3_frag_index = 0, v3_total_frags = 1,
              v3_logical_seq = 1\<rparr>,
            v3_payload = []\<rparr>
      in decode_packet_v3 (encode_packet_v3 packet) = Inl V3_UnsupportedVersion)"

definition detect_data_plane_packet_kind_by_magic :: bool where
  "detect_data_plane_packet_kind_by_magic \<longleftrightarrow>
     detect_data_plane_packet_kind ([0x4C, 0x41, 0x53, 0x31] @ replicate 8 0x78) = LegacyLas1Kind
     \<and> detect_data_plane_packet_kind ([0x4C, 0x41, 0x56, 0x32] @ replicate 8 0x78) = V2Lav2Kind
     \<and> detect_data_plane_packet_kind [0x4E, 0x4F, 0x50, 0x45] = UnknownKind"

text \<open>The end of \<open>legacy_las1_and_v2_header_upgrade_handshake_are_distinct\<close>: the datagrams of the two planes.\<close>

definition legacy_and_v2_datagrams_are_distinct :: bool where
  "legacy_and_v2_datagrams_are_distinct \<longleftrightarrow>
     detect_data_plane_packet_kind (encode_las1
       \<lparr>p_version = 1, p_flags = 0, p_sequence = 1, p_timestamp_ms = 1, p_sample_rate = 48000,
        p_channels = 2, p_frames_per_packet = 480, p_payload = [0, 1]\<rparr>)
     \<noteq> detect_data_plane_packet_kind (encode_packet_v2
       \<lparr>v2_header = \<lparr>v2_magic = UDP_AUDIO_MAGIC_V2, v2_protocol_version = PROTOCOL_VERSION_V2,
          v2_header_size = of_nat UDP_AUDIO_HEADER_V2_LEN, v2_flags = UDP_FLAG_V2_CONFIG_CHANGED,
          v2_sequence = 1, v2_timestamp_ms = 1, v2_codec = Udp_Opus, v2_channels = 2,
          v2_sample_rate = 48000, v2_frame_duration_ms = 20, v2_payload_size = 0, v2_reserved = 0\<rparr>,
        v2_payload = [2, 3]\<rparr>)"

section \<open>Mode profiles\<close>

definition audio_mode_profile_has_low_latency_and_high_quality_tradeoffs :: bool where
  "audio_mode_profile_has_low_latency_and_high_quality_tradeoffs \<longleftrightarrow>
     (let low = mode_profile LowLatency; high = mode_profile HighQuality
      in prefer_low_latency_path low \<and> prefer_stable_audio_track high
         \<and> amp_start_buffer_ms low < amp_start_buffer_ms high
         \<and> amp_max_buffer_ms low < amp_max_buffer_ms high
         \<and> amp_start_buffer_ms low = start_buffer_ms (mc_tuning (mode_contract LowLatency)))"

definition mode_profile_boundary_values_match_contracts :: bool where
  "mode_profile_boundary_values_match_contracts \<longleftrightarrow>
     (let low = mode_profile LowLatency; balanced = mode_profile Balanced; high = mode_profile HighQuality
      in amp_start_buffer_ms low = 40 \<and> amp_max_buffer_ms low = 180 \<and> amp_batch_frames low = 1
         \<and> amp_drop_threshold_ms low = 140 \<and> prefer_low_latency_path low \<and> amp_reset_buffer_on_switch low
         \<and> amp_start_buffer_ms balanced = 60 \<and> amp_max_buffer_ms balanced = 300
         \<and> amp_batch_frames balanced = 2 \<and> amp_drop_threshold_ms balanced = 220
         \<and> prefer_stable_audio_track balanced \<and> amp_reset_buffer_on_switch balanced
         \<and> amp_start_buffer_ms high = 140 \<and> amp_max_buffer_ms high = 500 \<and> amp_batch_frames high = 3
         \<and> amp_drop_threshold_ms high = 420 \<and> prefer_stable_audio_track high
         \<and> \<not> amp_reset_buffer_on_switch high)"

definition low_latency_mode_contract_prefers_usb_and_opus :: bool where
  "low_latency_mode_contract_prefers_usb_and_opus \<longleftrightarrow>
     (let contract = mode_contract LowLatency
      in mc_preferred_transport contract = [Usb, Wifi] \<and> mc_preferred_codec contract = Pref_Opus
         \<and> mc_target_buffer_ms contract = \<lparr>bt_min = 30, bt_max = 50\<rparr>
         \<and> mc_promise contract = ''latency first'')"

definition balanced_and_high_quality_contracts_keep_continuity_biases :: bool where
  "balanced_and_high_quality_contracts_keep_continuity_biases \<longleftrightarrow>
     (let balanced = mode_contract Balanced; high = mode_contract HighQuality
      in mc_late_policy balanced = BoundedDrop \<and> mc_recovery_policy balanced = SmoothResync
         \<and> mc_late_policy high = Late_ContinuityFirst
         \<and> mc_recovery_policy high = Recovery_ContinuityFirst
         \<and> mc_target_buffer_ms high = \<lparr>bt_min = 100, bt_max = 150\<rparr>)"

section \<open>The connection state machine and the release gate\<close>

text \<open>A chain of operations that are all unwrapped.\<close>

definition unwraps_to :: "csm_op list \<Rightarrow> (connection_state_machine \<Rightarrow> bool) \<Rightarrow> bool" where
  "unwraps_to ops P = (case run_ops csm_step ops csm_default of Inl _ \<Rightarrow> False | Inr m \<Rightarrow> P m)"

definition state_machine_accepts_happy_path :: bool where
  "state_machine_accepts_happy_path \<longleftrightarrow>
     unwraps_to [Op_Transition Handshaking, Op_Transition Negotiated, Op_Transition Streaming]
       (\<lambda>m. csm_state m = Streaming \<and> csm_failure_code m = None)"

definition invalid_transition_is_rejected :: bool where
  "invalid_transition_is_rejected \<longleftrightarrow>
     csm_transition Streaming csm_default = Inl (Transition_Invalid Disconnected Streaming)"

definition abnormal_exit_requires_explicit_failure_path :: bool where
  "abnormal_exit_requires_explicit_failure_path \<longleftrightarrow>
     unwraps_to [Op_Transition Handshaking, Op_Transition Negotiated, Op_Transition Streaming,
         Op_Fail Recovering HandshakeTimeout]
       (\<lambda>m. csm_state m = Recovering \<and> csm_failure_code m = Some HandshakeTimeout)"

definition force_rollback_reenters_handshaking_and_marks_state :: bool where
  "force_rollback_reenters_handshaking_and_marks_state \<longleftrightarrow>
     unwraps_to [Op_Transition Handshaking, Op_Transition Negotiated, Op_Transition Streaming, Op_ForceRollback]
       (\<lambda>m. csm_state m = Handshaking \<and> csm_rollback_state m = ReconfiguringToLegacyLas1Pcm16
          \<and> (case csm_transition Negotiated m of Inl _ \<Rightarrow> False
             | Inr n \<Rightarrow> csm_rollback_state n = ForcedLegacyLas1Pcm16))"

definition blocked_release_gate_stays_closed :: bool where
  "blocked_release_gate_stays_closed \<longleftrightarrow>
     (let gate = release_gate_blocked
      in release_decision gate = ContinueFixing \<and> blocking_failure_codes gate = [ReleaseGateBlocked]
         \<and> \<not> allows_release gate)"

section \<open>They pass\<close>

lemma packet_tests_pass:
  udp_packet_round_trip invalid_magic_should_fail udp_v2_header_round_trip
  udp_v2_header_codec_and_flag_matrix_round_trip udp_v2_packet_round_trip
  udp_v3_rejects_invalid_frag_header udp_v3_rejects_v2_protocol_version
  detect_data_plane_packet_kind_by_magic legacy_and_v2_datagrams_are_distinct
  by code_simp+

lemma v3_packet_tests_pass:
  udp_v3_packet_round_trip_unfragmented udp_v3_packet_round_trip_fragmented
  by (simp_all add: udp_v3_packet_round_trip_unfragmented_def udp_v3_packet_round_trip_fragmented_def
      Let_def decode_encode_packet_v3 wf_header_v3_def wire_consts)

lemma mode_tests_pass:
  audio_mode_profile_has_low_latency_and_high_quality_tradeoffs mode_profile_boundary_values_match_contracts
  low_latency_mode_contract_prefers_usb_and_opus balanced_and_high_quality_contracts_keep_continuity_biases
  by code_simp+

lemma machine_tests_pass:
  state_machine_accepts_happy_path invalid_transition_is_rejected abnormal_exit_requires_explicit_failure_path
  force_rollback_reenters_handshaking_and_marks_state blocked_release_gate_stays_closed
  by code_simp+

text \<open>All tests of the two crates hold of the model.\<close>

theorem protocol_tests_pass:
  "list_all id [udp_packet_round_trip, invalid_magic_should_fail, udp_v2_header_round_trip,
     udp_v2_header_codec_and_flag_matrix_round_trip, udp_v2_packet_round_trip,
     udp_v3_packet_round_trip_unfragmented, udp_v3_packet_round_trip_fragmented,
     udp_v3_rejects_invalid_frag_header, udp_v3_rejects_v2_protocol_version,
     detect_data_plane_packet_kind_by_magic, legacy_and_v2_datagrams_are_distinct,
     audio_mode_profile_has_low_latency_and_high_quality_tradeoffs, mode_profile_boundary_values_match_contracts,
     low_latency_mode_contract_prefers_usb_and_opus, balanced_and_high_quality_contracts_keep_continuity_biases,
     state_machine_accepts_happy_path, invalid_transition_is_rejected,
     abnormal_exit_requires_explicit_failure_path, force_rollback_reenters_handshaking_and_marks_state,
     blocked_release_gate_stays_closed]"
  by (simp add: packet_tests_pass v3_packet_tests_pass mode_tests_pass machine_tests_pass)

end
