(* ===== verification/Tests_Server.thy ===== *)
theory Tests_Server
  imports Session_Server Discovery Usb_Transport Desktop_Config
begin

text \<open>
  Unit tests of the server crate and of the desktop, evaluated on the model: \<open>config.rs\<close>,
  \<open>data_plane.rs\<close>, \<open>session.rs\<close>, \<open>metrics.rs\<close>, \<open>usb_transport.rs\<close>, \<open>discovery.rs\<close> and the desktop's
  \<open>lib.rs\<close> and \<open>update_checker.rs\<close>. A definition has the name of its test and is the conjunction of what
  the test asserts; an \<open>unwrap\<close> or \<open>expect\<close> is the requirement that the result is there. A test that
  goes through serde\_json or semver has that library as an argument.
\<close>

section \<open>Configuration\<close>

definition succeeds :: "'e + 'a \<Rightarrow> ('a \<Rightarrow> bool) \<Rightarrow> bool" where
  "succeeds r P = (case r of Inl _ \<Rightarrow> False | Inr x \<Rightarrow> P x)"

lemma succeeds_simps [simp, code]: "succeeds (Inl e) P = False" "succeeds (Inr x) P = P x"
  by (simp_all add: succeeds_def)

text \<open>\<open>ServerConfig::default()\<close> without the environment variables that name the host.\<close>

abbreviation test_cfg :: "int server_config" where
  "test_cfg \<equiv> server_config_default (\<lambda>_. None) 440"

abbreviation test_apply_args :: "string list \<Rightarrow> (int server_config \<Rightarrow> bool) \<Rightarrow> bool" where
  "test_apply_args args \<equiv> succeeds (apply_args (\<lambda>_. None) args test_cfg)"

definition parse_audio_source_kind :: bool where
  "parse_audio_source_kind \<longleftrightarrow> audio_source_parse ''synthetic'' = Inr Synthetic
     \<and> audio_source_parse ''windows_loopback'' = Inr WindowsLoopback
     \<and> isl (audio_source_parse ''unknown'')"

definition apply_args_capture_dump_flags :: bool where
  "apply_args_capture_dump_flags =
     test_apply_args [''--capture-dump-wav'', ''--capture-dump-seconds'', ''9'',
         ''--capture-dump-dir'', ''tmp_out'']
       (\<lambda>cfg. capture_debug_dump_wav cfg \<and> capture_debug_dump_seconds cfg = 9
          \<and> capture_debug_dump_dir cfg = ''tmp_out'')"

definition parse_data_plane_format :: bool where
  "parse_data_plane_format \<longleftrightarrow> data_plane_format_parse ''legacy_las1'' = Inr LegacyLas1
     \<and> data_plane_format_parse ''v2_header'' = Inr V2Header \<and> isl (data_plane_format_parse ''unknown'')"

definition apply_args_enables_loopback_v2_gray_only_with_explicit_flag :: bool where
  "apply_args_enables_loopback_v2_gray_only_with_explicit_flag =
     test_apply_args [''--allow-loopback-v2-header-gray''] allow_loopback_v2_header_gray"

definition parse_codec_selection :: bool where
  "parse_codec_selection \<longleftrightarrow> codec_selection_parse ''pcm16'' = Inr Sel_Pcm16
     \<and> codec_selection_parse ''opus'' = Inr Sel_Opus \<and> isl (codec_selection_parse ''bad'')
     \<and> as_protocol_preference Sel_Opus = Pref_Opus"

definition effective_codec_requires_v2_header :: bool where
  "effective_codec_requires_v2_header \<longleftrightarrow>
     (let cfg = test_cfg\<lparr>cfg_codec_selection := Sel_Opus\<rparr>;
          legacy = cfg\<lparr>cfg_data_plane_format := LegacyLas1\<rparr>;
          v2 = legacy\<lparr>cfg_data_plane_format := V2Header, audio_source := Synthetic\<rparr>
      in effective_codec_selection legacy = Sel_Pcm16 \<and> effective_codec_selection v2 = Sel_Opus)"

definition loopback_v2_header_is_recommended_without_gray_flag :: bool where
  "loopback_v2_header_is_recommended_without_gray_flag \<longleftrightarrow>
     (let cfg = test_cfg\<lparr>cfg_data_plane_format := V2Header, audio_source := WindowsLoopback\<rparr>
      in selected_data_plane_format cfg = V2Header
         \<and> selected_data_plane_format (cfg\<lparr>allow_loopback_v2_header_gray := True\<rparr>) = V2Header)"

definition apply_args_parses_usb_transport_mode :: bool where
  "apply_args_parses_usb_transport_mode =
     test_apply_args [''--transport'', ''usb'', ''--adb-serial'', ''device-123'']
       (\<lambda>cfg. cfg_transport_mode cfg = Mode_Usb ''device-123'')"

definition rollback_path_remains_forceable_via_cli_contract :: bool where
  "rollback_path_remains_forceable_via_cli_contract =
     test_apply_args [''--audio-source'', ''windows_loopback'', ''--data-plane'', ''legacy_las1'',
         ''--codec'', ''pcm16'']
       (\<lambda>cfg. selected_data_plane_format cfg = LegacyLas1 \<and> effective_codec_selection cfg = Sel_Pcm16)"

definition select_data_plane_keeps_v2_for_synthetic_and_loopback :: bool where
  "select_data_plane_keeps_v2_for_synthetic_and_loopback \<longleftrightarrow>
     select_data_plane_format V2Header Synthetic False = V2Header
     \<and> select_data_plane_format V2Header WindowsLoopback False = V2Header"

definition select_data_plane_keeps_loopback_v2_even_with_legacy_gray_flag :: bool where
  "select_data_plane_keeps_loopback_v2_even_with_legacy_gray_flag \<longleftrightarrow>
     select_data_plane_format V2Header WindowsLoopback True = V2Header"

section \<open>Router and negotiation\<close>

abbreviation test_router :: "int server_config \<Rightarrow> (nat, nat) data_plane_router" where
  "test_router \<equiv> router_from_config"

definition router_selects_correct_plane_from_config :: bool where
  "router_selects_correct_plane_from_config \<longleftrightarrow>
     (let legacy_cfg = test_cfg\<lparr>cfg_data_plane_format := LegacyLas1\<rparr>;
          wifi_v2_cfg = test_cfg\<lparr>cfg_data_plane_format := V2Header, cfg_transport_mode := Mode_WiFi\<rparr>;
          usb_v2_cfg = test_cfg\<lparr>cfg_data_plane_format := V2Header, cfg_transport_mode := Mode_Usb ''device-123''\<rparr>
      in active_path (test_router legacy_cfg) = Path_LegacyLas1
         \<and> active_path (test_router wifi_v2_cfg) = Path_V2Header
         \<and> active_path (test_router usb_v2_cfg) = Path_UsbDirect)"

definition force_rollback_switches_to_legacy :: bool where
  "force_rollback_switches_to_legacy \<longleftrightarrow>
     (let cfg = test_cfg\<lparr>cfg_data_plane_format := V2Header, cfg_codec_selection := Sel_Opus\<rparr>;
          router = test_router cfg; rolled = router_force_rollback router
      in active_path router = Path_V2Header \<and> active_path rolled = Path_LegacyLas1
         \<and> active_format rolled = LegacyLas1 \<and> active_codec rolled = Sel_Pcm16
         \<and> \<not> active_is_main rolled)"

definition opus_v2_cfg :: "audio_source_kind \<Rightarrow> int server_config" where
  "opus_v2_cfg source = test_cfg\<lparr>cfg_data_plane_format := V2Header, cfg_codec_selection := Sel_Opus,
     audio_source := source\<rparr>"

definition negotiate_session_path_forces_legacy_clients_to_safe_pcm_v1 :: bool where
  "negotiate_session_path_forces_legacy_clients_to_safe_pcm_v1 \<longleftrightarrow>
     negotiate_session_path (test_router (opus_v2_cfg Synthetic)) False default_server_capabilities
     = \<lparr>np_data_plane = LegacyLas1, np_codec = Sel_Pcm16\<rparr>"

definition negotiate_session_path_falls_back_without_client_opus_capability :: bool where
  "negotiate_session_path_falls_back_without_client_opus_capability \<longleftrightarrow>
     (let caps = default_server_capabilities\<lparr>supports_opus := False, supports_opus_experimental := False\<rparr>
      in negotiate_session_path (test_router (opus_v2_cfg Synthetic)) True caps
         = \<lparr>np_data_plane = V2Header, np_codec = Sel_Pcm16\<rparr>)"

definition negotiate_session_path_allows_opus_only_when_v2_and_client_supports_it :: bool where
  "negotiate_session_path_allows_opus_only_when_v2_and_client_supports_it \<longleftrightarrow>
     negotiate_session_path (test_router (opus_v2_cfg Synthetic)) True default_server_capabilities
     = \<lparr>np_data_plane = V2Header, np_codec = Sel_Opus\<rparr>"

definition negotiate_session_path_recommends_loopback_v2_by_default :: bool where
  "negotiate_session_path_recommends_loopback_v2_by_default \<longleftrightarrow>
     (let cfg = (opus_v2_cfg WindowsLoopback)\<lparr>allow_loopback_v2_header_gray := False\<rparr>
      in negotiate_session_path (test_router cfg) True default_server_capabilities
         = \<lparr>np_data_plane = V2Header, np_codec = Sel_Opus\<rparr>)"

section \<open>Sessions and registry\<close>

definition parse_session_hello_accepts_legacy_hello :: "json_api \<Rightarrow> string \<Rightarrow> bool" where
  "parse_session_hello_accepts_legacy_hello js json =
     succeeds (parse_session_hello js json) (\<lambda>parsed. case parsed of
         Hello_Legacy client_name udp_port desired_sample_rate channels \<Rightarrow>
           client_name = ''pixel'' \<and> udp_port = 54000 \<and> desired_sample_rate = 48000 \<and> channels = 2
       | Hello_V2 _ \<Rightarrow> False)"

definition test_hello :: "u8 \<Rightarrow> control_message_v2" where
  "test_hello version =
     Msg_Hello \<lparr>hello_protocol_version = version, hello_device_name = ''pixel-8'',
       hello_client_id = ''android-1'', hello_udp_port = 55000, hello_desired_sample_rate = 48000,
       hello_channels = 2, hello_capabilities = default_server_capabilities,
       hello_preferred_audio_mode = Balanced\<rparr>"

definition parse_session_hello_accepts_v2_hello :: "json_api \<Rightarrow> bool" where
  "parse_session_hello_accepts_v2_hello js =
     (case show_v2 js (test_hello PROTOCOL_VERSION_V2) of None \<Rightarrow> False
      | Some json \<Rightarrow> succeeds (parse_session_hello js json) (\<lambda>parsed. case parsed of
            Hello_V2 h \<Rightarrow> hello_udp_port h = 55000 \<and> hello_preferred_audio_mode h = Balanced
              \<and> supports_modes (hello_capabilities h) \<and> supports_native_audio_track (hello_capabilities h)
          | Hello_Legacy _ _ _ _ \<Rightarrow> False))"

definition parse_session_hello_rejects_unsupported_v2_version :: "json_api \<Rightarrow> bool" where
  "parse_session_hello_rejects_unsupported_v2_version js =
     (case show_v2 js (test_hello 99) of None \<Rightarrow> False
      | Some json \<Rightarrow> parse_session_hello js json = Inl (UnsupportedVersion 99))"

text \<open>The operations of a chain are all unwrapped; the states in between are looked at too.\<close>

definition states_along ::
  "csm_op list \<Rightarrow> (connection_state list \<times> connection_state_machine) option" where
  "states_along ops = fold (\<lambda>x acc. case acc of None \<Rightarrow> None
       | Some (states, m) \<Rightarrow> (case csm_step x m of Inl _ \<Rightarrow> None
           | Inr m \<Rightarrow> Some (states @ [csm_state m], m))) ops (Some ([csm_state csm_default], csm_default))"

definition connection_state_machine_tracks_session_lifecycle :: bool where
  "connection_state_machine_tracks_session_lifecycle \<longleftrightarrow>
     (case states_along (map Op_Transition [Handshaking, Negotiated, Streaming, Closed]) of
        None \<Rightarrow> False
      | Some (states, csm) \<Rightarrow> states = [Disconnected, Handshaking, Negotiated, Streaming, Closed]
          \<and> csm_failure_code csm = None)"

definition connection_state_machine_records_failure_code_on_fail :: bool where
  "connection_state_machine_records_failure_code_on_fail \<longleftrightarrow>
     (case states_along [Op_Transition Handshaking, Op_Fail Closed HandshakeTimeout] of
        None \<Rightarrow> False
      | Some (states, csm) \<Rightarrow> last states = Closed \<and> csm_failure_code csm = Some HandshakeTimeout)"

abbreviation test_registry :: "(nat, nat) registry" where
  "test_registry \<equiv> registry_new metrics_default"

definition watermark_slot_round_trips_latest_observation :: bool where
  "watermark_slot_round_trips_latest_observation \<longleftrightarrow>
     (let report = \<lparr>wr_ts_unix_ms = 1700000000500, wr_jitter_buf_ms = 95, wr_ring_buf_ms = 30,
            wr_silence_fill_delta = 2, wr_underrun_delta = 0, wr_jitter_p95_us = 1800\<rparr>;
          (drained, registry) = take_latest_watermark (note_client_watermark report test_registry)
      in fst (take_latest_watermark test_registry) = None
         \<and> (case drained of None \<Rightarrow> False
            | Some d \<Rightarrow> wr_jitter_buf_ms d = 95 \<and> wr_ring_buf_ms d = 30 \<and> wr_silence_fill_delta d = 2
                \<and> wr_jitter_p95_us d = 1800)
         \<and> fst (take_latest_watermark registry) = None)"

definition watermark_slot_uses_last_writer_wins_semantics :: bool where
  "watermark_slot_uses_last_writer_wins_semantics \<longleftrightarrow>
     (let first = \<lparr>wr_ts_unix_ms = 1000, wr_jitter_buf_ms = 50, wr_ring_buf_ms = 20,
            wr_silence_fill_delta = 0, wr_underrun_delta = 0, wr_jitter_p95_us = 1000\<rparr>;
          second = \<lparr>wr_ts_unix_ms = 2000, wr_jitter_buf_ms = 100, wr_ring_buf_ms = 40,
            wr_silence_fill_delta = 1, wr_underrun_delta = 1, wr_jitter_p95_us = 2000\<rparr>
      in case fst (take_latest_watermark
                (note_client_watermark second (note_client_watermark first test_registry))) of
           None \<Rightarrow> False
         | Some drained \<Rightarrow> wr_ts_unix_ms drained = 2000 \<and> wr_jitter_buf_ms drained = 100)"

definition test_handle :: "uuid \<Rightarrow> string \<Rightarrow> (nat, nat) client_handle" where
  "test_handle i name =
     \<lparr>ch_id = i, ch_name = name, ch_client_key = name, ch_control_tx = 0, ch_transport = None,
      ch_prefers_usb_transport = False, ch_data_plane = V2Header, ch_codec = Sel_Opus,
      ch_audio_mode = Balanced, ch_preferred_sample_rate = 48000, ch_pending_first_packet = True,
      ch_pending_mode_sync = False, ch_supports_v2_events = True\<rparr>"

text \<open>The test looks for the names in the text; here the message that is printed is compared.\<close>

definition client_list_json_is_deterministically_ordered_by_id :: "json_api \<Rightarrow> bool" where
  "client_list_json_is_deterministically_ordered_by_id js \<longleftrightarrow>
     (let clients = insert_client (test_handle 1 ''device-a'')
                      (insert_client (test_handle 2 ''device-b'') [])
      in build_client_list_json js clients = show_v2 js (Msg_ClientList
           [\<lparr>cle_id = 1, cle_name = ''device-a'', cle_mode = Balanced\<rparr>,
            \<lparr>cle_id = 2, cle_name = ''device-b'', cle_mode = Balanced\<rparr>]))"

section \<open>Metrics, forwarding, discovery, desktop\<close>

definition metrics_snapshot_changes :: bool where
  "metrics_snapshot_changes \<longleftrightarrow>
     (let s = snapshot (fold (\<lambda>f. f)
        [set_current_audio_source ''synthetic'', set_capture_source_state ''started'',
         set_capture_device_name ''device-id'', set_negotiated_session_path ''v2_header'' ''opus'',
         set_capture_format 48000 2, set_capture_buffer_frames 960, set_capture_level (8 / 10) (2 / 10),
         inc_sessions, inc_packets 100, inc_packets 200, inc_capture_frames_produced,
         inc_capture_read_errors, inc_capture_underruns, inc_capture_start_attempts,
         inc_capture_start_failures, inc_capture_silent_frames, inc_capture_non_silent_frames,
         inc_capture_no_packet_count, set_last_capture_pts_ms 1234,
         note_client_connected ''Pixel 8'' ''192.168.1.10''] metrics_default)
      in ms_active_sessions s = 1 \<and> ms_tx_packets s = 2 \<and> ms_tx_bytes s = 300
         \<and> ms_capture_frames_produced s = 1 \<and> ms_capture_read_errors s = 1 \<and> ms_capture_underruns s = 1
         \<and> ms_capture_start_attempts s = 1 \<and> ms_capture_start_failures s = 1
         \<and> ms_capture_silent_frames s = 1 \<and> ms_capture_non_silent_frames s = 1
         \<and> ms_capture_no_packet_count s = 1 \<and> ms_current_audio_source s = ''synthetic''
         \<and> ms_capture_source_state s = ''started'' \<and> ms_capture_device_name s = ''device-id''
         \<and> ms_negotiated_data_plane s = ''v2_header'' \<and> ms_negotiated_codec s = ''opus''
         \<and> ms_capture_sample_rate s = 48000 \<and> ms_capture_channels s = 2
         \<and> ms_capture_buffer_frames s = 960 \<and> \<bar>ms_capture_last_peak s - 8 / 10\<bar> < 1 / 1000000
         \<and> \<bar>ms_capture_last_rms s - 2 / 10\<bar> < 1 / 1000000 \<and> ms_last_capture_pts_ms s = 1234
         \<and> ms_recent_clients s = [''Pixel 8 (192.168.1.10)''])"

definition parse_adb_devices_filters_offline :: bool where
  "parse_adb_devices_filters_offline \<longleftrightarrow>
     List.map_filter parse_device_line (drop 1 (str_lines
       (''List of devices attached'' @ [CHR 0x0A]
        @ ''5391d451               device usb:1-4 product:foo model:Pixel_8 transport_id:7'' @ [CHR 0x0A]
        @ ''deadbeef               offline usb:1-2 product:bar model:Old transport_id:3'' @ [CHR 0x0A])))
     = [\<lparr>ad_serial = ''5391d451'', ad_model = ''Pixel_8'', ad_transport_id = ''7''\<rparr>]"

definition ipv4_new :: "u8 \<Rightarrow> u8 \<Rightarrow> u8 \<Rightarrow> u8 \<Rightarrow> u32" where
  "ipv4_new a b c d = of_nat (((unat a * 256 + unat b) * 256 + unat c) * 256 + unat d)"

definition directed_broadcast_uses_ip_and_mask :: bool where
  "directed_broadcast_uses_ip_and_mask \<longleftrightarrow>
     directed_broadcast (ipv4_new 192 168 31 44) (ipv4_new 255 255 255 0) = ipv4_new 192 168 31 255
     \<and> directed_broadcast (ipv4_new 10 0 0 18) (ipv4_new 255 255 0 0) = ipv4_new 10 0 255 255"

definition mdns_names_are_stable_and_readable :: bool where
  "mdns_names_are_stable_and_readable \<longleftrightarrow> mdns_instance_name ''Office PC'' = ''LAN Audio @ Office PC''
     \<and> mdns_host_name ''Office PC'' = ''office-pc.local.'' \<and> mdns_host_name '''' = ''lan-audio.local.''"

definition test_snapshot ::
  "service_status \<Rightarrow> data_plane_format \<Rightarrow> data_plane_path \<Rightarrow> bool \<Rightarrow> string \<Rightarrow> unit service_snapshot" where
  "test_snapshot status selected active rollback effective =
     (let cfg = desktop_config_default (server_config_default (\<lambda>_. None) 440)
      in build_service_snapshot cfg (empty_metrics (audio_source_as_str (dsc_audio_source cfg)))
           status Balanced selected active rollback effective)"

definition service_snapshot_marks_forced_rollback_on_legacy_pcm16 :: bool where
  "service_snapshot_marks_forced_rollback_on_legacy_pcm16 \<longleftrightarrow>
     (let s = test_snapshot Svc_Running LegacyLas1 Path_LegacyLas1 False ''pcm16''
      in ss_rollback_state s = ForcedLegacyLas1Pcm16 \<and> ss_data_plane s = Path_LegacyLas1
         \<and> ss_effective_codec s = Pref_Pcm16)"

text \<open>The JSON of the test has one entry per field; here the fields are compared.\<close>

definition service_snapshot_serializes_stable_contract :: bool where
  "service_snapshot_serializes_stable_contract \<longleftrightarrow>
     (let s = test_snapshot Svc_NotStarted V2Header Path_UsbDirect True ''opus''
      in ss_transport s = Wifi \<and> ss_mode s = Balanced \<and> ss_data_plane s = Path_V2Header
         \<and> ss_active_data_plane s = Path_UsbDirect \<and> ss_rollback_available s \<and> ss_codec s = Pref_Opus
         \<and> ss_effective_codec s = Pref_Opus \<and> ss_state s = Disconnected
         \<and> ss_rollback_state s = MainPathActive \<and> ss_metrics s = service_metrics_default
         \<and> ss_last_error s = None)"

definition parse_version_accepts_v_prefix :: "(string \<Rightarrow> 'v option) \<Rightarrow> 'v \<Rightarrow> bool" where
  "parse_version_accepts_v_prefix semver_parse v142 \<longleftrightarrow> parse_version semver_parse ''v1.4.2'' = Some v142"

definition parse_version_rejects_invalid_text :: "(string \<Rightarrow> 'v option) \<Rightarrow> bool" where
  "parse_version_rejects_invalid_text semver_parse \<longleftrightarrow> parse_version semver_parse ''release-next'' = None"

section \<open>They pass\<close>

lemma apply_args_tests_pass:
  apply_args_capture_dump_flags apply_args_enables_loopback_v2_gray_only_with_explicit_flag
  apply_args_parses_usb_transport_mode rollback_path_remains_forceable_via_cli_contract
  by (simp_all add: apply_args_capture_dump_flags_def apply_args_parses_usb_transport_mode_def
      apply_args_enables_loopback_v2_gray_only_with_explicit_flag_def server_config_default_def
      rollback_path_remains_forceable_via_cli_contract_def apply_args_def valued_options_def
      apply_valued_def apply_flag_def Let_def parse_u32_def digit_of_def transport_mode_parse_def
      audio_source_parse_def data_plane_format_parse_def codec_selection_parse_def
      selected_data_plane_format_def select_data_plane_format_def effective_codec_selection_def)

lemma config_tests_pass:
  parse_audio_source_kind parse_data_plane_format parse_codec_selection
  effective_codec_requires_v2_header loopback_v2_header_is_recommended_without_gray_flag
  select_data_plane_keeps_v2_for_synthetic_and_loopback
  select_data_plane_keeps_loopback_v2_even_with_legacy_gray_flag
  by code_simp+

lemma router_tests_pass:
  router_selects_correct_plane_from_config force_rollback_switches_to_legacy
  by code_simp+

lemma negotiation_tests_pass:
  negotiate_session_path_forces_legacy_clients_to_safe_pcm_v1
  negotiate_session_path_falls_back_without_client_opus_capability
  negotiate_session_path_allows_opus_only_when_v2_and_client_supports_it
  negotiate_session_path_recommends_loopback_v2_by_default
  by code_simp+

lemma session_tests_pass:
  connection_state_machine_tracks_session_lifecycle
  connection_state_machine_records_failure_code_on_fail
  by code_simp+

lemma watermark_tests_pass:
  watermark_slot_round_trips_latest_observation watermark_slot_uses_last_writer_wins_semantics
  by (simp_all add: watermark_slot_round_trips_latest_observation_def
      watermark_slot_uses_last_writer_wins_semantics_def take_latest_watermark_def note_client_watermark_def
      registry_new_def Let_def)

lemma client_list_test_passes: "client_list_json_is_deterministically_ordered_by_id js"
  by (simp add: client_list_json_is_deterministically_ordered_by_id_def build_client_list_json_def
      insert_client_def test_handle_def word_le_nat_alt)

lemma metrics_test_passes: metrics_snapshot_changes
  by (simp add: metrics_snapshot_changes_def snapshot_def metrics_default_def set_current_audio_source_def
      set_capture_source_state_def set_capture_device_name_def set_negotiated_session_path_def
      set_capture_format_def set_capture_buffer_frames_def set_capture_level_def inc_sessions_def
      inc_packets_def inc_capture_frames_produced_def inc_capture_read_errors_def inc_capture_underruns_def
      inc_capture_start_attempts_def inc_capture_start_failures_def inc_capture_silent_frames_def
      inc_capture_non_silent_frames_def inc_capture_no_packet_count_def set_last_capture_pts_ms_def
      note_client_connected_def client_label_def str_trim_def is_space_def)

lemma text_tests_pass:
  parse_adb_devices_filters_offline mdns_names_are_stable_and_readable
  by code_simp+

lemma address_test_passes: directed_broadcast_uses_ip_and_mask
  by (simp add: directed_broadcast_uses_ip_and_mask_def directed_broadcast_def ipv4_new_def)

lemma desktop_tests_pass:
  service_snapshot_marks_forced_rollback_on_legacy_pcm16 service_snapshot_serializes_stable_contract
  by (simp_all add: service_snapshot_marks_forced_rollback_on_legacy_pcm16_def
      service_snapshot_serializes_stable_contract_def test_snapshot_def build_service_snapshot_def
      desktop_config_default_def server_config_default_def Let_def)

text \<open>With a serde\_json that reads back what it printed, and a semver that knows its versions.\<close>

lemma hello_tests_pass:
  assumes "show_v2 js (test_hello PROTOCOL_VERSION_V2) = Some good"
    and "parse_v2 js good = Inr (test_hello PROTOCOL_VERSION_V2)"
    and "show_v2 js (test_hello 99) = Some bad" and "parse_v2 js bad = Inr (test_hello 99)"
    and "isl (parse_v2 js legacy)" and "parse_client js legacy = Inr (ClientHello ''pixel'' 54000 48000 2)"
  shows "parse_session_hello_accepts_v2_hello js" "parse_session_hello_rejects_unsupported_v2_version js"
    "parse_session_hello_accepts_legacy_hello js legacy"
proof -
  obtain e where e: "parse_v2 js legacy = Inl e" using assms(5) by (auto simp: isl_def)
  show "parse_session_hello_accepts_v2_hello js" "parse_session_hello_rejects_unsupported_v2_version js"
      "parse_session_hello_accepts_legacy_hello js legacy"
    using assms by (simp_all add: parse_session_hello_accepts_v2_hello_def e
        parse_session_hello_rejects_unsupported_v2_version_def parse_session_hello_accepts_legacy_hello_def
        parse_session_hello_def test_hello_def default_server_capabilities_def PROTOCOL_VERSION_V2_def)
qed

lemma version_tests_pass:
  "semver_parse ''1.4.2'' = Some v \<Longrightarrow> parse_version_accepts_v_prefix semver_parse v"
  "semver_parse ''release-next'' = None \<Longrightarrow> parse_version_rejects_invalid_text semver_parse"
proof -
  have "trim ''v1.4.2'' = ''v1.4.2''" "trim ''release-next'' = ''release-next''" by code_simp+
  then show "semver_parse ''1.4.2'' = Some v \<Longrightarrow> parse_version_accepts_v_prefix semver_parse v"
      "semver_parse ''release-next'' = None \<Longrightarrow> parse_version_rejects_invalid_text semver_parse"
    by (simp_all add: parse_version_accepts_v_prefix_def parse_version_rejects_invalid_text_def parse_version_def)
qed

text \<open>All the tests that need no outside library hold of the model.\<close>

theorem server_tests_pass:
  "list_all id [parse_audio_source_kind, apply_args_capture_dump_flags, parse_data_plane_format,
     apply_args_enables_loopback_v2_gray_only_with_explicit_flag, parse_codec_selection,
     effective_codec_requires_v2_header, loopback_v2_header_is_recommended_without_gray_flag,
     apply_args_parses_usb_transport_mode, rollback_path_remains_forceable_via_cli_contract,
     select_data_plane_keeps_v2_for_synthetic_and_loopback,
     select_data_plane_keeps_loopback_v2_even_with_legacy_gray_flag,
     router_selects_correct_plane_from_config, force_rollback_switches_to_legacy,
     negotiate_session_path_forces_legacy_clients_to_safe_pcm_v1,
     negotiate_session_path_falls_back_without_client_opus_capability,
     negotiate_session_path_allows_opus_only_when_v2_and_client_supports_it,
     negotiate_session_path_recommends_loopback_v2_by_default,
     connection_state_machine_tracks_session_lifecycle,
     connection_state_machine_records_failure_code_on_fail,
     watermark_slot_round_trips_latest_observation, watermark_slot_uses_last_writer_wins_semantics,
     client_list_json_is_deterministically_ordered_by_id js, metrics_snapshot_changes,
     parse_adb_devices_filters_offline, directed_broadcast_uses_ip_and_mask,
     mdns_names_are_stable_and_readable, service_snapshot_marks_forced_rollback_on_legacy_pcm16,
     service_snapshot_serializes_stable_contract]"
  by (simp add: apply_args_tests_pass config_tests_pass router_tests_pass negotiation_tests_pass
      session_tests_pass watermark_tests_pass client_list_test_passes metrics_test_passes
      text_tests_pass address_test_passes desktop_tests_pass)

end
