(* ===== verification/Tests_Audio.thy ===== *)
theory Tests_Audio
  imports Encode_Worker Windows_Loopback Host_Platform
begin

text \<open>
  Unit tests of the audio path of the server crate, evaluated on the model:
  \<open>audio_capture/mod.rs\<close>, \<open>pcm_accumulator.rs\<close>, \<open>watchdog.rs\<close>, \<open>sync_engine.rs\<close>, \<open>adaptive_runtime.rs\<close>,
  \<open>cpu_sampler.rs\<close>, \<open>thread_priority.rs\<close> and \<open>transport.rs\<close>. A definition has the name of its test and is
  the conjunction of what the test asserts. libopus and the resampler are arguments: the tests below
  hold whatever they do. Tests of Opus itself are not here.
\<close>

section \<open>Capture sources\<close>

abbreviation test_format :: audio_format where
  "test_format \<equiv> audio_format_default"

definition synthetic_sine_produces_frames :: "clock \<Rightarrow> clock \<Rightarrow> clock \<Rightarrow> bool" where
  "synthetic_sine_produces_frames c1 c2 c3 \<longleftrightarrow>
     (let (started, s) = synthetic_start c1 (synthetic_sine test_format 440);
          (frame, s) = synthetic_read c2 s;
          (stopped, s) = synthetic_stop c3 s
      in started = Inr () \<and> stopped = Inr ()
         \<and> (case frame of Inl _ \<Rightarrow> False
            | Inr f \<Rightarrow> fr_format f = test_format \<and> length (fr_samples f) = total_samples_per_frame test_format
                \<and> list_ex (\<lambda>v. v \<noteq> 0) (fr_samples f) \<and> \<not> fr_is_silence f))"

definition synthetic_silence_produces_silence :: "clock \<Rightarrow> clock \<Rightarrow> bool" where
  "synthetic_silence_produces_silence c1 c2 \<longleftrightarrow>
     (let (started, s) = synthetic_start c1 (synthetic_silence test_format)
      in started = Inr ()
         \<and> (case fst (synthetic_read c2 s) of Inl _ \<Rightarrow> False
            | Inr f \<Rightarrow> list_all (\<lambda>v. v = 0) (fr_samples f) \<and> fr_is_silence f))"

definition audio_frame_constructor_validates_len :: bool where
  "audio_frame_constructor_validates_len \<longleftrightarrow>
     audio_frame_new 0 test_format [0] = Inl (Cap_InvalidFrameLength (total_samples_per_frame test_format) 1)"

definition trait_object_adapter_works :: "clock \<Rightarrow> clock \<Rightarrow> clock \<Rightarrow> bool" where
  "trait_object_adapter_works c1 c2 c3 \<longleftrightarrow>
     (let (started, s) = synthetic_start c1 (synthetic_sine test_format 220);
          (frame, s) = synthetic_read c2 s
      in started = Inr () \<and> fst (synthetic_stop c3 s) = Inr ()
         \<and> (case frame of Inl _ \<Rightarrow> False
            | Inr f \<Rightarrow> length (fr_samples f) = total_samples_per_frame (syn_format s)))"

definition synthetic_state_transitions :: "clock \<Rightarrow> clock \<Rightarrow> bool" where
  "synthetic_state_transitions c1 c2 \<longleftrightarrow>
     (let source = synthetic_silence test_format;
          (started, running) = synthetic_start c1 source;
          (ended, stopped) = synthetic_stop c2 running
      in syn_state source = Cap_Created \<and> started = Inr () \<and> syn_state running = Cap_Started
         \<and> ended = Inr () \<and> syn_state stopped = Cap_Stopped)"

definition audio_frame_meta_fields_are_preserved :: bool where
  "audio_frame_meta_fields_are_preserved \<longleftrightarrow>
     (case new_with_meta 10 test_format (replicate (total_samples_per_frame test_format) 0) True
             (Some 512) SilentPacket 0 0 of
        Inl _ \<Rightarrow> False
      | Inr frame \<Rightarrow> fr_is_silence frame \<and> fr_source_buffer_frames frame = Some 512)"

definition non_windows_loopback_returns_unsupported :: bool where
  "non_windows_loopback_returns_unsupported \<longleftrightarrow>
     (case other_new_default_output test_format of Inl (Cap_UnsupportedPlatform _) \<Rightarrow> True | _ \<Rightarrow> False)"

section \<open>The accumulator\<close>

text \<open>Pushes, each followed by as many attempts to pop as are listed: did they yield a frame?\<close>

fun popped :: "(acc_op \<times> bool list) list \<Rightarrow> pcm_frame_accumulator \<Rightarrow> bool" where
  "popped [] acc = True"
| "popped ((x, []) # rest) acc = popped rest (acc_push x acc)"
| "popped ((x, e # es) # rest) acc =
     (let (f, acc) = pop_frame (acc_push x acc)
      in (f \<noteq> None) = e \<and> popped ((Push [] False, es) # rest) acc)"

definition split_fixed_frames :: bool where
  "split_fixed_frames \<longleftrightarrow>
     (let format = \<lparr>sample_rate_hz = 48000, af_channels = 2, af_sample_format = SampleF32,
            af_frame_duration_ms = 10\<rparr>;
          frame_len = total_samples_per_frame format
      in popped [(Push (replicate (frame_len * 2) (1 / 10)) False, [True, True, False])] (accumulator_new format))"

definition non_integral_packets_accumulate :: bool where
  "non_integral_packets_accumulate \<longleftrightarrow>
     (let frame_len = total_samples_per_frame test_format
      in popped [(Push (replicate (frame_len div 3) (2 / 10)) False, [False]),
                 (Push (replicate (frame_len div 3) (2 / 10)) False, [False]),
                 (Push (replicate (frame_len - 2 * (frame_len div 3)) (2 / 10)) False, [True])]
           (accumulator_new test_format))"

definition peak_rms_for_silence_and_signal :: bool where
  "peak_rms_for_silence_and_signal \<longleftrightarrow>
     (let (p0, r0) = compute_peak_rms (replicate 16 0); (p1, r1) = compute_peak_rms [1, - 1, 0, 0]
      in p0 = 0 \<and> r0 = 0 \<and> \<bar>p1 - 1\<bar> < 1 / 1000000 \<and> \<bar>r1 - 70710677 / 100000000\<bar> < 1 / 100000)"

definition mixed_silence_and_audio_is_marked_mixed :: bool where
  "mixed_silence_and_audio_is_marked_mixed \<longleftrightarrow>
     (let frame_len = total_samples_per_frame test_format;
          acc = push_samples (replicate (frame_len div 2) (3 / 10)) False
                  (push_silence_samples (frame_len div 2) (accumulator_new test_format))
      in case fst (pop_frame acc) of None \<Rightarrow> False
         | Some frame \<Rightarrow> \<not> ac_is_silence frame \<and> ac_packet_kind frame = MixedPacket)"

section \<open>Watchdog and runtime\<close>

definition signals :: "real \<Rightarrow> pressure_signals" where
  "signals cpu = \<lparr>current_cpu_percent = cpu, consecutive_dropped_frames = 0, encode_queue_depth = 0,
     encode_queue_capacity = 64\<rparr>"

definition predictor_extrapolates_rising_trend :: bool where
  "predictor_extrapolates_rising_trend \<longleftrightarrow>
     (let p = fold (\<lambda>i p. snd (observe_cpu (40 + real i * 2) p)) [0 ..< 10] (predictor_new 3)
      in forecast p > last_sample p)"

definition watchdog_demotes_immediately_under_load :: bool where
  "watchdog_demotes_immediately_under_load \<longleftrightarrow>
     tr_tier (fst (watchdog_tick (signals 75) 500 (watchdog_new watchdog_config_default 3))) \<noteq> Green"

definition watchdog_drops_to_red_on_streak_drops :: bool where
  "watchdog_drops_to_red_on_streak_drops \<longleftrightarrow>
     tr_tier (fst (watchdog_tick ((signals 20)\<lparr>consecutive_dropped_frames := 5\<rparr>) 500
       (watchdog_new watchdog_config_default 3))) = Red"

definition healthy_ticks :: "nat \<Rightarrow> cpu_watchdog \<Rightarrow> cpu_watchdog" where
  "healthy_ticks n w = ((\<lambda>w. snd (watchdog_tick (signals 10) 500 w)) ^^ n) w"

definition watchdog_promotes_only_after_hold_window :: bool where
  "watchdog_promotes_only_after_hold_window \<longleftrightarrow>
     (let w0 = snd (watchdog_tick (signals 95) 500 (watchdog_new watchdog_config_default 3));
          w4 = healthy_ticks 4 w0
      in wd_tier w0 = Red \<and> wd_tier w4 = Red \<and> wd_tier (healthy_ticks 20 (healthy_ticks 2 w4)) = Green)"

definition test_runtime :: host_runtime where
  "test_runtime = \<lparr>hr_sampler = Other_Sampler, hr_runtime = runtime_new watchdog_config_default 3 100 100 500\<rparr>"

definition test_tick :: "u32 \<Rightarrow> host_tick" where
  "test_tick dropped = \<lparr>ht_times = None, ht_now = 0, ht_queue_depth = 0, ht_queue_capacity = 64,
     ht_dropped = dropped, ht_watermark = None\<rparr>"

text \<open>On a host without a CPU sampler.\<close>

definition adaptive_returns_green_with_idle_signals :: bool where
  "adaptive_returns_green_with_idle_signals \<longleftrightarrow>
     (let d = fst (host_runtime_tick (test_tick 0) (snd (host_runtime_tick (test_tick 0) test_runtime)))
      in ad_tier d = Green \<and> \<bar>ad_resample_offset_mhz d\<bar> < 1 / 1000000)"

definition adaptive_demotes_on_drop_streak :: bool where
  "adaptive_demotes_on_drop_streak \<longleftrightarrow> ad_tier (fst (host_runtime_tick (test_tick 5) test_runtime)) = Red"

definition yellow_tier_uses_lower_bitrate :: bool where
  "yellow_tier_uses_lower_bitrate \<longleftrightarrow>
     (let g = tier_profile Green HighQuality; y = tier_profile Yellow HighQuality; r = tier_profile Red HighQuality
      in tp_bitrate_bps g = 128000 \<and> tp_bitrate_bps y \<le> tp_bitrate_bps g
         \<and> tp_bitrate_bps r \<le> tp_bitrate_bps y \<and> tp_force_pcm16_fallback r \<and> \<not> tp_force_pcm16_fallback g)"

text \<open>The second sample; what the operating system answers is an argument.\<close>

definition sample_returns_finite_percent ::
  "(filetime \<times> filetime) option \<Rightarrow> nat \<Rightarrow> (filetime \<times> filetime) option \<Rightarrow> nat \<Rightarrow> host_sampler \<Rightarrow> bool" where
  "sample_returns_finite_percent usage1 now1 usage2 now2 sampler \<longleftrightarrow>
     (case fst (host_sample usage2 now2 (snd (host_sample usage1 now1 sampler))) of
        None \<Rightarrow> True | Some c \<Rightarrow> 0 \<le> smp_percent c \<and> smp_percent c \<le> 100)"

definition task_name_strings_are_stable :: bool where
  "task_name_strings_are_stable \<longleftrightarrow> mmcss_task_as_str ProAudio = ''Pro Audio''
     \<and> mmcss_task_as_str Mmcss_Audio = ''Audio'' \<and> mmcss_task_as_str Games = ''Games''"

section \<open>Sync engine\<close>

definition obs :: "u32 \<Rightarrow> watermark_observation" where
  "obs buffer_ms = \<lparr>wo_jitter_buf_ms = buffer_ms, wo_ring_buf_ms = 0, wo_silence_fill_delta = 0,
     wo_underrun_delta = 0, wo_jitter_p95_us = 1500\<rparr>"

definition pid_dead_zone_returns_zero :: bool where
  "pid_dead_zone_returns_zero \<longleftrightarrow> fst (pid_step 102 1 (pid_new 100)) = 0"

definition pid_clamps_to_max_offset_under_bang_bang :: bool where
  "pid_clamps_to_max_offset_under_bang_bang \<longleftrightarrow>
     \<bar>fst (pid_step 50 1 (pid_new 100)) - MAX_RESAMPLE_OFFSET_MHZ\<bar> < 1 / 1000000"

definition pid_emits_negative_offset_when_buffer_overshoots :: bool where
  "pid_emits_negative_offset_when_buffer_overshoots \<longleftrightarrow> fst (pid_step 130 1 (pid_new 100)) < 0"

definition observe_times :: "nat \<Rightarrow> u32 \<Rightarrow> audio_sync_engine \<Rightarrow> audio_sync_engine" where
  "observe_times n buffer_ms e = ((\<lambda>e. snd (sync_observe (obs buffer_ms) 1 e)) ^^ n) e"

definition engine_keeps_offset_within_limits :: bool where
  "engine_keeps_offset_within_limits \<longleftrightarrow>
     list_all (\<lambda>i. \<bar>sd_resample_offset_mhz (fst (sync_observe (obs 40) 1
         (observe_times i 40 (sync_engine_new 100 50))))\<bar> \<le> MAX_RESAMPLE_OFFSET_MHZ + 1 / 1000000) [0 ..< 20]"

definition engine_eventually_zeroes_offset_when_at_target :: bool where
  "engine_eventually_zeroes_offset_when_at_target \<longleftrightarrow>
     \<bar>sd_resample_offset_mhz (fst (sync_observe (obs 100) 1
         (observe_times 15 100 (sync_engine_new 100 100))))\<bar> < 1 / 2"

definition pid_times :: "nat \<Rightarrow> real \<Rightarrow> resample_pid_controller \<Rightarrow> resample_pid_controller" where
  "pid_times n buffer_ms c = ((\<lambda>c. snd (pid_step buffer_ms 1 c)) ^^ n) c"

definition yellow_mode_freezes_integrator :: bool where
  "yellow_mode_freezes_integrator \<longleftrightarrow>
     (let grown = pid_times 10 85 (pid_new 100); frozen = pid_times 10 85 (set_yellow grown)
      in \<bar>pid_integral frozen - pid_integral grown\<bar> < 1 / 1000000)"

section \<open>They pass\<close>

lemma test_format_sizes [simp]:
  "samples_per_channel_per_frame test_format = 480" "total_samples_per_frame test_format = 960"
  by (simp_all add: total_samples_per_frame_def samples_per_channel_per_frame_def audio_format_default_def)

lemma sine_second_sample:
  assumes "0 < step" and "step < 1 / 2"
  shows "list_ex (\<lambda>v. v \<noteq> 0) (fst (sine_loop (Suc (Suc n)) step (Suc k) 0))"
proof -
  have "0 < sin (2 * pi * step)"
    using assms by (intro sin_gt_zero) (simp_all add: field_simps)
  then show ?thesis using assms by (simp add: Let_def split: prod.splits)
qed

lemma synthetic_read_frame:
  assumes "syn_state s = Cap_Started" and "syn_format s = test_format"
  shows "\<exists>f s'. synthetic_read clk s = (Inr f, s') \<and> syn_format s' = test_format \<and> fr_format f = test_format
    \<and> length (fr_samples f) = 960
    \<and> (case syn_mode s of
         Syn_Silence \<Rightarrow> fr_samples f = replicate 960 0 \<and> fr_is_silence f
       | Syn_Sine hz \<Rightarrow> fr_samples f = fst (sine_loop 480 (hz / 48000) 2 (syn_phase s)) \<and> \<not> fr_is_silence f)"
proof (cases "syn_mode s")
  case Syn_Silence
  then show ?thesis
    using assms by (auto simp: synthetic_read_def new_with_meta_def Let_def split: prod.split)
next
  case (Syn_Sine hz)
  obtain xs ph where x: "sine_loop 480 (hz / 48000) 2 (syn_phase s) = (xs, ph)" by fastforce
  then have "length xs = 960" using length_sine_loop [of 480 "hz / 48000" 2 "syn_phase s"] by simp
  moreover have "unat (sample_rate_hz test_format) = 48000" "unat (af_channels test_format) = 2"
    by (simp_all add: audio_format_default_def)
  ultimately show ?thesis
    using assms x Syn_Sine
    by (auto simp: synthetic_read_def new_with_meta_def Let_def simp del: sine_loop.simps split: prod.split)
qed

lemma capture_tests_pass:
  "synthetic_sine_produces_frames c1 c2 c3" "synthetic_silence_produces_silence c1 c2"
  "trait_object_adapter_works c1 c2 c3" "synthetic_state_transitions c1 c2"
  audio_frame_constructor_validates_len audio_frame_meta_fields_are_preserved
  non_windows_loopback_returns_unsupported
proof -
  let ?run = "\<lambda>s. snd (synthetic_start c1 s)"
  have "list_ex (\<lambda>v. v \<noteq> 0) (fst (sine_loop 480 (440 / 48000) 2 0))"
    using sine_second_sample [of "440 / 48000" 478 1] by (simp add: eval_nat_numeral del: sine_loop.simps)
  then show "synthetic_sine_produces_frames c1 c2 c3"
    using synthetic_read_frame [of "?run (synthetic_sine test_format 440)" c2]
    by (auto simp: synthetic_sine_produces_frames_def synthetic_start_def synthetic_sine_def synthetic_stop_def
        simp del: sine_loop.simps)
  show "synthetic_silence_produces_silence c1 c2"
    using synthetic_read_frame [of "?run (synthetic_silence test_format)" c2]
    by (auto simp: synthetic_silence_produces_silence_def synthetic_start_def synthetic_silence_def list_all_iff)
  show "trait_object_adapter_works c1 c2 c3"
    using synthetic_read_frame [of "?run (synthetic_sine test_format 220)" c2]
    by (auto simp: trait_object_adapter_works_def synthetic_start_def synthetic_sine_def synthetic_stop_def
        simp del: sine_loop.simps)
qed (simp_all add: synthetic_state_transitions_def synthetic_start_def synthetic_silence_def
    synthetic_stop_def audio_frame_constructor_validates_len_def audio_frame_new_def new_with_meta_def
    audio_frame_meta_fields_are_preserved_def non_windows_loopback_returns_unsupported_def
    other_new_default_output_def no_loopback_def)

lemma accumulator_tests_pass:
  split_fixed_frames non_integral_packets_accumulate mixed_silence_and_audio_is_marked_mixed
  peak_rms_for_silence_and_signal
proof -
  show split_fixed_frames non_integral_packets_accumulate
    by (simp_all add: split_fixed_frames_def non_integral_packets_accumulate_def pop_frame_def accumulator_new_def
        push_samples_def total_samples_per_frame_def samples_per_channel_per_frame_def audio_format_default_def
        Let_def split: prod.split)
  show mixed_silence_and_audio_is_marked_mixed
    by (simp add: mixed_silence_and_audio_is_marked_mixed_def pop_frame_def accumulator_new_def
        push_samples_def push_silence_samples_def packet_kind_of_def list_all_iff list_ex_iff Let_def
        split: prod.split)
  have "sqrt (1 / 2) < 70711 / 100000" "70710 / 100000 < sqrt (1 / 2)"
    by (rule real_less_lsqrt real_less_rsqrt; simp add: power2_eq_square)+
  then have "\<bar>sqrt (1 / 2) - 70710677 / 100000000\<bar> < 1 / 100000"
    unfolding abs_less_iff by linarith
  then show peak_rms_for_silence_and_signal
    by (simp add: peak_rms_for_silence_and_signal_def compute_peak_rms_def eval_nat_numeral)
qed

lemma watchdog_tests_pass:
  predictor_extrapolates_rising_trend watchdog_demotes_immediately_under_load
  watchdog_drops_to_red_on_streak_drops
  by (simp_all add: predictor_extrapolates_rising_trend_def watchdog_demotes_immediately_under_load_def
      watchdog_drops_to_red_on_streak_drops_def watchdog_tick_def signals_def is_demotion_def
      watchdog_eval upt_rec word_le_nat_alt)

text \<open>A healthy tick on numbers, one at a time: the streak's unit is the millisecond.\<close>

definition load_state :: "real \<Rightarrow> real \<Rightarrow> real \<Rightarrow> degradation_tier \<Rightarrow> nat \<Rightarrow> cpu_watchdog" where
  "load_state e t l tier k =
     \<lparr>wd_cfg = watchdog_config_default,
      wd_predictor = \<lparr>ewma = e, trend = t, last_sample = l, forecast_horizon_seconds = 3,
        alpha_ewma = 3 / 10, alpha_trend = 3 / 10\<rparr>, wd_tier = tier, wd_healthy_streak = k\<rparr>"

definition tier_of_load :: "real \<Rightarrow> degradation_tier" where
  "tier_of_load f = (if 85 \<le> f then Red else if 60 \<le> f then Yellow else Green)"

definition next_tier :: "degradation_tier \<Rightarrow> degradation_tier \<Rightarrow> nat \<Rightarrow> degradation_tier" where
  "next_tier tier d k = (if tier < d \<or> d < tier \<and> 3000 \<le> k + 500 then d else tier)"

definition next_streak :: "degradation_tier \<Rightarrow> degradation_tier \<Rightarrow> nat \<Rightarrow> nat" where
  "next_streak tier tier' k = (if tier' \<noteq> tier \<or> tier = Green then 0 else k + 500)"

lemma healthy_tick:
  "snd (watchdog_tick (signals 10) 500 (load_state e t l tier k)) =
    (let t' = 7 / 10 * t + 3 / 10 * (10 - l); e' = 7 / 10 * e + 3;
         tier' = next_tier tier (tier_of_load (clamp (e' + t' * 3) 0 100)) k
     in load_state e' t' 10 tier' (next_streak tier tier' k))"
proof -
  have d: "desired_tier (signals 10) (load_state e t l tier k)
      = tier_of_load (clamp (7 / 10 * e + 3 + (7 / 10 * t + 3 / 10 * (10 - l)) * 3) 0 100)"
    by (simp add: desired_tier_def load_state_def observe_cpu_def forecast_def signals_def tier_of_load_def
        compute_desired_tier_def watchdog_config_default_def queue_fill_ratio_def Let_def word_le_nat_alt)
  show ?thesis
    by (rule cpu_watchdog.equality)
      (simp_all only: watchdog_tick_tier watchdog_tick_streak watchdog_tick_cfg watchdog_tick_predictor d,
       simp_all add: load_state_def Let_def next_tier_def next_streak_def watchdog_config_default_def
         observe_cpu_def signals_def)
qed

lemma healthy_ticks_step:
  "healthy_ticks 0 w = w"
  "healthy_ticks (numeral n) w = healthy_ticks (pred_numeral n) (snd (watchdog_tick (signals 10) 500 w))"
  "healthy_ticks (Suc m) w = healthy_ticks m (snd (watchdog_tick (signals 10) 500 w))"
  by (simp_all add: healthy_ticks_def numeral_eq_Suc funpow_Suc_right del: funpow.simps(2))

lemma hold_window_test_passes: watchdog_promotes_only_after_hold_window
proof -
  have w0: "snd (watchdog_tick (signals 95) 500 (watchdog_new watchdog_config_default 3))
      = load_state (57 / 2) (57 / 2) 95 Red 0"
    by (simp add: load_state_def watchdog_tick_def signals_def is_demotion_def watchdog_eval word_le_nat_alt)
  show ?thesis
    unfolding watchdog_promotes_only_after_hold_window_def w0
    by (simp add: healthy_ticks_step healthy_tick Let_def next_tier_def next_streak_def tier_of_load_def
        clamp_def less_degradation_tier_def) (simp add: load_state_def)
qed

lemma runtime_tests_pass:
  adaptive_returns_green_with_idle_signals adaptive_demotes_on_drop_streak yellow_tier_uses_lower_bitrate
  "sample_returns_finite_percent u1 n1 u2 n2 sampler" task_name_strings_are_stable
proof -
  show "sample_returns_finite_percent u1 n1 u2 n2 sampler"
    using host_sample_bounds [of u2 n2 "snd (host_sample u1 n1 sampler)"]
    by (auto simp: sample_returns_finite_percent_def split: option.split) (metis prod.collapse)+
  show adaptive_returns_green_with_idle_signals adaptive_demotes_on_drop_streak
    by (simp_all add: adaptive_returns_green_with_idle_signals_def adaptive_demotes_on_drop_streak_def
        host_runtime_tick_def test_runtime_def test_tick_def cpu_sample_other_def runtime_tick_def runtime_new_def
        watchdog_tick_def is_demotion_def is_promotion_def watchdog_eval sync_engine_new_def Let_def word_le_nat_alt)
qed (simp_all add: yellow_tier_uses_lower_bitrate_def task_name_strings_are_stable_def)

lemma pid_tests_pass:
  pid_dead_zone_returns_zero pid_clamps_to_max_offset_under_bang_bang
  pid_emits_negative_offset_when_buffer_overshoots
  by (simp_all add: pid_dead_zone_returns_zero_def pid_clamps_to_max_offset_under_bang_bang_def
      pid_emits_negative_offset_when_buffer_overshoots_def pid_step_def pid_new_def Let_def clamp_def
      copysign_def sync_consts)

lemma engine_limit_test_passes: engine_keeps_offset_within_limits
proof -
  have "\<bar>sd_resample_offset_mhz (fst (sync_observe o' dt e))\<bar> \<le> MAX_RESAMPLE_OFFSET_MHZ" for o' dt e
    using pid_step_bound by (simp add: sync_observe_def Let_def split: prod.split) (metis fst_conv)
  then have "\<bar>sd_resample_offset_mhz (fst (sync_observe o' dt e))\<bar> \<le> MAX_RESAMPLE_OFFSET_MHZ + 1 / 1000000" for o' dt e
    by (rule order_trans) simp
  then show ?thesis unfolding engine_keeps_offset_within_limits_def list_all_iff by blast
qed

text \<open>An engine that sits at the target sees no innovation, whatever its covariance.\<close>

lemma kalman_at_target:
  "kf_buffer_ms k = m \<Longrightarrow> kf_drift_rate k = 0 \<Longrightarrow>
    kf_buffer_ms (kalman_step dt m k) = m \<and> kf_drift_rate (kalman_step dt m k) = 0"
  by (simp add: kalman_step_def kalman_predict_step_def kalman_measure_def Let_def)

lemma pid_at_target:
  "pid_target_buffer_ms c = m \<Longrightarrow> fst (pid_step m dt c) = 0 \<and> pid_target_buffer_ms (snd (pid_step m dt c)) = m"
  by (simp add: pid_step_def sync_consts)

lemma engine_at_target:
  assumes "kf_buffer_ms (kalman e) = 100" and "kf_drift_rate (kalman e) = 0" and "pid_target_buffer_ms (pid e) = 100"
  shows "sd_resample_offset_mhz (fst (sync_observe (obs 100) dt e)) = 0
    \<and> kf_buffer_ms (kalman (snd (sync_observe (obs 100) dt e))) = 100
    \<and> kf_drift_rate (kalman (snd (sync_observe (obs 100) dt e))) = 0
    \<and> pid_target_buffer_ms (pid (snd (sync_observe (obs 100) dt e))) = 100"
proof -
  let ?dt = "max dt (1 / 20)" and ?k = "set_jitter_p95_us 1500 (kalman e)"
  have b: "total_buffer_ms (obs 100) = 100" "wo_jitter_p95_us (obs 100) = 1500"
    by (simp_all add: total_buffer_ms_def obs_def)
  have k: "kf_buffer_ms (kalman_step ?dt 100 ?k) = 100" "kf_drift_rate (kalman_step ?dt 100 ?k) = 0"
    using kalman_at_target [of ?k 100 ?dt] assms(1,2) by (simp_all add: set_jitter_p95_us_def Let_def)
  obtain x c where p: "pid_step 100 ?dt (pid e) = (x, c)" by fastforce
  with pid_at_target [OF assms(3), of ?dt] have "x = 0" "pid_target_buffer_ms c = 100" by simp_all
  then show ?thesis by (simp add: sync_observe_def Let_def b k kalman_predict_def p)
qed

lemma engine_target_test_passes: engine_eventually_zeroes_offset_when_at_target
proof -
  have "kf_buffer_ms (kalman (observe_times n 100 (sync_engine_new 100 100))) = 100
      \<and> kf_drift_rate (kalman (observe_times n 100 (sync_engine_new 100 100))) = 0
      \<and> pid_target_buffer_ms (pid (observe_times n 100 (sync_engine_new 100 100))) = 100" for n
    using engine_at_target
    by (induction n) (simp_all add: observe_times_def sync_engine_new_def kalman_new_def pid_new_def)
  then show ?thesis
    by (simp add: engine_eventually_zeroes_offset_when_at_target_def engine_at_target)
qed

lemma frozen_integral:
  "integral_frozen c \<Longrightarrow> pid_integral (pid_times n b c) = pid_integral c \<and> integral_frozen (pid_times n b c)"
  by (induction n) (auto simp: pid_times_def pid_step_def Let_def)

lemma freeze_test_passes: yellow_mode_freezes_integrator
proof -
  have "integral_frozen (set_yellow c)" "pid_integral (set_yellow c) = pid_integral c" for c
    by (simp_all add: set_yellow_def)
  then show ?thesis by (simp add: yellow_mode_freezes_integrator_def frozen_integral Let_def)
qed

text \<open>All of them.\<close>

theorem audio_tests_pass:
  "list_all id [synthetic_sine_produces_frames c1 c2 c3, synthetic_silence_produces_silence c1 c2,
     audio_frame_constructor_validates_len, trait_object_adapter_works c1 c2 c3,
     synthetic_state_transitions c1 c2, audio_frame_meta_fields_are_preserved,
     non_windows_loopback_returns_unsupported, split_fixed_frames, non_integral_packets_accumulate,
     peak_rms_for_silence_and_signal, mixed_silence_and_audio_is_marked_mixed,
     predictor_extrapolates_rising_trend, watchdog_demotes_immediately_under_load,
     watchdog_drops_to_red_on_streak_drops, watchdog_promotes_only_after_hold_window,
     adaptive_returns_green_with_idle_signals, adaptive_demotes_on_drop_streak,
     yellow_tier_uses_lower_bitrate, sample_returns_finite_percent u1 n1 u2 n2 sampler,
     task_name_strings_are_stable, pid_dead_zone_returns_zero, pid_clamps_to_max_offset_under_bang_bang,
     pid_emits_negative_offset_when_buffer_overshoots, engine_keeps_offset_within_limits,
     engine_eventually_zeroes_offset_when_at_target, yellow_mode_freezes_integrator]"
  by (simp add: capture_tests_pass accumulator_tests_pass watchdog_tests_pass hold_window_test_passes
      runtime_tests_pass pid_tests_pass engine_limit_test_passes engine_target_test_passes freeze_test_passes)

end
