(* ===== verification/Tests_Transport.thy ===== *)
theory Tests_Transport
  imports Encode_Worker
begin

text \<open>
  Unit tests of \<open>transport.rs\<close>, evaluated on the model: framing, the flags of the v2 header, the
  fragments of PCM24 packets and one job of the encode worker. A definition has the name of its test
  and is the conjunction of what the test asserts. libopus and the resampler are arguments; the tests of
  what Opus makes of the samples are not here.
\<close>

section \<open>Packets\<close>

definition stereo_frame :: "u64 \<Rightarrow> u32 \<Rightarrow> real list \<Rightarrow> bool \<Rightarrow> packet_kind \<Rightarrow> real \<Rightarrow> audio_frame" where
  "stereo_frame pts rate samples silent kind level =
     \<lparr>fr_pts_ms = pts, fr_format = \<lparr>sample_rate_hz = rate, af_channels = 2, af_sample_format = SampleF32,
        af_frame_duration_ms = 10\<rparr>, fr_samples = samples, fr_is_silence = silent,
      fr_source_buffer_frames = None, fr_packet_kind = kind, fr_peak = level, fr_rms = level\<rparr>"

definition encode_passthrough_outputs_fixed_android_pcm_shape :: "'r resampler_api \<Rightarrow> bool" where
  "encode_passthrough_outputs_fixed_android_pcm_shape rs \<longleftrightarrow>
     (let encoded = encode_passthrough rs
            (stereo_frame 123 96000 (replicate (960 * 2) (25 / 100)) False AudioPacket (25 / 100))
      in ef_sample_rate encoded = 48000 \<and> ef_channels encoded = 2 \<and> ef_frames_per_packet encoded = 480
         \<and> ef_codec encoded = Udp_Pcm16 \<and> length (ef_payload encoded) = 1920)"

definition test_packet :: "u32 \<Rightarrow> u64 \<Rightarrow> u32 \<Rightarrow> u16 \<Rightarrow> u8 list \<Rightarrow> udp_audio_packet" where
  "test_packet sequence timestamp rate frames payload =
     \<lparr>p_version = 1, p_flags = 0, p_sequence = sequence, p_timestamp_ms = timestamp, p_sample_rate = rate,
      p_channels = 2, p_frames_per_packet = frames, p_payload = payload\<rparr>"

definition v2_flags_include_config_changed_and_discontinuity_on_mode_change :: bool where
  "v2_flags_include_config_changed_and_discontinuity_on_mode_change \<longleftrightarrow>
     (let flags = v2_flags_for_frame (test_packet 1 1 48000 480 [1, 2, 3, 4]) True False
      in flags AND UDP_FLAG_V2_CONFIG_CHANGED \<noteq> 0 \<and> flags AND UDP_FLAG_V2_DISCONTINUITY \<noteq> 0)"

definition encode_packet_by_data_plane_switches_magic :: bool where
  "encode_packet_by_data_plane_switches_magic \<longleftrightarrow>
     (let packet = test_packet 1 1 48000 480 [1, 2, 3, 4]
      in slice (encode_packet_by_data_plane packet LegacyLas1 0 Udp_Pcm16) 0 4 = [0x4C, 0x41, 0x53, 0x31]
         \<and> slice (encode_packet_by_data_plane packet V2Header 0 Udp_Pcm16) 0 4 = [0x4C, 0x41, 0x56, 0x32])"

definition v2_header_carries_opus_codec :: bool where
  "v2_header_carries_opus_codec \<longleftrightarrow>
     (case decode_packet_v2
             (encode_packet_by_data_plane (test_packet 7 100 48000 480 [1, 2, 3, 4]) V2Header 0 Udp_Opus) of
        Inl _ \<Rightarrow> False | Inr decoded \<Rightarrow> v2_codec (v2_header decoded) = Udp_Opus)"

definition encode_packets_pcm24_fragments_above_mtu :: bool where
  "encode_packets_pcm24_fragments_above_mtu \<longleftrightarrow>
     (let (frags, next_seq) = encode_packets_by_data_plane
            (test_packet 100 12345 96000 480 (replicate 2880 0xAB)) V2Header 0 Udp_Pcm24 100
      in length frags = 3 \<and> next_seq = 103
         \<and> list_all (\<lambda>i. case decode_packet_v3 (frags ! i) of Inl _ \<Rightarrow> False
             | Inr v3 \<Rightarrow> v3_codec (v3_header v3) = Udp_Pcm24 \<and> v3_sample_rate (v3_header v3) = 96000
                 \<and> v3_logical_seq (v3_header v3) = 100 \<and> v3_total_frags (v3_header v3) = 3
                 \<and> v3_frag_index (v3_header v3) = of_nat i \<and> v3_sequence (v3_header v3) = 100 + of_nat i)
             [0, 1, 2])"

definition encode_packets_pcm24_single_frag_at_48k :: bool where
  "encode_packets_pcm24_single_frag_at_48k \<longleftrightarrow>
     (let (frags, next_seq) = encode_packets_by_data_plane
            (test_packet 7 0 48000 144 (replicate 864 0xCD)) V2Header 0 Udp_Pcm24 7
      in length frags = 1 \<and> next_seq = 8)"

definition encode_packets_non_pcm24_returns_single_packet :: bool where
  "encode_packets_non_pcm24_returns_single_packet \<longleftrightarrow>
     (let (frags, next_seq) = encode_packets_by_data_plane
            (test_packet 1 0 48000 480 [1, 2, 3, 4]) V2Header 0 Udp_Opus 1
      in length frags = 1 \<and> slice (frags ! 0) 0 4 = [0x4C, 0x41, 0x56, 0x32] \<and> next_seq = 2)"

section \<open>The encode worker\<close>

definition test_broadcast_client :: "uuid \<Rightarrow> string \<Rightarrow> u16 \<Rightarrow> nat broadcast_client" where
  "test_broadcast_client i name port =
     \<lparr>bc_id = i, bc_name = name, bc_data_plane = LegacyLas1, bc_codec = Sel_Pcm16,
      bc_audio_mode = Balanced, bc_preferred_sample_rate = 48000,
      bc_transport = Transport_Wifi \<lparr>sa_ip = V4 127 0 0 1, sa_port = port\<rparr>, bc_first_packet = True,
      bc_mode_changed = False\<rparr>"

definition test_job :: "uuid \<Rightarrow> uuid \<Rightarrow> nat encode_job" where
  "test_job a b =
     \<lparr>job_frame = stereo_frame 0 48000 (replicate (960 * 2) 0) True SilentPacket 0,
      job_clients = [test_broadcast_client a ''test-60001'' 60001, test_broadcast_client b ''test-60002'' 60002], job_active_tier = Green\<rparr>"

text \<open>The two ids are \<open>Uuid::new_v4()\<close>; the grouping has one group, so there is one order to visit it in.\<close>

definition encode_worker_emits_one_wire_frame_per_recipient ::
  "'o opus_api \<Rightarrow> 'r resampler_api \<Rightarrow> uuid \<Rightarrow> uuid \<Rightarrow> bool" where
  "encode_worker_emits_one_wire_frame_per_recipient oa rs a b \<longleftrightarrow>
     (let (wires, w) = process_job oa rs (test_job a b) [(Sel_Pcm16, Balanced, 48000)] (worker_new 42)
      in valid_order [(Sel_Pcm16, Balanced, 48000)] (test_job a b)
         \<and> length wires = 2 \<and> ew_sequence w = 43 \<and> p_sequence (wf_packet (wires ! 0)) = 42
         \<and> p_sequence (wf_packet (wires ! 1)) = 42 \<and> wf_detected_wire_kind (wires ! 0) = LegacyLas1Kind)"

section \<open>They pass\<close>

lemma length_to_fixed_stereo:
  "length (to_fixed_stereo_10ms rs f r) = 2 * out_frames_10ms (normalize_encoder_sample_rate r)"
  by (simp add: to_fixed_stereo_10ms_def Let_def FIXED_OUTPUT_CHANNELS_def
      split: option.split prod.split sum.split)

lemma shape_test_passes: "encode_passthrough_outputs_fixed_android_pcm_shape rs"
proof -
  have "length (to_fixed_stereo_10ms rs f DEFAULT_OUTPUT_SAMPLE_RATE) = 960" for f
    by (simp add: length_to_fixed_stereo normalize_encoder_sample_rate_def DEFAULT_OUTPUT_SAMPLE_RATE_def
        out_frames_10ms_def)
  then show ?thesis
    by (simp add: encode_passthrough_outputs_fixed_android_pcm_shape_def encode_passthrough_def
        length_pcm16_payload)
      (simp add: encode_pcm16_from_samples_def DEFAULT_OUTPUT_SAMPLE_RATE_def)
qed

lemma header_tests_pass:
  v2_flags_include_config_changed_and_discontinuity_on_mode_change
  encode_packet_by_data_plane_switches_magic v2_header_carries_opus_codec
  encode_packets_non_pcm24_returns_single_packet
  by code_simp+

text \<open>What the fragments decode to is known for every packet; the payload is never looked at.\<close>

lemma pcm24_test_frags:
  assumes "encode_packets_by_data_plane p V2Header fl Udp_Pcm24 seq = (frags, next_seq)"
    and "length (p_payload p) \<le> 255 * 1392"
  shows "length frags = pcm24_total_frags (length (p_payload p))"
    and "next_seq = seq + of_nat (pcm24_total_frags (length (p_payload p)))"
    and "i < length frags \<Longrightarrow> decode_packet_v3 (frags ! i)
      = Inr (pcm24_fragment p fl Udp_Pcm24 (of_nat (pcm24_total_frags (length (p_payload p)))) i (seq + of_nat i))"
proof -
  let ?ps = "pcm24_packets p fl seq"
  have f: "frags = map encode_packet_v3 ?ps" "next_seq = seq + of_nat (length ?ps)"
    using assms(1) unfolding encode_packets_pcm24 [OF assms(2)] by simp_all
  have n: "length ?ps = pcm24_total_frags (length (p_payload p))" by (simp add: pcm24_packets_def Let_def)
  show "length frags = pcm24_total_frags (length (p_payload p))"
    and "next_seq = seq + of_nat (pcm24_total_frags (length (p_payload p)))" by (simp_all add: f n)
  assume "i < length frags"
  then have i: "i < length ?ps" by (simp add: f)
  have "decode_packet_v3 (frags ! i) = map decode_packet_v3 (map encode_packet_v3 ?ps) ! i"
    using i by (simp add: f)
  also have "\<dots> = Inr (?ps ! i)" unfolding decode_pcm24_packets [OF assms(2)] using i by simp
  finally show "decode_packet_v3 (frags ! i)
      = Inr (pcm24_fragment p fl Udp_Pcm24 (of_nat (pcm24_total_frags (length (p_payload p)))) i (seq + of_nat i))"
    using i by (simp add: pcm24_packets_def Let_def n)
qed

lemma pcm24_tests_pass:
  encode_packets_pcm24_fragments_above_mtu encode_packets_pcm24_single_frag_at_48k
proof -
  have n: "pcm24_total_frags 2880 = 3" "pcm24_total_frags 864 = 1"
    by (simp_all add: pcm24_total_frags_def div_ceil_def MAX_PCM24_FRAG_PAYLOAD_BYTES_def)
  obtain xs k where x: "encode_packets_by_data_plane (test_packet 100 12345 96000 480 (replicate 2880 0xAB))
      V2Header 0 Udp_Pcm24 100 = (xs, k)" by fastforce
  note xf = pcm24_test_frags [OF x]
  have "length xs = 3" "k = 103" "\<And>i. i < 3 \<Longrightarrow> decode_packet_v3 (xs ! i)
      = Inr (pcm24_fragment (test_packet 100 12345 96000 480 (replicate 2880 0xAB)) 0 Udp_Pcm24 3 i (100 + of_nat i))"
    using xf by (simp_all add: test_packet_def n)
  then show encode_packets_pcm24_fragments_above_mtu
    by (simp add: encode_packets_pcm24_fragments_above_mtu_def x pcm24_fragment_def Let_def)
      (simp add: test_packet_def)
  obtain ys l where y: "encode_packets_by_data_plane (test_packet 7 0 48000 144 (replicate 864 0xCD))
      V2Header 0 Udp_Pcm24 7 = (ys, l)" by fastforce
  note yf = pcm24_test_frags [OF y]
  have "length ys = 1" "l = 8" using yf by (simp_all add: test_packet_def n)
  then show encode_packets_pcm24_single_frag_at_48k
    by (simp add: encode_packets_pcm24_single_frag_at_48k_def y)
qed

lemma worker_test_passes: "encode_worker_emits_one_wire_frame_per_recipient oa rs a b"
proof -
  let ?key = "(Sel_Pcm16, Balanced, 48000 :: u32)" and ?job = "test_job a b"
  have k: "encoder_key_of (test_broadcast_client i n p) = ?key" for i n p
    by (simp add: encoder_key_of_def test_broadcast_client_def normalize_encoder_sample_rate_def)
  have group: "group_of ?key (job_clients ?job) = job_clients ?job"
    by (simp add: group_of_def test_job_def k)
  have "fe_codec (encoder_for oa Green ?key (worker_new 42)) = Sel_Pcm16"
    by (simp add: encoder_for_def worker_new_def apply_tier_profile_def frame_encoder_new_def Let_def)
  from pcm16_encoder_single [OF this, of oa rs "job_frame ?job" Balanced]
  obtain ef e where e: "encode_frame oa rs (job_frame ?job) Balanced (encoder_for oa Green ?key (worker_new 42)) = ([ef], e)"
      "ef_codec ef \<noteq> Udp_Pcm24"
    by (cases "encode_frame oa rs (job_frame ?job) Balanced (encoder_for oa Green ?key (worker_new 42))")
      (auto simp: single_packet_def)
  let ?p = "packet_of ef 42"
  have w: "wires_for_client ?p ef (test_broadcast_client i n q) = [\<lparr>wf_client = test_broadcast_client i n q,
      wf_packet = ?p, wf_wire_bytes = encode_las1 ?p,
      wf_v2_flags = v2_flags_for_frame ?p False True, wf_mode_changed = False, wf_codec = ef_codec ef,
      wf_source_peak = ef_source_peak ef, wf_source_rms = ef_source_rms ef,
      wf_detected_wire_kind = detect_data_plane_packet_kind (encode_las1 ?p)\<rparr>]" for i n q
    using e(2) by (simp add: wires_for_client_def encode_packets_by_data_plane_def test_broadcast_client_def
        frag_packet_def Let_def)
  have d: "detect_data_plane_packet_kind (encode_las1 q) = LegacyLas1Kind" for q
    by (simp add: detect_data_plane_packet_kind_def encode_las1_def slice_def AUDIO_MAGIC_def)
  have cs: "job_clients ?job = [test_broadcast_client a ''test-60001'' 60001, test_broadcast_client b ''test-60002'' 60002]"
    "job_active_tier ?job = Green" by (simp_all add: test_job_def)
  have ws: "encoded_loop [ef] (job_clients ?job) 42
      = (wires_for_client ?p ef (test_broadcast_client a ''test-60001'' 60001)
         @ wires_for_client ?p ef (test_broadcast_client b ''test-60002'' 60002), 43)"
    by (simp add: cs w Let_def)
  have start: "apply_tier oa Green (worker_new 42) = worker_new 42" "ew_sequence (worker_new 42) = 42"
    by (simp_all add: apply_tier_def worker_new_def)
  have "process_job oa rs ?job [?key] (worker_new 42) =
      (wires_for_client ?p ef (test_broadcast_client a ''test-60001'' 60001)
         @ wires_for_client ?p ef (test_broadcast_client b ''test-60002'' 60002),
       (worker_new 42)\<lparr>ew_encoders := (ew_encoders (worker_new 42))(?key \<mapsto> e), ew_sequence := 43\<rparr>)"
    by (simp add: process_job_def cs(2) encode_group_def start e(1) group ws del: encoded_loop.simps)
  moreover have "p_sequence ?p = 42" by (simp add: packet_of_def)
  moreover have "valid_order [?key] ?job" by (simp add: valid_order_def cs k)
  ultimately show ?thesis
    by (simp add: encode_worker_emits_one_wire_frame_per_recipient_def w d)
qed

text \<open>All of them.\<close>

theorem transport_tests_pass:
  "list_all id [encode_passthrough_outputs_fixed_android_pcm_shape rs,
     v2_flags_include_config_changed_and_discontinuity_on_mode_change,
     encode_packet_by_data_plane_switches_magic, v2_header_carries_opus_codec,
     encode_packets_pcm24_fragments_above_mtu, encode_packets_pcm24_single_frag_at_48k,
     encode_packets_non_pcm24_returns_single_packet, encode_worker_emits_one_wire_frame_per_recipient oa rs a b]"
  by (simp add: shape_test_passes header_tests_pass pcm24_tests_pass worker_test_passes)

end
