(* ===== verification/Spec2Isabelle.thy ===== *)
theory Spec2Isabelle
  imports Session_Server Broadcast_Pipeline Wav_Recorder Desktop_Control Mock_Client Transport_Lifecycle
    Session_Hub Host_Platform Opus_Stress Headless Desktop_Commands Contract_Export Whole_Server
    Tests_Protocol Tests_Server Tests_Audio Tests_Transport
begin

text \<open>
  \<^bold>\<open>LAN audio: a verification library of the Rust code.\<close>

  The program streams the audio a desktop plays to phones on the local network or over USB. A
  desktop application (\<open>apps/desktop/src-tauri\<close>) or a command-line server owns one service
  (\<open>crates/lan_audio_server/src/service.rs\<close>), which runs: a capture source (WASAPI loopback or a
  synthetic one); a broadcast transport that snapshots the registered clients for every captured
  frame, encodes it once per group of clients that share an encoder, and dispatches the datagrams or
  stream frames; a session server that negotiates with the clients over WebSocket and keeps the
  registry of clients; discovery beacons and an mDNS record; a CPU watchdog that degrades the encoding
  under load; and a reverse channel on which the phone sends its microphone and control messages.

  \<^bold>\<open>Theories and what they model\<close> (paths below \<open>crates/\<close> unless given in full).

  \<^item> \<open>Audio_Prelude\<close>: machine integers as words of their width, saturating arithmetic, little- and
    big-endian bytes, slices; \<open>run_ops\<close>, \<open>run_skip\<close>, \<open>run_all\<close>; the interfaces \<open>guarded_machine\<close> (a step
    that may refuse, with an invariant), \<open>total_machine\<close> and \<open>strict_codec\<close> (a decoder that accepts
    exactly the encodings of well-formed values).
  \<^item> \<open>Audio_Domain\<close>: \<open>lan_audio_domain/src/lib.rs\<close>: mode contracts, the connection state machine with
    its rollback states, the service snapshot, the release gate.
  \<^item> \<open>Wire_Format\<close>, \<open>Protocol_Messages\<close>: \<open>lan_audio_protocol/src/lib.rs\<close>: the LAS1, v2 and v3 datagrams
    byte by byte, their decoders with every error, packet detection; the control messages.
  \<^item> \<open>Server_Config\<close>, \<open>Data_Plane\<close>, \<open>Service_Metrics\<close>: \<open>config.rs\<close> (defaults, names, command line),
    \<open>data_plane.rs\<close> (the planes, the router and its rollback, packets to datagrams, PCM24 fragments),
    \<open>metrics.rs\<close>.
  \<^item> \<open>Client_Registry\<close>, \<open>Session_Server\<close>, \<open>Session_Hub\<close>: \<open>session.rs\<close>: the registry (registration,
    replacement, modes, USB streams, broadcast snapshots); the handler of one connection as a function
    of its events; the accept loop with all sessions and the transport's operations interleaved.
  \<^item> \<open>Audio_Capture\<close>, \<open>Windows_Loopback\<close>, \<open>Loopback_Proofs\<close>, \<open>Wav_Recorder\<close>: \<open>audio_capture/\<close>: frames, the
    accumulator, the synthetic source, the WASAPI loopback source on both platforms, and its recorder.
  \<^item> \<open>Cpu_Watchdog\<close>, \<open>Sync_Engine\<close>, \<open>Adaptive_Runtime\<close>: \<open>watchdog.rs\<close>, \<open>sync_engine.rs\<close>,
    \<open>adaptive_runtime.rs\<close>: load forecast and tiers, Kalman filter and PID, tier profiles and coupling.
  \<^item> \<open>Host_Platform\<close>: \<open>cpu_sampler.rs\<close> on both platforms, the runtime with the sampler it owns, and the
    boost of the encode thread (\<open>thread_priority.rs\<close>).
  \<^item> \<open>Frame_Encoder\<close>, \<open>Encode_Worker\<close>, \<open>Broadcast_Transport\<close>, \<open>Broadcast_Pipeline\<close>: \<open>transport.rs\<close>:
    PCM16, PCM24 and Opus framing with resampling and tier changes; the pool of encoders and the
    groups of a job; capture turns, statistics, dispatch and the failures it reports; and the tasks of
    the transport composed with the registry into one machine.
  \<^item> \<open>Transport_Lifecycle\<close>, \<open>Udp_Stream\<close>, \<open>Stream_Typing\<close>, \<open>Opus_Stress\<close>: \<open>transport.rs\<close> too: binding,
    start, shutdown and the order in which the tasks of the broadcast end; the four tasks of
    \<open>UdpTransport::spawn_stream\<close>, which the program offers but does not call; the types of all datagrams
    of both; the stress run of the encoder.
  \<^item> \<open>Mock_Client\<close>, \<open>Headless\<close>, \<open>Contract_Export\<close>: the programs \<open>mock_android_client.rs\<close> (its receive loop
    against the stream of the server), \<open>desktop_headless.rs\<close> and \<open>export_contracts.rs\<close>.
  \<^item> \<open>Text_Format\<close>: what the code uses of Rust's text functions (numbers, splitting, trimming, lines).
  \<^item> \<open>Discovery\<close>, \<open>Reverse_Channel\<close>, \<open>Usb_Transport\<close>, \<open>Lan_Service\<close>: the files of the same names:
    beacons and mDNS names; microphone framing and control messages; adb's device list and reverse
    forwards; the service, its tasks and the shutdown channel as a machine.
  \<^item> \<open>Whole_Server\<close>: \<open>run_until_shutdown\<close> with everything it spawns: the service, the session server with
    its sessions and the transport as one machine over one registry and one shutdown channel.
  \<^item> \<open>Tests_Protocol\<close>, \<open>Tests_Server\<close>, \<open>Tests_Audio\<close>, \<open>Tests_Transport\<close>: the unit tests of the repository,
    translated to the model's functions and proved there: a check that the model computes what the code
    was tested to compute.
  \<^item> \<open>Desktop_Config\<close>, \<open>Desktop_Service\<close>, \<open>Desktop_Control\<close>, \<open>Desktop_Commands\<close>:
    \<open>apps/desktop/src-tauri/src/lib.rs\<close> and
    \<open>update_checker.rs\<close>: settings, snapshot, update check; the sections of start and stop that hold the
    lock; their interleaving with the services as the inductive relation \<open>desktop_step\<close>; the other
    commands (devices, diagnostics file, QR code, volume) and the tray.

  \<^bold>\<open>How state and operations correspond.\<close> A struct is a record with a prefix of its own, an enum a
  datatype, an \<open>Arc<Mutex<_>>\<close> the record of what it protects; a function or method is a definition of
  the same name (with a prefix where it would clash), with \<open>&mut self\<close> as the state passed and
  returned. \<open>Result\<close> is a sum whose left side is the error, so that every \<open>?\<close> and early return is a
  branch. Log lines are left out, except where they are state (the desktop's log). Concurrency is
  interleaving: every section that holds a lock, or every turn of a task between two awaits, is one
  step (\<open>Broadcast_Pipeline\<close>, \<open>Udp_Stream\<close>, \<open>Session_Hub\<close>, \<open>Reverse_Channel\<close>, \<open>Lan_Service\<close>,
  \<open>Desktop_Service\<close>). Hash maps are lists in
  the map's current iteration order, which the properties do not depend on. Floating-point numbers are
  real numbers, so rounding is not modelled except where the code rounds or truncates to integers.
  Clocks are arguments.

  \<^bold>\<open>Parameters.\<close> Code outside the repository is an argument: serde\_json (\<open>json_api\<close>), libopus and the
  rubato resampler, WASAPI and COM (\<open>wasapi\<close>), sockets and streams (\<open>udp_send\<close>, \<open>stream_write\<close>), the
  interface list, the mDNS daemon, the adb process (\<open>adb_env\<close>), the named pipe, semver. Where a property
  relies on their documented behaviour it names it as a hypothesis (\<open>delivers\<close> for WASAPI: a packet that
  is read and released is gone, and the next one is the next pending), and a witness instantiates it.

  \<^bold>\<open>What is shown.\<close>

  \<^item> Formats: the decoders accept exactly the encodings of well-formed packets and invert them; PCM24
    fragments decode and reassemble; recordings and device listings are read back exactly.
  \<^item> Sessions and registry: the invariant of every reachable registry; the outcome of registration and
    of opening a session; which plane and codec can be negotiated; what a session leaves behind.
  \<^item> Capture to network: no sample is lost or reordered by the accumulator or by the loopback source;
    the cadence of Opus packets; grouping clients is invisible to them (a refinement to one encoder
    per client); how many sequence numbers the packets take and that those of a client strictly
    increase until the 32-bit counter has gone round; the invariant of the whole pipeline under any
    interleaving; what a failed send does.
  \<^item> Types and the other end: every datagram has the type its recipient negotiated and is decoded by the
    matching decoder; a client that receives any part of a stream in order counts exactly what is missing.
  \<^item> Life cycles: once its loop is left the transport returns; sessions do not disturb each other; what a
    failed accept, a failed start and a late connection leave behind. The whole server: its invariant
    whatever its parts do, a stop that is heard ends it without anything from outside, and an ended
    server sends nothing more.
  \<^item> Control: the CPU sampler loses no time; the watchdog's tiers, PID and Kalman filter, their coupling, the connection state machine.
  \<^item> Service and desktop: the forwards are balanced, settings reach the server, the state the window
    shows is consistent in every reachable state.
  \<^item> Loops end: the Opus drain, the packet loop, the dash-removing loop; the recursion of the others is
    structural or on the bytes that are left. The drain leaves less than a frame.
  \<^item> Where the code does less than it means to, the property says what it does: marks that a fresh Opus
    encoder loses, latency that loopback reads keep, clients that a broken connection leaves in the
    registry, a reverse channel out of step, stops that nobody hears, a start that hides an error.

  \<^bold>\<open>Fuel.\<close> \<open>drain_opus\<close> is given one turn more than there are samples and every turn takes at least one
  (\<open>drain_opus_fuel\<close>); \<open>packet_loop\<close> is given one turn more than a frame has samples, and a packet
  that is not empty adds at least one (\<open>packet_loop_terminates\<close>). The number of polls of a read, of rounds
  of the beacon and of events of a task are the environment's and universally quantified.

  \<^bold>\<open>Not modelled.\<close> What sockets, the WebSocket handshake and the operating system do inside a call; the
  task that forwards the queued messages of a session to its socket; statistics that are only logged;
  the windows of the desktop; the files \<open>commands.rs\<close>, \<open>orchestrator.rs\<close> and \<open>state.rs\<close> of the desktop,
  which no \<open>mod\<close> declaration reaches and which do not follow the other crates any more (the
  capabilities that \<open>orchestrator.rs\<close> builds lack a field); the integration tests under \<open>tests/\<close> and the
  unit tests of JSON texts, of what libopus makes of samples, of the convergence of the Kalman filter and
  of sockets; the Flutter application. Strings are lists of
  ASCII characters. Samples are real numbers, so the rounding of single-precision arithmetic is not in
  the model.
\<close>

end
